(* ===== verification/Prelude.thy ===== *)
theory Prelude
  imports Complex_Main
begin

text \<open>
  What every component shares: the names of the basic types, SQL tables as lists of rows with the
  statements the queries are made of (\<open>SELECT\<close>, \<open>UPDATE ... WHERE\<close>, \<open>DELETE ... WHERE\<close>,
  \<open>INSERT\<close>), the transaction wrapper of \<open>lib/db/index.ts\<close>, and two interfaces stated as locales:
  \<open>guarded_steps\<close> (a family of transactions that keep an invariant, from which the invariant of
  every run follows) and \<open>scoped_update\<close> (an update that reads and writes the rows of one key only,
  from which updates at different keys commute).
\<close>

named_theorems sql_simps \<open>evaluation rules of the table operations\<close>
named_theorems frame \<open>what an operation leaves unchanged\<close>

subsection \<open>Names of the basic types\<close>

text \<open>
  A \<open>uuid\<close> is the text of an identifier. \<open>millis\<close> is an instant in milliseconds since the epoch
  (a JavaScript time value, a \<open>TIMESTAMPTZ\<close>), \<open>day\<close> a calendar date as days since 1970-01-01 (a
  \<open>DATE\<close>, or the ISO text of one; see \<open>Dates\<close>), \<open>minor\<close> an amount in minor currency units.
\<close>

type_synonym uuid = string
type_synonym millis = int
type_synonym day = int
type_synonym minor = int

abbreviation ms_per_day :: int where
  "ms_per_day \<equiv> 86400000"

abbreviation ms_per_hour :: int where
  "ms_per_hour \<equiv> 3600000"

text \<open>\<open>new Date(isoDate).getTime()\<close> of a date, and \<open>CURRENT_DATE\<close> at an instant (in UTC).\<close>

definition day_ms :: "day \<Rightarrow> millis" where
  "day_ms d = d * ms_per_day"

definition day_of_ms :: "millis \<Rightarrow> day" where
  "day_of_ms t = t div ms_per_day"

lemma day_of_day_ms [simp]: "day_of_ms (day_ms d) = d"
  by (simp add: day_of_ms_def day_ms_def)

lemma day_ms_less [simp]: "day_ms a < day_ms b \<longleftrightarrow> a < b"
  by (simp add: day_ms_def)

lemma day_ms_le [simp]: "day_ms a \<le> day_ms b \<longleftrightarrow> a \<le> b"
  by (simp add: day_ms_def)

lemma day_ms_eq [simp]: "day_ms a = day_ms b \<longleftrightarrow> a = b"
  by (simp add: day_ms_def)

subsection \<open>Tables\<close>

definition select_where :: "('r \<Rightarrow> bool) \<Rightarrow> 'r list \<Rightarrow> 'r list" where
  "select_where P t = filter P t"

text \<open>The first row of a query, \<open>result.rows[0]\<close>: \<open>None\<close> when it returns no row.\<close>

definition first_where :: "('r \<Rightarrow> bool) \<Rightarrow> 'r list \<Rightarrow> 'r option" where
  "first_where P t = find P t"

definition row_exists :: "('r \<Rightarrow> bool) \<Rightarrow> 'r list \<Rightarrow> bool" where
  "row_exists P t = list_ex P t"

definition update_where :: "('r \<Rightarrow> bool) \<Rightarrow> ('r \<Rightarrow> 'r) \<Rightarrow> 'r list \<Rightarrow> 'r list" where
  "update_where P f t = map (\<lambda>r. if P r then f r else r) t"

definition delete_where :: "('r \<Rightarrow> bool) \<Rightarrow> 'r list \<Rightarrow> 'r list" where
  "delete_where P t = filter (\<lambda>r. \<not> P r) t"

definition insert_row :: "'r \<Rightarrow> 'r list \<Rightarrow> 'r list" where
  "insert_row r t = t @ [r]"

text \<open>\<open>result.rowCount\<close> of a statement whose \<open>WHERE\<close> clause is \<open>P\<close>.\<close>

definition row_count :: "('r \<Rightarrow> bool) \<Rightarrow> 'r list \<Rightarrow> nat" where
  "row_count P t = length (filter P t)"

definition sum_where :: "('r \<Rightarrow> bool) \<Rightarrow> ('r \<Rightarrow> int) \<Rightarrow> 'r list \<Rightarrow> int" where
  "sum_where P f t = sum_list (map f (filter P t))"

text \<open>\<open>COALESCE(a, b)\<close> and \<open>a ?? b\<close> on nullable values.\<close>

definition coalesce :: "'a option \<Rightarrow> 'a option \<Rightarrow> 'a option" where
  "coalesce a b = (case a of None \<Rightarrow> b | Some _ \<Rightarrow> a)"

lemma coalesce_simps [simp]: "coalesce None b = b" "coalesce (Some x) b = Some x"
  by (simp_all add: coalesce_def)

lemma coalesce_None_iff [simp]: "coalesce a b = None \<longleftrightarrow> a = None \<and> b = None"
  by (cases a) auto

lemmas table_defs =
  select_where_def row_exists_def update_where_def delete_where_def insert_row_def
  row_count_def sum_where_def first_where_def

lemma first_where_Some:
  "first_where P t = Some r \<Longrightarrow> r \<in> set t \<and> P r"
  by (auto simp: first_where_def find_Some_iff)

lemma first_where_None:
  "first_where P t = None \<longleftrightarrow> (\<forall>r \<in> set t. \<not> P r)"
  by (auto simp: first_where_def find_None_iff)

lemma first_where_Nil [simp]: "first_where P [] = None"
  by (simp add: first_where_def)

lemma first_where_Cons [simp]:
  "first_where P (r # t) = (if P r then Some r else first_where P t)"
  by (simp add: first_where_def)

lemma row_exists_iff [simp]: "row_exists P t \<longleftrightarrow> (\<exists>r \<in> set t. P r)"
  by (simp add: row_exists_def list_ex_iff)

lemma set_insert_row [simp]: "set (insert_row r t) = insert r (set t)"
  by (simp add: insert_row_def)

lemma set_delete_where [simp]: "set (delete_where P t) = {r \<in> set t. \<not> P r}"
  by (simp add: delete_where_def)

lemma set_select_where [simp]: "set (select_where P t) = {r \<in> set t. P r}"
  by (simp add: select_where_def)

lemma set_update_where:
  "set (update_where P f t) = (\<lambda>r. if P r then f r else r) ` set t"
  by (simp add: update_where_def)

lemma in_update_whereE [elim!]:
  assumes "r \<in> set (update_where P f t)"
  obtains "r \<in> set t" "\<not> P r" | x where "x \<in> set t" "P x" "r = f x"
  using assms by (auto simp: update_where_def split: if_splits)

lemma in_update_where_hit: "x \<in> set t \<Longrightarrow> P x \<Longrightarrow> f x \<in> set (update_where P f t)"
  by (auto simp: update_where_def intro!: image_eqI [of _ _ x])

lemma in_update_where_miss: "x \<in> set t \<Longrightarrow> \<not> P x \<Longrightarrow> x \<in> set (update_where P f t)"
  by (auto simp: update_where_def intro!: image_eqI [of _ _ x])

lemma ball_update_where [simp]:
  "(\<forall>r \<in> set (update_where P f t). Q r) \<longleftrightarrow> (\<forall>r \<in> set t. if P r then Q (f r) else Q r)"
  by (auto simp: update_where_def)

lemma bex_update_where [simp]:
  "(\<exists>r \<in> set (update_where P f t). Q r) \<longleftrightarrow> (\<exists>r \<in> set t. if P r then Q (f r) else Q r)"
  by (auto simp: update_where_def)

lemma length_update_where [simp]: "length (update_where P f t) = length t"
  by (simp add: update_where_def)

lemma length_insert_row [simp]: "length (insert_row r t) = Suc (length t)"
  by (simp add: insert_row_def)

lemma update_where_Nil [simp]: "update_where P f [] = []"
  by (simp add: update_where_def)

lemma update_where_Cons [simp]:
  "update_where P f (r # t) = (if P r then f r else r) # update_where P f t"
  by (simp add: update_where_def)

lemma update_where_none:
  "(\<And>r. r \<in> set t \<Longrightarrow> \<not> P r) \<Longrightarrow> update_where P f t = t"
  by (induction t) auto

lemma map_update_where:
  "(\<And>r. r \<in> set t \<Longrightarrow> P r \<Longrightarrow> k (f r) = k r) \<Longrightarrow> map k (update_where P f t) = map k t"
  by (induction t) auto

lemma first_where_update:
  assumes "\<And>r. P r \<Longrightarrow> Q (f r) = Q r"
  shows "first_where Q (update_where P f t) =
    map_option (\<lambda>r. if P r then f r else r) (first_where Q t)"
  using assms by (induction t) auto

lemma first_where_update_other:
  assumes "\<And>r. P r \<Longrightarrow> \<not> Q r" "\<And>r. P r \<Longrightarrow> \<not> Q (f r)"
  shows "first_where Q (update_where P f t) = first_where Q t"
  using assms by (induction t) auto

lemma first_where_insert:
  "first_where Q (insert_row r t) =
    (case first_where Q t of None \<Rightarrow> if Q r then Some r else None | Some x \<Rightarrow> Some x)"
  unfolding insert_row_def by (induction t) auto

lemma first_where_cong:
  "(\<And>r. r \<in> set t \<Longrightarrow> P r = Q r) \<Longrightarrow> first_where P t = first_where Q t"
  by (induction t) auto

lemma first_where_unique:
  assumes "distinct (map k t)" "r \<in> set t"
  shows "first_where (\<lambda>x. k x = k r) t = Some r"
  using assms by (induction t) auto

lemma sum_where_Nil [simp]: "sum_where P f [] = 0"
  by (simp add: sum_where_def)

lemma sum_where_Cons [simp]:
  "sum_where P f (r # t) = (if P r then f r else 0) + sum_where P f t"
  by (simp add: sum_where_def)

lemma sum_where_append [simp]: "sum_where P f (t @ u) = sum_where P f t + sum_where P f u"
  by (simp add: sum_where_def)

lemma sum_where_insert [simp]:
  "sum_where P f (insert_row r t) = sum_where P f t + (if P r then f r else 0)"
  by (simp add: sum_where_def insert_row_def)

lemma sum_where_nonneg:
  "(\<And>r. r \<in> set t \<Longrightarrow> P r \<Longrightarrow> 0 \<le> f r) \<Longrightarrow> 0 \<le> sum_where P f t"
  by (induction t) auto

lemma row_count_Nil [simp]: "row_count P [] = 0"
  by (simp add: row_count_def)

lemma row_count_Cons [simp]:
  "row_count P (r # t) = (if P r then 1 else 0) + row_count P t"
  by (simp add: row_count_def)

lemma row_count_insert [simp]:
  "row_count P (insert_row r t) = row_count P t + (if P r then 1 else 0)"
  by (simp add: row_count_def insert_row_def)

lemma row_count_zero_iff: "row_count P t = 0 \<longleftrightarrow> (\<forall>r \<in> set t. \<not> P r)"
  by (induction t) auto

lemma row_count_update_same:
  assumes "\<And>r. P r \<Longrightarrow> Q (f r) = Q r"
  shows "row_count Q (update_where P f t) = row_count Q t"
  using assms by (induction t) auto

subsection \<open>Transactions\<close>

text \<open>
  \<open>withTransaction(fn)\<close> (lib/db/index.ts): the body runs between \<open>BEGIN\<close> and \<open>COMMIT\<close>; when it
  throws, \<open>ROLLBACK\<close> restores the database and the error is rethrown. A body is a function of the
  database that either throws (\<open>Inl\<close>) or returns a value and the database it leaves.
\<close>

type_synonym ('s, 'e, 'a) tx = "'s \<Rightarrow> 'e + ('a \<times> 's)"

definition with_transaction :: "('s, 'e, 'a) tx \<Rightarrow> 's \<Rightarrow> ('e + 'a) \<times> 's" where
  "with_transaction body s =
     (case body s of
        Inl e \<Rightarrow> (Inl e, s)
      | Inr (x, s') \<Rightarrow> (Inr x, s'))"

lemma with_transaction_Inl: "body s = Inl e \<Longrightarrow> with_transaction body s = (Inl e, s)"
  by (simp add: with_transaction_def)

lemma with_transaction_Inr: "body s = Inr (x, t) \<Longrightarrow> with_transaction body s = (Inr x, t)"
  by (simp add: with_transaction_def)

lemma with_transaction_cases:
  obtains e where "body s = Inl e" "with_transaction body s = (Inl e, s)"
  | x t where "body s = Inr (x, t)" "with_transaction body s = (Inr x, t)"
  by (cases "body s") (auto simp: with_transaction_def)

lemma with_transaction_error [simp]:
  "fst (with_transaction body s) = Inl e \<Longrightarrow> snd (with_transaction body s) = s"
  by (cases body s rule: with_transaction_cases) auto

lemma with_transaction_ok:
  "with_transaction body s = (Inr x, t) \<longleftrightarrow> body s = Inr (x, t)"
  by (cases body s rule: with_transaction_cases) auto

subsection \<open>Interface: transactions that keep an invariant\<close>

text \<open>
  A component offers a family of operations, each a transaction body. When every body that commits
  keeps the invariant, every sequence of calls, failed ones included, keeps it.
\<close>

locale guarded_steps =
  fixes body :: "'op \<Rightarrow> ('s, 'e, 'a) tx"
    and inv :: "'s \<Rightarrow> bool"
  assumes body_keeps: "inv s \<Longrightarrow> body op s = Inr (x, t) \<Longrightarrow> inv t"
begin

definition exec :: "'op \<Rightarrow> 's \<Rightarrow> 's" where
  "exec op s = snd (with_transaction (body op) s)"

lemma exec_keeps: "inv s \<Longrightarrow> inv (exec op s)"
  unfolding exec_def
  by (cases "body op" s rule: with_transaction_cases) (auto intro: body_keeps)

lemma run_keeps: "inv s \<Longrightarrow> inv (fold exec ops s)"
  by (induction ops arbitrary: s) (auto intro: exec_keeps)

lemma exec_error_frame: "body op s = Inl e \<Longrightarrow> exec op s = s"
  by (simp add: exec_def with_transaction_Inl)

end

subsection \<open>Interface: updates local to one key\<close>

text \<open>
  An update of a keyed table that reads and writes only the rows of its own key: the property-level
  advisory lock serialises the updates of one key, and updates at different keys may run in any
  order because they commute.
\<close>

locale scoped_update =
  fixes upd :: "'k \<Rightarrow> ('k \<Rightarrow> 'r) \<Rightarrow> ('k \<Rightarrow> 'r)"
    and own :: "'k \<Rightarrow> 'r \<Rightarrow> 'r"
  assumes scoped: "upd k m = m(k := own k (m k))"
begin

lemma untouched: "k' \<noteq> k \<Longrightarrow> upd k m k' = m k'"
  by (simp add: scoped)

lemma commute: "j \<noteq> k \<Longrightarrow> upd j (upd k m) = upd k (upd j m)"
  by (auto simp: scoped fun_upd_twist)

end

end
