(* ===== verification/Store.thy ===== *)
theory Store
  imports Prelude
begin

text \<open>
  The database the server code works on: one record per table (the columns the TypeScript reads or
  writes, after the \<open>CREATE TABLE\<close> statements under migrations/ and the types of
  lib/booking/types.ts), and the record \<open>store\<close> of all tables. A nullable column is an \<open>option\<close>, a
  \<open>TEXT\<close> column with a fixed vocabulary a datatype, a \<open>TIMESTAMPTZ\<close> an instant, a \<open>DATE\<close> a day,
  \<open>NUMERIC(12,2)\<close> its value in hundredths. Rows are kept in insertion order, which is the order
  of their \<open>created_at\<close>.
\<close>

subsection \<open>Bookings and prices\<close>

datatype booking_status =
  Draft | Pending_payment | Confirmed | Cancelled | Completed | Refunded | Disputed

datatype payment_status =
  Pay_pending | Pay_processing | Paid | Pay_failed | Pay_refunded | Pay_partially_refunded
  | Pay_disputed

datatype payment_flow = Destination_charge_legacy | Separate_charges_delayed_v1

datatype tax_treatment = Host_remits | Platform_remits | Tax_unconfigured

record tier =
  cutoff_hours :: int
  refund_percent :: int

record booking =
  b_id :: uuid
  b_property :: uuid
  b_guest :: uuid
  b_host :: uuid
  b_check_in :: day
  b_check_out :: day
  b_guests :: int
  b_status :: booking_status
  b_policy :: "tier list"
  b_idem :: string
  b_hold :: "millis option"
  b_guest_name :: string
  b_guest_email :: string
  b_guest_phone :: "string option"
  b_flow :: payment_flow
  b_scheduled :: "millis option"
  b_customer :: "string option"
  b_setup_intent :: "string option"
  b_payment_method :: "string option"
  b_tax :: tax_treatment
  b_grace :: "millis option"
  b_next_retry :: "millis option"
  b_archived :: "millis option"

record price_row =
  pc_booking :: uuid
  pc_currency :: string
  pc_accommodation :: minor
  pc_cleaning :: minor
  pc_service_fee :: minor
  pc_taxes :: minor
  pc_total :: minor
  pc_commission :: minor
  pc_payout :: minor
  pc_revenue :: minor
  pc_fee_version :: string

record fee_config_row =
  fc_version :: string
  fc_guest_rate :: rat
  fc_host_rate :: rat
  fc_tax_rate :: rat
  fc_active :: bool
  fc_from :: millis

record policy_row =
  cp_id :: uuid
  cp_rules :: "tier list"

subsection \<open>Properties, hosts, compliance\<close>

datatype property_status = Prop_draft | Prop_published | Prop_paused

datatype compliance_status =
  Comp_not_started | Comp_in_progress | Comp_submitted | Comp_approved | Comp_changes_required

datatype pilot_status = Pilot_pending | Pilot_approved | Pilot_changes_required

datatype review_decision = Approve | Request_changes

datatype review_status = Not_reviewed | Review_approved | Review_changes_required

datatype applicability = Required | Not_applicable

datatype payout_account = Account_active | Account_pending | Not_connected

record property_row =
  p_id :: uuid
  p_name :: string
  p_host :: uuid
  p_status :: property_status
  p_compliance :: compliance_status
  p_currency :: string
  p_nightly :: "int option"
  p_cleaning :: int
  p_acc_vat :: "rat option"
  p_clean_vat :: "rat option"
  p_max_guests :: int
  p_min_stay :: int
  p_max_stay :: int
  p_policy :: "uuid option"

record compliance_item =
  ci_property :: uuid
  ci_category :: string
  ci_applicability :: applicability
  ci_declared :: bool
  ci_evidence_url :: "string option"
  ci_evidence_ref :: "string option"
  ci_valid_until :: "day option"
  ci_review :: review_status

record host_row =
  h_id :: uuid
  h_user :: uuid
  h_account :: "string option"
  h_payout_status :: payout_account

subsection \<open>Availability and imported calendars\<close>

datatype avail_status = Available | Blocked | Booked

datatype avail_source = Src_host | Src_booking | Src_ical

record avail_row =
  av_status :: avail_status
  av_source :: avail_source

text \<open>\<open>UNIQUE (property_id, date)\<close> makes the table a map: property, then date.\<close>

type_synonym calendar = "day \<Rightarrow> avail_row option"
type_synonym availability = "uuid \<Rightarrow> calendar"

datatype sync_status = Sync_never | Sync_running | Sync_success | Sync_error

record feed =
  f_id :: uuid
  f_property :: uuid
  f_name :: string
  f_url :: string
  f_active :: bool
  f_status :: sync_status
  f_started :: "millis option"
  f_completed :: "millis option"
  f_successful :: "millis option"
  f_error :: "string option"
  f_etag :: "string option"
  f_modified :: "string option"
  f_created :: millis
  f_updated :: millis

record feed_event =
  fe_feed :: uuid
  fe_key :: string
  fe_uid :: string
  fe_starts :: day
  fe_ends :: day
  fe_summary :: "string option"

record export_row =
  ex_property :: uuid
  ex_token :: uuid
  ex_rotated :: "millis option"

subsection \<open>Payments of the destination-charge flow\<close>

record payment =
  pay_id :: uuid
  pay_booking :: uuid
  pay_intent :: "string option"
  pay_status :: payment_status
  pay_amount :: minor
  pay_currency :: string
  pay_failure_code :: "string option"
  pay_failure_message :: "string option"

datatype refund_reason =
  Guest_cancellation | Host_cancellation | Admin_goodwill | Dispute_refund | Pricing_error

datatype actor = By_guest | By_host | By_admin | By_system

datatype refund_status = Refund_pending | Refund_succeeded | Refund_failed

record refund_row =
  rf_id :: uuid
  rf_booking :: uuid
  rf_payment :: uuid
  rf_provider :: "string option"
  rf_amount :: minor
  rf_currency :: string
  rf_reason :: refund_reason
  rf_by :: actor
  rf_status :: refund_status

datatype payout_status = Scheduled | In_transit | Payout_paid | Payout_failed | Payout_cancelled

record payout =
  po_id :: uuid
  po_host :: uuid
  po_booking :: uuid
  po_amount :: minor
  po_currency :: string
  po_status :: payout_status
  po_release :: millis
  po_released :: "millis option"

datatype ledger_type =
  Guest_charge | Accommodation_revenue | Cleaning_fee | Guest_service_fee | Taxes
  | Host_commission | Host_revenue | Host_payout | Refund_entry

datatype ledger_status = L_paid | L_pending | L_reversed

record ledger_entry =
  le_booking :: uuid
  le_property :: uuid
  le_host :: uuid
  le_type :: ledger_type
  le_amount :: minor
  le_currency :: string
  le_status :: ledger_status
  le_ref :: string
  le_at :: millis

record dispute_row =
  d_booking :: uuid
  d_payment :: uuid
  d_provider :: string
  d_reason :: string
  d_status :: string
  d_amount :: minor
  d_due :: "millis option"

subsection \<open>Payments of the delayed-charge flow\<close>

datatype attempt_status =
  At_pending | At_processing | At_succeeded | At_failed | At_requires_action | At_cancelled

record attempt =
  pa_id :: uuid
  pa_booking :: uuid
  pa_number :: int
  pa_status :: attempt_status
  pa_amount :: minor
  pa_currency :: string
  pa_key :: string
  pa_intent :: "string option"
  pa_failure_code :: "string option"
  pa_failure_message :: "string option"
  pa_token :: "uuid option"
  pa_lease :: "millis option"

datatype entitlement_status =
  Entitled | Release_due | Transfer_claimed | Transfer_created | Transfer_failed
  | Cancelled_before_transfer

record entitlement =
  en_id :: uuid
  en_booking :: uuid
  en_host :: uuid
  en_amount :: minor
  en_tax :: "minor option"
  en_currency :: string
  en_status :: entitlement_status
  en_release :: millis
  en_claimed_at :: "millis option"
  en_worker :: "string option"
  en_transfer :: "string option"
  en_key :: string

datatype reversal_reason = Rev_refund | Rev_dispute

datatype reversal_status = Reversal_requested | Reversal_confirmed | Reversal_failed

record reversal =
  rv_id :: uuid
  rv_entitlement :: uuid
  rv_amount :: minor
  rv_reason :: reversal_reason
  rv_status :: reversal_status
  rv_provider :: "string option"
  rv_key :: string
  rv_confirmed :: "millis option"

subsection \<open>Audit log\<close>

datatype audit_detail =
  Booking_cancelled booking_status actor int
  | Booking_discarded booking_status
  | Compliance_saved nat
  | Compliance_submitted nat
  | Compliance_reviewed review_decision string
  | Pilot_reviewed review_decision "string option"
  | Admin_refund_issued minor refund_reason "string option"

record audit_entry =
  au_actor :: "uuid option"
  au_object :: uuid
  au_detail :: audit_detail

subsection \<open>The store\<close>

record store =
  properties :: "property_row list"
  compliance :: "compliance_item list"
  hosts :: "host_row list"
  policies :: "policy_row list"
  fee_configs :: "fee_config_row list"
  avail :: availability
  bookings :: "booking list"
  prices :: "price_row list"
  payments :: "payment list"
  refunds :: "refund_row list"
  payouts :: "payout list"
  ledger :: "ledger_entry list"
  disputes :: "dispute_row list"
  attempts :: "attempt list"
  entitlements :: "entitlement list"
  reversals :: "reversal list"
  feeds :: "feed list"
  events :: "feed_event list"
  exports :: "export_row list"
  audit :: "audit_entry list"

definition empty_store :: store where
  "empty_store =
     \<lparr>properties = [], compliance = [], hosts = [], policies = [], fee_configs = [],
      avail = (\<lambda>_ _. None), bookings = [], prices = [], payments = [], refunds = [],
      payouts = [], ledger = [], disputes = [], attempts = [], entitlements = [],
      reversals = [], feeds = [], events = [], exports = [], audit = []\<rparr>"

abbreviation find_booking :: "uuid \<Rightarrow> store \<Rightarrow> booking option" where
  "find_booking i s \<equiv> first_where (\<lambda>b. b_id b = i) (bookings s)"

abbreviation find_property :: "uuid \<Rightarrow> store \<Rightarrow> property_row option" where
  "find_property i s \<equiv> first_where (\<lambda>p. p_id p = i) (properties s)"

abbreviation find_price :: "uuid \<Rightarrow> store \<Rightarrow> price_row option" where
  "find_price i s \<equiv> first_where (\<lambda>r. pc_booking r = i) (prices s)"

definition set_booking :: "uuid \<Rightarrow> (booking \<Rightarrow> booking) \<Rightarrow> store \<Rightarrow> store" where
  "set_booking i f s = s\<lparr>bookings := update_where (\<lambda>b. b_id b = i) f (bookings s)\<rparr>"

definition log_audit :: "uuid option \<Rightarrow> uuid \<Rightarrow> audit_detail \<Rightarrow> store \<Rightarrow> store" where
  "log_audit who what detail s =
     s\<lparr>audit := insert_row \<lparr>au_actor = who, au_object = what, au_detail = detail\<rparr> (audit s)\<rparr>"

lemma set_booking_frame [simp]:
  "properties (set_booking i f s) = properties s" "compliance (set_booking i f s) = compliance s"
  "hosts (set_booking i f s) = hosts s" "policies (set_booking i f s) = policies s"
  "fee_configs (set_booking i f s) = fee_configs s" "avail (set_booking i f s) = avail s"
  "prices (set_booking i f s) = prices s" "payments (set_booking i f s) = payments s"
  "refunds (set_booking i f s) = refunds s" "payouts (set_booking i f s) = payouts s"
  "ledger (set_booking i f s) = ledger s" "disputes (set_booking i f s) = disputes s"
  "attempts (set_booking i f s) = attempts s" "entitlements (set_booking i f s) = entitlements s"
  "reversals (set_booking i f s) = reversals s" "feeds (set_booking i f s) = feeds s"
  "events (set_booking i f s) = events s" "exports (set_booking i f s) = exports s"
  "audit (set_booking i f s) = audit s"
  "bookings (set_booking i f s) = update_where (\<lambda>b. b_id b = i) f (bookings s)"
  by (simp_all add: set_booking_def)

lemma log_audit_frame [simp]:
  "properties (log_audit w i d s) = properties s" "compliance (log_audit w i d s) = compliance s"
  "hosts (log_audit w i d s) = hosts s" "policies (log_audit w i d s) = policies s"
  "fee_configs (log_audit w i d s) = fee_configs s" "avail (log_audit w i d s) = avail s"
  "bookings (log_audit w i d s) = bookings s" "prices (log_audit w i d s) = prices s"
  "payments (log_audit w i d s) = payments s" "refunds (log_audit w i d s) = refunds s"
  "payouts (log_audit w i d s) = payouts s" "ledger (log_audit w i d s) = ledger s"
  "disputes (log_audit w i d s) = disputes s" "attempts (log_audit w i d s) = attempts s"
  "entitlements (log_audit w i d s) = entitlements s" "reversals (log_audit w i d s) = reversals s"
  "feeds (log_audit w i d s) = feeds s" "events (log_audit w i d s) = events s"
  "exports (log_audit w i d s) = exports s"
  by (simp_all add: log_audit_def)

end
