(* ===== verification/Availability.thy ===== *)
theory Availability
  imports Store
begin

text \<open>
  The availability table: the reconciliation of imported calendars
  (\<open>reconcileCalendarAvailability\<close> of lib/calendar/calendarSync.ts), which every operation on a
  property's calendar runs before it commits, and the host's own blocks
  (lib/hosts/hostAvailability.ts). Shown: reconciliation touches only imported rows, is idempotent
  and leaves exactly the imported nights that nothing else occupies; blocking and unblocking never
  touch a booking; all of them are local to one property, so they satisfy the interface
  \<open>scoped_update\<close> and commute across properties.
\<close>

subsection \<open>Rows\<close>

abbreviation booked_row :: avail_row where
  "booked_row \<equiv> \<lparr>av_status = Booked, av_source = Src_booking\<rparr>"

abbreviation host_row_blocked :: avail_row where
  "host_row_blocked \<equiv> \<lparr>av_status = Blocked, av_source = Src_host\<rparr>"

abbreviation ical_row :: avail_row where
  "ical_row \<equiv> \<lparr>av_status = Blocked, av_source = Src_ical\<rparr>"

text \<open>The table's check constraint (migration 029): a booking's row is booked, no other row is.\<close>

definition row_ok :: "avail_row \<Rightarrow> bool" where
  "row_ok r \<longleftrightarrow> (av_status r = Booked \<longleftrightarrow> av_source r = Src_booking)"

definition calendar_ok :: "calendar \<Rightarrow> bool" where
  "calendar_ok m \<longleftrightarrow> (\<forall>d r. m d = Some r \<longrightarrow> row_ok r)"

definition night_free :: "calendar \<Rightarrow> day \<Rightarrow> bool" where
  "night_free m d \<longleftrightarrow> (case m d of None \<Rightarrow> True | Some r \<Rightarrow> av_status r = Available)"

subsection \<open>The dates of a stay\<close>

function enumerate_from :: "millis \<Rightarrow> millis \<Rightarrow> day list" where
  "enumerate_from d stop =
     (if d < stop then day_of_ms d # enumerate_from (d + ms_per_day) stop else [])"
  by pat_completeness auto
termination
  by (relation "measure (\<lambda>(d, stop). nat (stop - d))") auto

declare enumerate_from.simps [simp del]

definition enumerate_dates :: "day \<Rightarrow> day \<Rightarrow> day list" where
  "enumerate_dates check_in check_out = enumerate_from (day_ms check_in) (day_ms check_out)"

lemma enumerate_from_days: "enumerate_from (day_ms a) (day_ms b) = [a..b - 1]"
proof (induction "nat (b - a)" arbitrary: a)
  case 0
  then show ?case by (subst enumerate_from.simps) simp
next
  case (Suc n)
  then have lt: "a < b" by simp
  have "day_ms a + ms_per_day = day_ms (a + 1)" by (simp add: day_ms_def)
  moreover have "enumerate_from (day_ms (a + 1)) (day_ms b) = [a + 1..b - 1]"
    using Suc by (intro Suc.hyps(1)) simp
  ultimately show ?case
    using lt by (subst enumerate_from.simps) (simp add: upto_rec1)
qed

lemma enumerate_dates_eq [simp]: "enumerate_dates a b = [a..b - 1]"
  by (simp add: enumerate_dates_def enumerate_from_days)

subsection \<open>Imported calendars\<close>

text \<open>
  The days of \<open>generate_series(GREATEST(starts_on, CURRENT_DATE), ends_on - 1)\<close> of the events of
  the property's active feeds that end after today.
\<close>

definition imported_days :: "day \<Rightarrow> feed list \<Rightarrow> feed_event list \<Rightarrow> uuid \<Rightarrow> day list" where
  "imported_days today fds evs prop =
     remdups (concat (map (\<lambda>e. [max (fe_starts e) today..fe_ends e - 1])
       (filter (\<lambda>e. today < fe_ends e \<and>
          row_exists (\<lambda>f. f_id f = fe_feed e \<and> f_property f = prop \<and> f_active f) fds) evs)))"

definition drop_imported :: "calendar \<Rightarrow> calendar" where
  "drop_imported m = (\<lambda>d. case m d of
     None \<Rightarrow> None | Some r \<Rightarrow> if av_source r = Src_ical then None else Some r)"

definition add_imported :: "day list \<Rightarrow> calendar \<Rightarrow> calendar" where
  "add_imported days m = (\<lambda>d. if m d = None \<and> d \<in> set days then Some ical_row else m d)"

definition reconcile :: "millis \<Rightarrow> uuid \<Rightarrow> store \<Rightarrow> nat \<times> store" where
  "reconcile now prop s =
     (let days = imported_days (day_of_ms now) (feeds s) (events s) prop;
          kept = drop_imported (avail s prop)
      in (length (filter (\<lambda>d. kept d = None) days),
          s\<lparr>avail := (avail s)(prop := add_imported days kept)\<rparr>))"

lemma reconcile_frame [simp]:
  "properties (snd (reconcile n p s)) = properties s" "compliance (snd (reconcile n p s)) = compliance s"
  "hosts (snd (reconcile n p s)) = hosts s" "policies (snd (reconcile n p s)) = policies s"
  "fee_configs (snd (reconcile n p s)) = fee_configs s" "bookings (snd (reconcile n p s)) = bookings s"
  "prices (snd (reconcile n p s)) = prices s" "payments (snd (reconcile n p s)) = payments s"
  "refunds (snd (reconcile n p s)) = refunds s" "payouts (snd (reconcile n p s)) = payouts s"
  "ledger (snd (reconcile n p s)) = ledger s" "disputes (snd (reconcile n p s)) = disputes s"
  "attempts (snd (reconcile n p s)) = attempts s" "entitlements (snd (reconcile n p s)) = entitlements s"
  "reversals (snd (reconcile n p s)) = reversals s" "feeds (snd (reconcile n p s)) = feeds s"
  "events (snd (reconcile n p s)) = events s" "exports (snd (reconcile n p s)) = exports s"
  "audit (snd (reconcile n p s)) = audit s"
  by (simp_all add: reconcile_def Let_def)

definition imported_now :: "millis \<Rightarrow> store \<Rightarrow> uuid \<Rightarrow> day list" where
  "imported_now now s prop = imported_days (day_of_ms now) (feeds s) (events s) prop"

lemma avail_reconcile:
  "avail (snd (reconcile now p s)) =
    (avail s)(p := add_imported (imported_now now s p) (drop_imported (avail s p)))"
  by (simp add: reconcile_def Let_def imported_now_def)

lemma drop_imported_Some:
  "drop_imported m d = Some r \<longleftrightarrow> m d = Some r \<and> av_source r \<noteq> Src_ical"
  by (auto simp: drop_imported_def split: option.splits if_splits)

lemma add_imported_Some:
  "add_imported days m d = Some r \<longleftrightarrow> m d = Some r \<or> m d = None \<and> d \<in> set days \<and> r = ical_row"
  by (auto simp: add_imported_def)

text \<open>Rows of bookings and of the host are never changed, whatever was imported.\<close>

lemma reconcile_other_rows:
  assumes "av_source r \<noteq> Src_ical"
  shows "avail (snd (reconcile now p s)) q d = Some r \<longleftrightarrow> avail s q d = Some r"
  using assms by (auto simp: avail_reconcile add_imported_Some drop_imported_Some)

lemma reconcile_imported_rows:
  "avail (snd (reconcile now p s)) p d = Some r \<and> av_source r = Src_ical \<longleftrightarrow>
    r = ical_row \<and> d \<in> set (imported_now now s p) \<and>
    (\<forall>r'. avail s p d = Some r' \<longrightarrow> av_source r' = Src_ical)"
  by (auto simp: avail_reconcile add_imported_Some drop_imported_Some drop_imported_def
      split: option.splits if_splits)

lemma drop_add_imported:
  "drop_imported (add_imported days (drop_imported m)) = drop_imported m"
  by (rule ext) (auto simp: drop_imported_def add_imported_def split: option.splits)

lemma reconcile_idempotent: "snd (reconcile now p (snd (reconcile now p s))) = snd (reconcile now p s)"
proof -
  have "avail (snd (reconcile now p (snd (reconcile now p s)))) = avail (snd (reconcile now p s))"
    by (simp add: avail_reconcile imported_now_def drop_add_imported)
  then show ?thesis by (simp add: reconcile_def Let_def)
qed

lemma reconcile_calendar_ok:
  "calendar_ok (avail s q) \<Longrightarrow> calendar_ok (avail (snd (reconcile now p s)) q)"
  by (auto simp: calendar_ok_def avail_reconcile add_imported_Some drop_imported_Some row_ok_def)

interpretation rec: scoped_update
  "\<lambda>k m. m(k := add_imported (days k) (drop_imported (m k)))"
  "\<lambda>k m. add_imported (days k) (drop_imported m)" for days :: "uuid \<Rightarrow> day list"
  by unfold_locales simp

subsection \<open>Blocks of the host\<close>

datatype avail_action = Block | Unblock

datatype skip_reason = Already_booked | Cannot_unblock_booking | Managed_by_sync

record block_result =
  br_blocked :: "day list"
  br_skipped :: "(day \<times> skip_reason) list"

text \<open>\<open>current.setUTCDate(current.getUTCDate() + 1)\<close>\<close>

definition next_utc_day :: "millis \<Rightarrow> millis" where
  "next_utc_day t = day_ms (day_of_ms t + 1) + t mod ms_per_day"

lemma next_utc_day_eq: "next_utc_day t = t + ms_per_day"
  using div_mult_mod_eq [of t ms_per_day] by (simp add: next_utc_day_def day_of_ms_def day_ms_def)

function host_dates_from :: "millis \<Rightarrow> millis \<Rightarrow> day list" where
  "host_dates_from current stop =
     (if current < stop then day_of_ms current # host_dates_from (next_utc_day current) stop else [])"
  by pat_completeness auto
termination
  by (relation "measure (\<lambda>(d, stop). nat (stop - d))") (auto simp: next_utc_day_eq)

declare host_dates_from.simps [simp del]

lemma host_dates_from_eq: "host_dates_from a b = enumerate_from a b"
  by (induction a b rule: enumerate_from.induct)
    (subst enumerate_from.simps, subst host_dates_from.simps, simp add: next_utc_day_eq)

definition upsert_host :: "day \<Rightarrow> calendar \<Rightarrow> calendar" where
  "upsert_host d m =
     (case m d of
        None \<Rightarrow> m(d \<mapsto> host_row_blocked)
      | Some r \<Rightarrow> if av_source r = Src_host then m(d \<mapsto> host_row_blocked) else m)"

definition delete_host :: "day \<Rightarrow> calendar \<Rightarrow> calendar" where
  "delete_host d m =
     (case m d of
        None \<Rightarrow> m
      | Some r \<Rightarrow> if av_source r = Src_host then m(d := None) else m)"

fun mutate_dates ::
  "avail_action \<Rightarrow> calendar \<Rightarrow> day list \<Rightarrow> calendar \<times> block_result \<Rightarrow> calendar \<times> block_result" where
  "mutate_dates act existing [] (m, r) = (m, r)"
| "mutate_dates act existing (d # ds) (m, r) =
     (if map_option av_source (existing d) = Some Src_booking then
        mutate_dates act existing ds
          (m, r\<lparr>br_skipped := br_skipped r @
             [(d, if act = Block then Already_booked else Cannot_unblock_booking)]\<rparr>)
      else if map_option av_source (existing d) = Some Src_ical then
        mutate_dates act existing ds (m, r\<lparr>br_skipped := br_skipped r @ [(d, Managed_by_sync)]\<rparr>)
      else
        mutate_dates act existing ds
          (if act = Block then upsert_host d m else delete_host d m,
           r\<lparr>br_blocked := br_blocked r @ [d]\<rparr>))"

definition mutate_availability ::
  "millis \<Rightarrow> uuid \<Rightarrow> day \<Rightarrow> day \<Rightarrow> avail_action \<Rightarrow> (store, unit, block_result) tx" where
  "mutate_availability now prop check_in check_out act s =
     (let dates = host_dates_from (day_ms check_in) (day_ms check_out);
          (m, r) = mutate_dates act (avail s prop) dates (avail s prop, \<lparr>br_blocked = [], br_skipped = []\<rparr>);
          s1 = s\<lparr>avail := (avail s)(prop := m)\<rparr>
      in Inr (r, snd (reconcile now prop s1)))"

definition block_dates :: "millis \<Rightarrow> uuid \<Rightarrow> day \<Rightarrow> day \<Rightarrow> store \<Rightarrow> (unit + block_result) \<times> store" where
  "block_dates now prop check_in check_out =
     with_transaction (mutate_availability now prop check_in check_out Block)"

definition unblock_dates :: "millis \<Rightarrow> uuid \<Rightarrow> day \<Rightarrow> day \<Rightarrow> store \<Rightarrow> (unit + block_result) \<times> store" where
  "unblock_dates now prop check_in check_out =
     with_transaction (mutate_availability now prop check_in check_out Unblock)"

text \<open>\<open>listAvailabilityForProperty\<close>: the rows from today on, in date order, over a given horizon.\<close>

definition list_availability :: "day \<Rightarrow> day \<Rightarrow> calendar \<Rightarrow> (day \<times> avail_row) list" where
  "list_availability today horizon m =
     List.map_filter (\<lambda>d. map_option (Pair d) (m d)) [today..horizon]"

text \<open>What the loop leaves at each date.\<close>

definition host_effect :: "avail_action \<Rightarrow> avail_row option \<Rightarrow> avail_row option" where
  "host_effect act row =
     (case row of
        None \<Rightarrow> if act = Block then Some host_row_blocked else None
      | Some r \<Rightarrow> if av_source r = Src_host
                 then (if act = Block then Some host_row_blocked else None) else Some r)"

lemma upsert_host_eq: "upsert_host d m = m(d := host_effect Block (m d))"
  by (auto simp: upsert_host_def host_effect_def split: option.splits)

lemma delete_host_eq: "delete_host d m = m(d := host_effect Unblock (m d))"
  by (auto simp: delete_host_def host_effect_def split: option.splits)

lemma host_effect_source:
  "map_option av_source row = Some Src_booking \<or> map_option av_source row = Some Src_ical \<Longrightarrow>
    host_effect act row = row"
  by (auto simp: host_effect_def)

lemma mutate_dates_calendar:
  assumes "distinct ds" "\<forall>d \<in> set ds. m d = existing d"
  shows "fst (mutate_dates act existing ds (m, r)) =
    (\<lambda>d. if d \<in> set ds then host_effect act (m d) else m d)"
  using assms
proof (induction ds arbitrary: m r)
  case (Cons d ds)
  show ?case
  proof (cases "map_option av_source (m d) = Some Src_booking \<or> map_option av_source (m d) = Some Src_ical")
    case True
    with Cons.IH [of m] Cons.prems host_effect_source [OF True, of act] show ?thesis
      by (auto simp: fun_eq_iff)
  next
    case False
    let ?m = "m(d := host_effect act (m d))"
    have m: "(if act = Block then upsert_host d m else delete_host d m) = ?m"
      by (cases act) (auto simp: upsert_host_eq delete_host_eq)
    have "fst (mutate_dates act existing ds (?m, r')) =
        (\<lambda>x. if x \<in> set ds then host_effect act (?m x) else ?m x)" for r'
      using Cons.prems by (intro Cons.IH) auto
    with False Cons.prems show ?thesis
      by (auto simp: m fun_eq_iff)
  qed
qed simp

lemma mutate_availability_avail:
  assumes "mutate_availability now p ci co act s = Inr (r, t)"
  shows "avail t = (avail s)(p := add_imported (imported_now now s p)
    (drop_imported (\<lambda>d. if ci \<le> d \<and> d < co then host_effect act (avail s p d) else avail s p d)))"
proof -
  let ?r0 = "\<lparr>br_blocked = [], br_skipped = []\<rparr>"
  obtain m r' where mr: "mutate_dates act (avail s p) [ci..co - 1] (avail s p, ?r0) = (m, r')"
    by fastforce
  have "m = (\<lambda>d. if d \<in> set [ci..co - 1] then host_effect act (avail s p d) else avail s p d)"
    using mutate_dates_calendar [of "[ci..co - 1]" "avail s p" "avail s p" act ?r0] mr by simp
  then have m: "m = (\<lambda>d. if ci \<le> d \<and> d < co then host_effect act (avail s p d) else avail s p d)"
    by (auto simp: fun_eq_iff)
  have "t = snd (reconcile now p (s\<lparr>avail := (avail s)(p := m)\<rparr>))"
    using assms mr unfolding mutate_availability_def
    by (simp add: host_dates_from_eq enumerate_from_days)
  then show ?thesis by (simp add: avail_reconcile imported_now_def m)
qed

lemma mutate_availability_frame:
  assumes "mutate_availability now p ci co act s = Inr (r, t)"
  shows "bookings t = bookings s" "feeds t = feeds s" "events t = events s"
    "prices t = prices s" "properties t = properties s"
  using assms by (auto simp: mutate_availability_def Let_def split: prod.splits)

text \<open>A host can neither remove nor overwrite a booked night.\<close>

lemma mutate_availability_booked:
  assumes "mutate_availability now p ci co act s = Inr (r, t)" "av_source row = Src_booking"
  shows "avail t q d = Some row \<longleftrightarrow> avail s q d = Some row"
  using assms(2) unfolding mutate_availability_avail [OF assms(1)]
  by (auto simp: add_imported_Some drop_imported_Some host_effect_def split: option.splits if_splits)

lemma mutate_availability_calendar_ok:
  assumes "mutate_availability now p ci co act s = Inr (r, t)" "\<forall>q. calendar_ok (avail s q)"
  shows "\<forall>q. calendar_ok (avail t q)"
  using assms(2) unfolding mutate_availability_avail [OF assms(1)]
  by (auto simp: calendar_ok_def add_imported_Some drop_imported_Some host_effect_def row_ok_def
      split: option.splits if_splits)

end
