(* ===== verification/Js_Number.thy ===== *)
theory Js_Number
  imports Complex_Main "HOL-Library.Log_Nat"
begin

text \<open>
  JavaScript numbers as the code uses them. A number is an IEEE 754 binary64 value, kept here as
  the rational it denotes; \<open>fl\<close> rounds an exact rational result to the nearest such value (ties
  to even), which is what the language's arithmetic does after every operation. The exponent range
  is left unbounded: the amounts, rates and durations of the program are many orders of magnitude
  away from the subnormal numbers and from the largest finite double. \<open>js_round\<close> is
  \<open>Math.round\<close>. The theory proves the facts the components rest on: \<open>fl\<close> is monotone, exact on
  safe integers, and within half a unit in the last place of the exact result.
\<close>

subsection \<open>Rounding to binary64\<close>

definition js_round :: "rat \<Rightarrow> int" where
  "js_round x = \<lfloor>x + 1 / 2\<rfloor>"

text \<open>\<open>binade x\<close> is the exponent \<open>e\<close> with \<open>2 powi e \<le> x < 2 powi (e + 1)\<close>, for positive \<open>x\<close>.\<close>

definition binade :: "rat \<Rightarrow> int" where
  "binade x =
     (let n = fst (quotient_of x); d = snd (quotient_of x); e = bitlen n - bitlen d
      in if 2 powi e \<le> x then e else e - 1)"

definition round_even :: "rat \<Rightarrow> int" where
  "round_even x =
     (let f = \<lfloor>x\<rfloor>; r = x - of_int f
      in if r < 1 / 2 then f
         else if 1 / 2 < r then f + 1
         else if even f then f else f + 1)"

definition ulp :: "rat \<Rightarrow> rat" where
  "ulp x = 2 powi (binade x - 52)"

definition fl :: "rat \<Rightarrow> rat" where
  "fl x =
     (if x = 0 then 0
      else if 0 < x then of_int (round_even (x / ulp x)) * ulp x
      else - (of_int (round_even (- x / ulp (- x))) * ulp (- x)))"

definition js_add :: "rat \<Rightarrow> rat \<Rightarrow> rat" where
  "js_add x y = fl (x + y)"

definition js_mul :: "rat \<Rightarrow> rat \<Rightarrow> rat" where
  "js_mul x y = fl (x * y)"

definition js_div :: "rat \<Rightarrow> rat \<Rightarrow> rat" where
  "js_div x y = fl (x / y)"

definition max_safe :: int where
  "max_safe = 9007199254740992"

subsection \<open>Powers of two and the binade of a number\<close>

lemma powi2_pos: "0 < (2::rat) powi e"
  by simp

lemma powi2_mono: "a \<le> b \<Longrightarrow> (2::rat) powi a \<le> 2 powi b"
  by (rule power_int_increasing) simp_all

lemma powi2_add: "(2::rat) powi (a + b) = 2 powi a * 2 powi b"
  by (simp add: power_int_add)

lemma powi2_diff: "(2::rat) powi (a - b) = 2 powi a / 2 powi b"
  by (simp add: power_int_diff)

lemma powi2_nat: "0 \<le> e \<Longrightarrow> (2::rat) powi e = of_int (2 ^ nat e)"
  by (simp add: power_int_def)

lemma powi2_strict: "a < b \<Longrightarrow> (2::rat) powi a < 2 powi b"
  by (rule power_int_strict_increasing) simp_all

lemma bitlen_powi_bounds:
  assumes "0 < n"
  shows "2 powi (bitlen n - 1) \<le> (of_int n :: rat)" and "(of_int n :: rat) < 2 powi bitlen n"
proof -
  have b: "2 ^ nat (bitlen n - 1) \<le> n" "n < 2 ^ nat (bitlen n)"
    using bitlen_bounds [OF assms] by auto
  have p: "1 \<le> bitlen n"
    using assms bitlen_nonneg [of n] bitlen_eq_zero_iff [of n] by linarith
  have "(of_int (2 ^ nat (bitlen n - 1)) :: rat) \<le> of_int n"
    using b(1) by (simp only: of_int_le_iff)
  with p show "2 powi (bitlen n - 1) \<le> (of_int n :: rat)"
    by (simp only: powi2_nat)
  have "(of_int n :: rat) < of_int (2 ^ nat (bitlen n))"
    using b(2) by (simp only: of_int_less_iff)
  with p show "(of_int n :: rat) < 2 powi bitlen n"
    by (simp only: powi2_nat)
qed

lemma binade_bounds:
  assumes "0 < x"
  shows "2 powi binade x \<le> x" and "x < 2 powi (binade x + 1)"
proof -
  obtain n d where nd: "quotient_of x = (n, d)" by (cases "quotient_of x")
  have d: "0 < d" using quotient_of_denom_pos [OF nd] .
  have x: "x = of_int n / of_int d" using quotient_of_div [OF nd] .
  have n: "0 < n" using assms d unfolding x by (simp add: zero_less_divide_iff)
  let ?e = "bitlen n - bitlen d"
  note bn = bitlen_powi_bounds [OF n] and bd = bitlen_powi_bounds [OF d]
  have upper: "x < 2 powi (?e + 1)"
  proof -
    have "x < 2 powi bitlen n / of_int d"
      unfolding x using bn(2) d by (simp add: divide_strict_right_mono)
    also have "\<dots> \<le> 2 powi bitlen n / 2 powi (bitlen d - 1)"
      using bd(1) d by (intro divide_left_mono) (auto intro: mult_pos_pos)
    also have "\<dots> = 2 powi (?e + 1)"
      unfolding powi2_diff [symmetric] by (simp add: algebra_simps)
    finally show ?thesis .
  qed
  have lower: "2 powi (?e - 1) \<le> x"
  proof -
    have "2 powi (?e - 1) = 2 powi (bitlen n - 1) / (2 powi bitlen d :: rat)"
      unfolding powi2_diff [symmetric] by (simp add: algebra_simps)
    also have "\<dots> \<le> 2 powi (bitlen n - 1) / of_int d"
      using bd(2) d by (intro divide_left_mono) (auto intro: mult_pos_pos)
    also have "\<dots> \<le> x"
      unfolding x using bn(1) d by (simp add: divide_right_mono)
    finally show ?thesis .
  qed
  have b: "binade x = (if 2 powi ?e \<le> x then ?e else ?e - 1)"
    by (simp add: binade_def nd)
  show "2 powi binade x \<le> x" using lower by (simp add: b)
  show "x < 2 powi (binade x + 1)" using upper by (simp add: b not_le)
qed

lemma binade_le:
  assumes "0 < x" "x < 2 powi (e + 1)"
  shows "binade x \<le> e"
proof (rule ccontr)
  assume "\<not> binade x \<le> e"
  then have "(2::rat) powi (e + 1) \<le> 2 powi binade x" by (intro powi2_mono) simp
  with binade_bounds(1) [OF assms(1)] assms(2) show False by linarith
qed

lemma binade_mono:
  assumes "0 < x" "x \<le> y"
  shows "binade x \<le> binade y"
  using assms binade_bounds(2) [of y] by (intro binade_le) auto

lemma ulp_pos: "0 < ulp x"
  by (simp add: ulp_def)

lemma scaled_bounds:
  assumes "0 < x"
  shows "of_int (2 ^ 52) \<le> x / ulp x" and "x / ulp x < of_int (2 ^ 53)"
proof -
  have e: "(2::rat) powi binade x = of_int (2 ^ 52) * ulp x"
    "(2::rat) powi (binade x + 1) = of_int (2 ^ 53) * ulp x"
    using powi2_add [of 52 "binade x - 52"] powi2_add [of 53 "binade x - 52"]
    by (simp_all add: ulp_def add.commute)
  show "of_int (2 ^ 52) \<le> x / ulp x"
    using binade_bounds(1) [OF assms] ulp_pos [of x] unfolding e by (simp add: le_divide_eq)
  show "x / ulp x < of_int (2 ^ 53)"
    using binade_bounds(2) [OF assms] ulp_pos [of x] unfolding e by (simp add: divide_less_eq)
qed

subsection \<open>Rounding to the nearest integer\<close>

lemma round_even_int [simp]: "round_even (of_int n) = n"
  by (simp add: round_even_def)

lemma round_even_mono: "x \<le> y \<Longrightarrow> round_even x \<le> round_even y"
proof (cases "\<lfloor>x\<rfloor> = \<lfloor>y\<rfloor>")
  case True
  assume "x \<le> y"
  with True show ?thesis by (auto simp: round_even_def Let_def)
next
  case False
  assume le: "x \<le> y"
  then have "\<lfloor>x\<rfloor> \<le> \<lfloor>y\<rfloor>" by (rule floor_mono)
  with False have "\<lfloor>x\<rfloor> + 1 \<le> \<lfloor>y\<rfloor>" by simp
  moreover have "round_even x \<le> \<lfloor>x\<rfloor> + 1" and "\<lfloor>y\<rfloor> \<le> round_even y"
    by (auto simp: round_even_def Let_def)
  ultimately show ?thesis by linarith
qed

lemma round_even_error: "\<bar>of_int (round_even x) - x\<bar> \<le> 1 / 2"
proof -
  have "of_int \<lfloor>x\<rfloor> \<le> x" "x < of_int \<lfloor>x\<rfloor> + 1" by linarith+
  then show ?thesis by (auto simp: round_even_def Let_def abs_le_iff)
qed

lemma js_round_int [simp]: "js_round (of_int n) = n"
  by (simp add: js_round_def) linarith

lemma js_round_zero [simp]: "js_round 0 = 0"
  using js_round_int [of 0] by simp

lemma js_round_mono: "x \<le> y \<Longrightarrow> js_round x \<le> js_round y"
  unfolding js_round_def by (intro floor_mono) simp

lemma js_round_nonneg: "0 \<le> x \<Longrightarrow> 0 \<le> js_round x"
  by (simp add: js_round_def)

lemma js_round_near:
  assumes "\<bar>x - of_int n\<bar> < 1 / 2"
  shows "js_round x = n"
  using assms unfolding js_round_def abs_less_iff by (intro floor_unique) auto

lemma js_round_error: "\<bar>of_int (js_round x) - x\<bar> \<le> 1 / 2"
  unfolding js_round_def abs_le_iff by linarith

subsection \<open>What double rounding keeps\<close>

lemma fl_zero [simp]: "fl 0 = 0"
  by (simp add: fl_def)

lemma fl_uminus: "fl (- x) = - fl x"
  by (simp add: fl_def)

lemma fl_pos_eq: "0 < x \<Longrightarrow> fl x = of_int (round_even (x / ulp x)) * ulp x"
  by (simp add: fl_def)

lemma fl_pos_error:
  assumes "0 < x"
  shows "\<bar>fl x - x\<bar> \<le> x / of_int (2 ^ 53)"
proof -
  let ?u = "ulp x"
  have u: "0 < ?u" by (rule ulp_pos)
  have "fl x - x = (of_int (round_even (x / ?u)) - x / ?u) * ?u"
    using u by (simp add: fl_pos_eq [OF assms] left_diff_distrib)
  then have "\<bar>fl x - x\<bar> = \<bar>of_int (round_even (x / ?u)) - x / ?u\<bar> * ?u"
    using u by (simp add: abs_mult)
  also have "\<dots> \<le> 1 / 2 * ?u"
    using u round_even_error by (intro mult_right_mono) auto
  also have "\<dots> \<le> x / of_int (2 ^ 53)"
    using scaled_bounds(1) [OF assms] u by (simp add: field_simps)
  finally show ?thesis .
qed

lemma fl_error: "\<bar>fl x - x\<bar> \<le> \<bar>x\<bar> / of_int (2 ^ 53)"
proof (cases "0 \<le> x")
  case True
  then show ?thesis using fl_pos_error [of x] by (cases "x = 0") auto
next
  case False
  then have "\<bar>fl (- x) - (- x)\<bar> \<le> (- x) / of_int (2 ^ 53)" by (intro fl_pos_error) simp
  moreover have "\<bar>fl (- x) - (- x)\<bar> = \<bar>fl x - x\<bar>" by (simp add: fl_uminus abs_minus_commute)
  ultimately show ?thesis using False by simp
qed

lemma fl_nonneg:
  assumes "0 \<le> x"
  shows "0 \<le> fl x"
proof (cases "x = 0")
  case False
  with assms have x: "0 < x" by simp
  have "0 \<le> round_even (x / ulp x)"
    using round_even_mono [of 0 "x / ulp x"] x ulp_pos [of x] round_even_int [of 0] by simp
  then show ?thesis
    using ulp_pos [of x] by (simp add: fl_pos_eq [OF x])
qed simp

lemma fl_pos_mono:
  assumes x: "0 < x" and le: "x \<le> y"
  shows "fl x \<le> fl y"
proof (cases "binade x = binade y")
  case True
  then have u: "ulp x = ulp y" by (simp add: ulp_def)
  have "round_even (x / ulp y) \<le> round_even (y / ulp y)"
    using le ulp_pos [of y] by (intro round_even_mono divide_right_mono) auto
  then show ?thesis
    using x le ulp_pos [of y] by (simp add: fl_pos_eq u mult_right_mono)
next
  case False
  have y: "0 < y" using x le by simp
  have b: "binade x + 1 \<le> binade y" using False binade_mono [OF x le] by simp
  have "round_even (x / ulp x) \<le> 2 ^ 53"
    using round_even_mono [OF less_imp_le [OF scaled_bounds(2) [OF x]]] by (simp only: round_even_int)
  then have "fl x \<le> of_int (2 ^ 53) * ulp x"
    unfolding fl_pos_eq [OF x] using ulp_pos [of x] by (intro mult_right_mono) (simp_all only: of_int_le_iff less_imp_le)
  also have "\<dots> = 2 powi (binade x + 1)"
    using powi2_add [of 53 "binade x - 52"] by (simp add: ulp_def add.commute)
  also have "\<dots> \<le> 2 powi binade y" using b by (rule powi2_mono)
  also have "\<dots> = of_int (2 ^ 52) * ulp y"
    using powi2_add [of 52 "binade y - 52"] by (simp add: ulp_def)
  also have "\<dots> \<le> fl y"
  proof -
    have "2 ^ 52 \<le> round_even (y / ulp y)"
      using round_even_mono [OF scaled_bounds(1) [OF y]] by (simp only: round_even_int)
    then show ?thesis
      unfolding fl_pos_eq [OF y] using ulp_pos [of y] by (intro mult_right_mono) (simp_all only: of_int_le_iff less_imp_le)
  qed
  finally show ?thesis .
qed

lemma fl_mono:
  assumes "x \<le> y"
  shows "fl x \<le> fl y"
proof -
  consider "0 < x" | "y < 0" | "x \<le> 0" "0 \<le> y" by linarith
  then show ?thesis
  proof cases
    case 1
    then show ?thesis using assms by (rule fl_pos_mono)
  next
    case 2
    then have "fl (- y) \<le> fl (- x)" using assms by (intro fl_pos_mono) auto
    then show ?thesis by (simp add: fl_uminus)
  next
    case 3
    then have "0 \<le> fl (- x)" and "0 \<le> fl y" by (auto intro: fl_nonneg)
    then show ?thesis by (simp add: fl_uminus)
  qed
qed

lemma fl_pos_int:
  assumes "0 < n" "n \<le> max_safe"
  shows "fl (of_int n) = of_int n"
proof -
  let ?x = "of_int n :: rat" and ?b = "binade (of_int n)"
  have x: "0 < ?x" using assms by simp
  have "\<exists>k. ?x / ulp ?x = of_int k"
  proof (cases "?b \<le> 52")
    case True
    have "?x / ulp ?x = ?x * 2 powi (52 - ?b)"
      by (simp add: ulp_def powi2_diff)
    also have "\<dots> = of_int (n * 2 ^ nat (52 - ?b))"
      using True by (simp add: powi2_nat)
    finally show ?thesis by blast
  next
    case False
    then have "2 powi 53 \<le> ?x"
      using order_trans [OF powi2_mono [of 53 ?b] binade_bounds(1) [OF x]] by simp
    then have "max_safe \<le> n" by (simp add: max_safe_def)
    with assms(2) have n: "n = max_safe" by simp
    have "?b \<le> 53" by (rule binade_le [OF x]) (simp add: n max_safe_def)
    with False have "?b = 53" by simp
    then have "?x / ulp ?x = of_int (2 ^ 52)" by (simp add: ulp_def n max_safe_def)
    then show ?thesis by blast
  qed
  then obtain k where k: "?x / ulp ?x = of_int k" by blast
  then have "?x = of_int k * ulp ?x" using ulp_pos [of ?x] by (simp add: divide_eq_eq)
  then show ?thesis by (simp add: fl_pos_eq [OF x] k)
qed

lemma fl_int:
  assumes "\<bar>n\<bar> \<le> max_safe"
  shows "fl (of_int n) = of_int n"
proof -
  consider "n = 0" | "0 < n" | "0 < - n" by linarith
  then show ?thesis
  proof cases
    case 3
    then have "fl (of_int (- n)) = of_int (- n)" using assms by (intro fl_pos_int) auto
    then show ?thesis by (simp add: fl_uminus)
  qed (use assms in \<open>auto intro: fl_pos_int\<close>)
qed

text \<open>Bounds by safe integers survive the rounding of the operation that produced the value.\<close>

lemma fl_le_int: "x \<le> of_int n \<Longrightarrow> \<bar>n\<bar> \<le> max_safe \<Longrightarrow> fl x \<le> of_int n"
  using fl_mono [of x "of_int n"] fl_int [of n] by simp

lemma fl_ge_int: "of_int n \<le> x \<Longrightarrow> \<bar>n\<bar> \<le> max_safe \<Longrightarrow> of_int n \<le> fl x"
  using fl_mono [of "of_int n" x] fl_int [of n] by simp

lemma js_round_fl_le: "x \<le> of_int n \<Longrightarrow> \<bar>n\<bar> \<le> max_safe \<Longrightarrow> js_round (fl x) \<le> n"
  using js_round_mono [OF fl_le_int [of x n]] by simp

lemma js_round_fl_ge: "of_int n \<le> x \<Longrightarrow> \<bar>n\<bar> \<le> max_safe \<Longrightarrow> n \<le> js_round (fl x)"
  using js_round_mono [OF fl_ge_int [of n x]] by simp

lemma js_round_fl_nonneg: "0 \<le> x \<Longrightarrow> 0 \<le> js_round (fl x)"
  by (intro js_round_nonneg fl_nonneg)

text \<open>
  Sums and products of safe integers are the exact integers, so the models compute amounts that
  are whole minor units with \<^typ>\<open>int\<close> arithmetic.
\<close>

lemma js_add_int: "\<bar>a + b\<bar> \<le> max_safe \<Longrightarrow> js_add (of_int a) (of_int b) = of_int (a + b)"
  unfolding js_add_def of_int_add [symmetric] by (rule fl_int)

lemma js_mul_int: "\<bar>a * b\<bar> \<le> max_safe \<Longrightarrow> js_mul (of_int a) (of_int b) = of_int (a * b)"
  unfolding js_mul_def of_int_mult [symmetric] by (rule fl_int)

subsection \<open>Quotients of safe integers\<close>

text \<open>
  A rounded quotient of two safe integers never crosses an integer: it is at least \<open>c\<close> exactly
  when the exact quotient is. Comparing hours or days computed by a division of milliseconds is
  therefore exact to the millisecond.
\<close>

lemma fl_quotient_ge:
  assumes b: "0 < b" and a: "\<bar>a\<bar> < max_safe" and c: "\<bar>c\<bar> \<le> max_safe"
  shows "of_int c \<le> fl (of_int a / of_int b) \<longleftrightarrow> c * b \<le> a"
proof
  let ?q = "of_int a / of_int b :: rat"
  have b': "0 < (of_int b :: rat)" using b by simp
  { assume "c * b \<le> a"
    then have "(of_int (c * b) :: rat) \<le> of_int a" by (simp only: of_int_le_iff)
    with b' have "of_int c \<le> ?q" by (simp add: le_divide_eq)
    then show "of_int c \<le> fl ?q" using c by (rule fl_ge_int) }
  { assume ge: "of_int c \<le> fl ?q"
    show "c * b \<le> a"
    proof (rule ccontr)
      assume "\<not> c * b \<le> a"
      then have "a + 1 \<le> c * b" by simp
      then have "(of_int (a + 1) :: rat) \<le> of_int (c * b)" by (simp only: of_int_le_iff)
      with b' have gap: "?q + 1 / of_int b \<le> of_int c"
        by (simp add: add_divide_distrib [symmetric] divide_le_eq)
      have "fl ?q - ?q \<le> \<bar>?q\<bar> / of_int (2 ^ 53)" using fl_error [of ?q] by linarith
      also have "\<dots> = of_int \<bar>a\<bar> / of_int (2 ^ 53) * (1 / of_int b)"
        using b' by simp
      also have "\<dots> < 1 * (1 / of_int b)"
      proof (rule mult_strict_right_mono)
        have "(of_int \<bar>a\<bar> :: rat) < of_int (2 ^ 53)"
          using a unfolding of_int_less_iff max_safe_def by simp
        then show "of_int \<bar>a\<bar> / of_int (2 ^ 53) < (1 :: rat)" by simp
      qed (use b' in simp)
      finally show False using gap ge by linarith
    qed }
qed

lemma floor_fl_quotient:
  assumes b: "0 < b" and a: "\<bar>a\<bar> < max_safe"
  shows "\<lfloor>fl (of_int a / of_int b)\<rfloor> = a div b"
proof -
  have d: "a div b * b \<le> a" "a < (a div b + 1) * b"
    using b mult_div_mod_eq [of b a] pos_mod_bound [OF b, of a] pos_mod_sign [OF b, of a]
    by (simp_all add: algebra_simps, linarith+)
  have r: "\<bar>a div b\<bar> \<le> \<bar>a\<bar>"
  proof (cases "0 \<le> a")
    case True
    have "a div b \<le> a" using zdiv_mono2 [of a 1 b] True b by simp
    with True b show ?thesis by (simp add: pos_imp_zdiv_nonneg_iff)
  next
    case False
    have "a * b \<le> a * 1" using False b by (intro mult_left_mono_neg) auto
    then have "a \<le> a div b" using False b d(2)
      by (smt (verit) mult_less_cancel_right nonzero_mult_div_cancel_right zdiv_mono1)
    moreover have "a div b < 0" using False b by (simp add: pos_imp_zdiv_neg_iff)
    ultimately show ?thesis by simp
  qed
  show ?thesis
  proof (rule floor_unique)
    show "of_int (a div b) \<le> fl (of_int a / of_int b)"
      using fl_quotient_ge [OF b a, of "a div b"] r a d by simp
    have "\<not> of_int (a div b + 1) \<le> fl (of_int a / of_int b)"
      using fl_quotient_ge [OF b a, of "a div b + 1"] r a d by simp
    then show "fl (of_int a / of_int b) < of_int (a div b) + 1" by simp
  qed
qed

end
