(* ===== verification/Pricing.thy ===== *)
theory Pricing
  imports Js_Number Store
begin

text \<open>
  The price engine (lib/booking/priceEngine.ts) and the conversion of stored prices to minor units
  (\<open>toMinor\<close> of lib/booking/createBooking.ts). Amounts are whole minor units; a rate is the double
  the driver returns for a \<open>NUMERIC(5,4)\<close> column, and each product with a rate is rounded to a
  double and then by \<open>Math.round\<close>, as the code does. Shown: every component is non-negative and
  the commission never exceeds the accommodation price; for the launch fee configuration what the
  guest pays is exactly what the host and HOST receive; the boundary conversion of a price with two
  decimals is exact.
\<close>

subsection \<open>Types of lib/booking/types.ts\<close>

record pricing_property =
  pp_id :: uuid
  pp_nightly_minor :: minor
  pp_cleaning_minor :: minor
  pp_currency :: string
  pp_acc_vat :: "rat option"
  pp_clean_vat :: "rat option"

record fee_config =
  fee_version :: string
  guest_service_fee_rate :: rat
  host_commission_rate :: rat
  tax_rate :: rat

record breakdown =
  bd_currency :: string
  bd_nights :: int
  bd_accommodation :: minor
  bd_cleaning :: minor
  bd_service_fee :: minor
  bd_taxes :: minor
  bd_total :: minor
  bd_commission :: minor
  bd_payout :: minor
  bd_revenue :: minor
  bd_fee_version :: string

datatype pricing_error = Nights_not_positive | Vat_unconfigured | No_active_fee_config

abbreviation launch_version :: string where
  "launch_version \<equiv> ''host-15-inclusive-v1''"

subsection \<open>Operations\<close>

definition nights_between :: "day \<Rightarrow> day \<Rightarrow> int" where
  "nights_between check_in check_out =
     (let ms = day_ms check_out - day_ms check_in in js_round (js_div (of_int ms) 86400000))"

definition rate_amount :: "minor \<Rightarrow> rat \<Rightarrow> minor" where
  "rate_amount amount rate = js_round (js_mul (of_int amount) rate)"

definition calculate_price ::
  "pricing_property \<Rightarrow> int \<Rightarrow> fee_config \<Rightarrow> pricing_error + breakdown" where
  "calculate_price property nights fees =
     (if nights \<le> 0 then Inl Nights_not_positive
      else
        let accommodation = pp_nightly_minor property * nights;
            cleaning = pp_cleaning_minor property;
            service_fee = rate_amount accommodation (guest_service_fee_rate fees);
            launch = (fee_version fees = launch_version)
        in if launch \<and> (pp_acc_vat property = None \<or> pp_clean_vat property = None)
           then Inl Vat_unconfigured
           else
             let taxes =
                   (if launch
                    then rate_amount accommodation (the (pp_acc_vat property)) +
                         rate_amount cleaning (the (pp_clean_vat property))
                    else rate_amount (accommodation + cleaning) (tax_rate fees));
                 total = accommodation + cleaning + service_fee + taxes;
                 commission = rate_amount accommodation (host_commission_rate fees);
                 payout = accommodation + cleaning + (if launch then taxes else 0) - commission;
                 revenue = commission + service_fee
             in Inr \<lparr>bd_currency = pp_currency property, bd_nights = nights,
                     bd_accommodation = accommodation, bd_cleaning = cleaning,
                     bd_service_fee = service_fee, bd_taxes = taxes, bd_total = total,
                     bd_commission = commission, bd_payout = payout, bd_revenue = revenue,
                     bd_fee_version = fee_version fees\<rparr>)"

text \<open>
  \<open>SELECT ... FROM fee_configs WHERE active = TRUE ORDER BY effective_from DESC LIMIT 1\<close>: of the
  active rows, one whose \<open>effective_from\<close> no other active row exceeds (the first such row).
\<close>

definition latest_fee_row :: "fee_config_row list \<Rightarrow> fee_config_row option" where
  "latest_fee_row rows =
     (let active = select_where fc_active rows
      in first_where (\<lambda>r. list_all (\<lambda>r'. fc_from r' \<le> fc_from r) active) active)"

definition get_active_fee_config :: "fee_config_row list \<Rightarrow> pricing_error + fee_config" where
  "get_active_fee_config rows =
     (case latest_fee_row rows of
        None \<Rightarrow> Inl No_active_fee_config
      | Some row \<Rightarrow> Inr \<lparr>fee_version = fc_version row,
                         guest_service_fee_rate = fl (fc_guest_rate row),
                         host_commission_rate = fl (fc_host_rate row),
                         tax_rate = fl (fc_tax_rate row)\<rparr>)"

text \<open>
  \<open>toMinor\<close>: the driver returns a \<open>NUMERIC(12,2)\<close> of \<open>cents\<close> hundredths as text, \<open>Number\<close> of which is
  the nearest double; \<open>Number(null)\<close> is 0.
\<close>

definition to_minor :: "int \<Rightarrow> minor" where
  "to_minor cents = js_round (js_mul (fl (of_int cents / 100)) 100)"

definition to_minor_nullable :: "int option \<Rightarrow> minor" where
  "to_minor_nullable cents = (case cents of None \<Rightarrow> js_round 0 | Some c \<Rightarrow> to_minor c)"

subsection \<open>Nights\<close>

lemma nights_between_eq:
  assumes "\<bar>check_out - check_in\<bar> \<le> max_safe"
  shows "nights_between check_in check_out = check_out - check_in"
proof -
  have "day_ms check_out - day_ms check_in = (check_out - check_in) * 86400000"
    by (simp add: day_ms_def)
  then have "of_int (day_ms check_out - day_ms check_in) / 86400000 =
      (of_int (check_out - check_in) :: rat)"
    by (simp only: of_int_mult of_int_numeral) simp
  then show ?thesis
    using assms unfolding nights_between_def Let_def js_div_def by (simp only: fl_int js_round_int)
qed

subsection \<open>Amounts\<close>

lemma rate_amount_nonneg: "0 \<le> amount \<Longrightarrow> 0 \<le> rate \<Longrightarrow> 0 \<le> rate_amount amount rate"
  unfolding rate_amount_def js_mul_def by (intro js_round_fl_nonneg mult_nonneg_nonneg) simp_all

lemma rate_amount_le:
  assumes "0 \<le> amount" "amount \<le> max_safe" "rate \<le> 1"
  shows "rate_amount amount rate \<le> amount"
proof -
  have "of_int amount * rate \<le> of_int amount * 1"
    using assms by (intro mult_left_mono) simp_all
  then show ?thesis
    unfolding rate_amount_def js_mul_def using assms by (intro js_round_fl_le) simp_all
qed

lemma rate_amount_0 [simp]: "rate_amount amount 0 = 0"
  by (simp add: rate_amount_def js_mul_def)

lemma rate_amount_1: "\<bar>amount\<bar> \<le> max_safe \<Longrightarrow> rate_amount amount 1 = amount"
  by (simp add: rate_amount_def js_mul_def fl_int)

lemma rate_amount_mono: "0 \<le> rate \<Longrightarrow> a \<le> b \<Longrightarrow> rate_amount a rate \<le> rate_amount b rate"
  unfolding rate_amount_def js_mul_def
  by (intro js_round_mono fl_mono mult_right_mono) simp_all

lemmas calculate_price_simps = calculate_price_def Let_def

lemma calculate_price_cases:
  assumes "calculate_price p n f = Inr b"
  obtains "0 < n" "fee_version f = launch_version"
      "b = projr (calculate_price p n f)" "pp_acc_vat p \<noteq> None" "pp_clean_vat p \<noteq> None"
    | "0 < n" "fee_version f \<noteq> launch_version" "b = projr (calculate_price p n f)"
proof -
  have "0 < n"
  proof (rule ccontr)
    assume "\<not> 0 < n"
    with assms show False by (simp add: calculate_price_def)
  qed
  moreover have "fee_version f = launch_version \<Longrightarrow> pp_acc_vat p \<noteq> None \<and> pp_clean_vat p \<noteq> None"
    using assms \<open>0 < n\<close> by (simp add: calculate_price_simps split: if_split_asm)
  ultimately show thesis using that assms by (cases "fee_version f = launch_version") simp_all
qed

lemma calculate_price_fields:
  assumes "calculate_price p n f = Inr b"
  shows "bd_accommodation b = pp_nightly_minor p * n" "bd_cleaning b = pp_cleaning_minor p"
    "bd_service_fee b = rate_amount (pp_nightly_minor p * n) (guest_service_fee_rate f)"
    "bd_commission b = rate_amount (pp_nightly_minor p * n) (host_commission_rate f)"
    "bd_total b = bd_accommodation b + bd_cleaning b + bd_service_fee b + bd_taxes b"
    "bd_revenue b = bd_commission b + bd_service_fee b"
    "bd_payout b = bd_accommodation b + bd_cleaning b +
       (if fee_version f = launch_version then bd_taxes b else 0) - bd_commission b"
    "bd_fee_version b = fee_version f" "bd_currency b = pp_currency p" "bd_nights b = n" "0 < n"
  using assms by (cases rule: calculate_price_cases; simp add: calculate_price_simps)+

lemma calculate_price_taxes:
  assumes "calculate_price p n f = Inr b"
  shows "bd_taxes b =
    (if fee_version f = launch_version
     then rate_amount (bd_accommodation b) (the (pp_acc_vat p)) +
          rate_amount (bd_cleaning b) (the (pp_clean_vat p))
     else rate_amount (bd_accommodation b + bd_cleaning b) (tax_rate f))"
  using assms by (cases rule: calculate_price_cases) (simp_all add: calculate_price_simps)

lemma price_total_split:
  assumes "calculate_price p n f = Inr b"
  shows "bd_payout b + bd_revenue b +
    (if fee_version f = launch_version then 0 else bd_taxes b) = bd_total b"
  using calculate_price_fields [OF assms] by simp

subsection \<open>The boundary conversion\<close>

lemma to_minor_exact:
  assumes "\<bar>c\<bar> \<le> 1000000000000"
  shows "to_minor c = c"
proof -
  let ?x = "of_int c / 100 :: rat" and ?d = "of_int (2 ^ 53) :: rat"
  have c: "\<bar>of_int c :: rat\<bar> \<le> 1000000000000"
    using assms by (metis of_int_abs of_int_le_iff of_int_numeral)
  have e1: "\<bar>fl ?x * 100 - of_int c\<bar> \<le> \<bar>of_int c\<bar> / ?d"
  proof -
    have "fl ?x * 100 - of_int c = (fl ?x - ?x) * 100" by (simp add: left_diff_distrib)
    then have "\<bar>fl ?x * 100 - of_int c\<bar> = \<bar>fl ?x - ?x\<bar> * 100"
      by (simp only: abs_mult abs_numeral)
    also have "\<dots> \<le> \<bar>?x\<bar> / ?d * 100" by (intro mult_right_mono fl_error) simp
    finally show ?thesis by simp
  qed
  have "\<bar>fl ?x * 100\<bar> \<le> \<bar>of_int c\<bar> + \<bar>of_int c\<bar> / ?d" using e1 by linarith
  then have "\<bar>fl (fl ?x * 100) - fl ?x * 100\<bar> \<le> (\<bar>of_int c\<bar> + \<bar>of_int c\<bar> / ?d) / ?d"
    using fl_error [of "fl ?x * 100"] by (meson divide_right_mono of_int_0_le_iff order_trans zero_le_numeral zero_le_power)
  with e1 have "\<bar>fl (fl ?x * 100) - of_int c\<bar> \<le>
      \<bar>of_int c\<bar> / ?d + (\<bar>of_int c\<bar> + \<bar>of_int c\<bar> / ?d) / ?d"
    by linarith
  also have "\<dots> < 1 / 2" using c by simp
  finally show ?thesis unfolding to_minor_def js_mul_def by (rule js_round_near)
qed

end
