(* ===== verification/Cancellation.thy ===== *)
theory Cancellation
  imports Js_Number Store
begin

text \<open>
  The cancellation engine (lib/booking/cancellationEngine.ts): the hours left until check-in, the
  tier of the policy that applies, the refund of the guest and the part of the payout the host
  keeps. Shown: the comparison with a cutoff is exact to the millisecond, the refund and the
  retained payout stay within what was paid, a full refund leaves the host nothing and no refund
  leaves the host everything, and for an ordered policy cancelling later never refunds more.
\<close>

record outcome =
  oc_percent :: int
  oc_refundable :: minor
  oc_retained :: minor

definition mk_tier :: "int \<Rightarrow> int \<Rightarrow> tier" where
  "mk_tier c p = \<lparr>cutoff_hours = c, refund_percent = p\<rparr>"

definition standard_policies :: "string \<Rightarrow> tier list option" where
  "standard_policies =
     [''Flexible'' \<mapsto> [mk_tier 24 100, mk_tier 0 0],
      ''Moderate'' \<mapsto> [mk_tier 120 100, mk_tier 24 50, mk_tier 0 0],
      ''Strict'' \<mapsto> [mk_tier 336 50, mk_tier 0 0]]"

definition hours_until :: "day \<Rightarrow> millis \<Rightarrow> rat" where
  "hours_until check_in now = max 0 (js_div (of_int (day_ms check_in - now)) 3600000)"

fun refund_percent_for :: "tier list \<Rightarrow> rat \<Rightarrow> int" where
  "refund_percent_for [] h = 0"
| "refund_percent_for (t # ts) h =
     (if of_int (cutoff_hours t) \<le> h then refund_percent t else refund_percent_for ts h)"

definition percent_of :: "minor \<Rightarrow> int \<Rightarrow> minor" where
  "percent_of amount pct = js_round (js_div (of_int (amount * pct)) 100)"

definition calculate_cancellation ::
  "tier list \<Rightarrow> day \<Rightarrow> minor \<Rightarrow> minor \<Rightarrow> millis \<Rightarrow> outcome" where
  "calculate_cancellation rules check_in guest_total host_payout now =
     (let hours = hours_until check_in now;
          pct = refund_percent_for rules hours
      in \<lparr>oc_percent = pct,
          oc_refundable = percent_of guest_total pct,
          oc_retained = max 0 (percent_of host_payout (100 - pct))\<rparr>)"

subsection \<open>Percentages\<close>

lemma percent_of_nonneg: "0 \<le> amount \<Longrightarrow> 0 \<le> pct \<Longrightarrow> 0 \<le> percent_of amount pct"
  unfolding percent_of_def js_div_def by (intro js_round_fl_nonneg) simp

lemma percent_of_le:
  assumes "0 \<le> amount" "amount \<le> max_safe" "pct \<le> 100"
  shows "percent_of amount pct \<le> amount"
proof -
  have "amount * pct \<le> amount * 100" using assms by (intro mult_left_mono) simp_all
  then have "(of_int (amount * pct) :: rat) \<le> of_int (amount * 100)" by (simp only: of_int_le_iff)
  then have "of_int (amount * pct) / 100 \<le> (of_int amount :: rat)" by simp
  then show ?thesis
    unfolding percent_of_def js_div_def using assms by (intro js_round_fl_le) simp_all
qed

lemma percent_of_0 [simp]: "percent_of amount 0 = 0"
  by (simp add: percent_of_def js_div_def)

lemma percent_of_100: "\<bar>amount\<bar> \<le> max_safe \<Longrightarrow> percent_of amount 100 = amount"
  by (simp add: percent_of_def js_div_def fl_int)

lemma percent_of_mono:
  assumes "0 \<le> amount" "p \<le> q"
  shows "percent_of amount p \<le> percent_of amount q"
proof -
  have "amount * p \<le> amount * q" using assms by (intro mult_left_mono) simp_all
  then have "(of_int (amount * p) :: rat) \<le> of_int (amount * q)" by (simp only: of_int_le_iff)
  then show ?thesis
    unfolding percent_of_def js_div_def by (intro js_round_mono fl_mono divide_right_mono) simp_all
qed

subsection \<open>Tiers\<close>

definition percents_ok :: "tier list \<Rightarrow> bool" where
  "percents_ok ts \<longleftrightarrow> (\<forall>t \<in> set ts. 0 \<le> refund_percent t \<and> refund_percent t \<le> 100)"

text \<open>An ordered policy: along the list the cutoffs and the percentages do not increase.\<close>

fun ordered_policy :: "tier list \<Rightarrow> bool" where
  "ordered_policy [] = True"
| "ordered_policy [t] = True"
| "ordered_policy (t # u # ts) =
     (cutoff_hours u \<le> cutoff_hours t \<and> refund_percent u \<le> refund_percent t
      \<and> ordered_policy (u # ts))"

lemma refund_percent_range:
  "percents_ok ts \<Longrightarrow> 0 \<le> refund_percent_for ts h \<and> refund_percent_for ts h \<le> 100"
  by (induction ts h rule: refund_percent_for.induct) (auto simp: percents_ok_def)

lemma refund_percent_le_head:
  assumes "ordered_policy (t # ts)" "percents_ok (t # ts)"
  shows "refund_percent_for (t # ts) h \<le> refund_percent t"
  using assms
proof (induction ts arbitrary: t)
  case Nil
  then show ?case by (auto simp: percents_ok_def)
next
  case (Cons u us)
  then have "refund_percent_for (u # us) h \<le> refund_percent u"
    by (intro Cons.IH) (auto simp: percents_ok_def)
  then show ?case using Cons.prems by auto
qed

lemma refund_percent_mono:
  assumes "ordered_policy ts" "percents_ok ts" "h \<le> h'"
  shows "refund_percent_for ts h \<le> refund_percent_for ts h'"
  using assms
proof (induction ts)
  case (Cons t ts)
  have tail: "ordered_policy ts" "percents_ok ts"
    using Cons.prems by (cases ts; auto simp: percents_ok_def)+
  show ?case
  proof (cases "of_int (cutoff_hours t) \<le> h'")
    case True
    then show ?thesis
      using refund_percent_le_head [OF Cons.prems(1,2), of h] Cons.prems(3) by auto
  next
    case False
    then show ?thesis using Cons.IH [OF tail Cons.prems(3)] Cons.prems(3) by auto
  qed
qed simp

subsection \<open>Hours\<close>

lemma hours_until_mono: "now' \<le> now \<Longrightarrow> hours_until d now \<le> hours_until d now'"
  unfolding hours_until_def js_div_def
  by (intro max.mono order_refl fl_mono divide_right_mono) simp_all

lemma hours_until_ge_iff:
  assumes "0 < c" "c \<le> max_safe" "\<bar>day_ms d - now\<bar> < max_safe"
  shows "of_int c \<le> hours_until d now \<longleftrightarrow> now + c * ms_per_hour \<le> day_ms d"
proof -
  have "of_int c \<le> hours_until d now \<longleftrightarrow>
      of_int c \<le> fl (of_int (day_ms d - now) / of_int 3600000)"
    using assms(1) by (auto simp: hours_until_def js_div_def le_max_iff_disj)
  also have "\<dots> \<longleftrightarrow> c * 3600000 \<le> day_ms d - now"
    using assms by (intro fl_quotient_ge) auto
  finally show ?thesis by auto
qed

lemma hours_until_nonneg: "0 \<le> hours_until d now"
  by (simp add: hours_until_def)

subsection \<open>Outcomes\<close>

lemma calculate_cancellation_bounds:
  assumes "percents_ok rules" "0 \<le> paid" "paid \<le> max_safe" "0 \<le> payout" "payout \<le> max_safe"
    and r: "r = calculate_cancellation rules d paid payout now"
  shows "0 \<le> oc_refundable r" "oc_refundable r \<le> paid" "0 \<le> oc_retained r" "oc_retained r \<le> payout"
proof -
  let ?p = "refund_percent_for rules (hours_until d now)"
  have p: "0 \<le> ?p" "?p \<le> 100" using refund_percent_range [OF assms(1)] by auto
  then show "0 \<le> oc_refundable r" "oc_refundable r \<le> paid" "0 \<le> oc_retained r"
    "oc_retained r \<le> payout"
    using assms(2-5) unfolding r calculate_cancellation_def Let_def
    by (simp_all add: percent_of_nonneg percent_of_le)
qed

lemma calculate_cancellation_mono:
  assumes "ordered_policy rules" "percents_ok rules" "0 \<le> paid" "now' \<le> now"
  shows "oc_refundable (calculate_cancellation rules d paid payout now) \<le>
    oc_refundable (calculate_cancellation rules d paid payout now')"
  unfolding calculate_cancellation_def Let_def outcome.simps
  using assms by (intro percent_of_mono refund_percent_mono hours_until_mono) auto

lemma standard_policies_ordered:
  "standard_policies name = Some ts \<Longrightarrow> ordered_policy ts \<and> percents_ok ts"
  by (auto simp: standard_policies_def mk_tier_def percents_ok_def split: if_splits)

end
