(* ===== verification/Charge_Timing.thy ===== *)
theory Charge_Timing
  imports Js_Number Store
begin

text \<open>
  The timing decisions and the derived payment status of the delayed-charge flow (the pure functions
  of lib/payments/scheduledCharges.ts). Shown: the floor of the double division is the whole number
  of days left, so a deferred charge always lies strictly in the future and sixty days before
  check-in; reminder, grace period and expiry partition the time after a failed attempt.
\<close>

abbreviation scheduled_charge_threshold_days :: int where
  "scheduled_charge_threshold_days \<equiv> 60"

abbreviation grace_period_hours :: int where
  "grace_period_hours \<equiv> 72"

abbreviation reminder_after_hours :: int where
  "reminder_after_hours \<equiv> 24"

abbreviation execution_lease_seconds :: int where
  "execution_lease_seconds \<equiv> 120"

datatype guest_payment_status =
  Payment_method_required | Payment_method_saved | Payment_scheduled | Payment_attempting
  | Authentication_required | Payment_failed | Payment_grace_period | Payment_done
  | Cancelled_for_nonpayment

record charge_timing =
  ct_immediate :: bool
  ct_date :: "millis option"

definition decide_charge_timing :: "day \<Rightarrow> millis \<Rightarrow> charge_timing" where
  "decide_charge_timing check_in now =
     (let days_until = \<lfloor>js_div (of_int (day_ms check_in - now)) 86400000\<rfloor>
      in if scheduled_charge_threshold_days < days_until
         then \<lparr>ct_immediate = False,
               ct_date = Some (day_ms check_in - scheduled_charge_threshold_days * ms_per_day)\<rparr>
         else \<lparr>ct_immediate = True, ct_date = None\<rparr>)"

record status_input =
  si_has_method :: bool
  si_scheduled :: "millis option"
  si_latest :: "attempt_status option"
  si_succeeded :: bool
  si_grace_expires :: "millis option"
  si_cancelled :: bool

definition before :: "millis \<Rightarrow> millis option \<Rightarrow> bool" where
  "before now t = (case t of None \<Rightarrow> False | Some u \<Rightarrow> now < u)"

definition derive_guest_payment_status :: "status_input \<Rightarrow> millis \<Rightarrow> guest_payment_status" where
  "derive_guest_payment_status i now =
     (if si_cancelled i then Cancelled_for_nonpayment
      else if si_succeeded i then Payment_done
      else if si_latest i = Some At_requires_action then Authentication_required
      else if si_latest i = Some At_failed then
        (if before now (si_grace_expires i) then Payment_grace_period else Payment_failed)
      else if si_latest i = Some At_processing then Payment_attempting
      else if \<not> si_has_method i then Payment_method_required
      else if before now (si_scheduled i) then Payment_scheduled
      else Payment_method_saved)"

definition grace_expiry :: "millis \<Rightarrow> millis" where
  "grace_expiry failed_at = failed_at + grace_period_hours * 3600 * 1000"

definition is_grace_period_expired :: "millis \<Rightarrow> millis \<Rightarrow> bool" where
  "is_grace_period_expired failed_at now \<longleftrightarrow> grace_expiry failed_at \<le> now"

definition should_send_reminder :: "millis \<Rightarrow> millis \<Rightarrow> bool" where
  "should_send_reminder failed_at now \<longleftrightarrow>
     failed_at + reminder_after_hours * 3600 * 1000 \<le> now \<and> now < grace_expiry failed_at"

text \<open>
  \<open>computeGuestPaymentStatus\<close>: the facts of a booking row and of its latest attempt, for the guest's
  and the host's pages; \<open>None\<close> for a booking of the other flow.
\<close>

definition max_attempt_row :: "attempt list \<Rightarrow> attempt option" where
  "max_attempt_row rows =
     first_where (\<lambda>a. list_all (\<lambda>a'. pa_number a' \<le> pa_number a) rows) rows"

definition latest_attempt :: "uuid \<Rightarrow> store \<Rightarrow> attempt option" where
  "latest_attempt bk s = max_attempt_row (select_where (\<lambda>a. pa_booking a = bk) (attempts s))"

definition booking_status_input :: "booking \<Rightarrow> attempt option \<Rightarrow> status_input" where
  "booking_status_input b a =
     \<lparr>si_has_method = (b_payment_method b \<noteq> None), si_scheduled = b_scheduled b,
      si_latest = map_option pa_status a, si_succeeded = (b_status b = Confirmed),
      si_grace_expires = map_option (\<lambda>t. t + grace_period_hours * 3600 * 1000) (b_grace b),
      si_cancelled = (b_status b = Cancelled \<and> a = None)\<rparr>"

definition compute_guest_payment_status ::
  "booking \<Rightarrow> store \<Rightarrow> millis \<Rightarrow> guest_payment_status option" where
  "compute_guest_payment_status b s now =
     (if b_flow b \<noteq> Separate_charges_delayed_v1 then None
      else Some (derive_guest_payment_status (booking_status_input b (latest_attempt (b_id b) s)) now))"

subsection \<open>Properties of the decision\<close>

lemma days_until_exact:
  assumes "\<bar>day_ms check_in - now\<bar> < max_safe"
  shows "\<lfloor>js_div (of_int (day_ms check_in - now)) 86400000\<rfloor> = (day_ms check_in - now) div ms_per_day"
  using floor_fl_quotient [of ms_per_day "day_ms check_in - now"] assms by (simp add: js_div_def)

lemma immediate_iff:
  assumes "\<bar>day_ms check_in - now\<bar> < max_safe"
  shows "ct_immediate (decide_charge_timing check_in now) \<longleftrightarrow> day_ms (check_in - 61) < now"
proof -
  define D where "D = day_ms check_in - now"
  have "ct_immediate (decide_charge_timing check_in now) \<longleftrightarrow> D div ms_per_day < 61"
    using days_until_exact [OF assms] by (auto simp: decide_charge_timing_def Let_def D_def)
  also have "\<dots> \<longleftrightarrow> D < 61 * ms_per_day"
    using mult_div_mod_eq [of ms_per_day D] pos_mod_bound [of ms_per_day D]
      pos_mod_sign [of ms_per_day D] by linarith
  also have "\<dots> \<longleftrightarrow> day_ms (check_in - 61) < now"
    by (auto simp: D_def day_ms_def algebra_simps)
  finally show ?thesis .
qed

lemma deferred_date:
  assumes "\<bar>day_ms check_in - now\<bar> < max_safe" "\<not> ct_immediate (decide_charge_timing check_in now)"
  shows "ct_date (decide_charge_timing check_in now) = Some (day_ms (check_in - 60))"
    "now < day_ms (check_in - 60)"
proof -
  from assms(2) show "ct_date (decide_charge_timing check_in now) = Some (day_ms (check_in - 60))"
    by (auto simp: decide_charge_timing_def Let_def day_ms_def algebra_simps split: if_splits)
  from immediate_iff [OF assms(1)] assms(2) have "now \<le> day_ms (check_in - 61)" by simp
  then show "now < day_ms (check_in - 60)" by (simp add: day_ms_def)
qed

lemma immediate_date: "ct_date (decide_charge_timing d now) = None \<longleftrightarrow> ct_immediate (decide_charge_timing d now)"
  by (simp add: decide_charge_timing_def Let_def)

lemma reminder_before_expiry: "should_send_reminder f now \<Longrightarrow> \<not> is_grace_period_expired f now"
  by (simp add: should_send_reminder_def is_grace_period_expired_def)

lemma max_attempt_row_Some:
  assumes "max_attempt_row rows = Some a"
  shows "a \<in> set rows" "\<And>a'. a' \<in> set rows \<Longrightarrow> pa_number a' \<le> pa_number a"
  using first_where_Some [OF assms [unfolded max_attempt_row_def]] by (auto simp: list_all_iff)

lemma max_number_exists:
  "rows \<noteq> [] \<Longrightarrow> \<exists>a \<in> set rows. \<forall>a' \<in> set rows. pa_number a' \<le> pa_number a"
proof (induction rows)
  case (Cons r rows)
  show ?case
  proof (cases "rows = []")
    case False
    with Cons.IH obtain a where a: "a \<in> set rows" "\<forall>a' \<in> set rows. pa_number a' \<le> pa_number a"
      by blast
    show ?thesis
    proof (cases "pa_number r \<le> pa_number a")
      case True
      with a show ?thesis by auto
    next
      case False
      with a show ?thesis by (intro bexI [of _ r]) auto
    qed
  qed simp
qed simp

lemma max_attempt_row_None [simp]: "max_attempt_row rows = None \<longleftrightarrow> rows = []"
  using max_number_exists [of rows]
  by (auto simp: max_attempt_row_def first_where_None list_all_iff)

lemma latest_attempt_Some:
  assumes "latest_attempt bk s = Some a"
  shows "a \<in> set (attempts s)" "pa_booking a = bk"
    "\<And>a'. a' \<in> set (attempts s) \<Longrightarrow> pa_booking a' = bk \<Longrightarrow> pa_number a' \<le> pa_number a"
  using max_attempt_row_Some [OF assms [unfolded latest_attempt_def]] by auto

lemma latest_attempt_None:
  "latest_attempt bk s = None \<longleftrightarrow> (\<forall>a \<in> set (attempts s). pa_booking a \<noteq> bk)"
  by (simp add: latest_attempt_def select_where_def filter_empty_conv)

end
