(* ===== verification/Dates.thy ===== *)
theory Dates
  imports Prelude
begin

text \<open>
  The proleptic Gregorian calendar behind the ISO dates of the program. \<open>epoch_day y m d\<close> is the
  number of days from 1970-01-01 to a civil date (what \<open>Date.parse\<close> computes), \<open>civil_of_day\<close> its
  inverse (what \<open>toISOString\<close> and \<open>getUTCDate\<close> read off), \<open>iso_date\<close> and \<open>parse_iso\<close> the text
  \<open>YYYY-MM-DD\<close>. The theory shows that the three are inverse to each other and that the order of
  the texts is the order of the days, so the components model ISO dates by their day numbers.
\<close>

subsection \<open>Civil dates\<close>

definition leap_year :: "int \<Rightarrow> bool" where
  "leap_year y \<longleftrightarrow> 4 dvd y \<and> (\<not> 100 dvd y \<or> 400 dvd y)"

text \<open>Days from 0000-01-01 to the first of January of year \<open>y\<close>.\<close>

definition year_start :: "int \<Rightarrow> int" where
  "year_start y = 365 * y + (y + 3) div 4 - (y + 99) div 100 + (y + 399) div 400"

definition month_lengths :: "bool \<Rightarrow> int list" where
  "month_lengths leap =
     [31, if leap then 29 else 28, 31, 30, 31, 30, 31, 31, 30, 31, 30, 31]"

definition days_in_month :: "int \<Rightarrow> int \<Rightarrow> int" where
  "days_in_month y m = month_lengths (leap_year y) ! nat (m - 1)"

fun month_start :: "int list \<Rightarrow> int \<Rightarrow> int" where
  "month_start [] m = 0"
| "month_start (l # ls) m = (if m \<le> 1 then 0 else l + month_start ls (m - 1))"

fun split_month :: "int list \<Rightarrow> int \<Rightarrow> int \<times> int" where
  "split_month [] k = (1, k + 1)"
| "split_month (l # ls) k =
     (if k < l \<or> ls = [] then (1, k + 1)
      else let r = split_month ls (k - l) in (fst r + 1, snd r))"

text \<open>Days from 0000-01-01 to 1970-01-01.\<close>

abbreviation epoch_offset :: int where
  "epoch_offset \<equiv> 719528"

definition epoch_day :: "int \<Rightarrow> int \<Rightarrow> int \<Rightarrow> day" where
  "epoch_day y m d =
     year_start y + month_start (month_lengths (leap_year y)) m + d - 1 - epoch_offset"

definition year_of :: "int \<Rightarrow> int" where
  "year_of n =
     (let y = 400 * n div 146097
      in if year_start (y + 1) \<le> n then y + 1 else if n < year_start y then y - 1 else y)"

definition civil_of_day :: "day \<Rightarrow> int \<times> int \<times> int" where
  "civil_of_day z =
     (let n = z + epoch_offset; y = year_of n
      in (y, split_month (month_lengths (leap_year y)) (n - year_start y)))"

definition valid_civil :: "int \<Rightarrow> int \<Rightarrow> int \<Rightarrow> bool" where
  "valid_civil y m d \<longleftrightarrow> 1 \<le> m \<and> m \<le> 12 \<and> 1 \<le> d \<and> d \<le> days_in_month y m"

lemma div_bounds:
  fixes a k :: int
  assumes "0 < k"
  shows "k * (a div k) \<le> a" "a < k * (a div k) + k"
  using mult_div_mod_eq [of k a] pos_mod_bound [OF assms, of a] pos_mod_sign [OF assms, of a]
  by linarith+

lemma ceil_step:
  fixes y k :: int
  assumes "1 < k"
  shows "(y + k) div k = (y + (k - 1)) div k + (if k dvd y then 1 else 0)"
proof -
  define q r where "q = y div k" and "r = y mod k"
  have y: "y = k * q + r" and r: "0 \<le> r" "r < k"
    using assms by (simp_all add: q_def r_def)
  have "(y + k) div k = q + 1" using assms by (simp add: q_def)
  moreover have "(y + (k - 1)) div k = q + (r + (k - 1)) div k"
    using assms unfolding y by (simp add: add.assoc)
  moreover have "(r + (k - 1)) div k = (if r = 0 then 0 else 1)"
    using r assms by (auto intro!: int_div_pos_eq [where r = "r - 1"])
  moreover have "k dvd y \<longleftrightarrow> r = 0" by (auto simp: r_def)
  ultimately show ?thesis by simp
qed

lemma year_start_step: "year_start (y + 1) = year_start y + (if leap_year y then 366 else 365)"
proof -
  have d: "400 dvd y \<Longrightarrow> 100 dvd y" "100 dvd y \<Longrightarrow> 4 dvd y"
    by (rule dvd_trans [rotated], assumption, simp)+
  have e: "y + 1 + 3 = y + 4" "y + 1 + 99 = y + 100" "y + 1 + 399 = y + 400" by simp_all
  define a b c where "a = (y + 3) div 4" and "b = (y + 99) div 100" and "c = (y + 399) div 400"
  have "(y + 4) div 4 = a + (if 4 dvd y then 1 else 0)"
    "(y + 100) div 100 = b + (if 100 dvd y then 1 else 0)"
    "(y + 400) div 400 = c + (if 400 dvd y then 1 else 0)"
    using ceil_step [of 4 y] ceil_step [of 100 y] ceil_step [of 400 y]
    unfolding a_def b_def c_def by simp_all
  then have "year_start (y + 1) = 365 * (y + 1) + (a + (if 4 dvd y then 1 else 0))
      - (b + (if 100 dvd y then 1 else 0)) + (c + (if 400 dvd y then 1 else 0))"
    unfolding year_start_def e by (simp only:)
  moreover have "year_start y = 365 * y + a - b + c"
    by (simp only: year_start_def a_def b_def c_def)
  ultimately have "year_start (y + 1) = year_start y + 365 + (if 4 dvd y then 1 else 0)
      - (if 100 dvd y then 1 else 0) + (if 400 dvd y then 1 else 0)"
    by (simp only: distrib_left)
  then show ?thesis
    using d by (cases "4 dvd y"; cases "100 dvd y"; cases "400 dvd y") (simp_all add: leap_year_def)
qed

lemma year_start_mono: "a \<le> b \<Longrightarrow> year_start a \<le> year_start b"
proof (induction "nat (b - a)" arbitrary: b)
  case 0
  then show ?case by simp
next
  case (Suc k)
  then have "year_start a \<le> year_start (b - 1)" by (intro Suc.hyps(1)) auto
  also have "\<dots> \<le> year_start b" using year_start_step [of "b - 1"] by (simp split: if_splits)
  finally show ?case .
qed

lemma year_start_bounds:
  "146097 * y - 396 \<le> 400 * year_start y \<and> 400 * year_start y \<le> 146097 * y + 699"
proof -
  define a b c where "a = (y + 3) div 4" and "b = (y + 99) div 100" and "c = (y + 399) div 400"
  have "y \<le> 4 * a" "4 * a \<le> y + 3" "y \<le> 100 * b" "100 * b \<le> y + 99"
    "y \<le> 400 * c" "400 * c \<le> y + 399"
    using div_bounds [of 4 "y + 3"] div_bounds [of 100 "y + 99"] div_bounds [of 400 "y + 399"]
    by (simp_all add: a_def b_def c_def)
  then have "146097 * y - 396 \<le> 400 * (365 * y + a - b + c)"
    "400 * (365 * y + a - b + c) \<le> 146097 * y + 699"
    by simp_all
  then show ?thesis by (simp add: year_start_def a_def b_def c_def)
qed

lemma year_of_bounds: "year_start (year_of n) \<le> n" "n < year_start (year_of n + 1)"
proof -
  define y where "y = 400 * n div 146097"
  have y: "146097 * y \<le> 400 * n" "400 * n < 146097 * (y + 1)"
    unfolding y_def using div_bounds [of 146097 "400 * n"] by simp_all
  have lo: "year_start (y - 1) \<le> n"
    using year_start_bounds [of "y - 1"] y(1) by simp
  have hi: "n < year_start (y + 2)"
    using year_start_bounds [of "y + 2"] y(2) by simp
  have e: "year_of n = (if year_start (y + 1) \<le> n then y + 1 else if n < year_start y then y - 1 else y)"
    by (simp add: year_of_def y_def)
  show "year_start (year_of n) \<le> n" using lo by (simp add: e)
  show "n < year_start (year_of n + 1)"
    using hi year_start_mono [of y "y + 1"] by (auto simp: e add.assoc)
qed

lemma year_of_unique:
  assumes "year_start y \<le> n" "n < year_start (y + 1)"
  shows "year_of n = y"
proof (rule antisym)
  show "year_of n \<le> y"
  proof (rule ccontr)
    assume "\<not> year_of n \<le> y"
    then have "year_start (y + 1) \<le> year_start (year_of n)" by (intro year_start_mono) simp
    with year_of_bounds(1) [of n] assms(2) show False by linarith
  qed
  show "y \<le> year_of n"
  proof (rule ccontr)
    assume "\<not> y \<le> year_of n"
    then have "year_start (year_of n + 1) \<le> year_start y" by (intro year_start_mono) simp
    with year_of_bounds(2) [of n] assms(1) show False by linarith
  qed
qed

subsection \<open>Months\<close>

lemma nth_shift: "1 < m \<Longrightarrow> (l # ls) ! nat (m - 1) = ls ! nat (m - 1 - 1)"
proof -
  assume "1 < m"
  then have "nat (m - 1) = Suc (nat (m - 1 - 1))" by arith
  then show ?thesis by simp
qed

lemma split_month_bounds:
  assumes "ls \<noteq> []" "\<forall>l \<in> set ls. 0 < l" "0 \<le> k" "k < sum_list ls"
  shows "1 \<le> fst (split_month ls k)" "fst (split_month ls k) \<le> int (length ls)"
    "1 \<le> snd (split_month ls k)" "snd (split_month ls k) \<le> ls ! nat (fst (split_month ls k) - 1)"
    "month_start ls (fst (split_month ls k)) + snd (split_month ls k) = k + 1"
  using assms
proof (induction ls k rule: split_month.induct)
  case (2 l ls k)
  { case 1 then show ?case using "2.IH"(1) by (auto simp: Let_def) }
  { case 2 then show ?case using "2.IH"(2) by (auto simp: Let_def) }
  { case 3 then show ?case using "2.IH"(3) by (auto simp: Let_def) }
  { case 4
    show ?case
    proof (cases "k < l \<or> ls = []")
      case False
      let ?m = "fst (split_month ls (k - l))"
      from False 4 have h: "1 \<le> ?m" "snd (split_month ls (k - l)) \<le> ls ! nat (?m - 1)"
        using "2.IH"(1,4) by auto
      have "(l # ls) ! nat (?m + 1 - 1) = ls ! nat (?m - 1)"
        using nth_shift [of "?m + 1" l ls] h(1) by simp
      with h(2) False show ?thesis by (simp add: Let_def)
    qed (use 4 in auto) }
  { case 5 then show ?case using "2.IH"(1,5) by (auto simp: Let_def) }
qed simp_all

lemma month_start_nonneg: "\<forall>l \<in> set ls. 0 < l \<Longrightarrow> 0 \<le> month_start ls m"
  by (induction ls m rule: month_start.induct) auto

lemma split_month_start:
  assumes "\<forall>l \<in> set ls. 0 < l" "1 \<le> m" "m \<le> int (length ls)" "1 \<le> d" "d \<le> ls ! nat (m - 1)"
  shows "split_month ls (month_start ls m + d - 1) = (m, d)"
  using assms
proof (induction ls m rule: month_start.induct)
  case (2 l ls m)
  show ?case
  proof (cases "m = 1")
    case True
    with "2.prems" show ?thesis by auto
  next
    case False
    with "2.prems" have m: "1 < m" and ls: "ls \<noteq> []" by auto
    have pos: "0 \<le> month_start ls (m - 1)"
      using "2.prems"(1) by (intro month_start_nonneg) auto
    have "d \<le> ls ! nat (m - 1 - 1)"
      using "2.prems"(5) unfolding nth_shift [OF m] .
    then have "split_month ls (month_start ls (m - 1) + d - 1) = (m - 1, d)"
      using m "2.prems" by (intro "2.IH") simp_all
    with m ls pos "2.prems"(4) show ?thesis by (simp add: algebra_simps)
  qed
qed simp

lemma month_lengths_props:
  "month_lengths b \<noteq> []" "\<forall>l \<in> set (month_lengths b). 0 < l" "length (month_lengths b) = 12"
  "sum_list (month_lengths b) = (if b then 366 else 365)"
  by (auto simp: month_lengths_def)

lemma month_day_in_year:
  assumes "valid_civil y m d"
  shows "0 \<le> month_start (month_lengths (leap_year y)) m + d - 1"
    "month_start (month_lengths (leap_year y)) m + d - 1 < (if leap_year y then 366 else 365)"
proof -
  have m: "m \<in> {1, 2, 3, 4, 5, 6, 7, 8, 9, 10, 11, 12}"
    using assms unfolding valid_civil_def insert_iff empty_iff by presburger
  with assms show "0 \<le> month_start (month_lengths (leap_year y)) m + d - 1"
    "month_start (month_lengths (leap_year y)) m + d - 1 < (if leap_year y then 366 else 365)"
    by (auto simp: valid_civil_def days_in_month_def month_lengths_def)
qed

subsection \<open>The two conversions are inverse to each other\<close>

lemma civil_of_epoch_day:
  assumes "valid_civil y m d"
  shows "civil_of_day (epoch_day y m d) = (y, m, d)"
proof -
  let ?ls = "month_lengths (leap_year y)"
  have n: "epoch_day y m d + epoch_offset = year_start y + (month_start ?ls m + d - 1)"
    by (simp add: epoch_day_def)
  have y: "year_of (year_start y + (month_start ?ls m + d - 1)) = y"
    using month_day_in_year [OF assms] by (intro year_of_unique) (auto simp: year_start_step)
  have "split_month ?ls (month_start ?ls m + d - 1) = (m, d)"
    using assms by (intro split_month_start)
      (auto simp: valid_civil_def days_in_month_def month_lengths_props)
  then show ?thesis unfolding civil_of_day_def n Let_def y by simp
qed

lemma epoch_day_of_civil:
  assumes "civil_of_day z = (y, m, d)"
  shows "valid_civil y m d" "epoch_day y m d = z"
proof -
  let ?n = "z + epoch_offset" and ?ls = "month_lengths (leap_year y)"
  have y: "year_of ?n = y" and md: "split_month ?ls (?n - year_start y) = (m, d)"
    using assms by (auto simp: civil_of_day_def Let_def)
  have k: "0 \<le> ?n - year_start y" "?n - year_start y < sum_list ?ls"
    using year_of_bounds [of ?n] by (auto simp: y year_start_step month_lengths_props)
  note b = split_month_bounds [OF month_lengths_props(1,2) k, unfolded md fst_conv snd_conv]
  show "valid_civil y m d"
    using b by (auto simp: valid_civil_def days_in_month_def month_lengths_props)
  show "epoch_day y m d = z" using b(5) by (simp add: epoch_day_def)
qed

lemma civil_of_day_inj: "civil_of_day a = civil_of_day b \<Longrightarrow> a = b"
  by (metis epoch_day_of_civil(2) prod_cases3)

end
