(* ===== verification/Js_String.thy ===== *)
theory Js_String
  imports Prelude
begin

text \<open>
  JavaScript strings as far as the code uses them. A string is a list of code units below 256, so
  the library's \<^typ>\<open>char\<close> is a code unit; the texts the program handles (dates, addresses, iCalendar
  syntax, identifiers) are in that range. The operations are those of \<open>String.prototype\<close> that occur
  in the sources, with the language's own definition of white space.
\<close>

type_synonym js_string = string

subsection \<open>Characters\<close>

abbreviation code :: "char \<Rightarrow> nat" where
  "code c \<equiv> of_char c"

definition js_space :: "char \<Rightarrow> bool" where
  "js_space c \<longleftrightarrow> (9 \<le> code c \<and> code c \<le> 13) \<or> code c = 32 \<or> code c = 160"

definition is_digit :: "char \<Rightarrow> bool" where
  "is_digit c \<longleftrightarrow> 48 \<le> code c \<and> code c \<le> 57"

definition digit_value :: "char \<Rightarrow> int" where
  "digit_value c = int (code c) - 48"

definition digit_char :: "int \<Rightarrow> char" where
  "digit_char n = char_of (nat (48 + n))"

definition upper_char :: "char \<Rightarrow> char" where
  "upper_char c = (if 97 \<le> code c \<and> code c \<le> 122 then char_of (code c - 32) else c)"

definition lower_char :: "char \<Rightarrow> char" where
  "lower_char c = (if 65 \<le> code c \<and> code c \<le> 90 then char_of (code c + 32) else c)"

lemma code_digit_char: "0 \<le> n \<Longrightarrow> n \<le> 9 \<Longrightarrow> code (digit_char n) = nat (48 + n)"
  by (simp add: digit_char_def take_bit_eq_mod of_char_of)

lemma digit_char_props:
  assumes "0 \<le> n" "n \<le> 9"
  shows "is_digit (digit_char n)" "digit_value (digit_char n) = n"
proof -
  have "nat (48 + n) = 48 + nat n" using assms by (simp add: nat_add_distrib)
  then show "is_digit (digit_char n)" "digit_value (digit_char n) = n"
    using code_digit_char [OF assms] assms by (auto simp: is_digit_def digit_value_def)
qed

lemma digit_value_range: "is_digit c \<Longrightarrow> 0 \<le> digit_value c \<and> digit_value c \<le> 9"
  by (auto simp: is_digit_def digit_value_def)

lemma digit_char_value: "is_digit c \<Longrightarrow> digit_char (digit_value c) = c"
  by (auto simp: is_digit_def digit_value_def digit_char_def)

subsection \<open>String operations\<close>

definition trim_start :: "js_string \<Rightarrow> js_string" where
  "trim_start s = dropWhile js_space s"

definition trim_end :: "js_string \<Rightarrow> js_string" where
  "trim_end s = rev (dropWhile js_space (rev s))"

definition js_trim :: "js_string \<Rightarrow> js_string" where
  "js_trim s = trim_start (trim_end s)"

definition to_upper :: "js_string \<Rightarrow> js_string" where
  "to_upper s = map upper_char s"

definition to_lower :: "js_string \<Rightarrow> js_string" where
  "to_lower s = map lower_char s"

definition starts_with :: "js_string \<Rightarrow> js_string \<Rightarrow> bool" where
  "starts_with p s \<longleftrightarrow> take (length p) s = p"

definition ends_with :: "js_string \<Rightarrow> js_string \<Rightarrow> bool" where
  "ends_with p s \<longleftrightarrow> length p \<le> length s \<and> drop (length s - length p) s = p"

fun js_includes :: "js_string \<Rightarrow> js_string \<Rightarrow> bool" where
  "js_includes p [] = (p = [])"
| "js_includes p (c # s) = (starts_with p (c # s) \<or> js_includes p s)"

fun index_of :: "char \<Rightarrow> js_string \<Rightarrow> nat option" where
  "index_of c [] = None"
| "index_of c (x # s) = (if x = c then Some 0 else map_option Suc (index_of c s))"

text \<open>\<open>s.split(c)\<close> for a one-character separator: never empty, one part more than separators.\<close>

fun split_on :: "char \<Rightarrow> js_string \<Rightarrow> js_string list" where
  "split_on c [] = [[]]"
| "split_on c (x # s) =
     (if x = c then [] # split_on c s
      else case split_on c s of [] \<Rightarrow> [[x]] | p # ps \<Rightarrow> (x # p) # ps)"

fun join_with :: "js_string \<Rightarrow> js_string list \<Rightarrow> js_string" where
  "join_with sep [] = []"
| "join_with sep [p] = p"
| "join_with sep (p # q # ps) = p @ sep @ join_with sep (q # ps)"

text \<open>\<open>Buffer.byteLength(s, "utf8")\<close>: one byte for ASCII, two for the code units from 128 to 255.\<close>

definition utf8_length :: "js_string \<Rightarrow> nat" where
  "utf8_length s = sum_list (map (\<lambda>c. if code c < 128 then 1 else 2) s)"

text \<open>The order of \<open><\<close> on strings: the first differing code unit decides, a prefix comes first.\<close>

fun str_less :: "js_string \<Rightarrow> js_string \<Rightarrow> bool" where
  "str_less [] t = (t \<noteq> [])"
| "str_less (x # s) [] = False"
| "str_less (x # s) (y # t) = (code x < code y \<or> x = y \<and> str_less s t)"

subsection \<open>Facts\<close>

lemma length_utf8: "length s \<le> utf8_length s"
  by (induction s) (auto simp: utf8_length_def)

lemma split_on_nonempty [simp]: "split_on c s \<noteq> []"
  by (induction s) (auto split: list.splits)

lemma split_on_no_sep: "\<forall>p \<in> set (split_on c s). c \<notin> set p"
proof (induction s)
  case (Cons x s)
  then show ?case by (cases "split_on c s") auto
qed simp

lemma split_on_join:
  assumes "ps \<noteq> []" "\<forall>p \<in> set ps. c \<notin> set p"
  shows "split_on c (join_with [c] ps) = ps"
proof -
  have plain: "c \<notin> set p \<Longrightarrow> split_on c p = [p]" for p
    by (induction p) auto
  have front: "c \<notin> set p \<Longrightarrow> split_on c (p @ c # s) = p # split_on c s" for p s
    by (induction p) auto
  show ?thesis
    using assms by (induction "[c]" ps rule: join_with.induct) (auto simp: plain front)
qed

lemma trim_end_id: "s = [] \<or> \<not> js_space (last s) \<Longrightarrow> trim_end s = s"
  by (cases s rule: rev_cases) (auto simp: trim_end_def)

lemma trim_start_id: "s = [] \<or> \<not> js_space (hd s) \<Longrightarrow> trim_start s = s"
  by (cases s) (auto simp: trim_start_def)

lemma js_trim_id: "s = [] \<or> \<not> js_space (hd s) \<and> \<not> js_space (last s) \<Longrightarrow> js_trim s = s"
  by (auto simp: js_trim_def trim_start_id trim_end_id)

lemma str_less_irrefl [simp]: "\<not> str_less s s"
  by (induction s) auto

lemma str_less_trans: "str_less a b \<Longrightarrow> str_less b c \<Longrightarrow> str_less a c"
proof (induction a b arbitrary: c rule: str_less.induct)
  case (1 t)
  then show ?case by (cases c; cases t) auto
next
  case (3 x s y t)
  then show ?case by (cases c) auto
qed simp

lemma str_less_linear: "str_less a b \<or> a = b \<or> str_less b a"
proof (induction a b rule: str_less.induct)
  case (3 x s y t)
  have "code x < code y \<or> x = y \<or> code y < code x"
    using linorder_less_linear [of "code x" "code y"] by auto
  with 3 show ?case by auto
qed auto

lemma str_less_append:
  "length a = length b \<Longrightarrow>
    str_less (a @ c) (b @ d) \<longleftrightarrow> str_less a b \<or> a = b \<and> str_less c d"
  by (induction a b rule: list_induct2) auto

lemma starts_with_append [simp]: "starts_with p (p @ s)"
  by (simp add: starts_with_def)

lemma ends_with_append [simp]: "ends_with p (s @ p)"
  by (simp add: ends_with_def)

lemma ends_with_iff: "ends_with p s \<longleftrightarrow> (\<exists>t. s = t @ p)"
proof
  assume "ends_with p s"
  then have "s = take (length s - length p) s @ p"
    by (metis append_take_drop_id ends_with_def)
  then show "\<exists>t. s = t @ p" by blast
qed auto

end
