(* ===== verification/Iso_Date.thy ===== *)
theory Iso_Date
  imports Dates Js_String
begin

text \<open>
  The ISO text \<open>YYYY-MM-DD\<close> of a date: \<open>iso_date\<close> is \<open>toISOString().slice(0, 10)\<close>, \<open>parse_ymd\<close> reads
  the three numbers off a text of that shape and \<open>js_date_utc\<close> is the constructor
  \<open>new Date("YYYY-MM-DDT00:00:00Z")\<close>, which accepts the days 1 to 31 of every month and carries the
  surplus over. The texts of the years 0 to 9999 are in order-preserving bijection with the days
  (\<open>iso_date_inj\<close>, \<open>iso_date_less\<close>), which is why the other components keep dates as day numbers.
\<close>

definition pad2 :: "int \<Rightarrow> js_string" where
  "pad2 n = [digit_char (n div 10 mod 10), digit_char (n mod 10)]"

definition pad4 :: "int \<Rightarrow> js_string" where
  "pad4 n = pad2 (n div 100) @ pad2 (n mod 100)"

definition iso_text :: "int \<Rightarrow> int \<Rightarrow> int \<Rightarrow> js_string" where
  "iso_text y m d = pad4 y @ ''-'' @ pad2 m @ ''-'' @ pad2 d"

definition iso_date :: "day \<Rightarrow> js_string" where
  "iso_date z = (case civil_of_day z of (y, m, d) \<Rightarrow> iso_text y m d)"

definition four_digit_year :: "day \<Rightarrow> bool" where
  "four_digit_year z \<longleftrightarrow> 0 \<le> fst (civil_of_day z) \<and> fst (civil_of_day z) \<le> 9999"

fun digits_value :: "js_string \<Rightarrow> int \<Rightarrow> int" where
  "digits_value [] acc = acc"
| "digits_value (c # s) acc = digits_value s (10 * acc + digit_value c)"

text \<open>The texts matched by \<open>/^\d{4}-\d{2}-\d{2}$/\<close>, with the numbers they spell.\<close>

definition parse_ymd :: "js_string \<Rightarrow> (int \<times> int \<times> int) option" where
  "parse_ymd s =
     (if length s = 10 \<and> s ! 4 = CHR ''-'' \<and> s ! 7 = CHR ''-''
         \<and> list_all is_digit (take 4 s) \<and> list_all is_digit (take 2 (drop 5 s))
         \<and> list_all is_digit (drop 8 s)
      then Some (digits_value (take 4 s) 0, digits_value (take 2 (drop 5 s)) 0,
                 digits_value (drop 8 s) 0)
      else None)"

definition js_date_utc :: "int \<Rightarrow> int \<Rightarrow> int \<Rightarrow> millis option" where
  "js_date_utc y m d =
     (if 1 \<le> m \<and> m \<le> 12 \<and> 1 \<le> d \<and> d \<le> 31 then Some (day_ms (epoch_day y m 1 + d - 1)) else None)"

subsection \<open>The digits of a number\<close>

lemma length_pad [simp]: "length (pad2 n) = 2" "length (pad4 n) = 4"
  by (simp_all add: pad2_def pad4_def)

lemma pad2_digits: "list_all is_digit (pad2 n)"
  by (simp add: pad2_def digit_char_props)

lemma pad4_digits: "list_all is_digit (pad4 n)"
  by (simp add: pad4_def pad2_digits)

lemma digit_not_dash: "is_digit c \<Longrightarrow> c \<noteq> CHR ''-''" "is_digit c \<Longrightarrow> \<not> js_space c"
  by (auto simp: is_digit_def js_space_def)

lemma digits_trim: "list_all is_digit s \<Longrightarrow> js_trim s = s"
  by (rule js_trim_id) (cases s; auto simp: digit_not_dash list_all_iff dest: last_in_set)

lemma pad2_value: "0 \<le> n \<Longrightarrow> n < 100 \<Longrightarrow> digits_value (pad2 n) acc = 100 * acc + n"
  by (simp add: pad2_def digit_char_props(2))

lemma digits_value_append: "digits_value (s @ t) acc = digits_value t (digits_value s acc)"
  by (induction s arbitrary: acc) auto

lemma pad4_value: "0 \<le> n \<Longrightarrow> n < 10000 \<Longrightarrow> digits_value (pad4 n) 0 = n"
  by (simp add: pad4_def digits_value_append pad2_value)

lemma div_mod_split:
  fixes h l :: int
  assumes "0 \<le> l" "l < 100"
  shows "(100 * h + l) div 100 = h" "(100 * h + l) mod 100 = l"
  using assms by simp_all

lemma place_value_less:
  fixes a b k :: int
  assumes "0 < k"
  shows "a < b \<longleftrightarrow> a div k < b div k \<or> a div k = b div k \<and> a mod k < b mod k"
proof -
  have "a div k < b div k \<Longrightarrow> a < b"
    using assms zdiv_mono1 [of b a k] by (meson linorder_not_less)
  moreover have "b div k < a div k \<Longrightarrow> \<not> a < b"
    using assms zdiv_mono1 [of a b k] by (meson less_imp_le linorder_not_less)
  moreover have "a div k = b div k \<Longrightarrow> a < b \<longleftrightarrow> a mod k < b mod k"
    using div_mult_mod_eq [of a k] div_mult_mod_eq [of b k] by (metis add_less_cancel_left)
  ultimately show ?thesis using linorder_less_linear [of "a div k" "b div k"] by blast
qed

lemma pad2_of_digits:
  assumes "is_digit a" "is_digit b"
  shows "pad2 (digits_value [a, b] 0) = [a, b]"
proof -
  have r: "0 \<le> digit_value a" "digit_value a \<le> 9" "0 \<le> digit_value b" "digit_value b \<le> 9"
    using assms digit_value_range by blast+
  then have "(10 * digit_value a + digit_value b) div 10 = digit_value a"
    "(10 * digit_value a + digit_value b) mod 10 = digit_value b" by simp_all
  with r assms show ?thesis by (simp add: pad2_def digit_char_value)
qed

lemma pad4_of_digits:
  assumes "is_digit a" "is_digit b" "is_digit c" "is_digit d"
  shows "pad4 (digits_value [a, b, c, d] 0) = [a, b, c, d]"
proof -
  let ?h = "digits_value [a, b] 0" and ?l = "digits_value [c, d] 0"
  have r: "0 \<le> digit_value c" "digit_value c \<le> 9" "0 \<le> digit_value d" "digit_value d \<le> 9"
    using assms digit_value_range by blast+
  have v: "digits_value [a, b, c, d] 0 = 100 * ?h + ?l" by simp
  have "0 \<le> ?l" "?l < 100" using r by simp_all
  then have "(100 * ?h + ?l) div 100 = ?h" "(100 * ?h + ?l) mod 100 = ?l"
    by (rule div_mod_split)+
  then show ?thesis
    unfolding pad4_def v using pad2_of_digits [OF assms(1,2)] pad2_of_digits [OF assms(3,4)]
    by simp
qed

lemma digit_char_inj:
  "0 \<le> i \<Longrightarrow> i \<le> 9 \<Longrightarrow> 0 \<le> j \<Longrightarrow> j \<le> 9 \<Longrightarrow> digit_char i = digit_char j \<longleftrightarrow> i = j"
  by (metis digit_char_props(2))

lemma digit_pair_less:
  assumes "0 \<le> i" "i \<le> 9" "0 \<le> j" "j \<le> 9" "0 \<le> k" "k \<le> 9" "0 \<le> l" "l \<le> 9"
  shows "str_less [digit_char i, digit_char j] [digit_char k, digit_char l] \<longleftrightarrow>
    i < k \<or> i = k \<and> j < l"
  using assms by (simp add: code_digit_char digit_char_inj nat_less_eq_zless)

lemma digit_range:
  fixes a :: int
  shows "0 \<le> a mod 10" "a mod 10 \<le> 9"
  using pos_mod_bound [of 10 a] by simp_all

lemma pad2_less:
  assumes "0 \<le> a" "a < 100" "0 \<le> b" "b < 100"
  shows "str_less (pad2 a) (pad2 b) \<longleftrightarrow> a < b"
proof -
  have m: "a div 10 mod 10 = a div 10" "b div 10 mod 10 = b div 10" using assms by simp_all
  have "str_less (pad2 a) (pad2 b) \<longleftrightarrow>
      a div 10 mod 10 < b div 10 mod 10 \<or> a div 10 mod 10 = b div 10 mod 10 \<and> a mod 10 < b mod 10"
    unfolding pad2_def by (rule digit_pair_less) (rule digit_range)+
  also have "\<dots> \<longleftrightarrow> a < b"
    unfolding m by (rule place_value_less [symmetric]) simp
  finally show ?thesis .
qed

lemma pad2_inj: "0 \<le> a \<Longrightarrow> a < 100 \<Longrightarrow> 0 \<le> b \<Longrightarrow> b < 100 \<Longrightarrow> pad2 a = pad2 b \<longleftrightarrow> a = b"
  by (metis pad2_value add_left_cancel)

lemma pad4_inj: "0 \<le> a \<Longrightarrow> a < 10000 \<Longrightarrow> 0 \<le> b \<Longrightarrow> b < 10000 \<Longrightarrow> pad4 a = pad4 b \<longleftrightarrow> a = b"
  by (metis pad4_value)

lemma pad4_less:
  assumes "0 \<le> a" "a < 10000" "0 \<le> b" "b < 10000"
  shows "str_less (pad4 a) (pad4 b) \<longleftrightarrow> a < b"
proof -
  have h: "0 \<le> a div 100" "a div 100 < 100" "0 \<le> b div 100" "b div 100 < 100"
    "0 \<le> a mod 100" "a mod 100 < 100" "0 \<le> b mod 100" "b mod 100 < 100"
    using assms pos_mod_bound [of 100 a] pos_mod_bound [of 100 b] by simp_all
  have "str_less (pad4 a) (pad4 b) \<longleftrightarrow>
      a div 100 < b div 100 \<or> a div 100 = b div 100 \<and> a mod 100 < b mod 100"
    unfolding pad4_def str_less_append [OF trans [OF length_pad(1) length_pad(1) [symmetric]]]
      pad2_less [OF h(1-4)] pad2_less [OF h(5-8)] pad2_inj [OF h(1-4)] ..
  also have "\<dots> \<longleftrightarrow> a < b"
    by (rule place_value_less [symmetric]) simp
  finally show ?thesis .
qed

subsection \<open>Texts and days\<close>

lemma length_iso_text [simp]: "length (iso_text y m d) = 10"
  by (simp add: iso_text_def)

lemma days_in_month_le: "1 \<le> m \<Longrightarrow> m \<le> 12 \<Longrightarrow> days_in_month y m \<le> 31"
proof -
  assume m: "1 \<le> m" "m \<le> 12"
  then have "days_in_month y m \<in> set (month_lengths (leap_year y))"
    unfolding days_in_month_def by (intro nth_mem) (simp add: month_lengths_props)
  then show ?thesis by (auto simp: month_lengths_def split: if_splits)
qed

lemma valid_civil_ranges:
  "valid_civil y m d \<Longrightarrow> 1 \<le> m \<and> m \<le> 12 \<and> 1 \<le> d \<and> d \<le> 31"
  using days_in_month_le [of m y] by (auto simp: valid_civil_def)

lemma parse_iso_text:
  assumes "0 \<le> y" "y \<le> 9999" "0 \<le> m" "m < 100" "0 \<le> d" "d < 100"
  shows "parse_ymd (iso_text y m d) = Some (y, m, d)"
  using assms pad4_value [of y] pad2_digits pad4_digits
  by (simp add: parse_ymd_def iso_text_def nth_append pad2_value)

lemma parse_ymd_iso_text:
  assumes "parse_ymd s = Some (y, m, d)"
  shows "s = iso_text y m d"
proof -
  from assms have l: "length s = 10" by (auto simp: parse_ymd_def split: if_splits)
  then obtain a b c e h f g k i j where s: "s = [a, b, c, e, h, f, g, k, i, j]"
    by (auto simp: numeral_eq_Suc length_Suc_conv)
  from assms have c: "h = CHR ''-''" "k = CHR ''-''" "is_digit a" "is_digit b" "is_digit c"
    "is_digit e" "is_digit f" "is_digit g" "is_digit i" "is_digit j"
    and v: "y = digits_value [a, b, c, e] 0" "m = digits_value [f, g] 0" "d = digits_value [i, j] 0"
    by (auto simp: parse_ymd_def s split: if_splits)
  show ?thesis
    unfolding iso_text_def v using c by (simp only: pad4_of_digits pad2_of_digits s) simp
qed

lemma iso_date_of_civil:
  "valid_civil y m d \<Longrightarrow> iso_date (epoch_day y m d) = iso_text y m d"
  by (simp add: iso_date_def civil_of_epoch_day)

lemma iso_date_parse:
  assumes "four_digit_year z"
  shows "parse_ymd (iso_date z) = Some (civil_of_day z)"
proof -
  obtain y m d where z: "civil_of_day z = (y, m, d)" by (cases "civil_of_day z")
  then have "valid_civil y m d" by (rule epoch_day_of_civil)
  then have "1 \<le> m \<and> m \<le> 12 \<and> 1 \<le> d \<and> d \<le> 31" by (rule valid_civil_ranges)
  with assms show ?thesis by (simp add: iso_date_def z four_digit_year_def parse_iso_text)
qed

lemma iso_date_inj:
  "four_digit_year a \<Longrightarrow> four_digit_year b \<Longrightarrow> iso_date a = iso_date b \<longleftrightarrow> a = b"
  using iso_date_parse [of a] iso_date_parse [of b] by (auto dest: civil_of_day_inj)

lemma month_start_step:
  assumes "1 \<le> m" "m < int (length ls)"
  shows "month_start ls (m + 1) = month_start ls m + ls ! nat (m - 1)"
  using assms
proof (induction ls m rule: month_start.induct)
  case (2 l ls m)
  show ?case
  proof (cases "m = 1")
    case True
    with "2.prems" show ?thesis by (cases ls) auto
  next
    case False
    with "2.prems" have m: "1 < m" by simp
    then have "month_start ls (m - 1 + 1) = month_start ls (m - 1) + ls ! nat (m - 1 - 1)"
      using "2.prems" by (intro "2.IH") auto
    with m show ?thesis by (simp add: nth_shift [OF m])
  qed
qed simp

lemma month_start_mono:
  assumes "\<forall>l \<in> set ls. 0 < l" "1 \<le> a" "a \<le> b" "b \<le> int (length ls)"
  shows "month_start ls a \<le> month_start ls b"
  using assms(3,4)
proof (induction b rule: int_ge_induct)
  case (step b)
  have "0 < ls ! nat (b - 1)" using step assms(1,2) by auto
  moreover have "month_start ls (b + 1) = month_start ls b + ls ! nat (b - 1)"
    using step assms(2) by (intro month_start_step) auto
  ultimately show ?case using step by simp
qed simp

lemma epoch_day_less:
  assumes "valid_civil y m d" "valid_civil y' m' d'"
    and "y < y' \<or> y = y' \<and> (m < m' \<or> m = m' \<and> d < d')"
  shows "epoch_day y m d < epoch_day y' m' d'"
proof -
  consider "y < y'" | "y = y'" "m < m'" | "y = y'" "m = m'" "d < d'" using assms(3) by blast
  then show ?thesis
  proof cases
    case 1
    have "year_start (y + 1) \<le> year_start y'" using 1 by (intro year_start_mono) simp
    with month_day_in_year [OF assms(1)] month_day_in_year [OF assms(2)] show ?thesis
      by (simp add: epoch_day_def year_start_step)
  next
    case 2
    let ?ls = "month_lengths (leap_year y)"
    have "d \<le> ?ls ! nat (m - 1)" and r: "1 \<le> m" "m' \<le> 12" "1 \<le> d'"
      using assms by (auto simp: valid_civil_def days_in_month_def)
    moreover have "month_start ?ls (m + 1) = month_start ?ls m + ?ls ! nat (m - 1)"
      using r 2 by (intro month_start_step) (auto simp: month_lengths_props)
    moreover have "month_start ?ls (m + 1) \<le> month_start ?ls m'"
      using r 2 by (intro month_start_mono) (auto simp: month_lengths_props)
    ultimately show ?thesis using 2 by (simp add: epoch_day_def)
  qed (simp add: epoch_day_def)
qed

theorem iso_date_less:
  assumes "four_digit_year a" "four_digit_year b"
  shows "str_less (iso_date a) (iso_date b) \<longleftrightarrow> a < b"
proof -
  obtain y m d where a: "civil_of_day a = (y, m, d)" by (cases "civil_of_day a")
  obtain y' m' d' where b: "civil_of_day b = (y', m', d')" by (cases "civil_of_day b")
  note va = epoch_day_of_civil [OF a] and vb = epoch_day_of_civil [OF b]
  note ra = valid_civil_ranges [OF va(1)] and rb = valid_civil_ranges [OF vb(1)]
  let ?lt = "y < y' \<or> y = y' \<and> (m < m' \<or> m = m' \<and> d < d')"
  let ?gt = "y' < y \<or> y' = y \<and> (m' < m \<or> m' = m \<and> d' < d)"
  have "str_less (iso_date a) (iso_date b) \<longleftrightarrow> ?lt"
    using assms ra rb
    by (simp add: iso_date_def iso_text_def a b four_digit_year_def str_less_append pad4_less
        pad4_inj pad2_less pad2_inj)
  moreover have "?lt \<Longrightarrow> a < b" using epoch_day_less [OF va(1) vb(1)] va vb by simp
  moreover have "?gt \<Longrightarrow> b < a" using epoch_day_less [OF vb(1) va(1)] va vb by simp
  moreover have "\<not> ?lt \<Longrightarrow> \<not> ?gt \<Longrightarrow> a = b" using va(2) vb(2) by auto
  ultimately show ?thesis by (metis less_asym less_irrefl)
qed

text \<open>A text is the ISO text of a date exactly when the numbers it spells are a civil date.\<close>

lemma month_start_leap:
  "\<bar>month_start (month_lengths a) m - month_start (month_lengths b) m\<bar> \<le> 1"
  by (cases a; cases b) (simp_all add: month_lengths_def)

lemma js_date_utc_exact:
  assumes "0 \<le> y" "y \<le> 9999" "1 \<le> m" "m \<le> 12" "1 \<le> d" "d \<le> 31"
    and "iso_date (epoch_day y m 1 + d - 1) = iso_text y m d"
  shows "valid_civil y m d"
proof -
  let ?z = "epoch_day y m 1 + d - 1"
  obtain y' m' d' where z: "civil_of_day ?z = (y', m', d')" by (cases "civil_of_day ?z")
  note v = epoch_day_of_civil [OF z]
  note r = valid_civil_ranges [OF v(1)]
  have "iso_text y' m' d' = iso_text y m d" using assms(7) by (simp add: iso_date_def z)
  then have e: "pad4 y' = pad4 y" "m' = m" "d' = d"
    using r assms by (auto simp: iso_text_def pad2_inj)
  have "year_start y + month_start (month_lengths (leap_year y)) m =
      year_start y' + month_start (month_lengths (leap_year y')) m"
    using v(2) e by (simp add: epoch_day_def)
  moreover have "\<bar>month_start (month_lengths (leap_year y)) m -
      month_start (month_lengths (leap_year y')) m\<bar> \<le> 1"
    by (rule month_start_leap)
  moreover have "y < y' \<Longrightarrow> year_start y + 365 \<le> year_start y'" for y y'
    using year_start_mono [of "y + 1" y'] by (simp add: year_start_step split: if_splits)
  ultimately have "y' = y" by (smt (verit))
  with v(1) e show ?thesis by simp
qed

end
