(* ===== verification/Keys.thy ===== *)
theory Keys
  imports Iso_Date "HOL-Library.Word"
begin

text \<open>
  The keys by which the code names work it must not do twice: the idempotency keys handed to the
  payment provider (lib/payments/paymentAttempts.ts, lib/payments/scheduledCharges.ts,
  lib/payments/refund.ts, lib/payouts/hostTransfers.ts, lib/payouts/transferReversal.ts) and the
  advisory lock key of lib/utils/advisoryLock.ts. The digest function of node's \<open>crypto\<close> is an
  argument: \<open>sha\<close> gives the hexadecimal text, \<open>digest64\<close> the first eight bytes as a word.
\<close>

fun dec_text :: "nat \<Rightarrow> js_string" where
  "dec_text n =
     (if n < 10 then [digit_char (int n)] else dec_text (n div 10) @ [digit_char (int (n mod 10))])"

declare dec_text.simps [simp del]

definition attempt_key_text :: "uuid \<Rightarrow> nat \<Rightarrow> js_string" where
  "attempt_key_text bk n = ''payment-attempt:'' @ bk @ '':'' @ dec_text n"

definition attempt_key :: "(js_string \<Rightarrow> js_string) \<Rightarrow> uuid \<Rightarrow> nat \<Rightarrow> js_string" where
  "attempt_key sha bk n = sha (attempt_key_text bk n)"

definition refund_key :: "uuid \<Rightarrow> js_string" where
  "refund_key row_id = ''host-refund-'' @ row_id"

definition entitlement_key :: "(js_string \<Rightarrow> js_string) \<Rightarrow> uuid \<Rightarrow> js_string" where
  "entitlement_key sha bk = sha (''host-transfer-entitlement:'' @ bk)"

definition int_text :: "int \<Rightarrow> js_string" where
  "int_text n = (if n < 0 then CHR ''-'' # dec_text (nat (- n)) else dec_text (nat n))"

definition reversal_key ::
  "(js_string \<Rightarrow> js_string) \<Rightarrow> uuid \<Rightarrow> js_string \<Rightarrow> int \<Rightarrow> js_string" where
  "reversal_key sha ent reason amount =
     sha (''transfer-reversal:'' @ ent @ '':'' @ reason @ '':'' @ int_text amount)"

unbundle bit_operations_syntax

definition hash_to_bigint :: "(js_string \<Rightarrow> 64 word) \<Rightarrow> js_string \<Rightarrow> 64 word" where
  "hash_to_bigint digest64 input = digest64 input AND 0x7fffffffffffffff"

lemma digits_value_dec_text: "digits_value (dec_text n) 0 = int n"
proof (induction n rule: dec_text.induct)
  case (1 n)
  show ?case
  proof (cases "n < 10")
    case True
    then show ?thesis by (subst dec_text.simps) (simp add: digit_char_props)
  next
    case False
    have r: "int (n mod 10) \<le> 9" by simp
    have split: "dec_text n = dec_text (n div 10) @ [digit_char (int (n mod 10))]"
      using False dec_text.simps [of n] by simp
    have "digits_value (dec_text n) 0 = 10 * int (n div 10) + digit_value (digit_char (int (n mod 10)))"
      unfolding split digits_value_append 1 [OF False] by simp
    also have "digit_value (digit_char (int (n mod 10))) = int (n mod 10)"
      by (rule digit_char_props(2)) (use r in simp_all)
    also have "10 * int (n div 10) + int (n mod 10) = int (10 * (n div 10) + n mod 10)"
      by (simp only: of_nat_add of_nat_mult of_nat_numeral)
    also have "\<dots> = int n" by (simp only: mult_div_mod_eq)
    finally show ?thesis .
  qed
qed

lemma dec_text_inj: "dec_text m = dec_text n \<longleftrightarrow> m = n"
  by (metis digits_value_dec_text of_nat_eq_iff)

lemma dec_text_digits: "list_all is_digit (dec_text n)"
proof (induction n rule: dec_text.induct)
  case (1 n)
  have "int (n mod 10) \<le> 9" by simp
  with 1 show ?case by (subst dec_text.simps) (auto simp: digit_char_props)
qed

lemma dec_text_no_colon: "CHR '':'' \<notin> set (dec_text n)"
  using dec_text_digits [of n] by (auto simp: list_all_iff is_digit_def)

lemma split_last_sep:
  assumes "a @ [c] @ x = b @ [c] @ y" "c \<notin> set x" "c \<notin> set y"
  shows "a = b \<and> x = y"
  using assms
proof (induction a arbitrary: b)
  case Nil
  then show ?case by (cases b) auto
next
  case (Cons z a)
  then show ?case by (cases b) auto
qed

text \<open>Attempts of any two bookings, or two attempts of one, hash different texts.\<close>

lemma attempt_key_text_inj: "attempt_key_text bk n = attempt_key_text bk' n' \<longleftrightarrow> bk = bk' \<and> n = n'"
  using split_last_sep [of bk "CHR '':''" "dec_text n" bk' "dec_text n'"]
  by (auto simp: attempt_key_text_def dec_text_no_colon dec_text_inj)

lemma attempt_key_inj:
  "inj sha \<Longrightarrow> attempt_key sha bk n = attempt_key sha bk' n' \<longleftrightarrow> bk = bk' \<and> n = n'"
  by (simp add: attempt_key_def inj_eq attempt_key_text_inj)

lemma refund_key_inj: "refund_key a = refund_key b \<longleftrightarrow> a = b"
  by (simp add: refund_key_def)

lemma hash_to_bigint_less: "uint (hash_to_bigint d x) < 2 ^ 63"
proof -
  have m: "(0x7fffffffffffffff :: 64 word) = mask 63" by (simp add: mask_eq_exp_minus_1)
  have "uint (hash_to_bigint d x) = uint (d x) mod 2 ^ 63"
    unfolding hash_to_bigint_def m take_bit_eq_mask [symmetric]
    by (simp only: unsigned_take_bit_eq) (simp only: take_bit_eq_mod)
  then show ?thesis by simp
qed

lemma hash_to_bigint_signed: "sint (hash_to_bigint d x) = uint (hash_to_bigint d x)"
proof -
  define w where "w = hash_to_bigint d x"
  have "uint w < 2 ^ 63" unfolding w_def by (rule hash_to_bigint_less)
  then have "sint w = uint w"
    unfolding sint_uint by (intro signed_take_bit_int_eq_self) (simp_all add: order_trans [OF _ uint_nonnegative])
  then show ?thesis by (simp add: w_def)
qed

end
