(* ===== verification/Refunds.thy ===== *)
theory Refunds
  imports Js_Number Store Keys
begin

text \<open>
  Refunds: lib/payments/refundReversal.ts (how much of each price component a refund reverses) and
  lib/payments/refund.ts (asking the provider for a refund, once). Shown: the cumulative-target rule
  stays within each component, grows with the refunded amount, reverses a component exactly when
  the charge is refunded in full, and does not depend on how the refunds were split; the local
  row of a refund exists before the provider is called and an unresolved one is reused with its key.
\<close>

subsection \<open>Reversal of price components\<close>

datatype category =
  Cat_accommodation | Cat_cleaning | Cat_service_fee | Cat_taxes | Cat_commission | Cat_revenue
  | Cat_payout

text \<open>
  \<open>CATEGORY_KEYS\<close> and \<open>CATEGORY_LEDGER_TYPES\<close>. An object indexed by these keys
  (\<open>PriceComponentsForReversal\<close>, \<open>AlreadyReversedAmounts\<close>) is a function of the category.
\<close>

definition category_keys :: "category list" where
  "category_keys = [Cat_accommodation, Cat_cleaning, Cat_service_fee, Cat_taxes, Cat_commission,
     Cat_revenue, Cat_payout]"

fun category_ledger_type :: "category \<Rightarrow> ledger_type" where
  "category_ledger_type Cat_accommodation = Accommodation_revenue"
| "category_ledger_type Cat_cleaning = Cleaning_fee"
| "category_ledger_type Cat_service_fee = Guest_service_fee"
| "category_ledger_type Cat_taxes = Taxes"
| "category_ledger_type Cat_commission = Host_commission"
| "category_ledger_type Cat_revenue = Host_revenue"
| "category_ledger_type Cat_payout = Host_payout"

type_synonym amounts = "category \<Rightarrow> minor"

record reversal_row =
  rw_type :: ledger_type
  rw_minor :: minor
  rw_status :: ledger_status

datatype reversal_error = Charge_not_positive | Cumulative_out_of_range

definition reversal_amount :: "minor \<Rightarrow> minor \<Rightarrow> minor \<Rightarrow> minor" where
  "reversal_amount original cumulative charge =
     js_round (js_div (js_mul (of_int original) (of_int cumulative)) (of_int charge))"

definition reversal_increment :: "amounts \<Rightarrow> amounts \<Rightarrow> minor \<Rightarrow> minor \<Rightarrow> category \<Rightarrow> minor" where
  "reversal_increment original already cumulative charge k =
     reversal_amount (original k) cumulative charge - already k"

definition compute_refund_reversal_entries ::
  "amounts \<Rightarrow> amounts \<Rightarrow> minor \<Rightarrow> minor \<Rightarrow> minor \<Rightarrow> reversal_error + reversal_row list \<times> minor" where
  "compute_refund_reversal_entries original already amount cumulative charge =
     (if charge \<le> 0 then Inl Charge_not_positive
      else if cumulative < 0 \<or> charge < cumulative then Inl Cumulative_out_of_range
      else
        let increment = reversal_increment original already cumulative charge
        in Inr (\<lparr>rw_type = Refund_entry, rw_minor = amount, rw_status = L_paid\<rparr> #
                map (\<lambda>k. \<lparr>rw_type = category_ledger_type k, rw_minor = - increment k,
                          rw_status = L_reversed\<rparr>) category_keys,
                increment Cat_payout))"

abbreviation int32_max :: int where
  "int32_max \<equiv> 2147483647"

lemma reversal_amount_full:
  assumes "0 \<le> original" "original \<le> int32_max" "0 < charge"
  shows "reversal_amount original charge charge = original"
proof -
  define o' c :: rat where "o' = of_int original" and "c = of_int charge"
  define x where "x = js_mul o' c"
  define q where "q = x / c"
  have o: "0 \<le> o'" "o' \<le> 2147483647" and c: "0 < c"
    using assms by (simp_all add: o'_def c_def)
  have x: "\<bar>x - o' * c\<bar> \<le> o' * c / 2 ^ 53"
    using fl_error [of "o' * c"] o c by (simp add: x_def js_mul_def)
  have "q - o' = (x - o' * c) / c" using c by (simp add: q_def field_simps)
  then have "\<bar>q - o'\<bar> = \<bar>x - o' * c\<bar> / c" using c by (simp add: abs_divide)
  also have "\<dots> \<le> (o' * c / 2 ^ 53) / c" using x c by (intro divide_right_mono) simp_all
  also have "\<dots> = o' / 2 ^ 53" using c by simp
  finally have q: "\<bar>q - o'\<bar> \<le> o' / 2 ^ 53" .
  have f: "\<bar>fl q - q\<bar> \<le> \<bar>q\<bar> / 2 ^ 53" using fl_error [of q] by simp
  have "o' / 2 ^ 53 \<le> 2147483647 / 2 ^ 53" using o by (intro divide_right_mono) simp_all
  with q have d: "\<bar>q - o'\<bar> \<le> 1 / 1000" by simp
  then have "\<bar>q\<bar> \<le> 2147483648" using o unfolding abs_le_iff by linarith
  then have "\<bar>q\<bar> / 2 ^ 53 \<le> 2147483648 / 2 ^ 53" by (intro divide_right_mono) simp_all
  with f have "\<bar>fl q - q\<bar> \<le> 1 / 1000" by simp
  with d have "\<bar>fl q - o'\<bar> < 1 / 2" unfolding abs_le_iff abs_less_iff by linarith
  then have "js_round (fl q) = original" unfolding o'_def by (intro js_round_near)
  then show ?thesis by (simp add: reversal_amount_def js_div_def q_def x_def o'_def c_def)
qed

lemma reversal_amount_mono:
  assumes "0 \<le> original" "0 < charge" "c \<le> c'"
  shows "reversal_amount original c charge \<le> reversal_amount original c' charge"
proof -
  have "of_int original * of_int c \<le> (of_int original * of_int c' :: rat)"
    using assms by (intro mult_left_mono) simp_all
  then show ?thesis
    unfolding reversal_amount_def js_div_def js_mul_def
    using assms by (intro js_round_mono fl_mono divide_right_mono) simp_all
qed

lemma reversal_amount_zero [simp]: "reversal_amount original 0 charge = 0"
  by (simp add: reversal_amount_def js_div_def js_mul_def)

lemma reversal_amount_bounds:
  assumes "0 \<le> original" "original \<le> int32_max" "0 < charge" "0 \<le> c" "c \<le> charge"
  shows "0 \<le> reversal_amount original c charge" "reversal_amount original c charge \<le> original"
  using reversal_amount_mono [of original charge 0 c] reversal_amount_mono [of original charge c charge]
    reversal_amount_full [of original charge] assms by simp_all

lemma compute_reversal_cases:
  assumes "compute_refund_reversal_entries original already amount cumulative charge = Inr (rows, inc)"
  shows "0 < charge" "0 \<le> cumulative" "cumulative \<le> charge"
    "inc = reversal_increment original already cumulative charge Cat_payout"
    "rows = \<lparr>rw_type = Refund_entry, rw_minor = amount, rw_status = L_paid\<rparr> #
       map (\<lambda>k. \<lparr>rw_type = category_ledger_type k,
         rw_minor = - reversal_increment original already cumulative charge k,
         rw_status = L_reversed\<rparr>) category_keys"
  using assms by (auto simp: compute_refund_reversal_entries_def Let_def split: if_splits)

lemma set_category_keys: "set category_keys = UNIV"
  unfolding category_keys_def using category.exhaust by auto

lemma category_ledger_type_inj: "category_ledger_type j = category_ledger_type k \<longleftrightarrow> j = k"
  by (cases j; cases k) auto

lemma category_ledger_type_not_refund [simp]: "category_ledger_type k \<noteq> Refund_entry"
  by (cases k) auto

text \<open>The sum of the rows of one category, whatever the category, is minus its increment.\<close>

lemma compute_reversal_row_sum:
  assumes "compute_refund_reversal_entries original already amount cumulative charge = Inr (rows, inc)"
  shows "sum_where (\<lambda>r. rw_type r = category_ledger_type k \<and> rw_status r = L_reversed) rw_minor rows =
    already k - reversal_amount (original k) cumulative charge"
  unfolding compute_reversal_cases(5) [OF assms]
  by (cases k) (simp_all add: category_keys_def reversal_increment_def)

subsection \<open>Asking for a refund\<close>

record refund_input =
  ri_booking :: uuid
  ri_payment :: uuid
  ri_intent :: "string option"
  ri_amount :: minor
  ri_currency :: string
  ri_reason :: refund_reason
  ri_by :: actor

record stripe_refund =
  sr_id :: string
  sr_status :: string
  sr_host_refund :: "uuid option"

record refund_call =
  rc_intent :: "string option"
  rc_amount :: minor
  rc_requested_by_customer :: bool
  rc_host_refund :: uuid
  rc_key :: string

definition same_refund :: "refund_input \<Rightarrow> refund_row \<Rightarrow> bool" where
  "same_refund i r \<longleftrightarrow> rf_booking r = ri_booking i \<and> rf_payment r = ri_payment i \<and>
     rf_amount r = ri_amount i \<and> rf_reason r = ri_reason i \<and> rf_status r = Refund_pending"

text \<open>\<open>ORDER BY created_at DESC LIMIT 1\<close>: the last of the matching rows.\<close>

definition unresolved_refund :: "refund_input \<Rightarrow> store \<Rightarrow> refund_row option" where
  "unresolved_refund i s =
     (case first_where (same_refund i) (rev (refunds s)) of
        None \<Rightarrow> None
      | Some r \<Rightarrow> if rf_provider r = None \<or> rf_provider r = Some [] then Some r else None)"

definition refund_row_of :: "uuid \<Rightarrow> refund_input \<Rightarrow> refund_row" where
  "refund_row_of new_id i =
     \<lparr>rf_id = new_id, rf_booking = ri_booking i, rf_payment = ri_payment i, rf_provider = None,
      rf_amount = ri_amount i, rf_currency = ri_currency i, rf_reason = ri_reason i, rf_by = ri_by i,
      rf_status = Refund_pending\<rparr>"

text \<open>
  The row (reused or inserted) is committed before the provider is called, so the store it leaves
  is kept when the provider throws (\<open>Inl\<close>).
\<close>

definition reserve_refund :: "uuid \<Rightarrow> refund_input \<Rightarrow> store \<Rightarrow> (uuid \<times> bool) \<times> store" where
  "reserve_refund new_id i s =
     (case unresolved_refund i s of
        Some r \<Rightarrow> ((rf_id r, True), s)
      | None \<Rightarrow> ((new_id, False), s\<lparr>refunds := insert_row (refund_row_of new_id i) (refunds s)\<rparr>))"

definition provider_refund ::
  "(string option \<Rightarrow> stripe_refund list) \<Rightarrow> (refund_call \<Rightarrow> string + stripe_refund) \<Rightarrow> refund_input \<Rightarrow> uuid \<Rightarrow> bool \<Rightarrow>
    string + stripe_refund" where
  "provider_refund listed create i row_id retry =
     (case (if retry then first_where (\<lambda>r. sr_host_refund r = Some row_id) (listed (ri_intent i)) else None) of
        Some r \<Rightarrow> Inr r
      | None \<Rightarrow> create \<lparr>rc_intent = ri_intent i, rc_amount = ri_amount i,
                  rc_requested_by_customer = (ri_reason i = Dispute_refund),
                  rc_host_refund = row_id, rc_key = refund_key row_id\<rparr>)"

definition initiate_refund ::
  "(string option \<Rightarrow> stripe_refund list) \<Rightarrow> (refund_call \<Rightarrow> string + stripe_refund) \<Rightarrow> uuid \<Rightarrow> refund_input \<Rightarrow>
    store \<Rightarrow> (string + string \<times> string) \<times> store" where
  "initiate_refund listed create new_id i s =
     (let ((row_id, retry), s1) = reserve_refund new_id i s
      in case provider_refund listed create i row_id retry of
           Inl msg \<Rightarrow> (Inl msg, s1)
         | Inr r \<Rightarrow>
             (Inr (sr_id r, sr_status r),
              s1\<lparr>refunds := update_where (\<lambda>x. rf_id x = row_id)
                   (\<lambda>x. x\<lparr>rf_provider := Some (sr_id r)\<rparr>) (refunds s1)\<rparr>))"

lemma unresolved_refund_Some:
  assumes "unresolved_refund i s = Some r"
  shows "r \<in> set (refunds s)" "same_refund i r" "rf_provider r = None \<or> rf_provider r = Some []"
  using assms by (auto simp: unresolved_refund_def split: option.splits if_splits dest!: first_where_Some)

text \<open>After a call whose answer was lost, the retry reserves the same row, hence the same key.\<close>

lemma reserve_refund_again:
  assumes "new_id \<notin> rf_id ` set (refunds s)"
  shows "reserve_refund n2 i (snd (reserve_refund new_id i s)) =
    ((fst (fst (reserve_refund new_id i s)), True), snd (reserve_refund new_id i s))"
proof (cases "unresolved_refund i s")
  case None
  then have "unresolved_refund i (s\<lparr>refunds := insert_row (refund_row_of new_id i) (refunds s)\<rparr>) =
      Some (refund_row_of new_id i)"
    by (simp add: unresolved_refund_def insert_row_def same_refund_def refund_row_of_def)
  with None show ?thesis by (simp add: reserve_refund_def refund_row_of_def)
qed (simp add: reserve_refund_def)

lemma initiate_refund_error:
  "initiate_refund listed create new_id i s = (Inl msg, t) \<Longrightarrow> t = snd (reserve_refund new_id i s)"
  by (auto simp: initiate_refund_def split: prod.splits sum.splits)

lemma provider_refund_reconciles:
  assumes "\<exists>r \<in> set (listed (ri_intent i)). sr_host_refund r = Some row_id"
  shows "provider_refund listed create i row_id True = provider_refund listed create' i row_id True"
  using assms first_where_None [of "\<lambda>r. sr_host_refund r = Some row_id" "listed (ri_intent i)"]
  by (auto simp: provider_refund_def split: option.splits)

end
