(* ===== verification/Booking.thy ===== *)
theory Booking
  imports Availability Pricing Cancellation Charge_Timing Refunds
    "HOL-Library.Char_ord" "HOL-Library.List_Lexorder"
begin

text \<open>
  The life of a booking: lib/booking/createBooking.ts (creation, the expired-hold sweep),
  lib/booking/cancelBooking.ts, lib/booking/discardUnpaidBooking.ts and the archiving of
  lib/booking/tripHistory.ts. The advisory lock of a property makes the transactions on its calendar
  run one after the other, so each operation is one atomic step. \<open>Booking_Safety\<close> states the invariant
  they keep and \<open>Booking_Properties\<close> their effects.
\<close>

subsection \<open>Errors and inputs\<close>

datatype booking_error =
  Invalid_date_range | Invalid_guests | Property_not_found | Property_not_available
  | Too_many_guests | Below_min_stay | Above_max_stay | Dates_unavailable
  | Pricing_failed pricing_error | Key_violation
  | Booking_not_found | Not_cancellable booking_status | Already_archived | Not_discardable
  | Payment_exists | Not_archivable booking_status

record booking_input =
  bi_property :: uuid
  bi_guest :: uuid
  bi_check_in :: day
  bi_check_out :: day
  bi_guests :: rat
  bi_guest_name :: string
  bi_guest_email :: string
  bi_guest_phone :: "string option"
  bi_key :: string

subsection \<open>Creation\<close>

definition has_expired_evidence :: "day \<Rightarrow> compliance_item list \<Rightarrow> uuid \<Rightarrow> bool" where
  "has_expired_evidence today items prop \<longleftrightarrow>
     row_exists (\<lambda>i. ci_property i = prop \<and> ci_applicability i = Required \<and>
       (case ci_valid_until i of None \<Rightarrow> False | Some u \<Rightarrow> u < today)) items"

definition stay_guard :: "day \<Rightarrow> store \<Rightarrow> property_row \<Rightarrow> rat \<Rightarrow> int \<Rightarrow> booking_error option" where
  "stay_guard today s p guests nights =
     (if p_status p \<noteq> Prop_published \<or> p_compliance p \<noteq> Comp_approved \<or>
         has_expired_evidence today (compliance s) (p_id p) then Some Property_not_available
      else if of_int (p_max_guests p) < guests then Some Too_many_guests
      else if nights < p_min_stay p then Some Below_min_stay
      else if p_max_stay p < nights then Some Above_max_stay
      else None)"

definition nights_taken :: "calendar \<Rightarrow> day \<Rightarrow> day \<Rightarrow> bool" where
  "nights_taken m check_in check_out \<longleftrightarrow>
     list_ex (\<lambda>d. case m d of None \<Rightarrow> False | Some r \<Rightarrow> av_status r \<noteq> Available)
       [check_in..check_out - 1]"

definition book_nights :: "day list \<Rightarrow> calendar \<Rightarrow> calendar" where
  "book_nights dates m = fold (\<lambda>d m. m(d \<mapsto> booked_row)) dates m"

definition pricing_of_row :: "property_row \<Rightarrow> pricing_property" where
  "pricing_of_row p =
     \<lparr>pp_id = p_id p, pp_nightly_minor = to_minor_nullable (p_nightly p),
      pp_cleaning_minor = to_minor (p_cleaning p), pp_currency = p_currency p,
      pp_acc_vat = map_option fl (p_acc_vat p), pp_clean_vat = map_option fl (p_clean_vat p)\<rparr>"

definition price_stay :: "store \<Rightarrow> property_row \<Rightarrow> int \<Rightarrow> pricing_error + breakdown" where
  "price_stay s p nights =
     (case get_active_fee_config (fee_configs s) of
        Inl e \<Rightarrow> Inl e
      | Inr fees \<Rightarrow> calculate_price (pricing_of_row p) nights fees)"

abbreviation default_rules :: "tier list" where
  "default_rules \<equiv> [mk_tier 120 100, mk_tier 24 50, mk_tier 0 0]"

definition policy_rules :: "store \<Rightarrow> property_row \<Rightarrow> tier list" where
  "policy_rules s p =
     (case p_policy p of
        None \<Rightarrow> default_rules
      | Some pid \<Rightarrow>
          (case first_where (\<lambda>r. cp_id r = pid) (policies s) of
             None \<Rightarrow> default_rules | Some r \<Rightarrow> cp_rules r))"

abbreviation hold_minutes :: int where
  "hold_minutes \<equiv> 15"

definition new_booking ::
  "bool \<Rightarrow> millis \<Rightarrow> uuid \<Rightarrow> booking_input \<Rightarrow> property_row \<Rightarrow> tier list \<Rightarrow> booking" where
  "new_booking delayed now new_id i p rules =
     \<lparr>b_id = new_id, b_property = bi_property i, b_guest = bi_guest i, b_host = p_host p,
      b_check_in = bi_check_in i, b_check_out = bi_check_out i, b_guests = \<lfloor>bi_guests i\<rfloor>,
      b_status = Pending_payment, b_policy = rules, b_idem = bi_key i,
      b_hold = Some (now + hold_minutes * 60000), b_guest_name = bi_guest_name i,
      b_guest_email = bi_guest_email i, b_guest_phone = bi_guest_phone i,
      b_flow = (if delayed then Separate_charges_delayed_v1 else Destination_charge_legacy),
      b_scheduled = (if delayed then ct_date (decide_charge_timing (bi_check_in i) now) else None),
      b_customer = None, b_setup_intent = None, b_payment_method = None, b_tax = Tax_unconfigured,
      b_grace = None, b_next_retry = None, b_archived = None\<rparr>"

definition price_row_of :: "uuid \<Rightarrow> breakdown \<Rightarrow> price_row" where
  "price_row_of bk bd =
     \<lparr>pc_booking = bk, pc_currency = bd_currency bd, pc_accommodation = bd_accommodation bd,
      pc_cleaning = bd_cleaning bd, pc_service_fee = bd_service_fee bd, pc_taxes = bd_taxes bd,
      pc_total = bd_total bd, pc_commission = bd_commission bd, pc_payout = bd_payout bd,
      pc_revenue = bd_revenue bd, pc_fee_version = bd_fee_version bd\<rparr>"

text \<open>
  The transaction. \<open>new_id\<close> is the primary key the database generates and \<open>delayed\<close> the value of
  \<open>isDelayedChargeBookingCreationEnabled()\<close>; the result carries the breakdown only for a new row.
\<close>

definition create_booking_tx ::
  "bool \<Rightarrow> millis \<Rightarrow> uuid \<Rightarrow> booking_input \<Rightarrow> int \<Rightarrow> (store, booking_error, booking \<times> breakdown option) tx" where
  "create_booking_tx delayed now new_id i nights s =
     (case first_where (\<lambda>b. b_idem b = bi_key i) (bookings s) of
        Some b \<Rightarrow> Inr ((b, None), s)
      | None \<Rightarrow>
     (case find_property (bi_property i) s of
        None \<Rightarrow> Inl Property_not_found
      | Some p \<Rightarrow>
     (case stay_guard (day_of_ms now) s p (bi_guests i) nights of
        Some e \<Rightarrow> Inl e
      | None \<Rightarrow>
        if nights_taken (avail s (bi_property i)) (bi_check_in i) (bi_check_out i)
        then Inl Dates_unavailable
        else
          let m = book_nights (enumerate_dates (bi_check_in i) (bi_check_out i))
                    (avail s (bi_property i));
              s1 = s\<lparr>avail := (avail s)(bi_property i := m)\<rparr>
          in (case price_stay s1 p nights of
                Inl e \<Rightarrow> Inl (Pricing_failed e)
              | Inr bd \<Rightarrow>
                  let b = new_booking delayed now new_id i p (policy_rules s1 p)
                  in if row_exists (\<lambda>b. b_id b = new_id) (bookings s1) then Inl Key_violation
                     else Inr ((b, Some bd),
                       s1\<lparr>bookings := insert_row b (bookings s1),
                          prices := insert_row (price_row_of new_id bd) (prices s1)\<rparr>)))))"

definition create_booking ::
  "bool \<Rightarrow> millis \<Rightarrow> uuid \<Rightarrow> booking_input \<Rightarrow> store \<Rightarrow>
    (booking_error + booking \<times> breakdown option) \<times> store" where
  "create_booking delayed now new_id i s =
     (let nights = nights_between (bi_check_in i) (bi_check_out i)
      in if nights \<le> 0 then (Inl Invalid_date_range, s)
         else if of_int \<lfloor>bi_guests i\<rfloor> \<noteq> bi_guests i \<or> bi_guests i < 1 then (Inl Invalid_guests, s)
         else with_transaction (create_booking_tx delayed now new_id i nights) s)"

subsection \<open>Expired holds\<close>

definition pending_status :: "uuid \<Rightarrow> booking \<Rightarrow> bool" where
  "pending_status bk b \<longleftrightarrow> b_id b = bk \<and> b_status b = Pending_payment"

definition hold_expired :: "millis \<Rightarrow> booking \<Rightarrow> bool" where
  "hold_expired now b \<longleftrightarrow> (case b_hold b of None \<Rightarrow> False | Some h \<Rightarrow> h \<le> now)"

text \<open>\<open>ORDER BY hold_expires_at ASC, id ASC LIMIT 200\<close>\<close>

definition hold_key :: "booking \<Rightarrow> int" where
  "hold_key b = (case b_hold b of None \<Rightarrow> 0 | Some h \<Rightarrow> h)"

definition find_expired_hold_booking_ids :: "millis \<Rightarrow> store \<Rightarrow> uuid list" where
  "find_expired_hold_booking_ids now s =
     take 200 (map b_id (sort_key hold_key (sort_key b_id
       (select_where (\<lambda>b. b_status b = Pending_payment \<and> hold_expired now b) (bookings s)))))"

text \<open>
  \<open>DELETE FROM availability_blocks\<close> of the booking's nights: with the status condition in the sweep
  and in discarding, without it in cancellation.
\<close>

definition release_nights :: "bool \<Rightarrow> booking \<Rightarrow> store \<Rightarrow> store" where
  "release_nights booked_only b s =
     s\<lparr>avail := (avail s)(b_property b := (\<lambda>d.
        case avail s (b_property b) d of
          None \<Rightarrow> None
        | Some r \<Rightarrow>
            if b_check_in b \<le> d \<and> d < b_check_out b \<and> av_source r = Src_booking \<and>
               (booked_only \<longrightarrow> av_status r = Booked)
            then None else Some r))\<rparr>"

definition release_expired_hold :: "millis \<Rightarrow> uuid \<Rightarrow> (store, booking_error, booking option) tx" where
  "release_expired_hold now bk s =
     (case first_where (pending_status bk) (bookings s) of
        None \<Rightarrow> Inr (None, s)
      | Some b \<Rightarrow>
          (case b_hold b of
             None \<Rightarrow> Inr (None, s)
           | Some h \<Rightarrow>
               if now < h then Inr (None, s)
               else
                 let s1 = snd (reconcile now (b_property b) (release_nights True b s))
                 in Inr (Some (b\<lparr>b_status := Cancelled\<rparr>),
                         set_booking bk (\<lambda>b. b\<lparr>b_status := Cancelled\<rparr>) s1)))"

subsection \<open>Cancellation\<close>

definition refund_reason_of :: "actor \<Rightarrow> refund_reason" where
  "refund_reason_of a =
     (if a = By_guest then Guest_cancellation
      else if a = By_host then Host_cancellation else Admin_goodwill)"

definition refund_request_for ::
  "uuid \<Rightarrow> actor \<Rightarrow> outcome \<Rightarrow> string \<Rightarrow> payment list \<Rightarrow> refund_input option" where
  "refund_request_for bk who oc currency pays =
     (case first_where (\<lambda>p. pay_booking p = bk) pays of
        None \<Rightarrow> None
      | Some p \<Rightarrow>
          if 0 < oc_refundable oc \<and> pay_status p = Paid
          then Some \<lparr>ri_booking = bk, ri_payment = pay_id p, ri_intent = pay_intent p,
                     ri_amount = oc_refundable oc, ri_currency = currency,
                     ri_reason = refund_reason_of who, ri_by = who\<rparr>
          else None)"

definition cancel_booking_tx ::
  "millis \<Rightarrow> uuid \<Rightarrow> actor \<Rightarrow> (store, booking_error, outcome \<times> refund_input option) tx" where
  "cancel_booking_tx now bk who s =
     (case (find_booking bk s, find_price bk s) of
        (Some b, Some pc) \<Rightarrow>
          if b_status b \<noteq> Confirmed \<and> b_status b \<noteq> Pending_payment
          then Inl (Not_cancellable (b_status b))
          else
            let oc = calculate_cancellation (b_policy b) (b_check_in b) (pc_total pc) (pc_payout pc) now;
                s1 = snd (reconcile now (b_property b) (release_nights False b s));
                s2 = set_booking bk (\<lambda>b. b\<lparr>b_status := Cancelled\<rparr>) s1;
                s3 = log_audit None bk (Booking_cancelled (b_status b) who (oc_percent oc)) s2
            in Inr ((oc, refund_request_for bk who oc (pc_currency pc) (payments s)), s3)
      | _ \<Rightarrow> Inl Booking_not_found)"

definition cancel_booking ::
  "millis \<Rightarrow> uuid \<Rightarrow> actor \<Rightarrow> store \<Rightarrow> (booking_error + outcome \<times> refund_input option) \<times> store" where
  "cancel_booking now bk who = with_transaction (cancel_booking_tx now bk who)"

text \<open>
  \<open>cancelBookingAndRefund\<close>: the refund is asked for after the cancellation has committed, and its
  failure is reported beside the result, not instead of it. The message to the guest is left out.
\<close>

definition cancel_booking_and_refund ::
  "(string option \<Rightarrow> stripe_refund list) \<Rightarrow> (refund_call \<Rightarrow> string + stripe_refund) \<Rightarrow> uuid \<Rightarrow>
    millis \<Rightarrow> uuid \<Rightarrow> actor \<Rightarrow> store \<Rightarrow>
    (booking_error + (outcome \<times> refund_input option) \<times> string option) \<times> store" where
  "cancel_booking_and_refund listed create refund_id now bk who s =
     (case cancel_booking now bk who s of
        (Inl e, s1) \<Rightarrow> (Inl e, s1)
      | (Inr r, s1) \<Rightarrow>
          (case snd r of
             None \<Rightarrow> (Inr (r, None), s1)
           | Some req \<Rightarrow>
               (case initiate_refund listed create refund_id req s1 of
                  (Inl msg, s2) \<Rightarrow> (Inr (r, Some msg), s2)
                | (Inr _, s2) \<Rightarrow> (Inr (r, None), s2))))"

subsection \<open>Discarding an unpaid booking\<close>

record discard_eligibility =
  de_status :: booking_status
  de_archived :: "millis option"
  de_legacy_payment :: bool
  de_successful_attempt :: bool
  de_entitlement :: bool

definition assert_discardable :: "discard_eligibility \<Rightarrow> booking_error option" where
  "assert_discardable e =
     (if de_archived e \<noteq> None then Some Already_archived
      else if de_status e \<noteq> Pending_payment then Some Not_discardable
      else if de_legacy_payment e \<or> de_successful_attempt e \<or> de_entitlement e then Some Payment_exists
      else None)"

definition discard_facts :: "store \<Rightarrow> booking \<Rightarrow> discard_eligibility" where
  "discard_facts s b =
     \<lparr>de_status = b_status b, de_archived = b_archived b,
      de_legacy_payment = row_exists (\<lambda>p. pay_booking p = b_id b \<and>
        pay_status p \<in> {Paid, Pay_refunded, Pay_partially_refunded, Pay_disputed}) (payments s),
      de_successful_attempt =
        row_exists (\<lambda>a. pa_booking a = b_id b \<and> pa_status a = At_succeeded) (attempts s),
      de_entitlement = row_exists (\<lambda>e. en_booking e = b_id b) (entitlements s)\<rparr>"

definition discard_unpaid_booking_tx ::
  "millis \<Rightarrow> uuid \<Rightarrow> uuid \<Rightarrow> (store, booking_error, uuid) tx" where
  "discard_unpaid_booking_tx now bk guest s =
     (case first_where (\<lambda>b. b_id b = bk \<and> b_guest b = guest) (bookings s) of
        None \<Rightarrow> Inl Booking_not_found
      | Some b \<Rightarrow>
          (case assert_discardable (discard_facts s b) of
             Some e \<Rightarrow> Inl e
           | None \<Rightarrow>
               let s1 = snd (reconcile now (b_property b) (release_nights True b s));
                   s2 = set_booking bk (\<lambda>b. b\<lparr>b_status := Cancelled, b_archived := Some now,
                                             b_next_retry := None\<rparr>) s1
               in Inr (bk, log_audit (Some guest) bk (Booking_discarded (b_status b)) s2)))"

subsection \<open>Archiving\<close>

definition archivable_statuses :: "booking_status list" where
  "archivable_statuses = [Cancelled, Completed, Refunded]"

definition archive_booking :: "millis \<Rightarrow> uuid \<Rightarrow> uuid \<Rightarrow> (store, booking_error, uuid) tx" where
  "archive_booking now bk guest s =
     (let P = (\<lambda>b. b_id b = bk \<and> b_guest b = guest \<and> b_status b \<in> set archivable_statuses \<and>
                   b_archived b = None)
      in if row_exists P (bookings s)
         then Inr (bk, s\<lparr>bookings := update_where P (\<lambda>b. b\<lparr>b_archived := Some now\<rparr>) (bookings s)\<rparr>)
         else
           (case first_where (\<lambda>b. b_id b = bk \<and> b_guest b = guest) (bookings s) of
              None \<Rightarrow> Inl Booking_not_found
            | Some b \<Rightarrow>
                if b_archived b \<noteq> None then Inl Already_archived
                else Inl (Not_archivable (b_status b))))"

end
