(* ===== verification/Payouts.thy ===== *)
theory Payouts
  imports Store Keys
begin

text \<open>
  What the host is owed and how it leaves: lib/payouts/hostTransfers.ts (entitlements of the
  delayed-charge flow: create, find due, claim, transfer), lib/payouts/transferReversal.ts,
  lib/payouts/releasePayouts.ts (payouts of the destination-charge flow) and
  lib/payouts/legacyReconciliation.ts. The provider's calls are arguments. Shown: one entitlement
  per booking, one successful claim per entitlement, no transfer without a claim, no second
  transfer, no call at all while the flag is off, and no payout released under an open dispute.
\<close>

subsection \<open>Entitlements\<close>

record entitlement_input =
  ei_booking :: uuid
  ei_host :: uuid
  ei_amount :: minor
  ei_tax :: "minor option"
  ei_currency :: string
  ei_release :: millis

text \<open>\<open>ON CONFLICT (booking_id) DO NOTHING\<close>; \<open>new_id\<close> is the generated primary key.\<close>

definition create_entitlement ::
  "(string \<Rightarrow> string) \<Rightarrow> uuid \<Rightarrow> entitlement_input \<Rightarrow> store \<Rightarrow> uuid option \<times> store" where
  "create_entitlement sha new_id i s =
     (if row_exists (\<lambda>e. en_booking e = ei_booking i) (entitlements s) then (None, s)
      else (Some new_id, s\<lparr>entitlements := insert_row
              \<lparr>en_id = new_id, en_booking = ei_booking i, en_host = ei_host i, en_amount = ei_amount i,
               en_tax = ei_tax i, en_currency = ei_currency i, en_status = Entitled,
               en_release = ei_release i, en_claimed_at = None, en_worker = None, en_transfer = None,
               en_key = entitlement_key sha (ei_booking i)\<rparr> (entitlements s)\<rparr>))"

definition release_due :: "millis \<Rightarrow> store \<Rightarrow> entitlement \<Rightarrow> bool" where
  "release_due now s e \<longleftrightarrow>
     en_status e = Entitled \<and> en_release e \<le> now \<and>
     (case find_booking (en_booking e) s of
        None \<Rightarrow> False | Some b \<Rightarrow> b_status b \<noteq> Cancelled \<and> b_status b \<noteq> Disputed) \<and>
     \<not> row_exists (\<lambda>r. rf_booking r = en_booking e \<and> rf_status r = Refund_succeeded) (refunds s)"

definition find_release_due_entitlement_ids :: "millis \<Rightarrow> store \<Rightarrow> uuid list" where
  "find_release_due_entitlement_ids now s =
     take 200 (map en_id (select_where (release_due now s) (entitlements s)))"

definition claimable :: "uuid \<Rightarrow> entitlement \<Rightarrow> bool" where
  "claimable i e \<longleftrightarrow> en_id e = i \<and> en_status e = Entitled"

definition claim_entitlement :: "millis \<Rightarrow> uuid \<Rightarrow> string \<Rightarrow> store \<Rightarrow> bool \<times> store" where
  "claim_entitlement now i worker s =
     (0 < row_count (claimable i) (entitlements s),
      s\<lparr>entitlements := update_where (claimable i)
          (\<lambda>e. e\<lparr>en_status := Transfer_claimed, en_claimed_at := Some now, en_worker := Some worker\<rparr>)
          (entitlements s)\<rparr>)"

subsection \<open>Transfers\<close>

record transfer =
  tr_id :: string
  tr_entitlement :: "uuid option"

record transfer_request =
  tq_amount :: minor
  tq_currency :: string
  tq_destination :: string
  tq_entitlement :: uuid
  tq_key :: string

datatype release_reason =
  Transfers_disabled | Entitlement_not_found | Not_claimed entitlement_status | Already_transferred
  | No_connected_account | Transfer_error string

record release_result =
  rl_attempted :: bool
  rl_reason :: "release_reason option"
  rl_transfer :: "string option"

definition set_entitlement :: "uuid \<Rightarrow> (entitlement \<Rightarrow> entitlement) \<Rightarrow> store \<Rightarrow> store" where
  "set_entitlement i f s = s\<lparr>entitlements := update_where (\<lambda>e. en_id e = i) f (entitlements s)\<rparr>"

text \<open>
  \<open>attemptRelease\<close>, in its three parts: the checks before the provider is called, the transfer
  (adopted when \<open>stripe.transfers.list\<close>, here \<open>listed\<close>, already shows one for this entitlement, else
  made by \<open>stripe.transfers.create\<close>, here \<open>create\<close>: an error message or the transfer), and the
  record of its outcome.
\<close>

definition release_target :: "uuid \<Rightarrow> store \<Rightarrow> release_reason + entitlement \<times> string" where
  "release_target i s =
     (case first_where (\<lambda>e. en_id e = i \<and> row_exists (\<lambda>h. h_id h = en_host e) (hosts s))
             (entitlements s) of
        None \<Rightarrow> Inl Entitlement_not_found
      | Some e \<Rightarrow>
          if en_status e \<noteq> Transfer_claimed then Inl (Not_claimed (en_status e))
          else if en_transfer e \<noteq> None \<and> en_transfer e \<noteq> Some [] then Inl Already_transferred
          else
            let acct = (case first_where (\<lambda>h. h_id h = en_host e) (hosts s) of
                          None \<Rightarrow> None | Some h \<Rightarrow> h_account h)
            in if acct = None \<or> acct = Some [] then Inl No_connected_account
               else Inr (e, the acct))"

definition make_transfer ::
  "(string \<Rightarrow> transfer list) \<Rightarrow> (transfer_request \<Rightarrow> string + transfer) \<Rightarrow> uuid \<Rightarrow> entitlement \<Rightarrow> string \<Rightarrow>
    string + transfer" where
  "make_transfer listed create i e acct =
     (case first_where (\<lambda>t. tr_entitlement t = Some i) (listed acct) of
        Some t \<Rightarrow> Inr t
      | None \<Rightarrow> create \<lparr>tq_amount = en_amount e, tq_currency = to_lower (en_currency e),
                  tq_destination = acct, tq_entitlement = i, tq_key = en_key e\<rparr>)"

definition attempt_release ::
  "bool \<Rightarrow> (string \<Rightarrow> transfer list) \<Rightarrow> (transfer_request \<Rightarrow> string + transfer) \<Rightarrow> uuid \<Rightarrow> store \<Rightarrow>
    release_result \<times> store" where
  "attempt_release enabled listed create i s =
     (if \<not> enabled
      then (\<lparr>rl_attempted = False, rl_reason = Some Transfers_disabled, rl_transfer = None\<rparr>, s)
      else (case release_target i s of
              Inl r \<Rightarrow> (\<lparr>rl_attempted = False, rl_reason = Some r, rl_transfer = None\<rparr>, s)
            | Inr (e, acct) \<Rightarrow>
                (case make_transfer listed create i e acct of
                   Inl msg \<Rightarrow>
                     (\<lparr>rl_attempted = True, rl_reason = Some (Transfer_error msg), rl_transfer = None\<rparr>,
                      set_entitlement i (\<lambda>e. e\<lparr>en_status := Transfer_failed\<rparr>) s)
                 | Inr t \<Rightarrow>
                     (\<lparr>rl_attempted = True, rl_reason = None, rl_transfer = Some (tr_id t)\<rparr>,
                      set_entitlement i
                        (\<lambda>e. e\<lparr>en_status := Transfer_created, en_transfer := Some (tr_id t)\<rparr>) s))))"

subsection \<open>Reversals\<close>

definition reason_text :: "reversal_reason \<Rightarrow> string" where
  "reason_text r = (case r of Rev_refund \<Rightarrow> ''refund'' | Rev_dispute \<Rightarrow> ''dispute'')"

definition request_reversal ::
  "(string \<Rightarrow> string) \<Rightarrow> uuid \<Rightarrow> uuid \<Rightarrow> minor \<Rightarrow> reversal_reason \<Rightarrow> store \<Rightarrow> uuid option \<times> store" where
  "request_reversal sha new_id ent amount reason s =
     (let key = reversal_key sha ent (reason_text reason) amount
      in if row_exists (\<lambda>r. rv_key r = key) (reversals s) then (None, s)
         else (Some new_id, s\<lparr>reversals := insert_row
                 \<lparr>rv_id = new_id, rv_entitlement = ent, rv_amount = amount, rv_reason = reason,
                  rv_status = Reversal_requested, rv_provider = None, rv_key = key,
                  rv_confirmed = None\<rparr> (reversals s)\<rparr>))"

definition confirm_reversal :: "millis \<Rightarrow> uuid \<Rightarrow> string \<Rightarrow> store \<Rightarrow> store" where
  "confirm_reversal now i provider s =
     s\<lparr>reversals := update_where (\<lambda>r. rv_id r = i)
         (\<lambda>r. r\<lparr>rv_status := Reversal_confirmed, rv_provider := Some provider, rv_confirmed := Some now\<rparr>)
         (reversals s)\<rparr>"

definition mark_reversal_failed :: "uuid \<Rightarrow> store \<Rightarrow> store" where
  "mark_reversal_failed i s =
     s\<lparr>reversals := update_where (\<lambda>r. rv_id r = i) (\<lambda>r. r\<lparr>rv_status := Reversal_failed\<rparr>) (reversals s)\<rparr>"

definition list_reversals :: "uuid \<Rightarrow> store \<Rightarrow> reversal list" where
  "list_reversals ent s = select_where (\<lambda>r. rv_entitlement r = ent) (reversals s)"

datatype reversal_refusal =
  Reversal_not_found | Reversal_not_requested reversal_status | Nothing_to_reverse | Reversal_error string

record reversal_result =
  vr_attempted :: bool
  vr_reason :: "reversal_refusal option"
  vr_provider :: "string option"

definition reversal_target :: "uuid \<Rightarrow> store \<Rightarrow> reversal_refusal + reversal \<times> string" where
  "reversal_target i s =
     (case first_where (\<lambda>r. rv_id r = i \<and> row_exists (\<lambda>e. en_id e = rv_entitlement r) (entitlements s))
             (reversals s) of
        None \<Rightarrow> Inl Reversal_not_found
      | Some r \<Rightarrow>
          let transfer = (case first_where (\<lambda>e. en_id e = rv_entitlement r) (entitlements s) of
                            None \<Rightarrow> None | Some e \<Rightarrow> en_transfer e)
          in if rv_status r \<noteq> Reversal_requested then Inl (Reversal_not_requested (rv_status r))
             else if transfer = None \<or> transfer = Some [] then Inl Nothing_to_reverse
             else Inr (r, the transfer))"

definition execute_reversal ::
  "millis \<Rightarrow> (string \<Rightarrow> (string \<times> uuid option) list) \<Rightarrow> (string \<Rightarrow> minor \<Rightarrow> string \<Rightarrow> string + string) \<Rightarrow>
    uuid \<Rightarrow> store \<Rightarrow> reversal_result \<times> store" where
  "execute_reversal now listed create i s =
     (case reversal_target i s of
        Inl r \<Rightarrow> (\<lparr>vr_attempted = False, vr_reason = Some r, vr_provider = None\<rparr>, s)
      | Inr (r, t) \<Rightarrow>
          (case (case first_where (\<lambda>x. snd x = Some i) (listed t) of
                   Some x \<Rightarrow> Inr (fst x) | None \<Rightarrow> create t (rv_amount r) (rv_key r)) of
             Inr p \<Rightarrow> (\<lparr>vr_attempted = True, vr_reason = None, vr_provider = Some p\<rparr>,
                       confirm_reversal now i p s)
           | Inl msg \<Rightarrow> (\<lparr>vr_attempted = True, vr_reason = Some (Reversal_error msg), vr_provider = None\<rparr>,
                         mark_reversal_failed i s)))"

subsection \<open>Payouts of the destination-charge flow\<close>

definition open_dispute :: "uuid \<Rightarrow> store \<Rightarrow> bool" where
  "open_dispute bk s \<longleftrightarrow>
     row_exists (\<lambda>d. d_booking d = bk \<and> d_status d \<notin> {''won'', ''lost'', ''closed''}) (disputes s)"

definition payout_due :: "millis \<Rightarrow> store \<Rightarrow> payout \<Rightarrow> bool" where
  "payout_due now s p \<longleftrightarrow>
     row_exists (\<lambda>h. h_id h = po_host p) (hosts s) \<and> po_status p = Scheduled \<and>
     po_release p \<le> now \<and> \<not> open_dispute (po_booking p) s"

definition release_payout :: "millis \<Rightarrow> payout \<Rightarrow> store \<Rightarrow> store" where
  "release_payout now row s =
     s\<lparr>payouts := update_where (\<lambda>p. po_id p = po_id row)
         (\<lambda>p. p\<lparr>po_status := Payout_paid, po_released := Some now\<rparr>) (payouts s),
       ledger := update_where (\<lambda>l. le_booking l = po_booking row \<and> le_type l = Host_payout \<and>
           le_status l = L_pending) (\<lambda>l. l\<lparr>le_status := L_paid\<rparr>) (ledger s)\<rparr>"

definition release_due_payouts :: "millis \<Rightarrow> store \<Rightarrow> uuid list \<times> store" where
  "release_due_payouts now s =
     (let due = take 100 (select_where (payout_due now s) (payouts s))
      in (map po_id due, fold (release_payout now) due s))"

subsection \<open>Reconciliation report\<close>

datatype legacy_reason = No_intent_recorded | No_transfer_found | Lookup_failed string

datatype reconciliation =
  Transfer_found uuid string bool "string option"
| Reconciliation_required uuid legacy_reason "bool option"

record looked_up =
  lu_livemode :: bool
  lu_transfer :: "(string \<times> string option) option"

definition discover_legacy_transfer ::
  "(string \<Rightarrow> string + looked_up) \<Rightarrow> store \<Rightarrow> uuid \<Rightarrow> reconciliation" where
  "discover_legacy_transfer retrieve s bk =
     (case first_where (\<lambda>p. pay_booking p = bk) (payments s) of
        None \<Rightarrow> Reconciliation_required bk No_intent_recorded None
      | Some p \<Rightarrow>
          if pay_intent p = None \<or> pay_intent p = Some []
          then Reconciliation_required bk No_intent_recorded None
          else
            (case retrieve (the (pay_intent p)) of
               Inl msg \<Rightarrow> Reconciliation_required bk (Lookup_failed msg) None
             | Inr lu \<Rightarrow>
                 (case lu_transfer lu of
                    None \<Rightarrow> Reconciliation_required bk No_transfer_found (Some (lu_livemode lu))
                  | Some (t, dest) \<Rightarrow> Transfer_found bk t (lu_livemode lu) dest)))"

definition discover_legacy_transfers ::
  "(string \<Rightarrow> string + looked_up) \<Rightarrow> store \<Rightarrow> uuid list \<Rightarrow> reconciliation list" where
  "discover_legacy_transfers retrieve s bks = map (discover_legacy_transfer retrieve s) bks"

definition list_legacy_booking_ids :: "store \<Rightarrow> uuid list" where
  "list_legacy_booking_ids s =
     map b_id (select_where (\<lambda>b. b_flow b = Destination_charge_legacy \<and>
       row_exists (\<lambda>p. pay_booking p = b_id b \<and> pay_status p = Paid) (payments s)) (bookings s))"

subsection \<open>Facts\<close>

definition one_entitlement :: "store \<Rightarrow> bool" where
  "one_entitlement s \<longleftrightarrow> distinct (map en_booking (entitlements s)) \<and> distinct (map en_id (entitlements s))"

lemma create_entitlement_one:
  assumes "one_entitlement s" "new_id \<notin> en_id ` set (entitlements s)"
  shows "one_entitlement (snd (create_entitlement sha new_id i s))"
  using assms by (auto simp: one_entitlement_def create_entitlement_def insert_row_def)

lemma create_entitlement_again:
  "create_entitlement sha n2 i (snd (create_entitlement sha n1 i s)) =
    (None, snd (create_entitlement sha n1 i s))"
  by (auto simp: create_entitlement_def insert_row_def)

lemma claim_once: "fst (claim_entitlement t2 i w2 (snd (claim_entitlement t1 i w1 s))) = False"
  by (auto simp: claim_entitlement_def row_count_zero_iff claimable_def)

lemma attempt_release_disabled: "snd (attempt_release False listed create i s) = s"
  by (simp add: attempt_release_def Let_def)

lemma claim_entitlement_status:
  assumes "e \<in> set (entitlements (snd (claim_entitlement now i w s)))" "en_id e = i"
  shows "en_status e \<noteq> Entitled"
  using assms by (auto simp: claim_entitlement_def claimable_def)

text \<open>What a transfer needs, and what it leaves.\<close>

lemma release_target_Inr:
  assumes "release_target i s = Inr (e, acct)"
  shows "e \<in> set (entitlements s)" "en_id e = i" "en_status e = Transfer_claimed"
    "en_transfer e = None \<or> en_transfer e = Some []" "acct \<noteq> []"
  using assms
  by (auto simp: release_target_def Let_def split: if_splits option.splits dest!: first_where_Some)

lemma attempt_release_cases:
  assumes "attempt_release enabled listed create i s = (r, t)"
  obtains (refused) "\<not> rl_attempted r" "t = s"
  | (failed) e acct where "enabled" "release_target i s = Inr (e, acct)" "rl_attempted r"
      "t = set_entitlement i (\<lambda>e. e\<lparr>en_status := Transfer_failed\<rparr>) s"
  | (transferred) e acct x where "enabled" "release_target i s = Inr (e, acct)" "rl_attempted r"
      "make_transfer listed create i e acct = Inr x" "rl_transfer r = Some (tr_id x)"
      "t = set_entitlement i (\<lambda>e. e\<lparr>en_status := Transfer_created, en_transfer := Some (tr_id x)\<rparr>) s"
  using assms unfolding attempt_release_def
  by (auto split: if_splits sum.splits prod.splits)

lemma attempt_release_needs_claim:
  assumes "attempt_release enabled listed create i s = (r, t)" "rl_attempted r"
  shows "enabled" "\<exists>e \<in> set (entitlements s). en_id e = i \<and> en_status e = Transfer_claimed \<and>
    (en_transfer e = None \<or> en_transfer e = Some [])"
  using assms by (cases rule: attempt_release_cases; use release_target_Inr [of i s] in blast)+

lemma attempt_release_refused:
  "attempt_release enabled listed create i s = (r, t) \<Longrightarrow> \<not> rl_attempted r \<Longrightarrow> t = s"
  by (erule attempt_release_cases) auto

lemma attempt_release_not_claimed:
  assumes "\<forall>e \<in> set (entitlements s). en_id e = i \<longrightarrow> en_status e \<noteq> Transfer_claimed"
  shows "\<not> rl_attempted (fst (attempt_release enabled listed create i s))"
    "snd (attempt_release enabled listed create i s) = s"
  using assms attempt_release_needs_claim(2) [of enabled listed create i s]
    attempt_release_refused [of enabled listed create i s]
  by (metis prod.collapse)+

text \<open>After an attempt the entitlement is no longer claimed, so no further transfer follows.\<close>

lemma attempt_release_once:
  assumes "attempt_release enabled listed create i s = (r, t)" "rl_attempted r"
  shows "\<not> rl_attempted (fst (attempt_release enabled' listed' create' i t))"
    "snd (attempt_release enabled' listed' create' i t) = t"
proof -
  have "\<forall>e \<in> set (entitlements t). en_id e = i \<longrightarrow> en_status e \<noteq> Transfer_claimed"
    using assms by (cases rule: attempt_release_cases) (auto simp: set_entitlement_def)
  then show "\<not> rl_attempted (fst (attempt_release enabled' listed' create' i t))"
    "snd (attempt_release enabled' listed' create' i t) = t"
    by (rule attempt_release_not_claimed)+
qed

text \<open>A transfer the provider already lists is adopted: \<open>create\<close> is not consulted.\<close>

lemma make_transfer_reconciles:
  assumes "\<exists>x \<in> set (listed acct). tr_entitlement x = Some i"
  shows "make_transfer listed create i e acct = make_transfer listed create' i e acct"
  using assms first_where_None [of "\<lambda>x. tr_entitlement x = Some i" "listed acct"]
  by (auto simp: make_transfer_def split: option.splits)

lemma attempt_release_reconciles:
  assumes "\<And>acct. \<exists>x \<in> set (listed acct). tr_entitlement x = Some i"
  shows "attempt_release enabled listed create i s = attempt_release enabled listed create' i s"
  unfolding attempt_release_def make_transfer_reconciles [OF assms, where create = create and create' = create'] ..

lemma release_due_facts:
  assumes "e \<in> set (entitlements s)" "release_due now s e"
  shows "en_status e = Entitled" "en_release e \<le> now"
    "\<not> (\<exists>r \<in> set (refunds s). rf_booking r = en_booking e \<and> rf_status r = Refund_succeeded)"
  using assms by (auto simp: release_due_def)

text \<open>The batch of due payouts: rows that were not due keep their status.\<close>

lemma fold_release_payouts:
  "p \<in> set (payouts (fold (release_payout now) rows s)) \<Longrightarrow>
    p \<in> set (payouts s) \<or> (\<exists>row \<in> set rows. po_id row = po_id p)"
proof (induction rows arbitrary: s)
  case (Cons row rows)
  then consider "p \<in> set (payouts (release_payout now row s))" | "\<exists>row \<in> set rows. po_id row = po_id p"
    by fastforce
  then show ?case by cases (auto simp: release_payout_def split: if_splits)
qed simp

lemma release_due_payouts_only_due:
  assumes "p \<in> set (payouts (snd (release_due_payouts now s)))" "p \<notin> set (payouts s)"
  shows "\<exists>row \<in> set (payouts s). po_id row = po_id p \<and> po_status row = Scheduled \<and>
    po_release row \<le> now \<and> \<not> open_dispute (po_booking row) s"
proof -
  from assms fold_release_payouts obtain row where
    "row \<in> set (take 100 (select_where (payout_due now s) (payouts s)))" "po_id row = po_id p"
    unfolding release_due_payouts_def Let_def by fastforce
  then have "row \<in> set (select_where (payout_due now s) (payouts s))" by (meson in_set_takeD)
  with \<open>po_id row = po_id p\<close> show ?thesis by (auto simp: payout_due_def)
qed

lemma request_reversal_idempotent:
  "request_reversal sha n2 ent amount reason (snd (request_reversal sha n1 ent amount reason s)) =
    (None, snd (request_reversal sha n1 ent amount reason s))"
  by (auto simp: request_reversal_def Let_def insert_row_def)

lemma reversal_target_Inr:
  "reversal_target i s = Inr (r, t) \<Longrightarrow> r \<in> set (reversals s) \<and> rv_id r = i \<and> rv_status r = Reversal_requested"
  by (auto simp: reversal_target_def Let_def split: if_splits option.splits dest!: first_where_Some)

lemma execute_reversal_once:
  assumes "vr_attempted (fst (execute_reversal now listed create i s))"
  shows "\<not> vr_attempted (fst (execute_reversal now' listed' create' i
    (snd (execute_reversal now listed create i s))))"
proof -
  let ?t = "snd (execute_reversal now listed create i s)"
  have "\<forall>x \<in> set (reversals ?t). rv_id x = i \<longrightarrow> rv_status x \<noteq> Reversal_requested"
    using assms
    by (auto simp: execute_reversal_def confirm_reversal_def mark_reversal_failed_def
        split: sum.splits prod.splits)
  then have "reversal_target i ?t \<noteq> Inr (r, t')" for r t'
    using reversal_target_Inr [of i ?t r t'] by auto
  then show ?thesis unfolding execute_reversal_def [of now' listed' create' i ?t]
    by (cases "reversal_target i ?t") auto
qed

end
