(* ===== verification/Webhook.thy ===== *)
theory Webhook
  imports Booking Refunds Payouts
begin

text \<open>
  The destination-charge flow's side of the payment provider: lib/payments/createPaymentIntent.ts
  (one reusable intent per booking) and the handlers of lib/payments/webhookHandler.ts. A handler is
  one transaction; a value it cannot read (a missing row) is a thrown error and rolls it back. The
  messages sent after commit are left out. Events already routed to the delayed-charge flow are
  handled in \<open>New_Flow\<close>.
\<close>

subsection \<open>Creating the payment intent\<close>

datatype intent_error = Booking_not_pending | Host_not_connected | Already_paid_for | Intent_conflict

record intent_request =
  iq_amount :: minor
  iq_currency :: string
  iq_fee :: minor
  iq_destination :: string
  iq_booking :: uuid

definition reusable_intent_statuses :: "string list" where
  "reusable_intent_statuses =
     [''requires_payment_method'', ''requires_confirmation'', ''requires_action'']"

definition upsert_payment :: "uuid \<Rightarrow> uuid \<Rightarrow> string \<Rightarrow> minor \<Rightarrow> string \<Rightarrow> store \<Rightarrow> store" where
  "upsert_payment new_id bk intent amount currency s =
     (if row_exists (\<lambda>p. pay_booking p = bk) (payments s)
      then s\<lparr>payments := update_where (\<lambda>p. pay_booking p = bk)
               (\<lambda>p. p\<lparr>pay_intent := Some intent, pay_status := Pay_pending\<rparr>) (payments s)\<rparr>
      else s\<lparr>payments := insert_row
               \<lparr>pay_id = new_id, pay_booking = bk, pay_intent = Some intent, pay_status = Pay_pending,
                pay_amount = amount, pay_currency = currency, pay_failure_code = None,
                pay_failure_message = None\<rparr> (payments s)\<rparr>)"

definition reusable_payment :: "(string \<Rightarrow> string \<times> string) \<Rightarrow> uuid \<Rightarrow> store \<Rightarrow> intent_error + string option" where
  "reusable_payment retrieve bk s =
     (case first_where (\<lambda>p. pay_booking p = bk) (payments s) of
        None \<Rightarrow> Inr None
      | Some p \<Rightarrow>
          if pay_intent p = None \<or> pay_intent p = Some [] then Inr None
          else if pay_status p = Paid then Inl Already_paid_for
          else
            let (status, secret) = retrieve (the (pay_intent p))
            in if status \<in> set reusable_intent_statuses then Inr (Some secret) else Inr None)"

text \<open>\<open>retrieve\<close> gives an intent's status and client secret, \<open>create\<close> a new intent's id and secret.\<close>

definition create_payment_intent_for_booking ::
  "(string \<Rightarrow> string \<times> string) \<Rightarrow> (intent_request \<Rightarrow> string \<times> string) \<Rightarrow> uuid \<Rightarrow> uuid \<Rightarrow> store \<Rightarrow>
    (intent_error + string) \<times> store" where
  "create_payment_intent_for_booking retrieve create new_id bk s =
     (case (first_where (pending_status bk) (bookings s), find_price bk s) of
        (Some b, Some pc) \<Rightarrow>
          (case first_where (\<lambda>h. h_id h = b_host b) (hosts s) of
             None \<Rightarrow> (Inl Booking_not_pending, s)
           | Some h \<Rightarrow>
               if h_account h = None \<or> h_account h = Some [] then (Inl Host_not_connected, s)
               else
                 (case reusable_payment retrieve bk s of
                    Inl e \<Rightarrow> (Inl e, s)
                  | Inr (Some secret) \<Rightarrow> (Inr secret, s)
                  | Inr None \<Rightarrow>
                      let (intent, secret) = create
                            \<lparr>iq_amount = pc_total pc, iq_currency = to_lower (pc_currency pc),
                             iq_fee = pc_revenue pc, iq_destination = the (h_account h), iq_booking = bk\<rparr>
                      in (Inr secret, upsert_payment new_id bk intent (pc_total pc) (pc_currency pc) s)))
      | _ \<Rightarrow> (Inl Booking_not_pending, s))"

subsection \<open>Payment succeeded\<close>

datatype webhook_error = No_price_components | No_booking_row | Reversal_failed_with reversal_error

definition set_payment :: "(payment \<Rightarrow> bool) \<Rightarrow> (payment \<Rightarrow> payment) \<Rightarrow> store \<Rightarrow> store" where
  "set_payment P f s = s\<lparr>payments := update_where P f (payments s)\<rparr>"

definition ledger_row ::
  "booking \<Rightarrow> string \<Rightarrow> string \<Rightarrow> millis \<Rightarrow> ledger_type \<times> minor \<times> ledger_status \<Rightarrow> ledger_entry" where
  "ledger_row b currency ext now x =
     (case x of (ty, amount, st) \<Rightarrow>
        \<lparr>le_booking = b_id b, le_property = b_property b, le_host = b_host b, le_type = ty,
         le_amount = amount, le_currency = currency, le_status = st, le_ref = ext, le_at = now\<rparr>)"

definition charge_rows :: "price_row \<Rightarrow> (ledger_type \<times> minor \<times> ledger_status) list" where
  "charge_rows pc =
     [(Guest_charge, pc_total pc, L_paid), (Accommodation_revenue, pc_accommodation pc, L_paid),
      (Cleaning_fee, pc_cleaning pc, L_paid), (Guest_service_fee, pc_service_fee pc, L_paid),
      (Taxes, pc_taxes pc, L_paid), (Host_commission, pc_commission pc, L_paid),
      (Host_revenue, pc_revenue pc, L_paid)]"

text \<open>\<open>Math.max(...rules with 100%, 0)\<close>, in hours.\<close>

definition free_cancel_cutoff_hours :: "tier list \<Rightarrow> int" where
  "free_cancel_cutoff_hours rules =
     fold max (map cutoff_hours (filter (\<lambda>r. refund_percent r = 100) rules)) 0"

definition scheduled_release :: "day \<Rightarrow> tier list \<Rightarrow> millis \<Rightarrow> millis" where
  "scheduled_release check_in rules now =
     max (day_ms check_in) (now + free_cancel_cutoff_hours rules * ms_per_hour)"

definition already_paid :: "string \<Rightarrow> store \<Rightarrow> bool" where
  "already_paid intent s \<longleftrightarrow>
     (case first_where (\<lambda>p. pay_intent p = Some intent) (payments s) of
        None \<Rightarrow> False | Some p \<Rightarrow> pay_status p = Paid)"

definition on_payment_succeeded ::
  "millis \<Rightarrow> uuid \<Rightarrow> string \<Rightarrow> uuid \<Rightarrow> (store, webhook_error, bool) tx" where
  "on_payment_succeeded now payout_id intent bk s =
     (if already_paid intent s then Inr (False, s)
      else
           let s1 = set_payment (\<lambda>p. pay_intent p = Some intent) (\<lambda>p. p\<lparr>pay_status := Paid\<rparr>) s
           in (case first_where (pending_status bk) (bookings s1) of
                 None \<Rightarrow> Inr (False, s1)
               | Some b \<Rightarrow>
                   (case find_price bk s of
                      None \<Rightarrow> Inl No_price_components
                    | Some pc \<Rightarrow>
                        let s2 = s1\<lparr>bookings := update_where (pending_status bk)
                                      (\<lambda>b. b\<lparr>b_status := Confirmed\<rparr>) (bookings s1)\<rparr>;
                            entries = map (ledger_row b (pc_currency pc) intent now)
                              (charge_rows pc @ [(Host_payout, pc_payout pc, L_pending)]);
                            po = \<lparr>po_id = payout_id, po_host = b_host b, po_booking = bk,
                                  po_amount = pc_payout pc, po_currency = pc_currency pc,
                                  po_status = Scheduled,
                                  po_release = scheduled_release (b_check_in b) (b_policy b) now,
                                  po_released = None\<rparr>
                        in Inr (True, s2\<lparr>ledger := ledger s2 @ entries,
                                         payouts := insert_row po (payouts s2)\<rparr>))))"

definition on_payment_failed :: "string \<Rightarrow> string option \<Rightarrow> string option \<Rightarrow> store \<Rightarrow> store" where
  "on_payment_failed intent failure msg s =
     set_payment (\<lambda>p. pay_intent p = Some intent)
       (\<lambda>p. p\<lparr>pay_status := Pay_failed, pay_failure_code := failure, pay_failure_message := msg\<rparr>) s"

subsection \<open>Refund events\<close>

record refund_event =
  re_id :: string
  re_status :: string
  re_intent :: "string option"
  re_amount :: minor

definition succeeded_total :: "uuid \<Rightarrow> store \<Rightarrow> minor" where
  "succeeded_total bk s =
     sum_where (\<lambda>r. rf_booking r = bk \<and> rf_status r = Refund_succeeded) rf_amount (refunds s)"

definition components_of :: "price_row \<Rightarrow> amounts" where
  "components_of pc =
     (\<lambda>k. case k of Cat_accommodation \<Rightarrow> pc_accommodation pc | Cat_cleaning \<Rightarrow> pc_cleaning pc
        | Cat_service_fee \<Rightarrow> pc_service_fee pc | Cat_taxes \<Rightarrow> pc_taxes pc
        | Cat_commission \<Rightarrow> pc_commission pc | Cat_revenue \<Rightarrow> pc_revenue pc
        | Cat_payout \<Rightarrow> pc_payout pc)"

definition already_reversed :: "uuid \<Rightarrow> store \<Rightarrow> amounts" where
  "already_reversed bk s =
     (\<lambda>k. - sum_where (\<lambda>l. le_booking l = bk \<and> le_status l = L_reversed \<and>
            le_type l = category_ledger_type k) le_amount (ledger s))"

definition awaiting_refund :: "string \<Rightarrow> refund_row \<Rightarrow> bool" where
  "awaiting_refund rid r \<longleftrightarrow> rf_provider r = Some rid \<and> rf_status r \<noteq> Refund_succeeded"

definition settle_payout :: "uuid \<Rightarrow> bool \<Rightarrow> minor \<Rightarrow> store \<Rightarrow> store" where
  "settle_payout bk full reversed s =
     (let P = (\<lambda>p. po_booking p = bk \<and> po_status p = Scheduled)
      in if full then s\<lparr>payouts := update_where P (\<lambda>p. p\<lparr>po_status := Payout_cancelled\<rparr>) (payouts s)\<rparr>
         else if 0 < reversed
         then s\<lparr>payouts := update_where P (\<lambda>p. p\<lparr>po_amount := po_amount p - reversed\<rparr>) (payouts s)\<rparr>
         else s)"

text \<open>
  The handler in its parts: the refund row is marked (only the first delivery finds one to mark), the
  payment and the booking take their new status, and the ledger and the payout follow.
\<close>

definition mark_refund_succeeded :: "string \<Rightarrow> store \<Rightarrow> store" where
  "mark_refund_succeeded rid s =
     s\<lparr>refunds := update_where (awaiting_refund rid) (\<lambda>r. r\<lparr>rf_status := Refund_succeeded\<rparr>) (refunds s)\<rparr>"

definition apply_refund_status :: "payment \<Rightarrow> bool \<Rightarrow> store \<Rightarrow> store" where
  "apply_refund_status p full s =
     set_booking (pay_booking p) (\<lambda>b. b\<lparr>b_status := if full then Refunded else Confirmed\<rparr>)
       (set_payment (\<lambda>q. pay_id q = pay_id p)
         (\<lambda>q. q\<lparr>pay_status := if full then Pay_refunded else Pay_partially_refunded\<rparr>) s)"

definition record_reversal ::
  "millis \<Rightarrow> refund_event \<Rightarrow> payment \<Rightarrow> minor \<Rightarrow> (store, webhook_error, bool) tx" where
  "record_reversal now ev p cumulative s =
     (let bk = pay_booking p
      in case find_price bk s of
           None \<Rightarrow> Inr (False, s)
         | Some pc \<Rightarrow>
             (case compute_refund_reversal_entries (components_of pc) (already_reversed bk s)
                     (re_amount ev) cumulative (pay_amount p) of
                Inl e \<Rightarrow> Inl (Reversal_failed_with e)
              | Inr (rows, payout_reversal) \<Rightarrow>
                  (case find_booking bk s of
                     None \<Rightarrow> Inl No_booking_row
                   | Some b \<Rightarrow>
                       let entries = map (\<lambda>r. ledger_row b (pc_currency pc) (re_id ev) now
                             (rw_type r, rw_minor r, rw_status r)) rows
                       in Inr (True, settle_payout bk (pay_amount p \<le> cumulative) payout_reversal
                                 (s\<lparr>ledger := ledger s @ entries\<rparr>)))))"

definition on_refund_event :: "millis \<Rightarrow> refund_event \<Rightarrow> (store, webhook_error, bool) tx" where
  "on_refund_event now ev s =
     (if re_status ev \<noteq> ''succeeded'' then Inr (False, s)
      else (case re_intent ev of None \<Rightarrow> Inr (False, s) | Some intent \<Rightarrow>
      (case first_where (\<lambda>p. pay_intent p = Some intent) (payments s) of
         None \<Rightarrow> Inr (False, s)
       | Some p \<Rightarrow>
           if row_count (awaiting_refund (re_id ev)) (refunds s) = 0 then Inr (False, s)
           else
             let s1 = mark_refund_succeeded (re_id ev) s;
                 cumulative = succeeded_total (pay_booking p) s1
             in record_reversal now ev p cumulative
                  (apply_refund_status p (pay_amount p \<le> cumulative) s1))))"

definition on_refund_failed :: "string \<Rightarrow> store \<Rightarrow> store" where
  "on_refund_failed rid s =
     s\<lparr>refunds := update_where (awaiting_refund rid) (\<lambda>r. r\<lparr>rf_status := Refund_failed\<rparr>) (refunds s)\<rparr>"

subsection \<open>Disputes and connected accounts\<close>

record dispute_event =
  de_id :: string
  de_intent :: "string option"
  de_reason :: string
  de_dispute_status :: string
  de_amount :: minor
  de_due_by :: "int option"

definition due_millis :: "int option \<Rightarrow> millis option" where
  "due_millis x = (case x of None \<Rightarrow> None | Some t \<Rightarrow> if t = 0 then None else Some (t * 1000))"

definition on_dispute_created :: "dispute_event \<Rightarrow> store \<Rightarrow> store" where
  "on_dispute_created ev s =
     (case de_intent ev of None \<Rightarrow> s | Some intent \<Rightarrow>
     (case first_where (\<lambda>p. pay_intent p = Some intent) (payments s) of
        None \<Rightarrow> s
      | Some p \<Rightarrow>
          let bk = pay_booking p;
              s1 = s\<lparr>disputes := insert_row
                      \<lparr>d_booking = bk, d_payment = pay_id p, d_provider = de_id ev, d_reason = de_reason ev,
                       d_status = de_dispute_status ev, d_amount = de_amount ev,
                       d_due = due_millis (de_due_by ev)\<rparr> (disputes s)\<rparr>;
              s2 = set_booking bk (\<lambda>b. b\<lparr>b_status := Disputed\<rparr>) s1
          in s2\<lparr>payouts := update_where (\<lambda>p. po_booking p = bk \<and> po_status p = Scheduled)
                  (\<lambda>p. p\<lparr>po_status := Payout_cancelled\<rparr>) (payouts s2)\<rparr>))"

definition set_payout_account :: "string \<Rightarrow> payout_account \<Rightarrow> store \<Rightarrow> store" where
  "set_payout_account acct st s =
     s\<lparr>hosts := update_where (\<lambda>h. h_account h = Some acct) (\<lambda>h. h\<lparr>h_payout_status := st\<rparr>) (hosts s)\<rparr>"

definition on_connected_account_updated :: "string \<Rightarrow> bool \<Rightarrow> bool \<Rightarrow> bool \<Rightarrow> store \<Rightarrow> store" where
  "on_connected_account_updated acct charges_enabled payouts_enabled details_submitted s =
     set_payout_account acct
       (if charges_enabled \<and> payouts_enabled then Account_active
        else if details_submitted then Account_pending else Not_connected) s"

record recipient_config =
  rp_applied :: bool
  rp_transfers_status :: "string option"

definition compute_readiness_status :: "recipient_config option \<Rightarrow> payout_account" where
  "compute_readiness_status cfg =
     (case cfg of
        None \<Rightarrow> Not_connected
      | Some r \<Rightarrow>
          if \<not> rp_applied r then Not_connected
          else if rp_transfers_status r = Some ''active'' then Account_active else Account_pending)"

definition handle_v2_event ::
  "(string \<Rightarrow> recipient_config option) \<Rightarrow> string \<Rightarrow> string option \<Rightarrow> store \<Rightarrow> store" where
  "handle_v2_event retrieve ev_type related s =
     (if ev_type = ''v2.core.account[configuration.recipient].capability_status_updated'' \<or>
         ev_type = ''v2.core.account[requirements].updated''
      then (case related of
              None \<Rightarrow> s
            | Some acct \<Rightarrow>
                if acct = [] then s
                else set_payout_account acct (compute_readiness_status (retrieve acct)) s)
      else s)"

end
