(* ===== verification/Booking_Safety.thy ===== *)
theory Booking_Safety
  imports Booking
begin

text \<open>
  What every operation on bookings must keep: \<open>bookings_ok\<close>. An active booking (waiting for payment
  or confirmed) holds a booked row for each of its nights, and two active bookings of a property
  share no night. One lemma, \<open>bookings_ok_shrink\<close>, covers every operation that only ends bookings or
  changes other columns; creation is the only operation that adds nights.
\<close>

definition active :: "booking \<Rightarrow> bool" where
  "active b \<longleftrightarrow> b_status b = Pending_payment \<or> b_status b = Confirmed"

definition stay_nights :: "booking \<Rightarrow> day list" where
  "stay_nights b = [b_check_in b..b_check_out b - 1]"

definition nights_held :: "store \<Rightarrow> booking \<Rightarrow> bool" where
  "nights_held s b \<longleftrightarrow> list_all (\<lambda>d. avail s (b_property b) d = Some booked_row) (stay_nights b)"

definition nights_disjoint :: "booking \<Rightarrow> booking \<Rightarrow> bool" where
  "nights_disjoint b c \<longleftrightarrow>
     b_property b \<noteq> b_property c \<or> list_all (\<lambda>d. d \<notin> set (stay_nights c)) (stay_nights b)"

definition bookings_ok :: "store \<Rightarrow> bool" where
  "bookings_ok s \<longleftrightarrow>
     distinct (map b_id (bookings s)) \<and> distinct (map b_idem (bookings s)) \<and>
     list_all (\<lambda>b. b_check_in b < b_check_out b) (bookings s) \<and>
     list_all (\<lambda>b. active b \<longrightarrow> nights_held s b) (bookings s) \<and>
     list_all (\<lambda>b. list_all (\<lambda>c. active b \<and> active c \<and> b_id b \<noteq> b_id c \<longrightarrow> nights_disjoint b c)
       (bookings s)) (bookings s)"

lemma set_stay_nights [simp]: "set (stay_nights b) = {b_check_in b..<b_check_out b}"
  by (auto simp: stay_nights_def)

lemma nights_held_iff:
  "nights_held s b \<longleftrightarrow>
    (\<forall>d. b_check_in b \<le> d \<and> d < b_check_out b \<longrightarrow> avail s (b_property b) d = Some booked_row)"
  by (auto simp: nights_held_def list_all_iff)

lemma nights_disjoint_iff:
  "nights_disjoint b c \<longleftrightarrow> b_property b \<noteq> b_property c \<or>
    {b_check_in b..<b_check_out b} \<inter> {b_check_in c..<b_check_out c} = {}"
  unfolding nights_disjoint_def list_all_iff set_stay_nights by blast

lemma bookings_ok_iff:
  "bookings_ok s \<longleftrightarrow>
     distinct (map b_id (bookings s)) \<and> distinct (map b_idem (bookings s)) \<and>
     (\<forall>b \<in> set (bookings s). b_check_in b < b_check_out b) \<and>
     (\<forall>b \<in> set (bookings s). active b \<longrightarrow> nights_held s b) \<and>
     (\<forall>b \<in> set (bookings s). \<forall>c \<in> set (bookings s).
        active b \<and> active c \<and> b_id b \<noteq> b_id c \<longrightarrow> nights_disjoint b c)"
  by (simp add: bookings_ok_def list_all_iff)

lemma bookings_okD:
  assumes "bookings_ok s"
  shows "distinct (map b_id (bookings s))" "distinct (map b_idem (bookings s))"
    "b \<in> set (bookings s) \<Longrightarrow> b_check_in b < b_check_out b"
    "b \<in> set (bookings s) \<Longrightarrow> active b \<Longrightarrow> nights_held s b"
    "b \<in> set (bookings s) \<Longrightarrow> c \<in> set (bookings s) \<Longrightarrow> active b \<Longrightarrow> active c \<Longrightarrow>
      b_id b \<noteq> b_id c \<Longrightarrow> nights_disjoint b c"
  using assms by (auto simp: bookings_ok_iff)

text \<open>An empty store has no bookings to go wrong.\<close>

lemma bookings_ok_empty [simp]: "bookings_ok empty_store"
  by (simp add: bookings_ok_def empty_store_def)

subsection \<open>Operations that add no nights\<close>

text \<open>Columns the invariant reads, and activity at most lost.\<close>

definition shrinks :: "(booking \<Rightarrow> booking) \<Rightarrow> bool" where
  "shrinks g \<longleftrightarrow> (\<forall>b. b_id (g b) = b_id b \<and> b_idem (g b) = b_idem b \<and>
     b_property (g b) = b_property b \<and> b_check_in (g b) = b_check_in b \<and>
     b_check_out (g b) = b_check_out b \<and> (active (g b) \<longrightarrow> active b))"

lemma bookings_ok_shrink:
  assumes ok: "bookings_ok s" and bk: "bookings t = map g (bookings s)" and g: "shrinks g"
    and held: "\<And>b. b \<in> set (bookings s) \<Longrightarrow> active (g b) \<Longrightarrow> nights_held t b"
  shows "bookings_ok t"
proof -
  have ids: "map (\<lambda>b. b_id (g b)) (bookings s) = map b_id (bookings s)"
    "map (\<lambda>b. b_idem (g b)) (bookings s) = map b_idem (bookings s)"
    using g by (simp_all add: shrinks_def)
  have h: "nights_held t (g b) = nights_held t b"
    "nights_disjoint (g b) (g c) = nights_disjoint b c" for b c
    using g by (simp_all add: shrinks_def nights_held_iff nights_disjoint_iff)
  show ?thesis
    unfolding bookings_ok_iff bk
    using ok g ids held
    by (auto simp: comp_def h shrinks_def bookings_ok_iff)
qed

lemma shrinks_id [simp]: "shrinks (\<lambda>b. b)"
  by (simp add: shrinks_def)

lemma shrinks_if: "shrinks f \<Longrightarrow> shrinks (\<lambda>b. if P b then f b else b)"
  by (simp add: shrinks_def)

lemma nights_held_cong: "avail t = avail s \<Longrightarrow> nights_held t b = nights_held s b"
  by (simp add: nights_held_iff)

text \<open>A change of other columns, and a change of other tables.\<close>

lemma bookings_ok_update:
  assumes "bookings_ok s" "bookings t = update_where P f (bookings s)" "avail t = avail s" "shrinks f"
  shows "bookings_ok t"
  using assms(1)
proof (rule bookings_ok_shrink)
  show "bookings t = map (\<lambda>b. if P b then f b else b) (bookings s)"
    by (simp add: assms(2) update_where_def)
  show "shrinks (\<lambda>b. if P b then f b else b)" by (rule shrinks_if) fact
  fix b
  assume "b \<in> set (bookings s)" "active (if P b then f b else b)"
  then show "nights_held t b"
    using assms by (auto simp: nights_held_cong [OF assms(3)] bookings_ok_iff shrinks_def split: if_splits)
qed

lemma bookings_ok_frame:
  assumes "bookings_ok s" "bookings t = bookings s"
    "\<And>p d. avail s p d = Some booked_row \<Longrightarrow> avail t p d = Some booked_row"
  shows "bookings_ok t"
  using assms by (auto simp: bookings_ok_iff nights_held_iff)

lemma bookings_ok_confirm:
  assumes "bookings_ok s" "bookings t = update_where P (\<lambda>b. b\<lparr>b_status := st\<rparr>) (bookings s)"
    "avail t = avail s" "\<And>b. b \<in> set (bookings s) \<Longrightarrow> P b \<Longrightarrow> active b"
  shows "bookings_ok t"
proof (cases "st = Pending_payment \<or> st = Confirmed")
  case True
  then have act: "active (b\<lparr>b_status := st\<rparr>)" for b by (auto simp: active_def)
  have nh: "nights_held t b = nights_held s b" "nights_held s (b\<lparr>b_status := st\<rparr>) = nights_held s b" for b
    by (simp_all add: nights_held_iff assms(3))
  have nd: "nights_disjoint (b\<lparr>b_status := st\<rparr>) c = nights_disjoint b c"
    "nights_disjoint b (c\<lparr>b_status := st\<rparr>) = nights_disjoint b c" for b c
    by (simp_all add: nights_disjoint_iff)
  have ids: "map b_id (bookings t) = map b_id (bookings s)" "map b_idem (bookings t) = map b_idem (bookings s)"
    by (simp_all add: assms(2) map_update_where)
  show ?thesis
    unfolding bookings_ok_iff ids
    using assms(1,4) by (auto simp: assms(2) bookings_ok_iff nh nd act split: if_splits)
next
  case False
  then have "shrinks (\<lambda>b. b\<lparr>b_status := st\<rparr>)" by (simp add: shrinks_def active_def)
  then show ?thesis by (rule bookings_ok_update [OF assms(1,2,3)])
qed

subsection \<open>Ending a booking\<close>

lemma reconcile_booked_row [simp]:
  "avail (snd (reconcile now p s)) q d = Some booked_row \<longleftrightarrow> avail s q d = Some booked_row"
  by (rule reconcile_other_rows) simp

lemma release_nights_frame [simp]:
  "properties (release_nights x b s) = properties s" "compliance (release_nights x b s) = compliance s"
  "policies (release_nights x b s) = policies s" "fee_configs (release_nights x b s) = fee_configs s"
  "bookings (release_nights x b s) = bookings s" "prices (release_nights x b s) = prices s"
  "payments (release_nights x b s) = payments s" "refunds (release_nights x b s) = refunds s"
  "payouts (release_nights x b s) = payouts s" "ledger (release_nights x b s) = ledger s"
  "disputes (release_nights x b s) = disputes s" "attempts (release_nights x b s) = attempts s"
  "entitlements (release_nights x b s) = entitlements s" "reversals (release_nights x b s) = reversals s"
  "feeds (release_nights x b s) = feeds s" "events (release_nights x b s) = events s"
  "audit (release_nights x b s) = audit s"
  by (simp_all add: release_nights_def)

lemma release_nights_booked:
  "avail (release_nights x b s) q d = Some booked_row \<longleftrightarrow>
    avail s q d = Some booked_row \<and> (q = b_property b \<longrightarrow> \<not> (b_check_in b \<le> d \<and> d < b_check_out b))"
  by (auto simp: release_nights_def split: option.splits if_splits)

lemma release_nights_free:
  assumes "b_check_in b \<le> d" "d < b_check_out b" "calendar_ok (avail s (b_property b))"
  shows "\<exists>r. avail (release_nights x b s) (b_property b) d = r \<and>
    (\<forall>row. r = Some row \<longrightarrow> av_source row \<noteq> Src_booking)"
  using assms by (auto simp: release_nights_def calendar_ok_def row_ok_def split: option.splits if_splits)

lemma bookings_ok_end:
  assumes ok: "bookings_ok s" and b: "b \<in> set (bookings s)" "active b" and bk: "b_id b = bk"
    and f: "shrinks f" "\<And>b. \<not> active (f b)"
  shows "bookings_ok (set_booking bk f (snd (reconcile now (b_property b) (release_nights x b s))))"
    (is "bookings_ok ?t")
  using ok
proof (rule bookings_ok_shrink)
  show "bookings ?t = map (\<lambda>b. if b_id b = bk then f b else b) (bookings s)"
    by (simp add: update_where_def)
  show "shrinks (\<lambda>b. if b_id b = bk then f b else b)" using f(1) by (rule shrinks_if)
  fix c
  assume c: "c \<in> set (bookings s)" and "active (if b_id c = bk then f c else c)"
  then have "active c" "b_id c \<noteq> bk" using f(2) [of c] by (auto split: if_splits)
  with bookings_okD(5) [OF ok b(1) c b(2)] bk have "nights_disjoint b c" by auto
  with bookings_okD(4) [OF ok c \<open>active c\<close>] show "nights_held ?t c"
    by (auto simp: nights_held_iff release_nights_booked nights_disjoint_iff)
qed

subsection \<open>Creation\<close>

lemma book_nights_eq: "book_nights ds m = (\<lambda>d. if d \<in> set ds then Some booked_row else m d)"
  unfolding book_nights_def by (induction ds arbitrary: m) (auto simp: fun_eq_iff)

lemma nights_taken_iff:
  "nights_taken m a b \<longleftrightarrow> (\<exists>d. a \<le> d \<and> d < b \<and> \<not> night_free m d)"
  by (auto simp: nights_taken_def list_ex_iff night_free_def split: option.splits)

definition booked_store :: "booking_input \<Rightarrow> store \<Rightarrow> store" where
  "booked_store i s =
     s\<lparr>avail := (avail s)(bi_property i :=
        book_nights (enumerate_dates (bi_check_in i) (bi_check_out i)) (avail s (bi_property i)))\<rparr>"

text \<open>The three ways a creation commits or fails, with what each has established.\<close>

lemma create_booking_tx_cases:
  assumes "create_booking_tx delayed now new_id i nights s = Inr (r, t)"
  obtains (replay) b where "first_where (\<lambda>b. b_idem b = bi_key i) (bookings s) = Some b"
      "r = (b, None)" "t = s"
  | (created) p bd where "first_where (\<lambda>b. b_idem b = bi_key i) (bookings s) = None"
      "find_property (bi_property i) s = Some p"
      "stay_guard (day_of_ms now) s p (bi_guests i) nights = None"
      "\<not> nights_taken (avail s (bi_property i)) (bi_check_in i) (bi_check_out i)"
      "price_stay (booked_store i s) p nights = Inr bd"
      "new_id \<notin> b_id ` set (bookings s)"
      "r = (new_booking delayed now new_id i p (policy_rules (booked_store i s) p), Some bd)"
      "t = (booked_store i s)\<lparr>
         bookings := insert_row (new_booking delayed now new_id i p (policy_rules (booked_store i s) p))
           (bookings s),
         prices := insert_row (price_row_of new_id bd) (prices s)\<rparr>"
  using assms
  unfolding create_booking_tx_def Let_def booked_store_def [symmetric]
  by (auto split: option.splits if_splits sum.splits simp: booked_store_def)

lemma create_booking_cases:
  assumes "create_booking delayed now new_id i s = (Inr r, t)"
  shows "0 < nights_between (bi_check_in i) (bi_check_out i)" "of_int \<lfloor>bi_guests i\<rfloor> = bi_guests i"
    "1 \<le> bi_guests i"
    "create_booking_tx delayed now new_id i (nights_between (bi_check_in i) (bi_check_out i)) s = Inr (r, t)"
  using assms by (auto simp: create_booking_def Let_def with_transaction_ok split: if_splits)

lemma create_booking_error:
  "create_booking delayed now new_id i s = (Inl e, t) \<Longrightarrow> t = s"
  by (auto simp: create_booking_def Let_def with_transaction_def split: if_splits sum.splits)

lemma nights_positive:
  assumes "0 < nights_between a b"
  shows "a < b"
proof (rule ccontr)
  assume "\<not> a < b"
  then have "(of_int (day_ms b - day_ms a) :: rat) \<le> 0" by (simp add: day_ms_def)
  then have "(of_int (day_ms b - day_ms a) / 86400000 :: rat) \<le> of_int 0" by simp
  then have "nights_between a b \<le> 0"
    unfolding nights_between_def Let_def js_div_def by (intro js_round_fl_le) (simp_all add: max_safe_def)
  with assms show False by simp
qed

lemma new_booking_simps [simp]:
  "b_id (new_booking dl now n i p rs) = n" "b_property (new_booking dl now n i p rs) = bi_property i"
  "b_check_in (new_booking dl now n i p rs) = bi_check_in i"
  "b_check_out (new_booking dl now n i p rs) = bi_check_out i"
  "b_idem (new_booking dl now n i p rs) = bi_key i"
  "b_status (new_booking dl now n i p rs) = Pending_payment"
  "b_policy (new_booking dl now n i p rs) = rs" "b_host (new_booking dl now n i p rs) = p_host p"
  "b_hold (new_booking dl now n i p rs) = Some (now + hold_minutes * 60000)"
  by (simp_all add: new_booking_def)

lemma booked_store_avail:
  "avail (booked_store i s) q d =
    (if q = bi_property i \<and> bi_check_in i \<le> d \<and> d < bi_check_out i then Some booked_row
     else avail s q d)"
  by (simp add: booked_store_def book_nights_eq)

lemma booked_store_frame [simp]:
  "bookings (booked_store i s) = bookings s" "policies (booked_store i s) = policies s"
  "fee_configs (booked_store i s) = fee_configs s" "prices (booked_store i s) = prices s"
  by (simp_all add: booked_store_def)

lemma free_nights_disjoint:
  assumes ok: "bookings_ok s" and c: "c \<in> set (bookings s)" "active c"
    and free: "\<not> nights_taken (avail s (b_property b)) (b_check_in b) (b_check_out b)"
  shows "nights_disjoint b c" "nights_disjoint c b"
proof -
  have "d \<notin> {b_check_in c..<b_check_out c}"
    if "b_property b = b_property c" "d \<in> {b_check_in b..<b_check_out b}" for d
    using bookings_okD(4) [OF ok c] free that
    by (fastforce simp: nights_held_iff nights_taken_iff night_free_def)
  then show "nights_disjoint b c" "nights_disjoint c b"
    unfolding nights_disjoint_iff by fastforce+
qed

lemma create_keeps_bookings_ok:
  assumes ok: "bookings_ok s" and "create_booking delayed now new_id i s = (Inr r, t)"
  shows "bookings_ok t"
  using create_booking_cases(4) [OF assms(2)]
proof (cases rule: create_booking_tx_cases)
  case replay
  with ok show ?thesis by simp
next
  case (created p bd)
  let ?b = "new_booking delayed now new_id i p (policy_rules (booked_store i s) p)"
  have free: "\<not> nights_taken (avail s (b_property ?b)) (b_check_in ?b) (b_check_out ?b)"
    using created by simp
  have bs: "set (bookings t) = insert ?b (set (bookings s))"
    and ids: "map b_id (bookings t) = map b_id (bookings s) @ [new_id]"
    and keys: "map b_idem (bookings t) = map b_idem (bookings s) @ [bi_key i]"
    by (simp_all add: created(8) insert_row_def)
  have held: "nights_held t ?b" by (simp add: nights_held_iff created(8) booked_store_avail)
  have other: "nights_held s c \<Longrightarrow> nights_held t c" for c
    by (simp add: nights_held_iff created(8) booked_store_avail)
  show ?thesis
    unfolding bookings_ok_iff bs ids keys
    using ok created(1,6) held other free_nights_disjoint [OF ok _ _ free]
      nights_positive [OF create_booking_cases(1) [OF assms(2)]]
    by (auto simp: bookings_ok_iff first_where_None)
qed

subsection \<open>The other operations\<close>

lemma shrinks_cancel [simp]:
  "shrinks (\<lambda>b. b\<lparr>b_status := Cancelled\<rparr>)"
  "shrinks (\<lambda>b. b\<lparr>b_status := Cancelled, b_archived := a, b_next_retry := n\<rparr>)"
  "shrinks (\<lambda>b. b\<lparr>b_archived := a\<rparr>)"
  by (simp_all add: shrinks_def active_def)

lemma not_active_cancel [simp]: "\<not> active (b\<lparr>b_status := Cancelled\<rparr>)"
  "\<not> active (b\<lparr>b_status := Cancelled, b_archived := a, b_next_retry := n\<rparr>)"
  by (simp_all add: active_def)

lemma release_expired_hold_cases:
  assumes "release_expired_hold now bk s = Inr (r, t)"
  obtains (none) "r = None" "t = s"
  | (released) b h where "first_where (pending_status bk) (bookings s) = Some b"
      "b_hold b = Some h" "h \<le> now" "r = Some (b\<lparr>b_status := Cancelled\<rparr>)"
      "t = set_booking bk (\<lambda>b. b\<lparr>b_status := Cancelled\<rparr>)
             (snd (reconcile now (b_property b) (release_nights True b s)))"
  using assms by (auto simp: release_expired_hold_def Let_def split: option.splits if_splits)

lemma release_keeps_bookings_ok:
  assumes "bookings_ok s" "release_expired_hold now bk s = Inr (r, t)"
  shows "bookings_ok t"
  using assms(2)
proof (cases rule: release_expired_hold_cases)
  case none
  with assms(1) show ?thesis by simp
next
  case (released b h)
  with first_where_Some [OF released(1)] show ?thesis
    by (auto intro!: bookings_ok_end [OF assms(1), of b] simp: active_def pending_status_def)
qed

lemma refund_request_for_Some:
  assumes "refund_request_for bk who oc cur pays = Some q"
  shows "ri_amount q = oc_refundable oc" "0 < ri_amount q" "ri_booking q = bk"
    "ri_reason q = refund_reason_of who" "ri_currency q = cur" "ri_by q = who"
    "\<exists>p \<in> set pays. pay_id p = ri_payment q \<and> pay_booking p = bk \<and> pay_status p = Paid"
  using assms
  by (auto simp: refund_request_for_def split: option.splits if_splits dest!: first_where_Some)

lemma cancel_booking_cases:
  assumes "cancel_booking_tx now bk who s = Inr (r, t)"
  obtains b pc where "find_booking bk s = Some b" "find_price bk s = Some pc" "active b"
    "fst r = calculate_cancellation (b_policy b) (b_check_in b) (pc_total pc) (pc_payout pc) now"
    "snd r = refund_request_for bk who (fst r) (pc_currency pc) (payments s)"
    "t = log_audit None bk (Booking_cancelled (b_status b) who (oc_percent (fst r)))
       (set_booking bk (\<lambda>b. b\<lparr>b_status := Cancelled\<rparr>)
         (snd (reconcile now (b_property b) (release_nights False b s))))"
proof -
  from assms obtain b pc where b: "find_booking bk s = Some b" "find_price bk s = Some pc"
    by (auto simp: cancel_booking_tx_def split: option.splits)
  from assms have act: "active b"
    by (auto simp: cancel_booking_tx_def b active_def split: if_splits)
  then have "b_status b \<noteq> Confirmed \<and> b_status b \<noteq> Pending_payment \<longleftrightarrow> False"
    by (auto simp: active_def)
  with assms have "fst r = calculate_cancellation (b_policy b) (b_check_in b) (pc_total pc) (pc_payout pc) now"
    "snd r = refund_request_for bk who (fst r) (pc_currency pc) (payments s)"
    "t = log_audit None bk (Booking_cancelled (b_status b) who (oc_percent (fst r)))
       (set_booking bk (\<lambda>b. b\<lparr>b_status := Cancelled\<rparr>)
         (snd (reconcile now (b_property b) (release_nights False b s))))"
    by (simp_all only: cancel_booking_tx_def b Let_def option.case prod.case if_False sum.inject prod.inject)
      auto
  with b act show ?thesis by (rule that)
qed

lemma cancel_keeps_bookings_ok:
  assumes "bookings_ok s" "cancel_booking_tx now bk who s = Inr (r, t)"
  shows "bookings_ok t"
  using assms(2)
proof (cases rule: cancel_booking_cases)
  case (1 b pc)
  then have "bookings_ok (set_booking bk (\<lambda>b. b\<lparr>b_status := Cancelled\<rparr>)
      (snd (reconcile now (b_property b) (release_nights False b s))))"
    by (auto intro!: bookings_ok_end [OF assms(1), of b] dest!: first_where_Some)
  then show ?thesis unfolding 1(6) by (rule bookings_ok_frame) simp_all
qed

lemma discard_cases:
  assumes "discard_unpaid_booking_tx now bk guest s = Inr (r, t)"
  obtains b where "first_where (\<lambda>b. b_id b = bk \<and> b_guest b = guest) (bookings s) = Some b"
    "b_status b = Pending_payment" "b_archived b = None"
    "\<forall>p \<in> set (payments s). pay_booking p = bk \<longrightarrow> pay_status p \<in> {Pay_pending, Pay_processing, Pay_failed}"
    "\<forall>a \<in> set (attempts s). pa_booking a = bk \<longrightarrow> pa_status a \<noteq> At_succeeded"
    "\<forall>e \<in> set (entitlements s). en_booking e \<noteq> bk"
    "t = log_audit (Some guest) bk (Booking_discarded Pending_payment)
      (set_booking bk (\<lambda>b. b\<lparr>b_status := Cancelled, b_archived := Some now, b_next_retry := None\<rparr>)
        (snd (reconcile now (b_property b) (release_nights True b s))))"
proof -
  from assms obtain b where b: "first_where (\<lambda>b. b_id b = bk \<and> b_guest b = guest) (bookings s) = Some b"
    and e: "assert_discardable (discard_facts s b) = None"
    and t: "t = log_audit (Some guest) bk (Booking_discarded (b_status b))
      (set_booking bk (\<lambda>b. b\<lparr>b_status := Cancelled, b_archived := Some now, b_next_retry := None\<rparr>)
        (snd (reconcile now (b_property b) (release_nights True b s))))"
    by (auto simp: discard_unpaid_booking_tx_def Let_def split: option.splits)
  from first_where_Some [OF b] have bk: "b_id b = bk" by simp
  from e have st: "b_status b = Pending_payment" "b_archived b = None"
    and pay: "\<forall>p \<in> set (payments s). pay_booking p = bk \<longrightarrow>
        pay_status p \<notin> {Paid, Pay_refunded, Pay_partially_refunded, Pay_disputed}"
    and rest: "\<forall>a \<in> set (attempts s). pa_booking a = bk \<longrightarrow> pa_status a \<noteq> At_succeeded"
      "\<forall>e \<in> set (entitlements s). en_booking e \<noteq> bk"
    by (auto simp: assert_discardable_def discard_facts_def bk split: if_splits)
  have open_status: "st \<in> {Pay_pending, Pay_processing, Pay_failed}"
    if "st \<notin> {Paid, Pay_refunded, Pay_partially_refunded, Pay_disputed}" for st
    using that by (cases st) auto
  have "\<forall>p \<in> set (payments s). pay_booking p = bk \<longrightarrow> pay_status p \<in> {Pay_pending, Pay_processing, Pay_failed}"
    using pay open_status by blast
  with b st rest t show ?thesis by (intro that) simp_all
qed

lemma discard_keeps_bookings_ok:
  assumes "bookings_ok s" "discard_unpaid_booking_tx now bk guest s = Inr (r, t)"
  shows "bookings_ok t"
  using assms(2)
proof (cases rule: discard_cases)
  case (1 b)
  then have "bookings_ok (set_booking bk
      (\<lambda>b. b\<lparr>b_status := Cancelled, b_archived := Some now, b_next_retry := None\<rparr>)
      (snd (reconcile now (b_property b) (release_nights True b s))))"
    by (auto intro!: bookings_ok_end [OF assms(1), of b] dest!: first_where_Some simp: active_def)
  then show ?thesis unfolding 1(7) by (rule bookings_ok_frame) simp_all
qed

lemma archive_keeps_bookings_ok:
  assumes "bookings_ok s" "archive_booking now bk guest s = Inr (r, t)"
  shows "bookings_ok t"
proof -
  from assms(2) have "bookings t = update_where (\<lambda>b. b_id b = bk \<and> b_guest b = guest \<and>
      b_status b \<in> set archivable_statuses \<and> b_archived b = None) (\<lambda>b. b\<lparr>b_archived := Some now\<rparr>) (bookings s)"
    "avail t = avail s"
    by (auto simp: archive_booking_def Let_def split: if_splits option.splits)
  then show ?thesis by (rule bookings_ok_update [OF assms(1) _ _ shrinks_cancel(3)])
qed

lemma host_block_keeps_bookings_ok:
  assumes "bookings_ok s" "mutate_availability now p ci co act s = Inr (r, t)"
  shows "bookings_ok t"
  using assms mutate_availability_booked [OF assms(2), of booked_row]
  by (auto intro: bookings_ok_frame simp: mutate_availability_frame(1) [OF assms(2)])

lemma reconcile_keeps_bookings_ok: "bookings_ok s \<Longrightarrow> bookings_ok (snd (reconcile now p s))"
  by (erule bookings_ok_frame) simp_all

end
