(* ===== verification/Ledger.thy ===== *)
theory Ledger
  imports Webhook Booking_Safety
begin

text \<open>
  The bookkeeping of the destination-charge flow. Shown: a delivered event takes effect once; a
  charge's ledger rows balance; after any recorded refund every component's reversals add up to the
  cumulative target and the scheduled payout has shrunk by exactly the host's part; a dispute stops
  the payout. And one defect: a partial refund sets the booking to confirmed whatever it was before,
  so it revives a cancelled booking whose nights were already sold again.
\<close>

subsection \<open>Payment succeeded\<close>

lemma set_payment_frame [simp]:
  "bookings (set_payment P f s) = bookings s" "prices (set_payment P f s) = prices s"
  "avail (set_payment P f s) = avail s" "ledger (set_payment P f s) = ledger s"
  "payouts (set_payment P f s) = payouts s" "refunds (set_payment P f s) = refunds s"
  "payments (set_payment P f s) = update_where P f (payments s)"
  "hosts (set_payment P f s) = hosts s" "disputes (set_payment P f s) = disputes s"
  "attempts (set_payment P f s) = attempts s" "entitlements (set_payment P f s) = entitlements s"
  by (simp_all add: set_payment_def)

definition confirm_store :: "uuid \<Rightarrow> string \<Rightarrow> store \<Rightarrow> store" where
  "confirm_store bk intent s =
     (let s1 = set_payment (\<lambda>p. pay_intent p = Some intent) (\<lambda>p. p\<lparr>pay_status := Paid\<rparr>) s
      in s1\<lparr>bookings := update_where (pending_status bk) (\<lambda>b. b\<lparr>b_status := Confirmed\<rparr>) (bookings s)\<rparr>)"

lemma on_payment_succeeded_cases:
  assumes "on_payment_succeeded now pid intent bk s = Inr (r, t)"
  obtains (already) "already_paid intent s"
      "\<not> r" "t = s"
  | (not_pending) "first_where (pending_status bk) (bookings s) = None" "\<not> r"
      "t = set_payment (\<lambda>p. pay_intent p = Some intent) (\<lambda>p. p\<lparr>pay_status := Paid\<rparr>) s"
  | (confirmed) b pc where "first_where (pending_status bk) (bookings s) = Some b"
      "find_price bk s = Some pc" "r"
      "t = (confirm_store bk intent s)\<lparr>
         ledger := ledger s @ map (ledger_row b (pc_currency pc) intent now)
           (charge_rows pc @ [(Host_payout, pc_payout pc, L_pending)]),
         payouts := insert_row \<lparr>po_id = pid, po_host = b_host b, po_booking = bk,
           po_amount = pc_payout pc, po_currency = pc_currency pc, po_status = Scheduled,
           po_release = scheduled_release (b_check_in b) (b_policy b) now, po_released = None\<rparr> (payouts s)\<rparr>"
proof (cases "already_paid intent s")
  case True
  with assms have "\<not> r" "t = s" by (simp_all add: on_payment_succeeded_def)
  with True show ?thesis by (rule already)
next
  case False
  let ?s1 = "set_payment (\<lambda>p. pay_intent p = Some intent) (\<lambda>p. p\<lparr>pay_status := Paid\<rparr>) s"
  show ?thesis
  proof (cases "first_where (pending_status bk) (bookings s)")
    case None
    with assms False have "\<not> r" "t = ?s1" by (simp_all add: on_payment_succeeded_def Let_def)
    with None show ?thesis by (rule not_pending)
  next
    case (Some b)
    with assms False obtain pc where pc: "find_price bk s = Some pc"
      by (cases "find_price bk s") (simp_all add: on_payment_succeeded_def Let_def)
    with assms False Some show ?thesis
      by (intro confirmed [OF Some pc])
        (simp_all add: on_payment_succeeded_def Let_def confirm_store_def)
  qed
qed

lemma pending_none_after_confirm:
  "first_where (pending_status bk)
     (update_where (pending_status bk) (\<lambda>b. b\<lparr>b_status := Confirmed\<rparr>) bs) = None"
  by (simp add: first_where_None pending_status_def)

lemma payment_succeeded_once:
  assumes "on_payment_succeeded now pid intent bk s = Inr (True, t)"
  shows "on_payment_succeeded now' pid' intent bk t = Inr (False, t)"
  using assms
proof (cases rule: on_payment_succeeded_cases)
  case (confirmed b pc)
  have p: "payments t = update_where (\<lambda>p. pay_intent p = Some intent) (\<lambda>p. p\<lparr>pay_status := Paid\<rparr>) (payments s)"
    and b: "first_where (pending_status bk) (bookings t) = None"
    by (simp_all add: confirmed(4) confirm_store_def Let_def pending_none_after_confirm)
  show ?thesis
  proof (cases "first_where (\<lambda>p. pay_intent p = Some intent) (payments t)")
    case None
    then have "update_where (\<lambda>p. pay_intent p = Some intent) (\<lambda>p. p\<lparr>pay_status := Paid\<rparr>) (payments t) = payments t"
      by (intro update_where_none) (simp add: first_where_None)
    then show ?thesis using None b by (simp add: on_payment_succeeded_def Let_def set_payment_def already_paid_def)
  next
    case (Some q)
    then have "q \<in> set (payments t)" "pay_intent q = Some intent"
      using first_where_Some [OF Some] by simp_all
    then have "pay_status q = Paid" unfolding p by auto
    with Some show ?thesis by (simp add: on_payment_succeeded_def already_paid_def)
  qed
qed simp_all

text \<open>The rows of a charge: what the guest paid is what the components add up to.\<close>

definition ledger_total :: "uuid \<Rightarrow> ledger_type \<Rightarrow> store \<Rightarrow> minor" where
  "ledger_total bk ty s = sum_where (\<lambda>l. le_booking l = bk \<and> le_type l = ty) le_amount (ledger s)"

lemma ledger_row_simps [simp]:
  "le_booking (ledger_row b cur ext now x) = b_id b" "le_type (ledger_row b cur ext now x) = fst x"
  "le_amount (ledger_row b cur ext now x) = fst (snd x)"
  "le_status (ledger_row b cur ext now x) = snd (snd x)"
  by (simp_all add: ledger_row_def split: prod.splits)

lemma payment_ledger:
  assumes "on_payment_succeeded now pid intent bk s = Inr (True, t)" "find_price bk s = Some pc"
    "\<forall>l \<in> set (ledger s). le_booking l \<noteq> bk"
  shows "ledger_total bk Guest_charge t = pc_total pc"
    "ledger_total bk Accommodation_revenue t = pc_accommodation pc"
    "ledger_total bk Cleaning_fee t = pc_cleaning pc"
    "ledger_total bk Guest_service_fee t = pc_service_fee pc"
    "ledger_total bk Taxes t = pc_taxes pc"
    "ledger_total bk Host_commission t = pc_commission pc"
    "ledger_total bk Host_revenue t = pc_revenue pc"
    "ledger_total bk Host_payout t = pc_payout pc"
proof -
  from assms(1) obtain b where b: "b_id b = bk" and t: "ledger t = ledger s @
      map (ledger_row b (pc_currency pc) intent now) (charge_rows pc @ [(Host_payout, pc_payout pc, L_pending)])"
  proof (cases rule: on_payment_succeeded_cases)
    case (confirmed b pc')
    with assms(2) have "pc' = pc" by simp
    with confirmed(4) first_where_Some [OF confirmed(1)] show ?thesis
      by (intro that [of b]) (simp_all add: pending_status_def)
  qed auto
  have "sum_where (\<lambda>l. le_booking l = bk \<and> le_type l = ty) le_amount (ledger s) = 0" for ty
    using assms(3) by (induction "ledger s") (auto simp: sum_where_def filter_empty_conv)
  then have z: "sum_where (\<lambda>l. le_booking l = bk \<and> le_type l = ty) le_amount (ledger s) = 0" for ty .
  show "ledger_total bk Guest_charge t = pc_total pc"
    "ledger_total bk Accommodation_revenue t = pc_accommodation pc"
    "ledger_total bk Cleaning_fee t = pc_cleaning pc"
    "ledger_total bk Guest_service_fee t = pc_service_fee pc"
    "ledger_total bk Taxes t = pc_taxes pc"
    "ledger_total bk Host_commission t = pc_commission pc"
    "ledger_total bk Host_revenue t = pc_revenue pc"
    "ledger_total bk Host_payout t = pc_payout pc"
    by (simp_all add: ledger_total_def t z b charge_rows_def)
qed

lemma payment_keeps_bookings_ok:
  assumes "bookings_ok s" "on_payment_succeeded now pid intent bk s = Inr (r, t)"
  shows "bookings_ok t"
  using assms(2)
proof (cases rule: on_payment_succeeded_cases)
  case already
  with assms(1) show ?thesis by simp
next
  case not_pending
  with assms(1) show ?thesis by (auto intro: bookings_ok_frame)
next
  case (confirmed b pc)
  then show ?thesis
    by (intro bookings_ok_confirm [OF assms(1), where P = "pending_status bk" and st = Confirmed])
      (auto simp: confirm_store_def Let_def pending_status_def active_def)
qed

subsection \<open>Refund events\<close>

lemma mark_refund_frame [simp]:
  "ledger (mark_refund_succeeded i s) = ledger s" "prices (mark_refund_succeeded i s) = prices s"
  "payouts (mark_refund_succeeded i s) = payouts s" "avail (mark_refund_succeeded i s) = avail s"
  "bookings (mark_refund_succeeded i s) = bookings s" "payments (mark_refund_succeeded i s) = payments s"
  by (simp_all add: mark_refund_succeeded_def)

lemma apply_refund_frame [simp]:
  "ledger (apply_refund_status p f s) = ledger s" "prices (apply_refund_status p f s) = prices s"
  "payouts (apply_refund_status p f s) = payouts s" "avail (apply_refund_status p f s) = avail s"
  "refunds (apply_refund_status p f s) = refunds s"
  "bookings (apply_refund_status p f s) = update_where (\<lambda>b. b_id b = pay_booking p)
     (\<lambda>b. b\<lparr>b_status := if f then Refunded else Confirmed\<rparr>) (bookings s)"
  by (simp_all add: apply_refund_status_def)

lemma settle_payout_frame [simp]:
  "ledger (settle_payout bk f m s) = ledger s" "refunds (settle_payout bk f m s) = refunds s"
  "bookings (settle_payout bk f m s) = bookings s" "avail (settle_payout bk f m s) = avail s"
  "payments (settle_payout bk f m s) = payments s" "prices (settle_payout bk f m s) = prices s"
  by (simp_all add: settle_payout_def Let_def)

lemma succeeded_total_cong: "refunds t = refunds s \<Longrightarrow> succeeded_total bk t = succeeded_total bk s"
  by (simp add: succeeded_total_def)

lemma already_reversed_cong: "ledger t = ledger s \<Longrightarrow> already_reversed bk t = already_reversed bk s"
  by (simp add: already_reversed_def fun_eq_iff)

lemma record_reversal_cases:
  assumes "record_reversal now ev p cum s = Inr (True, t)"
  obtains pc b rows inc where "find_price (pay_booking p) s = Some pc"
    "find_booking (pay_booking p) s = Some b"
    "compute_refund_reversal_entries (components_of pc) (already_reversed (pay_booking p) s)
       (re_amount ev) cum (pay_amount p) = Inr (rows, inc)"
    "t = settle_payout (pay_booking p) (pay_amount p \<le> cum) inc (s\<lparr>ledger := ledger s @
       map (\<lambda>r. ledger_row b (pc_currency pc) (re_id ev) now (rw_type r, rw_minor r, rw_status r)) rows\<rparr>)"
  using assms by (auto simp: record_reversal_def Let_def split: option.splits sum.splits prod.splits)

lemma on_refund_event_cases:
  assumes "on_refund_event now ev s = Inr (r, t)"
  obtains (ignored) "\<not> r" "t = s"
  | (applied) i p where "re_status ev = ''succeeded''" "re_intent ev = Some i"
      "first_where (\<lambda>p. pay_intent p = Some i) (payments s) = Some p"
      "0 < row_count (awaiting_refund (re_id ev)) (refunds s)"
      "record_reversal now ev p (succeeded_total (pay_booking p) (mark_refund_succeeded (re_id ev) s))
        (apply_refund_status p
          (pay_amount p \<le> succeeded_total (pay_booking p) (mark_refund_succeeded (re_id ev) s))
          (mark_refund_succeeded (re_id ev) s)) = Inr (r, t)"
  using assms by (auto simp: on_refund_event_def Let_def split: if_splits option.splits)

lemma record_reversal_frame:
  assumes "record_reversal now ev p cum s = Inr (r, t)"
  shows "refunds t = refunds s" "bookings t = bookings s" "payments t = payments s"
    "prices t = prices s" "avail t = avail s"
  using assms
  by (auto simp: record_reversal_def Let_def split: option.splits sum.splits prod.splits)

text \<open>A second delivery of a refund that took effect changes nothing.\<close>

lemma refund_event_once:
  assumes "on_refund_event now ev s = Inr (True, t)"
  shows "on_refund_event now' ev t = Inr (False, t)"
  using assms
proof (cases rule: on_refund_event_cases)
  case (applied i p)
  have "refunds t = refunds (mark_refund_succeeded (re_id ev) s)"
    using record_reversal_frame(1) [OF applied(5)] by simp
  then have "row_count (awaiting_refund (re_id ev)) (refunds t) = 0"
    by (simp add: row_count_zero_iff mark_refund_succeeded_def awaiting_refund_def)
  then show ?thesis by (simp add: on_refund_event_def split: option.split)
qed simp

text \<open>After a recorded refund every component is reversed exactly up to the cumulative target.\<close>

lemma record_reversal_target:
  assumes "record_reversal now ev p cum s = Inr (True, t)"
    "find_price (pay_booking p) s = Some pc"
  shows "already_reversed (pay_booking p) t k = reversal_amount (components_of pc k) cum (pay_amount p)"
  using assms(1)
proof (cases rule: record_reversal_cases)
  case (1 pc' b rows inc)
  with assms(2) have pc: "pc' = pc" by simp
  have b: "b_id b = pay_booking p" using first_where_Some [OF 1(2)] by simp
  let ?row = "\<lambda>r. ledger_row b (pc_currency pc') (re_id ev) now (rw_type r, rw_minor r, rw_status r)"
  have "sum_where (\<lambda>l. le_booking l = pay_booking p \<and> le_status l = L_reversed \<and>
      le_type l = category_ledger_type k) le_amount (map ?row rows) =
    sum_where (\<lambda>r. rw_type r = category_ledger_type k \<and> rw_status r = L_reversed) rw_minor rows"
    by (induction rows) (simp_all add: b conj_commute)
  also have "\<dots> = already_reversed (pay_booking p) s k - reversal_amount (components_of pc k) cum (pay_amount p)"
    using compute_reversal_row_sum [OF 1(3)] pc by simp
  finally show ?thesis by (simp add: already_reversed_def 1(4))
qed

lemma refund_ledger_target:
  assumes "on_refund_event now ev s = Inr (True, t)" "re_intent ev = Some i"
    "first_where (\<lambda>p. pay_intent p = Some i) (payments s) = Some p"
    "find_price (pay_booking p) s = Some pc"
  shows "already_reversed (pay_booking p) t k =
    reversal_amount (components_of pc k) (succeeded_total (pay_booking p) t) (pay_amount p)"
  using assms(1)
proof (cases rule: on_refund_event_cases)
  case (applied j q)
  with assms(2,3) have q: "q = p" by simp
  have "succeeded_total (pay_booking p) t = succeeded_total (pay_booking p) (mark_refund_succeeded (re_id ev) s)"
    using record_reversal_frame(1) [OF applied(5)] by (intro succeeded_total_cong) simp
  with record_reversal_target [OF applied(5) [unfolded q]] assms(4) show ?thesis by simp
qed simp

lemma settle_payout_ledger:
  "payouts (settle_payout bk f m (s\<lparr>ledger := x\<rparr>)) = payouts (settle_payout bk f m s)"
  by (simp add: settle_payout_def Let_def)

lemma record_reversal_payouts:
  assumes "record_reversal now ev p cum s = Inr (True, t)" "find_price (pay_booking p) s = Some pc"
  shows "payouts t = payouts (settle_payout (pay_booking p) (pay_amount p \<le> cum)
    (already_reversed (pay_booking p) t Cat_payout - already_reversed (pay_booking p) s Cat_payout) s)"
  using assms(1)
proof (cases rule: record_reversal_cases)
  case (1 pc' b rows inc)
  with assms(2) have "pc' = pc" by simp
  with compute_reversal_cases(4) [OF 1(3)] record_reversal_target [OF assms, of Cat_payout]
  have "inc = already_reversed (pay_booking p) t Cat_payout - already_reversed (pay_booking p) s Cat_payout"
    by (simp add: reversal_increment_def)
  with arg_cong [OF 1(4), of payouts] show ?thesis by (simp only: settle_payout_ledger)
qed

lemma succeeded_total_mark:
  assumes "\<forall>r \<in> set (refunds s). 0 \<le> rf_amount r"
  shows "succeeded_total bk s \<le> succeeded_total bk (mark_refund_succeeded i s)"
proof -
  have "sum_where (\<lambda>r. rf_booking r = bk \<and> rf_status r = Refund_succeeded) rf_amount rs \<le>
      sum_where (\<lambda>r. rf_booking r = bk \<and> rf_status r = Refund_succeeded) rf_amount
        (update_where (awaiting_refund i) (\<lambda>r. r\<lparr>rf_status := Refund_succeeded\<rparr>) rs)"
    if "\<forall>r \<in> set rs. 0 \<le> rf_amount r" for rs
    using that by (induction rs) auto
  with assms show ?thesis by (simp add: succeeded_total_def mark_refund_succeeded_def)
qed

text \<open>
  The bookkeeping of one booking is in step: the payout's reversals are at the target, and a payout
  not yet released is what the host is owed after them.
\<close>

definition payout_in_step :: "payment \<Rightarrow> price_row \<Rightarrow> store \<Rightarrow> bool" where
  "payout_in_step p pc s \<longleftrightarrow>
     already_reversed (pay_booking p) s Cat_payout =
       reversal_amount (pc_payout pc) (succeeded_total (pay_booking p) s) (pay_amount p) \<and>
     list_all (\<lambda>po. po_booking po = pay_booking p \<and> po_status po = Scheduled \<longrightarrow>
       po_amount po = pc_payout pc - already_reversed (pay_booking p) s Cat_payout) (payouts s)"

lemma refund_keeps_payout_in_step:
  assumes step: "payout_in_step p pc s" and ev: "on_refund_event now ev s = Inr (True, t)"
    and i: "re_intent ev = Some i" "first_where (\<lambda>p. pay_intent p = Some i) (payments s) = Some p"
    and pc: "find_price (pay_booking p) s = Some pc"
    and nonneg: "\<forall>r \<in> set (refunds s). 0 \<le> rf_amount r" "0 \<le> pc_payout pc" "0 < pay_amount p"
  shows "payout_in_step p pc t"
  using ev
proof (cases rule: on_refund_event_cases)
  case (applied j q)
  with i have q: "q = p" by simp
  let ?s1 = "mark_refund_succeeded (re_id ev) s"
  let ?s3 = "apply_refund_status p (pay_amount p \<le> succeeded_total (pay_booking p) ?s1) ?s1"
  have tgt: "already_reversed (pay_booking p) t Cat_payout =
      reversal_amount (pc_payout pc) (succeeded_total (pay_booking p) t) (pay_amount p)"
    using refund_ledger_target [OF ev i pc, of Cat_payout] by (simp add: components_of_def)
  have st: "succeeded_total (pay_booking p) t = succeeded_total (pay_booking p) ?s1"
    using record_reversal_frame(1) [OF applied(5)] by (intro succeeded_total_cong) simp
  have "already_reversed (pay_booking p) s Cat_payout \<le> already_reversed (pay_booking p) t Cat_payout"
    using step succeeded_total_mark [OF nonneg(1), of "pay_booking p" "re_id ev"]
    unfolding payout_in_step_def tgt st by (simp add: reversal_amount_mono nonneg)
  moreover have "already_reversed (pay_booking p) ?s3 = already_reversed (pay_booking p) s"
    by (rule already_reversed_cong) simp
  moreover have "payouts ?s3 = payouts s" by simp
  moreover note record_reversal_payouts [OF applied(5) [unfolded q], of pc] pc
  ultimately have "list_all (\<lambda>po. po_booking po = pay_booking p \<and> po_status po = Scheduled \<longrightarrow>
       po_amount po = pc_payout pc - already_reversed (pay_booking p) t Cat_payout) (payouts t)"
    using step unfolding payout_in_step_def
    by (auto simp: settle_payout_def Let_def list_all_iff)
  with tgt show ?thesis by (simp add: payout_in_step_def)
qed simp

text \<open>A payment refunded in full: nothing is left reversible, nothing is left to pay out.\<close>

lemma full_refund:
  assumes ev: "on_refund_event now ev s = Inr (True, t)"
    and i: "re_intent ev = Some i" "first_where (\<lambda>p. pay_intent p = Some i) (payments s) = Some p"
    and pc: "find_price (pay_booking p) s = Some pc"
    and full: "pay_amount p \<le> succeeded_total (pay_booking p) t"
    and range: "\<And>k. 0 \<le> components_of pc k \<and> components_of pc k \<le> int32_max"
  shows "already_reversed (pay_booking p) t k = components_of pc k \<and>
    (\<forall>po \<in> set (payouts t). po_booking po = pay_booking p \<longrightarrow> po_status po \<noteq> Scheduled) \<and>
    (\<forall>b \<in> set (bookings t). b_id b = pay_booking p \<longrightarrow> b_status b = Refunded)"
  using ev
proof (cases rule: on_refund_event_cases)
  case (applied j q)
  with i have q: "q = p" by simp
  let ?s1 = "mark_refund_succeeded (re_id ev) s"
  have st: "succeeded_total (pay_booking p) t = succeeded_total (pay_booking p) ?s1"
    using record_reversal_frame(1) [OF applied(5)] by (intro succeeded_total_cong) simp
  from record_reversal_cases [OF applied(5) [unfolded q]] obtain rows inc b where
    c: "compute_refund_reversal_entries (components_of pc) (already_reversed (pay_booking p)
         (apply_refund_status p (pay_amount p \<le> succeeded_total (pay_booking p) ?s1) ?s1))
       (re_amount ev) (succeeded_total (pay_booking p) ?s1) (pay_amount p) = Inr (rows, inc)"
    using pc by (metis apply_refund_frame(2) mark_refund_frame(2) option.inject)
  have eq: "succeeded_total (pay_booking p) t = pay_amount p" "0 < pay_amount p"
    using compute_reversal_cases(1,3) [OF c] full st by simp_all
  have "already_reversed (pay_booking p) t k = components_of pc k"
    using refund_ledger_target [OF ev i pc] eq range [of k] by (simp add: reversal_amount_full)
  moreover have "\<forall>b \<in> set (bookings t). b_id b = pay_booking p \<longrightarrow> b_status b = Refunded"
    using record_reversal_frame(2) [OF applied(5) [unfolded q]] full st by simp
  moreover have "\<forall>po \<in> set (payouts t). po_booking po = pay_booking p \<longrightarrow> po_status po \<noteq> Scheduled"
    using record_reversal_payouts [OF applied(5) [unfolded q], of pc] pc full st
    by (simp add: settle_payout_def Let_def)
  ultimately show ?thesis by blast
qed simp

subsection \<open>Defects of the refund and payment handlers\<close>

text \<open>A partial refund confirms the booking, whatever its status was.\<close>

lemma partial_refund_status:
  assumes ev: "on_refund_event now ev s = Inr (True, t)"
    and i: "re_intent ev = Some i" "first_where (\<lambda>p. pay_intent p = Some i) (payments s) = Some p"
    and part: "succeeded_total (pay_booking p) t < pay_amount p"
  shows "bookings t = update_where (\<lambda>b. b_id b = pay_booking p) (\<lambda>b. b\<lparr>b_status := Confirmed\<rparr>) (bookings s) \<and>
    avail t = avail s"
  using ev
proof (cases rule: on_refund_event_cases)
  case (applied j q)
  with i have q: "q = p" by simp
  let ?s1 = "mark_refund_succeeded (re_id ev) s"
  have st: "succeeded_total (pay_booking p) t = succeeded_total (pay_booking p) ?s1"
    using record_reversal_frame(1) [OF applied(5)] by (intro succeeded_total_cong) simp
  show ?thesis
    using record_reversal_frame(2,5) [OF applied(5) [unfolded q]] part st by simp
qed simp

lemma partial_refund_double_booking:
  assumes ev: "on_refund_event now ev s = Inr (True, t)"
    and i: "re_intent ev = Some i" "first_where (\<lambda>p. pay_intent p = Some i) (payments s) = Some p"
    and part: "succeeded_total (pay_booking p) t < pay_amount p"
    and b: "b \<in> set (bookings s)" "b_id b = pay_booking p"
    and c: "c \<in> set (bookings s)" "active c" "b_id c \<noteq> b_id b" "\<not> nights_disjoint b c"
  shows "\<not> bookings_ok t"
proof
  assume ok: "bookings_ok t"
  note bk = conjunct1 [OF partial_refund_status [OF ev i part]]
  have "b\<lparr>b_status := Confirmed\<rparr> \<in> set (bookings t)" "c \<in> set (bookings t)"
    using b c unfolding bk
    by (auto intro: in_update_where_hit [where f = "\<lambda>b. b\<lparr>b_status := Confirmed\<rparr>"] in_update_where_miss)
  moreover have "active (b\<lparr>b_status := Confirmed\<rparr>)" by (simp add: active_def)
  ultimately have "nights_disjoint (b\<lparr>b_status := Confirmed\<rparr>) c"
    using bookings_okD(5) [OF ok] c by simp
  with c(4) show False by (simp add: nights_disjoint_iff)
qed

text \<open>A late delivery of the success event marks a refunded payment as paid again.\<close>

lemma late_success_resets_payment:
  assumes "first_where (\<lambda>p. pay_intent p = Some intent) (payments s) = Some p" "pay_status p \<noteq> Paid"
    "\<forall>b \<in> set (bookings s). b_id b = bk \<longrightarrow> b_status b \<noteq> Pending_payment"
  shows "on_payment_succeeded now pid intent bk s =
    Inr (False, set_payment (\<lambda>p. pay_intent p = Some intent) (\<lambda>p. p\<lparr>pay_status := Paid\<rparr>) s)"
proof -
  have "first_where (pending_status bk) (bookings s) = None"
    using assms(3) by (simp add: first_where_None pending_status_def)
  with assms show ?thesis by (simp add: on_payment_succeeded_def already_paid_def Let_def)
qed

subsection \<open>Other events\<close>

lemma refund_failed_guard:
  "r \<in> set (refunds s) \<Longrightarrow> rf_status r = Refund_succeeded \<Longrightarrow> r \<in> set (refunds (on_refund_failed i s))"
  by (auto simp: on_refund_failed_def awaiting_refund_def intro: in_update_where_miss)

lemma dispute_stops_payout:
  assumes "de_intent ev = Some i" "first_where (\<lambda>p. pay_intent p = Some i) (payments s) = Some p"
  shows "\<forall>po \<in> set (payouts (on_dispute_created ev s)). po_booking po = pay_booking p \<longrightarrow> po_status po \<noteq> Scheduled"
    "\<forall>b \<in> set (bookings (on_dispute_created ev s)). b_id b = pay_booking p \<longrightarrow> b_status b = Disputed"
  using assms by (simp_all add: on_dispute_created_def Let_def)

lemma shrinks_disputed: "shrinks (\<lambda>b. b\<lparr>b_status := Disputed\<rparr>)"
  by (simp add: shrinks_def active_def)

lemma dispute_keeps_bookings_ok: "bookings_ok s \<Longrightarrow> bookings_ok (on_dispute_created ev s)"
proof (cases "de_intent ev")
  case (Some i)
  assume ok: "bookings_ok s"
  show ?thesis
  proof (cases "first_where (\<lambda>p. pay_intent p = Some i) (payments s)")
    case None
    with Some ok show ?thesis by (simp add: on_dispute_created_def)
  next
    case p: (Some p)
    show ?thesis
      by (rule bookings_ok_update [OF ok, where P = "\<lambda>b. b_id b = pay_booking p", OF _ _ shrinks_disputed])
        (simp_all add: on_dispute_created_def Let_def Some p)
  qed
qed (simp add: on_dispute_created_def)

end
