(* ===== verification/Charges.thy ===== *)
theory Charges
  imports Booking Keys
begin

text \<open>
  The delayed-charge flow's execution: lib/payments/scheduledCharges.ts (the locked decision phase,
  the call to the payment provider, the compare-and-set recording of its outcome, the sweep's query)
  and lib/payments/paymentAttempts.ts. The two phases of a charge are two transactions with an
  external call between them, so they are two operations here; \<open>attempt_scheduled_charge\<close> composes
  them with the provider's answer and whatever other transactions ran meanwhile as arguments.
\<close>

subsection \<open>The decision phase\<close>

datatype refusal =
  No_booking | Wrong_flow | Tax_not_configured | No_saved_method | Grace_expired | Lease_held
  | Needs_authentication | Retry_not_due

record charge_order =
  co_attempt :: uuid
  co_key :: string
  co_token :: uuid
  co_customer :: string
  co_method :: string

datatype decision =
  Already_succeeded
| Refuse refusal
| Charge charge_order

text \<open>\<open>!x\<close> of a nullable text: null or empty.\<close>

definition blank :: "string option \<Rightarrow> bool" where
  "blank x \<longleftrightarrow> (case x of None \<Rightarrow> True | Some t \<Rightarrow> t = [])"

text \<open>\<open>new Date(x) <= new Date()\<close>, where \<open>new Date(null)\<close> is the epoch.\<close>

definition date_reached :: "millis option \<Rightarrow> millis \<Rightarrow> bool" where
  "date_reached x now \<longleftrightarrow> (case x of None \<Rightarrow> 0 \<le> now | Some t \<Rightarrow> t \<le> now)"

definition has_succeeded_attempt :: "uuid \<Rightarrow> store \<Rightarrow> bool" where
  "has_succeeded_attempt bk s \<longleftrightarrow>
     row_exists (\<lambda>a. pa_booking a = bk \<and> pa_status a = At_succeeded) (attempts s)"

definition booking_refusal :: "booking \<Rightarrow> millis \<Rightarrow> refusal option" where
  "booking_refusal b now =
     (if b_flow b \<noteq> Separate_charges_delayed_v1 then Some Wrong_flow
      else if b_tax b = Tax_unconfigured then Some Tax_not_configured
      else if blank (b_customer b) \<or> blank (b_payment_method b) then Some No_saved_method
      else if b_grace b \<noteq> None \<and> date_reached (b_hold b) now then Some Grace_expired
      else None)"

definition lease_active :: "attempt \<Rightarrow> millis \<Rightarrow> bool" where
  "lease_active a now = before now (pa_lease a)"

definition lease_until :: "millis \<Rightarrow> millis option" where
  "lease_until now = Some (now + execution_lease_seconds * 1000)"

definition claim_attempt :: "millis \<Rightarrow> uuid \<Rightarrow> uuid \<Rightarrow> store \<Rightarrow> store" where
  "claim_attempt now aid token s =
     s\<lparr>attempts := update_where (\<lambda>a. pa_id a = aid)
         (\<lambda>a. a\<lparr>pa_token := Some token, pa_lease := lease_until now\<rparr>) (attempts s)\<rparr>"

definition max_attempt_number :: "uuid \<Rightarrow> store \<Rightarrow> int" where
  "max_attempt_number bk s =
     (case latest_attempt bk s of None \<Rightarrow> 0 | Some a \<Rightarrow> pa_number a)"

definition new_attempt ::
  "(string \<Rightarrow> string) \<Rightarrow> millis \<Rightarrow> uuid \<Rightarrow> uuid \<Rightarrow> int \<Rightarrow> uuid \<Rightarrow> minor \<Rightarrow> string \<Rightarrow> attempt" where
  "new_attempt sha now new_id bk number token amount currency =
     \<lparr>pa_id = new_id, pa_booking = bk, pa_number = number, pa_status = At_pending,
      pa_amount = amount, pa_currency = currency, pa_key = attempt_key sha bk (nat number),
      pa_intent = None, pa_failure_code = None, pa_failure_message = None,
      pa_token = Some token, pa_lease = lease_until now\<rparr>"

text \<open>
  The transaction under the booking's advisory lock. \<open>token\<close> is the \<open>crypto.randomUUID()\<close> it draws
  and \<open>new_id\<close> the primary key of an inserted attempt.
\<close>

definition decide_charge ::
  "(string \<Rightarrow> string) \<Rightarrow> millis \<Rightarrow> uuid \<Rightarrow> uuid \<Rightarrow> uuid \<Rightarrow> minor \<Rightarrow> string \<Rightarrow> (store, unit, decision) tx" where
  "decide_charge sha now token new_id bk amount currency s =
     (if has_succeeded_attempt bk s then Inr (Already_succeeded, s)
      else
        (case find_booking bk s of
           None \<Rightarrow> Inr (Refuse No_booking, s)
         | Some b \<Rightarrow>
        (case booking_refusal b now of
           Some r \<Rightarrow> Inr (Refuse r, s)
         | None \<Rightarrow>
             let latest = latest_attempt bk s;
                 status = map_option pa_status latest;
                 order = (\<lambda>aid key. Charge \<lparr>co_attempt = aid, co_key = key, co_token = token,
                            co_customer = the (b_customer b), co_method = the (b_payment_method b)\<rparr>)
             in if status = Some At_pending \<or> status = Some At_processing then
                  (if lease_active (the latest) now then Inr (Refuse Lease_held, s)
                   else Inr (order (pa_id (the latest)) (pa_key (the latest)),
                             claim_attempt now (pa_id (the latest)) token s))
                else if status = Some At_requires_action then Inr (Refuse Needs_authentication, s)
                else if status = Some At_failed \<and> before now (b_next_retry b)
                then Inr (Refuse Retry_not_due, s)
                else
                  let a = new_attempt sha now new_id bk (max_attempt_number bk s + 1) token amount currency
                  in if row_exists (\<lambda>x. pa_id x = new_id \<or> pa_key x = pa_key a) (attempts s)
                     then Inl ()
                     else Inr (order new_id (pa_key a),
                               s\<lparr>attempts := insert_row a (attempts s)\<rparr>))))"

subsection \<open>Recording the outcome\<close>

datatype charge_status = Ch_succeeded | Ch_requires_action | Ch_processing | Ch_failed

definition attempt_status_of :: "charge_status \<Rightarrow> attempt_status" where
  "attempt_status_of c =
     (case c of Ch_succeeded \<Rightarrow> At_succeeded | Ch_requires_action \<Rightarrow> At_requires_action
              | Ch_processing \<Rightarrow> At_processing | Ch_failed \<Rightarrow> At_failed)"

record outcome_info =
  oi_intent :: "string option"
  oi_code :: "string option"
  oi_message :: "string option"

definition outcome_matches :: "uuid \<Rightarrow> uuid \<Rightarrow> attempt \<Rightarrow> bool" where
  "outcome_matches aid token a \<longleftrightarrow>
     pa_id a = aid \<and> pa_token a = Some token \<and> pa_status a \<noteq> At_succeeded"

definition apply_outcome :: "charge_status \<Rightarrow> outcome_info \<Rightarrow> attempt \<Rightarrow> attempt" where
  "apply_outcome c o' a =
     a\<lparr>pa_status := attempt_status_of c, pa_intent := coalesce (oi_intent o') (pa_intent a),
       pa_failure_code := oi_code o', pa_failure_message := oi_message o',
       pa_token := None, pa_lease := None\<rparr>"

definition start_grace :: "millis \<Rightarrow> booking \<Rightarrow> booking" where
  "start_grace now b =
     b\<lparr>b_grace := coalesce (b_grace b) (Some now),
       b_hold := (if b_grace b = None then Some (now + grace_period_hours * ms_per_hour) else b_hold b)\<rparr>"

definition schedule_retry :: "millis \<Rightarrow> booking \<Rightarrow> booking" where
  "schedule_retry now b = b\<lparr>b_next_retry := Some (now + reminder_after_hours * ms_per_hour)\<rparr>"

definition record_charge_outcome ::
  "millis \<Rightarrow> uuid \<Rightarrow> uuid \<Rightarrow> uuid \<Rightarrow> charge_status \<Rightarrow> outcome_info \<Rightarrow> (store, unit, bool) tx" where
  "record_charge_outcome now bk aid token c o' s =
     (if row_count (outcome_matches aid token) (attempts s) = 0 then Inr (False, s)
      else
        let s1 = s\<lparr>attempts := update_where (outcome_matches aid token) (apply_outcome c o') (attempts s)\<rparr>;
            s2 = (if c = Ch_requires_action \<or> c = Ch_processing \<or> c = Ch_failed
                  then s1\<lparr>bookings := update_where (pending_status bk) (start_grace now) (bookings s1)\<rparr>
                  else s1);
            s3 = (if c = Ch_failed
                  then s2\<lparr>bookings := update_where (pending_status bk) (schedule_retry now) (bookings s2)\<rparr>
                  else s2)
        in Inr (True, s3))"

subsection \<open>The whole attempt\<close>

datatype intent_status = In_succeeded | In_requires_action | In_processing | In_other

record intent =
  in_id :: string
  in_status :: intent_status
  in_decline_code :: "string option"
  in_error_code :: "string option"
  in_error_message :: "string option"

text \<open>
  What \<open>stripe.paymentIntents.create\<close> does: it returns an intent, or throws an error of type
  \<open>StripeCardError\<close> that may carry one, of type \<open>idempotency_error\<close>, or any other.
\<close>

datatype charge_response =
  Returned intent
| Card_error "intent option" string
| Idempotency_conflict string
| Other_error string

record charge_request =
  cr_amount :: minor
  cr_currency :: string
  cr_customer :: string
  cr_method :: string
  cr_booking :: uuid
  cr_attempt :: uuid
  cr_key :: string

datatype outcome_label =
  Out_succeeded | Out_requires_action | Out_processing | Out_failed | Out_api_error

datatype attempt_reason =
  Charging_disabled | Duplicate_charge | Refused refusal | Not_overwritten | Message string

record attempt_result =
  ar_attempted :: bool
  ar_reason :: "attempt_reason option"
  ar_outcome :: "outcome_label option"

definition intent_settlement :: "intent \<Rightarrow> charge_status \<times> outcome_info \<times> outcome_label \<times> string option" where
  "intent_settlement i =
     (let plain = \<lparr>oi_intent = Some (in_id i), oi_code = None, oi_message = None\<rparr>
      in case in_status i of
           In_succeeded \<Rightarrow> (Ch_succeeded, plain, Out_succeeded, None)
         | In_requires_action \<Rightarrow> (Ch_requires_action, plain, Out_requires_action, None)
         | In_processing \<Rightarrow> (Ch_processing, plain, Out_processing, None)
         | In_other \<Rightarrow>
             (Ch_failed,
              \<lparr>oi_intent = Some (in_id i), oi_code = coalesce (in_decline_code i) (in_error_code i),
               oi_message = in_error_message i\<rparr>,
              Out_failed, in_error_message i))"

definition settlement :: "charge_response \<Rightarrow> charge_status \<times> outcome_info \<times> outcome_label \<times> string option" where
  "settlement r =
     (case r of
        Returned i \<Rightarrow> intent_settlement i
      | Card_error (Some i) _ \<Rightarrow> intent_settlement i
      | Idempotency_conflict m \<Rightarrow>
          (Ch_processing, \<lparr>oi_intent = None, oi_code = None, oi_message = Some m\<rparr>, Out_processing, Some m)
      | Card_error None m \<Rightarrow>
          (Ch_failed, \<lparr>oi_intent = None, oi_code = None, oi_message = Some m\<rparr>, Out_api_error, Some m)
      | Other_error m \<Rightarrow>
          (Ch_failed, \<lparr>oi_intent = None, oi_code = None, oi_message = Some m\<rparr>, Out_api_error, Some m))"

definition settle_charge ::
  "millis \<Rightarrow> uuid \<Rightarrow> charge_order \<Rightarrow> charge_response \<Rightarrow> store \<Rightarrow> attempt_result \<times> store" where
  "settle_charge now bk order resp s =
     (let (c, info, label, msg) = settlement resp
      in case with_transaction (record_charge_outcome now bk (co_attempt order) (co_token order) c info) s of
           (Inr True, s') \<Rightarrow>
             (\<lparr>ar_attempted = True, ar_reason = map_option Message msg, ar_outcome = Some label\<rparr>, s')
         | (_, s') \<Rightarrow>
             (\<lparr>ar_attempted = False, ar_reason = Some Not_overwritten, ar_outcome = None\<rparr>, s'))"

definition attempt_scheduled_charge ::
  "bool \<Rightarrow> (string \<Rightarrow> string) \<Rightarrow> (charge_request \<Rightarrow> charge_response) \<Rightarrow> (store \<Rightarrow> store) \<Rightarrow>
    millis \<Rightarrow> millis \<Rightarrow> uuid \<Rightarrow> uuid \<Rightarrow> uuid \<Rightarrow> minor \<Rightarrow> string \<Rightarrow> store \<Rightarrow> (unit + attempt_result) \<times> store" where
  "attempt_scheduled_charge enabled sha stripe meanwhile now1 now2 token new_id bk amount currency s =
     (let no = (\<lambda>r. \<lparr>ar_attempted = False, ar_reason = Some r, ar_outcome = None\<rparr>)
      in if \<not> enabled then (Inr (no Charging_disabled), s)
         else
           (case with_transaction (decide_charge sha now1 token new_id bk amount currency) s of
              (Inl e, s1) \<Rightarrow> (Inl e, s1)
            | (Inr Already_succeeded, s1) \<Rightarrow> (Inr (no Duplicate_charge), s1)
            | (Inr (Refuse r), s1) \<Rightarrow> (Inr (no (Refused r)), s1)
            | (Inr (Charge order), s1) \<Rightarrow>
                let resp = stripe \<lparr>cr_amount = amount, cr_currency = to_lower currency,
                             cr_customer = co_customer order, cr_method = co_method order,
                             cr_booking = bk, cr_attempt = co_attempt order, cr_key = co_key order\<rparr>;
                    (res, s2) = settle_charge now2 bk order resp (meanwhile s1)
                in (Inr res, s2)))"

subsection \<open>Queries and unguarded writes\<close>

definition find_bookings_due :: "millis \<Rightarrow> store \<Rightarrow> uuid list" where
  "find_bookings_due now s =
     take 200 (map b_id (select_where (\<lambda>b.
       b_flow b = Separate_charges_delayed_v1 \<and> b_status b = Pending_payment \<and>
       (case b_scheduled b of None \<Rightarrow> False | Some t \<Rightarrow> t \<le> now) \<and>
       (b_grace b = None \<or> before now (b_hold b)) \<and>
       (case b_next_retry b of None \<Rightarrow> True | Some t \<Rightarrow> t \<le> now) \<and>
       \<not> has_succeeded_attempt (b_id b) s) (bookings s)))"

text \<open>\<open>recordNewAttempt\<close> and \<open>markAttemptStatus\<close> of lib/payments/paymentAttempts.ts.\<close>

definition record_new_attempt ::
  "(string \<Rightarrow> string) \<Rightarrow> uuid \<Rightarrow> uuid \<Rightarrow> minor \<Rightarrow> string \<Rightarrow> (store, unit, uuid \<times> int \<times> string) tx" where
  "record_new_attempt sha new_id bk amount currency s =
     (let number = int (row_count (\<lambda>a. pa_booking a = bk) (attempts s)) + 1;
          key = attempt_key sha bk (nat number);
          a = \<lparr>pa_id = new_id, pa_booking = bk, pa_number = number, pa_status = At_pending,
               pa_amount = amount, pa_currency = currency, pa_key = key, pa_intent = None,
               pa_failure_code = None, pa_failure_message = None, pa_token = None, pa_lease = None\<rparr>
      in if row_exists (\<lambda>x. pa_id x = new_id \<or> pa_key x = key \<or>
              pa_booking x = bk \<and> pa_number x = number) (attempts s)
         then Inl ()
         else Inr ((new_id, number, key), s\<lparr>attempts := insert_row a (attempts s)\<rparr>))"

definition mark_attempt_status :: "uuid \<Rightarrow> attempt_status \<Rightarrow> outcome_info \<Rightarrow> store \<Rightarrow> store" where
  "mark_attempt_status aid st o' s =
     s\<lparr>attempts := update_where (\<lambda>a. pa_id a = aid)
         (\<lambda>a. a\<lparr>pa_status := st, pa_intent := coalesce (oi_intent o') (pa_intent a),
                pa_failure_code := oi_code o', pa_failure_message := oi_message o'\<rparr>) (attempts s)\<rparr>"

definition list_attempts :: "uuid \<Rightarrow> store \<Rightarrow> attempt list" where
  "list_attempts bk s = sort_key pa_number (select_where (\<lambda>a. pa_booking a = bk) (attempts s))"

end
