(* ===== verification/New_Flow.thy ===== *)
theory New_Flow
  imports Charges Webhook
begin

text \<open>
  The delayed-charge flow's handlers: lib/payments/newFlowWebhookHandling.ts (payment and setup
  intent succeeded), lib/payments/setupIntentFlow.ts (saving a payment method) and
  lib/payments/newFlowPaymentIntent.ts (the immediate intent). Each database statement outside a
  transaction is its own step; the provider's calls are arguments.
\<close>

subsection \<open>Payment succeeded\<close>

definition mark_attempt_succeeded :: "uuid option \<Rightarrow> string \<Rightarrow> store \<Rightarrow> store" where
  "mark_attempt_succeeded aid intent s =
     (case aid of
        None \<Rightarrow> s
      | Some i \<Rightarrow> s\<lparr>attempts := update_where (\<lambda>a. pa_id a = i)
                     (\<lambda>a. a\<lparr>pa_status := At_succeeded, pa_intent := Some intent\<rparr>) (attempts s)\<rparr>)"

definition confirm_pending :: "uuid \<Rightarrow> store \<Rightarrow> store" where
  "confirm_pending bk s =
     s\<lparr>bookings := update_where (pending_status bk) (\<lambda>b. b\<lparr>b_status := Confirmed\<rparr>) (bookings s)\<rparr>"

definition entitlement_of :: "booking \<Rightarrow> price_row \<Rightarrow> millis \<Rightarrow> entitlement_input" where
  "entitlement_of b pc now =
     \<lparr>ei_booking = b_id b, ei_host = b_host b, ei_amount = pc_payout pc, ei_tax = Some (pc_taxes pc),
      ei_currency = pc_currency pc, ei_release = scheduled_release (b_check_in b) (b_policy b) now\<rparr>"

definition confirm_new_flow ::
  "millis \<Rightarrow> uuid \<Rightarrow> uuid option \<Rightarrow> string \<Rightarrow> (store, unit, entitlement_input option) tx" where
  "confirm_new_flow now bk aid intent s =
     (case find_booking bk s of
        None \<Rightarrow> Inr (None, s)
      | Some b \<Rightarrow>
          if b_status b = Confirmed then Inr (None, s)
          else
            let s1 = confirm_pending bk (mark_attempt_succeeded aid intent s)
            in (case find_price bk s1 of
                  None \<Rightarrow> Inr (None, s1)
                | Some pc \<Rightarrow>
                    Inr (Some (entitlement_of b pc now), s1)))"

definition on_new_flow_payment_succeeded ::
  "(string \<Rightarrow> string) \<Rightarrow> millis \<Rightarrow> uuid \<Rightarrow> uuid \<Rightarrow> uuid option \<Rightarrow> string \<Rightarrow> store \<Rightarrow> store" where
  "on_new_flow_payment_succeeded sha now new_id bk aid intent s =
     (case with_transaction (confirm_new_flow now bk aid intent) s of
        (Inr (Some i), s1) \<Rightarrow> snd (create_entitlement sha new_id i s1)
      | (_, s1) \<Rightarrow> s1)"

subsection \<open>Saving a payment method\<close>

datatype setup_error =
  Not_new_flow | No_setup_intent | Setup_not_succeeded string | No_method_attached | Setup_booking_missing

definition open_setup_statuses :: "string list" where
  "open_setup_statuses = [''requires_payment_method'', ''requires_confirmation'', ''requires_action'']"

definition setup_intent_key :: "uuid \<Rightarrow> string option \<Rightarrow> string" where
  "setup_intent_key bk replaces =
     ''host-setup-intent-'' @ bk @
     (case replaces of None \<Rightarrow> [] | Some i \<Rightarrow> ''-after-'' @ i)"

text \<open>
  \<open>customer\<close> is \<open>stripe.customers.create\<close> under its idempotency key, \<open>retrieve\<close> gives a setup intent's
  status and client secret, \<open>create\<close> a new intent's id and secret for a customer and a key.
\<close>

definition create_setup_intent_for_booking ::
  "(string \<Rightarrow> string) \<Rightarrow> (string \<Rightarrow> string \<times> string) \<Rightarrow> (string \<Rightarrow> string \<Rightarrow> string \<times> string) \<Rightarrow> uuid \<Rightarrow> store \<Rightarrow>
    (setup_error + string \<times> string \<times> string) \<times> store" where
  "create_setup_intent_for_booking customer retrieve create bk s =
     (case first_where (\<lambda>b. b_id b = bk \<and> b_flow b = Separate_charges_delayed_v1) (bookings s) of
        None \<Rightarrow> (Inl Not_new_flow, s)
      | Some b \<Rightarrow>
          let cust = (if blank (b_customer b) then customer (''host-setup-customer-'' @ bk)
                      else the (b_customer b));
              (si, secret) =
                (if blank (b_setup_intent b) then create cust (setup_intent_key bk None)
                 else
                   let i = the (b_setup_intent b); (status, sec) = retrieve i
                   in if status \<in> set open_setup_statuses then (i, sec)
                      else create cust (setup_intent_key bk (Some i)))
          in (Inr (cust, si, secret),
              set_booking bk (\<lambda>b. b\<lparr>b_customer := Some cust, b_setup_intent := Some si\<rparr>) s))"

definition with_method :: "string \<Rightarrow> booking \<Rightarrow> booking" where
  "with_method pm b =
     b\<lparr>b_payment_method := Some pm,
       b_next_retry := (if b_payment_method b \<noteq> Some pm then None else b_next_retry b)\<rparr>"

definition save_payment_method :: "uuid \<Rightarrow> string \<Rightarrow> (store, setup_error, bool) tx" where
  "save_payment_method bk pm s =
     (case find_booking bk s of
        None \<Rightarrow> Inl Setup_booking_missing
      | Some b \<Rightarrow>
          Inr (b_payment_method b \<noteq> Some pm,
               set_booking bk (with_method pm) s))"

definition confirm_setup_intent ::
  "(string \<Rightarrow> string \<times> string option) \<Rightarrow> uuid \<Rightarrow> store \<Rightarrow> (setup_error + string \<times> bool) \<times> store" where
  "confirm_setup_intent retrieve bk s =
     (case find_booking bk s of
        None \<Rightarrow> (Inl No_setup_intent, s)
      | Some b \<Rightarrow>
          if blank (b_setup_intent b) then (Inl No_setup_intent, s)
          else
            let (status, pm) = retrieve (the (b_setup_intent b))
            in if status \<noteq> ''succeeded'' then (Inl (Setup_not_succeeded status), s)
               else if blank pm then (Inl No_method_attached, s)
               else (case with_transaction (save_payment_method bk (the pm)) s of
                       (Inl e, s1) \<Rightarrow> (Inl e, s1)
                     | (Inr changed, s1) \<Rightarrow> (Inr (the pm, changed), s1)))"

definition clear_hold :: "uuid \<Rightarrow> store \<Rightarrow> store" where
  "clear_hold bk s =
     s\<lparr>bookings := update_where (pending_status bk) (\<lambda>b. b\<lparr>b_hold := None\<rparr>) (bookings s)\<rparr>"

text \<open>\<open>onSetupIntentSucceeded\<close>; \<open>charge\<close> stands for the call of \<open>attemptScheduledCharge\<close>.\<close>

definition on_setup_intent_succeeded ::
  "(string \<Rightarrow> string \<times> string option) \<Rightarrow> (uuid \<Rightarrow> minor \<Rightarrow> string \<Rightarrow> store \<Rightarrow> store) \<Rightarrow>
    millis \<Rightarrow> uuid \<Rightarrow> store \<Rightarrow> store" where
  "on_setup_intent_succeeded retrieve charge now bk s =
     (case (find_booking bk s, find_price bk s) of
        (Some b, Some pc) \<Rightarrow>
          if b_flow b \<noteq> Separate_charges_delayed_v1 \<or> pc_total pc = 0 then s
          else (case confirm_setup_intent retrieve bk s of
                  (Inl e, s1) \<Rightarrow> s1
                | (Inr r, s1) \<Rightarrow>
                    if \<not> ct_immediate (decide_charge_timing (b_check_in b) now) then clear_hold bk s1
                    else charge bk (pc_total pc) (pc_currency pc) s1)
      | _ \<Rightarrow> s)"

subsection \<open>The immediate payment intent\<close>

datatype immediate_error =
  Immediate_not_pending | Immediate_wrong_flow | Immediate_tax_unconfigured | Immediate_conflict
  | Immediate_failed string

definition plain_outcome :: "string option \<Rightarrow> string option \<Rightarrow> outcome_info" where
  "plain_outcome intent msg = \<lparr>oi_intent = intent, oi_code = None, oi_message = msg\<rparr>"

definition create_immediate_payment_intent ::
  "(string \<Rightarrow> string) \<Rightarrow> (minor \<Rightarrow> string \<Rightarrow> uuid \<Rightarrow> uuid \<Rightarrow> string \<Rightarrow> string + string \<times> string) \<Rightarrow>
    uuid \<Rightarrow> uuid \<Rightarrow> store \<Rightarrow> (immediate_error + string \<times> uuid) \<times> store" where
  "create_immediate_payment_intent sha create new_id bk s =
     (case (first_where (pending_status bk) (bookings s), find_price bk s) of
        (Some b, Some pc) \<Rightarrow>
          if b_flow b \<noteq> Separate_charges_delayed_v1 then (Inl Immediate_wrong_flow, s)
          else if b_tax b = Tax_unconfigured then (Inl Immediate_tax_unconfigured, s)
          else (case with_transaction (record_new_attempt sha new_id bk (pc_total pc) (pc_currency pc)) s of
                  (Inl e, s1) \<Rightarrow> (Inl Immediate_conflict, s1)
                | (Inr (aid, number, key), s1) \<Rightarrow>
                    (case create (pc_total pc) (to_lower (pc_currency pc)) bk aid key of
                       Inr (intent, secret) \<Rightarrow>
                         (Inr (secret, aid),
                          mark_attempt_status aid At_processing (plain_outcome (Some intent) None) s1)
                     | Inl msg \<Rightarrow>
                         (Inl (Immediate_failed msg),
                          mark_attempt_status aid At_failed (plain_outcome None (Some msg)) s1)))
      | _ \<Rightarrow> (Inl Immediate_not_pending, s))"

subsection \<open>Facts\<close>

lemma mark_attempt_frame [simp]:
  "bookings (mark_attempt_succeeded a i s) = bookings s" "prices (mark_attempt_succeeded a i s) = prices s"
  "avail (mark_attempt_succeeded a i s) = avail s"
  "entitlements (mark_attempt_succeeded a i s) = entitlements s"
  by (simp_all add: mark_attempt_succeeded_def split: option.split)

lemma confirm_pending_frame [simp]:
  "prices (confirm_pending bk s) = prices s" "avail (confirm_pending bk s) = avail s"
  "entitlements (confirm_pending bk s) = entitlements s" "attempts (confirm_pending bk s) = attempts s"
  by (simp_all add: confirm_pending_def)

lemma confirm_new_flow_cases:
  assumes "confirm_new_flow now bk aid intent s = Inr (r, t)"
  obtains (ignored) "r = None" "t = s"
  | (confirmed) b where "find_booking bk s = Some b" "b_status b \<noteq> Confirmed"
      "t = confirm_pending bk (mark_attempt_succeeded aid intent s)"
  using assms by (auto simp: confirm_new_flow_def Let_def split: option.splits if_splits)

lemma on_new_flow_cases:
  obtains (ignored) "on_new_flow_payment_succeeded sha now new_id bk aid intent s = s"
  | (confirmed) b where "find_booking bk s = Some b" "b_status b \<noteq> Confirmed"
      "on_new_flow_payment_succeeded sha now new_id bk aid intent s =
         confirm_pending bk (mark_attempt_succeeded aid intent s)"
  | (entitled) b pc where "find_booking bk s = Some b" "b_status b \<noteq> Confirmed"
      "find_price bk s = Some pc"
      "on_new_flow_payment_succeeded sha now new_id bk aid intent s =
         snd (create_entitlement sha new_id (entitlement_of b pc now)
           (confirm_pending bk (mark_attempt_succeeded aid intent s)))"
proof (cases "find_booking bk s")
  case None
  then show ?thesis
    by (intro ignored) (simp add: on_new_flow_payment_succeeded_def with_transaction_def confirm_new_flow_def)
next
  case b: (Some b)
  note defs = on_new_flow_payment_succeeded_def with_transaction_def confirm_new_flow_def Let_def
  show ?thesis
  proof (cases "b_status b = Confirmed")
    case True
    with b show ?thesis by (intro ignored) (simp add: defs)
  next
    case False
    show ?thesis
    proof (cases "find_price bk s")
      case None
      with b False show ?thesis by (intro confirmed [OF b]) (simp_all add: defs)
    next
      case (Some pc)
      with b False show ?thesis by (intro entitled [OF b _ Some]) (simp_all add: defs)
    qed
  qed
qed

lemma create_entitlement_frame [simp]:
  "bookings (snd (create_entitlement sha n i s)) = bookings s"
  "attempts (snd (create_entitlement sha n i s)) = attempts s"
  "avail (snd (create_entitlement sha n i s)) = avail s"
  "prices (snd (create_entitlement sha n i s)) = prices s"
  by (simp_all add: create_entitlement_def)

end
