(* ===== verification/Charge_Protocol.thy ===== *)
theory Charge_Protocol
  imports New_Flow
begin

text \<open>
  Workers, webhooks and the clock running against the delayed-charge tables. A worker's decision
  transaction starts a call to the provider, which ends, at any later time, in the recording
  transaction, or is lost with its worker; the success webhook and the expired-hold sweep run in
  between. Shown for every reachable state: at most one attempt of a booking is open, calls that may
  still record their outcome are exclusive, one idempotency key names one attempt, a succeeded
  attempt stays so and stops all further charging, and the grace deadline never moves.
\<close>

record world =
  w_store :: store
  w_now :: millis
  w_calls :: "(uuid \<times> charge_order) list"

definition fresh_token :: "uuid \<Rightarrow> world \<Rightarrow> bool" where
  "fresh_token token w \<longleftrightarrow>
     token \<notin> co_token ` snd ` set (w_calls w) \<and> Some token \<notin> pa_token ` set (attempts (w_store w))"

definition started :: "uuid \<Rightarrow> unit + decision \<Rightarrow> (uuid \<times> charge_order) list" where
  "started bk res = (case res of Inr (Charge o') \<Rightarrow> [(bk, o')] | _ \<Rightarrow> [])"

inductive charge_step :: "(string \<Rightarrow> string) \<Rightarrow> world \<Rightarrow> world \<Rightarrow> bool" for sha where
  decide: "fresh_token token w \<Longrightarrow>
    with_transaction (decide_charge sha (w_now w) token new_id bk amount currency) (w_store w) = (res, s') \<Longrightarrow>
    charge_step sha w (w\<lparr>w_store := s', w_calls := started bk res @ w_calls w\<rparr>)"
| settle: "(bk, ord) \<in> set (w_calls w) \<Longrightarrow>
    charge_step sha w (w\<lparr>w_store := snd (settle_charge (w_now w) bk ord resp (w_store w)),
                         w_calls := remove1 (bk, ord) (w_calls w)\<rparr>)"
| lost: "(bk, ord) \<in> set (w_calls w) \<Longrightarrow>
    charge_step sha w (w\<lparr>w_calls := remove1 (bk, ord) (w_calls w)\<rparr>)"
| webhook: "charge_step sha w
    (w\<lparr>w_store := on_new_flow_payment_succeeded sha (w_now w) new_id bk aid intent (w_store w)\<rparr>)"
| expire: "with_transaction (release_expired_hold (w_now w) bk) (w_store w) = (r, s') \<Longrightarrow>
    charge_step sha w (w\<lparr>w_store := s'\<rparr>)"
| tick: "w_now w \<le> t \<Longrightarrow> charge_step sha w (w\<lparr>w_now := t\<rparr>)"

inductive_cases charge_stepE: "charge_step sha w w'"

abbreviation charge_run :: "(string \<Rightarrow> string) \<Rightarrow> world \<Rightarrow> world \<Rightarrow> bool" where
  "charge_run sha \<equiv> (charge_step sha)\<^sup>*\<^sup>*"

definition open_attempt :: "attempt \<Rightarrow> bool" where
  "open_attempt a \<longleftrightarrow> pa_status a = At_pending \<or> pa_status a = At_processing"

definition attempts_ok :: "(string \<Rightarrow> string) \<Rightarrow> attempt list \<Rightarrow> bool" where
  "attempts_ok sha as \<longleftrightarrow>
     distinct (map pa_id as) \<and>
     (\<forall>a \<in> set as. 1 \<le> pa_number a \<and> pa_key a = attempt_key sha (pa_booking a) (nat (pa_number a)) \<and>
        (pa_token a \<noteq> None \<longrightarrow> open_attempt a \<or> pa_status a = At_succeeded)) \<and>
     (\<forall>a \<in> set as. \<forall>b \<in> set as. pa_booking a = pa_booking b \<longrightarrow>
        (pa_number a < pa_number b \<longrightarrow> \<not> open_attempt a) \<and>
        (pa_number a = pa_number b \<longrightarrow> pa_id a = pa_id b))"

definition calls_ok :: "attempt list \<Rightarrow> (uuid \<times> charge_order) list \<Rightarrow> bool" where
  "calls_ok as calls \<longleftrightarrow>
     distinct (map (\<lambda>c. co_token (snd c)) calls) \<and>
     (\<forall>(bk, ord) \<in> set calls.
        (\<exists>a \<in> set as. pa_id a = co_attempt ord \<and> pa_booking a = bk \<and> pa_key a = co_key ord) \<and>
        (\<forall>a \<in> set as. pa_token a = Some (co_token ord) \<longrightarrow> pa_id a = co_attempt ord))"

definition world_ok :: "(string \<Rightarrow> string) \<Rightarrow> world \<Rightarrow> bool" where
  "world_ok sha w \<longleftrightarrow> attempts_ok sha (attempts (w_store w)) \<and> calls_ok (attempts (w_store w)) (w_calls w)"

lemma attempts_okD:
  assumes "attempts_ok sha as" "a \<in> set as"
  shows "1 \<le> pa_number a" "pa_key a = attempt_key sha (pa_booking a) (nat (pa_number a))"
    "pa_token a \<noteq> None \<Longrightarrow> open_attempt a \<or> pa_status a = At_succeeded"
    "b \<in> set as \<Longrightarrow> pa_booking a = pa_booking b \<Longrightarrow> pa_number a < pa_number b \<Longrightarrow> \<not> open_attempt a"
    "b \<in> set as \<Longrightarrow> pa_booking a = pa_booking b \<Longrightarrow> pa_number a = pa_number b \<Longrightarrow> pa_id a = pa_id b"
  using assms unfolding attempts_ok_def by blast+

lemma attempts_ok_same:
  assumes "attempts_ok sha as" "a \<in> set as" "b \<in> set as" "pa_id a = pa_id b"
  shows "a = b"
proof -
  from assms(1) have "inj_on pa_id (set as)" unfolding attempts_ok_def distinct_map by blast
  with assms(2-) show ?thesis by (blast dest: inj_onD)
qed

subsection \<open>Changes that keep the tables in order\<close>

text \<open>A change of existing attempts: identity and key stay, nothing opens, no token appears.\<close>

definition quiet :: "(attempt \<Rightarrow> attempt) \<Rightarrow> attempt \<Rightarrow> bool" where
  "quiet f a \<longleftrightarrow> pa_id (f a) = pa_id a \<and> pa_booking (f a) = pa_booking a \<and>
     pa_number (f a) = pa_number a \<and> pa_key (f a) = pa_key a \<and>
     (open_attempt (f a) \<longrightarrow> open_attempt a) \<and>
     (pa_token (f a) = pa_token a \<and> (open_attempt a \<longrightarrow> open_attempt (f a) \<or> pa_status (f a) = At_succeeded) \<and>
        (pa_status a = At_succeeded \<longrightarrow> pa_status (f a) = At_succeeded) \<or> pa_token (f a) = None)"

lemma quietD:
  assumes "quiet f a"
  shows "pa_id (f a) = pa_id a" "pa_booking (f a) = pa_booking a" "pa_number (f a) = pa_number a"
    "pa_key (f a) = pa_key a" "open_attempt (f a) \<Longrightarrow> open_attempt a"
    "pa_token (f a) = Some t \<Longrightarrow> pa_token a = Some t"
    "pa_token (f a) = Some t \<Longrightarrow> open_attempt a \<Longrightarrow> open_attempt (f a) \<or> pa_status (f a) = At_succeeded"
    "pa_token (f a) = Some t \<Longrightarrow> pa_status a = At_succeeded \<Longrightarrow> pa_status (f a) = At_succeeded"
  using assms unfolding quiet_def by (blast | metis option.distinct(1))+

lemma attempts_ok_quiet:
  assumes ok: "attempts_ok sha as" and f: "\<And>a. a \<in> set as \<Longrightarrow> quiet f a"
  shows "attempts_ok sha (map f as)"
  unfolding attempts_ok_def
proof (intro conjI ballI impI)
  have ids: "map pa_id (map f as) = map pa_id as" using quietD(1) [OF f] by simp
  from ok show "distinct (map pa_id (map f as))" unfolding ids attempts_ok_def by blast
next
  fix x assume "x \<in> set (map f as)"
  then obtain a where a: "a \<in> set as" "x = f a" by auto
  note q = quietD [OF f [OF a(1)]] and o = attempts_okD [OF ok a(1)]
  show "1 \<le> pa_number x" "pa_key x = attempt_key sha (pa_booking x) (nat (pa_number x))"
    using q(1-4) o(1,2) by (simp_all add: a)
  show "open_attempt x \<or> pa_status x = At_succeeded" if "pa_token x \<noteq> None"
    using that q(6-8) o(3) unfolding a by blast
  fix y assume "y \<in> set (map f as)" "pa_booking x = pa_booking y"
  then obtain b where b: "b \<in> set as" "y = f b" "pa_booking a = pa_booking b"
    using q(2) quietD(2) [OF f] a by auto
  note qb = quietD [OF f [OF b(1)]]
  show "\<not> open_attempt x" if "pa_number x < pa_number y"
    using that q(3,5) qb(3) o(4) [OF b(1,3)] by (auto simp: a b)
  show "pa_id x = pa_id y" if "pa_number x = pa_number y"
    using that q(1,3) qb(1,3) o(5) [OF b(1,3)] by (simp add: a b)
qed

lemma calls_ok_quiet:
  assumes ok: "calls_ok as calls" and f: "\<And>a. a \<in> set as \<Longrightarrow> quiet f a"
  shows "calls_ok (map f as) calls"
  unfolding calls_ok_def
proof (intro conjI ballI, goal_cases)
  case 1
  from ok show ?case by (simp add: calls_ok_def)
next
  case (2 c)
  obtain bk ord where c: "c = (bk, ord)" by fastforce
  with 2 ok obtain a where a: "a \<in> set as" "pa_id a = co_attempt ord" "pa_booking a = bk" "pa_key a = co_key ord"
    and t: "\<And>a. a \<in> set as \<Longrightarrow> pa_token a = Some (co_token ord) \<Longrightarrow> pa_id a = co_attempt ord"
    by (fastforce simp: calls_ok_def)
  have "f a \<in> set (map f as)" using a(1) by simp
  moreover have "pa_id (f a) = co_attempt ord \<and> pa_booking (f a) = bk \<and> pa_key (f a) = co_key ord"
    using a quietD(1,2,4) [OF f [OF a(1)]] by simp
  ultimately have "\<exists>a \<in> set (map f as). pa_id a = co_attempt ord \<and> pa_booking a = bk \<and> pa_key a = co_key ord"
    by blast
  moreover have "\<forall>a \<in> set (map f as). pa_token a = Some (co_token ord) \<longrightarrow> pa_id a = co_attempt ord"
  proof
    fix x assume "x \<in> set (map f as)"
    then obtain y where y: "y \<in> set as" "x = f y" by auto
    show "pa_token x = Some (co_token ord) \<longrightarrow> pa_id x = co_attempt ord"
    proof
      assume "pa_token x = Some (co_token ord)"
      then have "pa_id y = co_attempt ord"
        unfolding y(2) by (intro t [OF y(1)] quietD(6) [OF f [OF y(1)]])
      then show "pa_id x = co_attempt ord" by (simp add: y(2) quietD(1) [OF f [OF y(1)]])
    qed
  qed
  ultimately show ?case unfolding c prod.case by (rule conjI)
qed

lemma distinct_map_remove1: "distinct (map f xs) \<Longrightarrow> distinct (map f (remove1 x xs))"
  by (induction xs) (auto dest: notin_set_remove1 set_remove1_subset [THEN subsetD])

lemma calls_ok_remove: "calls_ok as calls \<Longrightarrow> calls_ok as (remove1 c calls)"
  unfolding calls_ok_def
  using set_remove1_subset [of c calls]
  by (blast intro: distinct_map_remove1)

subsection \<open>The decision\<close>

definition order_of :: "booking \<Rightarrow> uuid \<Rightarrow> string \<Rightarrow> uuid \<Rightarrow> charge_order" where
  "order_of b aid key token =
     \<lparr>co_attempt = aid, co_key = key, co_token = token,
      co_customer = the (b_customer b), co_method = the (b_payment_method b)\<rparr>"

lemma decide_charge_cases:
  assumes "decide_charge sha now token new_id bk amount currency s = Inr (d, t)"
  obtains (stay) "t = s" "\<And>ord. d \<noteq> Charge ord"
  | (claim) b a where "find_booking bk s = Some b" "\<not> has_succeeded_attempt bk s"
      "booking_refusal b now = None" "latest_attempt bk s = Some a"
      "open_attempt a" "\<not> lease_active a now" "d = Charge (order_of b (pa_id a) (pa_key a) token)"
      "t = claim_attempt now (pa_id a) token s"
  | (reserve) b where "find_booking bk s = Some b" "\<not> has_succeeded_attempt bk s"
      "booking_refusal b now = None" "\<And>a. latest_attempt bk s = Some a \<Longrightarrow> \<not> open_attempt a"
      "new_id \<notin> pa_id ` set (attempts s)"
      "d = Charge (order_of b new_id (attempt_key sha bk (nat (max_attempt_number bk s + 1))) token)"
      "t = s\<lparr>attempts := insert_row
         (new_attempt sha now new_id bk (max_attempt_number bk s + 1) token amount currency) (attempts s)\<rparr>"
proof (cases "has_succeeded_attempt bk s")
  case True
  with assms have "t = s" "d = Already_succeeded" by (simp_all add: decide_charge_def)
  then show ?thesis by (intro stay) simp_all
next
  case ns: False
  show ?thesis
  proof (cases "find_booking bk s")
    case None
    with assms ns have "t = s" "d = Refuse No_booking" by (simp_all add: decide_charge_def)
    then show ?thesis by (intro stay) simp_all
  next
    case b: (Some b)
    show ?thesis
    proof (cases "booking_refusal b now")
      case (Some r)
      with assms ns b have "t = s" "d = Refuse r" by (simp_all add: decide_charge_def)
      then show ?thesis by (intro stay) simp_all
    next
      case r: None
      note d = assms [unfolded decide_charge_def Let_def order_of_def [symmetric], simplified ns b r option.case if_False]
      consider (open_latest) a where "latest_attempt bk s = Some a" "open_attempt a"
        | (closed) "\<And>a. latest_attempt bk s = Some a \<Longrightarrow> \<not> open_attempt a" by blast
      then show ?thesis
      proof cases
        case open_latest
        show ?thesis
        proof (cases "lease_active a now")
          case True
          with d open_latest have "t = s" "d = Refuse Lease_held" by (auto simp: open_attempt_def)
          then show ?thesis by (intro stay) simp_all
        next
          case False
          with d open_latest have "d = Charge (order_of b (pa_id a) (pa_key a) token)"
            "t = claim_attempt now (pa_id a) token s" by (auto simp: open_attempt_def)
          with b ns r open_latest False show ?thesis by (intro claim)
        qed
      next
        case closed
        define st where "st = map_option pa_status (latest_attempt bk s)"
        have no: "st \<noteq> Some At_pending" "st \<noteq> Some At_processing"
          using closed by (auto simp: open_attempt_def st_def)
        note d = d [folded st_def]
        show ?thesis
        proof (cases "st = Some At_requires_action \<or> st = Some At_failed \<and> before now (b_next_retry b)")
          case True
          with d no have "t = s" "d = Refuse Needs_authentication \<or> d = Refuse Retry_not_due"
            by (auto split: if_splits)
          then show ?thesis by (intro stay) auto
        next
          case False
          let ?a = "new_attempt sha now new_id bk (max_attempt_number bk s + 1) token amount currency"
          have ns: "st \<noteq> Some At_requires_action" "\<not> (st = Some At_failed \<and> before now (b_next_retry b))"
            using False by blast+
          note d = d [simplified no ns if_False simp_thms]
          from d have fresh: "\<not> row_exists (\<lambda>x. pa_id x = new_id \<or> pa_key x = pa_key ?a) (attempts s)"
            by (auto simp del: row_exists_iff split: if_splits)
          from d fresh have "d = Charge (order_of b new_id (pa_key ?a) token)"
            "t = s\<lparr>attempts := insert_row ?a (attempts s)\<rparr>"
            by (simp_all del: row_exists_iff)
          with b \<open>\<not> has_succeeded_attempt bk s\<close> r closed fresh show ?thesis
            by (intro reserve) (auto simp: new_attempt_def)
        qed
      qed
    qed
  qed
qed

subsection \<open>Every step keeps the tables in order\<close>

lemma latest_open:
  assumes ok: "attempts_ok sha (attempts s)" and a: "a \<in> set (attempts s)" "open_attempt a"
  shows "latest_attempt (pa_booking a) s = Some a"
proof (cases "latest_attempt (pa_booking a) s")
  case None
  with a(1) show ?thesis by (auto simp: latest_attempt_None)
next
  case (Some l)
  note l = latest_attempt_Some [OF Some]
  have eq: "pa_booking a = pa_booking l" using l(2) by simp
  have "pa_number a = pa_number l"
    using attempts_okD(4) [OF ok a(1) l(1) eq] a l(3) [OF a(1)] by force
  then have "pa_id a = pa_id l" by (rule attempts_okD(5) [OF ok a(1) l(1) eq])
  with attempts_ok_same [OF ok a(1) l(1)] Some show ?thesis by simp
qed

lemma claim_attempts: "attempts (claim_attempt now aid token s) =
    map (\<lambda>a. if pa_id a = aid then a\<lparr>pa_token := Some token, pa_lease := lease_until now\<rparr> else a) (attempts s)"
  by (simp add: claim_attempt_def update_where_def)

lemma attempts_ok_claim:
  assumes ok: "attempts_ok sha (attempts s)" and a: "a \<in> set (attempts s)" "open_attempt a"
  shows "attempts_ok sha (attempts (claim_attempt now (pa_id a) token s))"
proof -
  let ?f = "\<lambda>x. if pa_id x = pa_id a then x\<lparr>pa_token := Some token, pa_lease := lease_until now\<rparr> else x"
  have f: "pa_id (?f x) = pa_id x" "pa_booking (?f x) = pa_booking x" "pa_number (?f x) = pa_number x"
    "pa_key (?f x) = pa_key x" "pa_status (?f x) = pa_status x" for x by simp_all
  have o: "open_attempt (?f x) = open_attempt x" for x by (simp add: open_attempt_def)
  have ids: "map pa_id (map ?f (attempts s)) = map pa_id (attempts s)" by simp
  show ?thesis
    unfolding claim_attempts attempts_ok_def
  proof (intro conjI ballI impI)
    from ok show "distinct (map pa_id (map ?f (attempts s)))" unfolding ids attempts_ok_def by blast
  next
    fix x assume "x \<in> set (map ?f (attempts s))"
    then obtain x' where x: "x' \<in> set (attempts s)" "x = ?f x'" by auto
    note d = attempts_okD [OF ok x(1)]
    show "1 \<le> pa_number x" "pa_key x = attempt_key sha (pa_booking x) (nat (pa_number x))"
      using d(1,2) unfolding x(2) f by blast+
    show "open_attempt x \<or> pa_status x = At_succeeded" if "pa_token x \<noteq> None"
    proof (cases "pa_id x' = pa_id a")
      case True
      then have "x' = a" using attempts_ok_same [OF ok x(1) a(1)] by blast
      with a(2) o [of a] show ?thesis by (simp add: x(2))
    next
      case False
      with that d(3) show ?thesis by (simp add: x(2))
    qed
    fix y assume "y \<in> set (map ?f (attempts s))" and xy: "pa_booking x = pa_booking y"
    then obtain y' where y: "y' \<in> set (attempts s)" "y = ?f y'" by auto
    have bk: "pa_booking x' = pa_booking y'" using xy unfolding x(2) y(2) f .
    show "\<not> open_attempt x" if "pa_number x < pa_number y"
      using that d(4) [OF y(1) bk] unfolding x(2) y(2) f o by blast
    show "pa_id x = pa_id y" if "pa_number x = pa_number y"
      using that d(5) [OF y(1) bk] unfolding x(2) y(2) f by blast
  qed
qed

lemma new_attempt_simps [simp]:
  "pa_id (new_attempt sha now i bk n tok amt cur) = i" "pa_booking (new_attempt sha now i bk n tok amt cur) = bk"
  "pa_number (new_attempt sha now i bk n tok amt cur) = n" "pa_token (new_attempt sha now i bk n tok amt cur) = Some tok"
  "pa_key (new_attempt sha now i bk n tok amt cur) = attempt_key sha bk (nat n)"
  "open_attempt (new_attempt sha now i bk n tok amt cur)"
  by (simp_all add: new_attempt_def open_attempt_def)

lemma max_attempt_number_ge:
  assumes "a \<in> set (attempts s)" "pa_booking a = bk"
  shows "pa_number a \<le> max_attempt_number bk s"
proof (cases "latest_attempt bk s")
  case None
  with assms show ?thesis by (auto simp: latest_attempt_None)
next
  case (Some l)
  with latest_attempt_Some(3) [OF Some assms] show ?thesis by (simp add: max_attempt_number_def)
qed

lemma max_attempt_number_nonneg:
  assumes "attempts_ok sha (attempts s)"
  shows "0 \<le> max_attempt_number bk s"
proof (cases "latest_attempt bk s")
  case (Some l)
  from attempts_okD(1) [OF assms latest_attempt_Some(1) [OF Some]] Some show ?thesis
    by (simp add: max_attempt_number_def)
qed (simp add: max_attempt_number_def)

lemma attempts_ok_insert:
  assumes ok: "attempts_ok sha (attempts s)" and fresh: "new_id \<notin> pa_id ` set (attempts s)"
    and closed: "\<And>a. latest_attempt bk s = Some a \<Longrightarrow> \<not> open_attempt a"
  shows "attempts_ok sha (insert_row
    (new_attempt sha now new_id bk (max_attempt_number bk s + 1) token amount currency) (attempts s))"
    (is "attempts_ok sha (insert_row ?a _)")
proof -
  have lt: "pa_number x < pa_number ?a" if "x \<in> set (attempts s)" "pa_booking x = bk" for x
    using max_attempt_number_ge [OF that] by simp
  have no: "\<not> open_attempt x" if "x \<in> set (attempts s)" "pa_booking x = bk" for x
    using latest_open [OF ok that(1)] closed that(2) by blast
  have one: "1 \<le> pa_number ?a" using max_attempt_number_nonneg [OF ok, of bk] by simp
  have d: "distinct (map pa_id (insert_row ?a (attempts s)))"
    using fresh ok [unfolded attempts_ok_def, THEN conjunct1] by (simp add: insert_row_def)
  show ?thesis
    unfolding attempts_ok_def set_insert_row
  proof (intro conjI ballI impI d)
    fix x assume x: "x \<in> insert ?a (set (attempts s))"
    show "1 \<le> pa_number x" using x one attempts_okD(1) [OF ok] by blast
    show "pa_key x = attempt_key sha (pa_booking x) (nat (pa_number x))"
      using x attempts_okD(2) [OF ok] by (elim insertE) (simp_all only: new_attempt_simps)
    show "open_attempt x \<or> pa_status x = At_succeeded" if "pa_token x \<noteq> None"
      using x that attempts_okD(3) [OF ok] new_attempt_simps(6) by blast
    fix y assume y: "y \<in> insert ?a (set (attempts s))" and bk: "pa_booking x = pa_booking y"
    show "\<not> open_attempt x" if less: "pa_number x < pa_number y"
    proof (cases "y = ?a")
      case True
      with less have "x \<noteq> ?a" by blast
      moreover have "pa_booking x = bk" using bk True by simp
      ultimately show ?thesis using x no [of x] by blast
    next
      case False
      with y have y: "y \<in> set (attempts s)" by simp
      show ?thesis
      proof (cases "x = ?a")
        case True
        with bk have "pa_booking y = bk" by simp
        from lt [OF y this] less True show ?thesis by simp
      next
        case False
        with x attempts_okD(4) [OF ok _ y bk less] show ?thesis by blast
      qed
    qed
    show "pa_id x = pa_id y" if eq: "pa_number x = pa_number y"
    proof (cases "x = ?a")
      case True
      with bk have "pa_booking y = bk" by simp
      with lt [of y] eq True y have "y = ?a" by (metis insertE less_irrefl)
      with True show ?thesis by simp
    next
      case False
      with x have x: "x \<in> set (attempts s)" by simp
      show ?thesis
      proof (cases "y = ?a")
        case True
        with bk have "pa_booking x = bk" by simp
        from lt [OF x this] eq True show ?thesis by simp
      next
        case False
        with y attempts_okD(5) [OF ok x _ bk eq] show ?thesis by blast
      qed
    qed
  qed
qed

lemma calls_okD:
  assumes "calls_ok as calls" "(bk, ord) \<in> set calls"
  shows "\<exists>a \<in> set as. pa_id a = co_attempt ord \<and> pa_booking a = bk \<and> pa_key a = co_key ord"
    "a \<in> set as \<Longrightarrow> pa_token a = Some (co_token ord) \<Longrightarrow> pa_id a = co_attempt ord"
  using assms unfolding calls_ok_def by blast+

lemma calls_ok_start:
  assumes ok: "calls_ok as calls"
    and kept: "\<And>a. a \<in> set as \<Longrightarrow> \<exists>a' \<in> set as'. pa_id a' = pa_id a \<and> pa_booking a' = pa_booking a \<and> pa_key a' = pa_key a"
    and tokens: "\<And>a'. a' \<in> set as' \<Longrightarrow> pa_token a' = Some (co_token ord) \<and> pa_id a' = co_attempt ord \<or>
        (\<exists>a \<in> set as. pa_token a = pa_token a' \<and> pa_id a = pa_id a')"
    and fresh: "co_token ord \<notin> co_token ` snd ` set calls" "Some (co_token ord) \<notin> pa_token ` set as"
    and new: "\<exists>a' \<in> set as'. pa_id a' = co_attempt ord \<and> pa_booking a' = bk \<and> pa_key a' = co_key ord"
  shows "calls_ok as' ((bk, ord) # calls)"
  unfolding calls_ok_def
proof (intro conjI ballI)
  from ok have "distinct (map (\<lambda>c. co_token (snd c)) calls)" unfolding calls_ok_def by blast
  with fresh(1) show "distinct (map (\<lambda>c. co_token (snd c)) ((bk, ord) # calls))"
    by (simp add: image_image)
next
  fix c assume c: "c \<in> set ((bk, ord) # calls)"
  obtain bk' o2 where c2: "c = (bk', o2)" by fastforce
  show "case c of (bk, ord) \<Rightarrow>
      (\<exists>a \<in> set as'. pa_id a = co_attempt ord \<and> pa_booking a = bk \<and> pa_key a = co_key ord) \<and>
      (\<forall>a \<in> set as'. pa_token a = Some (co_token ord) \<longrightarrow> pa_id a = co_attempt ord)"
    unfolding c2 prod.case
  proof (cases "c = (bk, ord)")
    case True
    then have eq: "bk' = bk" "o2 = ord" using c2 by simp_all
    show "(\<exists>a \<in> set as'. pa_id a = co_attempt o2 \<and> pa_booking a = bk' \<and> pa_key a = co_key o2) \<and>
        (\<forall>a \<in> set as'. pa_token a = Some (co_token o2) \<longrightarrow> pa_id a = co_attempt o2)"
      unfolding eq using new tokens fresh(2) by (metis image_eqI)
  next
    case False
    with c c2 have o2: "(bk', o2) \<in> set calls" by auto
    have "co_token o2 \<in> co_token ` snd ` set calls"
      using imageI [OF imageI [OF o2, of snd], of co_token] by simp
    with fresh(1) have ne: "co_token o2 \<noteq> co_token ord" by metis
    show "(\<exists>a \<in> set as'. pa_id a = co_attempt o2 \<and> pa_booking a = bk' \<and> pa_key a = co_key o2) \<and>
        (\<forall>a \<in> set as'. pa_token a = Some (co_token o2) \<longrightarrow> pa_id a = co_attempt o2)"
      using calls_okD [OF ok o2] kept tokens ne by (metis option.inject)
  qed
qed

lemma order_of_simps [simp]:
  "co_attempt (order_of b i k t) = i" "co_key (order_of b i k t) = k" "co_token (order_of b i k t) = t"
  by (simp_all add: order_of_def)

lemma with_transaction_unit_cases:
  assumes "with_transaction body s = (res, t)"
  obtains (error) e where "res = Inl e" "t = s" | (ok) x where "res = Inr x" "body s = Inr (x, t)"
  using assms by (cases "body s") (auto simp: with_transaction_def)

lemma decide_keeps_world_ok:
  assumes ok: "world_ok sha w" and fresh: "fresh_token token w"
    and d: "decide_charge sha (w_now w) token new_id bk amount currency (w_store w) = Inr (d, t)"
  shows "attempts_ok sha (attempts t) \<and> calls_ok (attempts t) (started bk (Inr d) @ w_calls w)"
  using d
proof (cases rule: decide_charge_cases)
  case stay
  then have "started bk (Inr d) = []" by (cases d) (auto simp: started_def)
  with ok stay(1) show ?thesis by (simp add: world_ok_def)
next
  case (claim b a)
  note a = latest_attempt_Some(1,2) [OF claim(4)]
  from ok have aok: "attempts_ok sha (attempts (w_store w))" and cok: "calls_ok (attempts (w_store w)) (w_calls w)"
    unfolding world_ok_def by blast+
  have "calls_ok (attempts t) ((bk, order_of b (pa_id a) (pa_key a) token) # w_calls w)"
  proof (rule calls_ok_start [OF cok])
    show "\<exists>a' \<in> set (attempts t). pa_id a' = pa_id x \<and> pa_booking a' = pa_booking x \<and> pa_key a' = pa_key x"
      if "x \<in> set (attempts (w_store w))" for x
      using that unfolding claim(8) claim_attempts
      by (intro bexI [of _ "if pa_id x = pa_id a then x\<lparr>pa_token := Some token, pa_lease := lease_until (w_now w)\<rparr> else x"])
        simp_all
    then show "\<exists>a' \<in> set (attempts t). pa_id a' = co_attempt (order_of b (pa_id a) (pa_key a) token) \<and>
        pa_booking a' = bk \<and> pa_key a' = co_key (order_of b (pa_id a) (pa_key a) token)"
      using a by fastforce
    show "pa_token a' = Some (co_token (order_of b (pa_id a) (pa_key a) token)) \<and>
        pa_id a' = co_attempt (order_of b (pa_id a) (pa_key a) token) \<or>
        (\<exists>x \<in> set (attempts (w_store w)). pa_token x = pa_token a' \<and> pa_id x = pa_id a')"
      if "a' \<in> set (attempts t)" for a'
      using that unfolding claim(8) claim_attempts by (auto split: if_splits)
  qed (use fresh in \<open>simp_all add: fresh_token_def\<close>)
  with attempts_ok_claim [OF aok a(1) claim(5)] show ?thesis
    by (simp add: claim(7,8) started_def)
next
  case (reserve b)
  from ok have aok: "attempts_ok sha (attempts (w_store w))" and cok: "calls_ok (attempts (w_store w)) (w_calls w)"
    unfolding world_ok_def by blast+
  let ?ord = "order_of b new_id (attempt_key sha bk (nat (max_attempt_number bk (w_store w) + 1))) token"
  have "calls_ok (attempts t) ((bk, ?ord) # w_calls w)"
    by (rule calls_ok_start [OF cok])
      (use fresh in \<open>auto simp: reserve(7) fresh_token_def\<close>)
  with attempts_ok_insert [OF aok reserve(5,4)] show ?thesis
    by (simp add: reserve(6,7) started_def)
qed

lemma quiet_succeed:
  "quiet (\<lambda>a. if pa_id a = i then a\<lparr>pa_status := At_succeeded, pa_intent := x\<rparr> else a) a"
  by (simp add: quiet_def open_attempt_def)

lemma quiet_outcome:
  assumes "attempts_ok sha as" "a \<in> set as"
  shows "quiet (\<lambda>a. if outcome_matches i tok a then apply_outcome c info a else a) a"
proof (cases "outcome_matches i tok a")
  case True
  then have "pa_token a \<noteq> None" "pa_status a \<noteq> At_succeeded" by (simp_all add: outcome_matches_def)
  with attempts_okD(3) [OF assms] have "open_attempt a" by blast
  with True show ?thesis by (simp add: quiet_def apply_outcome_def)
qed (simp add: quiet_def)

lemma record_outcome_attempts:
  assumes "record_charge_outcome now bk i tok c info s = Inr (r, t)"
  shows "attempts t = map (\<lambda>a. if outcome_matches i tok a then apply_outcome c info a else a) (attempts s)"
proof (cases "row_count (outcome_matches i tok) (attempts s) = 0")
  case True
  with assms have "t = s" by (simp add: record_charge_outcome_def)
  moreover have "update_where (outcome_matches i tok) (apply_outcome c info) (attempts s) = attempts s"
    using True by (intro update_where_none) (simp add: row_count_zero_iff)
  ultimately show ?thesis by (simp add: update_where_def)
next
  case False
  with assms show ?thesis by (auto simp: record_charge_outcome_def Let_def update_where_def)
qed

lemma record_outcome_total: "\<exists>r t. record_charge_outcome now bk i tok c info s = Inr (r, t)"
  unfolding record_charge_outcome_def Let_def
  by (cases "row_count (outcome_matches i tok) (attempts s) = 0") auto

lemma settle_charge_store:
  "\<exists>r c info. record_charge_outcome now bk (co_attempt ord) (co_token ord) c info s =
    Inr (r, snd (settle_charge now bk ord resp s))"
proof -
  obtain c info label msg where st: "settlement resp = (c, info, label, msg)" by (cases "settlement resp")
  obtain r t where r: "record_charge_outcome now bk (co_attempt ord) (co_token ord) c info s = Inr (r, t)"
    using record_outcome_total by blast
  have "snd (settle_charge now bk ord resp s) = t"
    by (cases r) (simp_all add: settle_charge_def st with_transaction_def r)
  with r show ?thesis by blast
qed

lemma mark_attempt_attempts:
  "\<exists>f. attempts (mark_attempt_succeeded aid intent s) = map f (attempts s) \<and> (\<forall>a. quiet f a) \<and>
    (\<forall>a. pa_status a = At_succeeded \<longrightarrow> pa_status (f a) = At_succeeded)"
proof (cases aid)
  case None
  then show ?thesis by (intro exI [of _ id]) (simp add: mark_attempt_succeeded_def quiet_def)
next
  case (Some i)
  let ?f = "\<lambda>a. if pa_id a = i then a\<lparr>pa_status := At_succeeded, pa_intent := Some intent\<rparr> else a"
  have "attempts (mark_attempt_succeeded aid intent s) = map ?f (attempts s)"
    by (simp add: mark_attempt_succeeded_def update_where_def Some)
  moreover have "quiet ?f a" for a by (rule quiet_succeed)
  ultimately show ?thesis by (intro exI [of _ ?f]) simp
qed

lemma new_flow_attempts:
  "attempts (on_new_flow_payment_succeeded sha now n bk aid intent s) = attempts s \<or>
   attempts (on_new_flow_payment_succeeded sha now n bk aid intent s) = attempts (mark_attempt_succeeded aid intent s)"
  by (cases rule: on_new_flow_cases [of sha now n bk aid intent s]) simp_all

lemma release_expired_attempts:
  "release_expired_hold now bk s = Inr (r, t) \<Longrightarrow> attempts t = attempts s"
  by (auto simp: release_expired_hold_def release_nights_def Let_def split: option.splits if_splits)

lemma charge_step_keeps_world_ok:
  assumes "charge_step sha w w'" "world_ok sha w"
  shows "world_ok sha w'"
  using assms
proof (induction rule: charge_step.induct)
  case (decide token w new_id bk amount currency res s')
  from decide(2) show ?case
  proof (cases rule: with_transaction_unit_cases)
    case (error e)
    with decide show ?thesis by (simp add: world_ok_def started_def)
  next
    case (ok d)
    from decide_keeps_world_ok [OF decide(3,1) ok(2)] show ?thesis by (simp add: world_ok_def ok(1))
  qed
next
  case (settle bk ord w resp)
  from settle_charge_store [of "w_now w" bk ord "w_store w" resp] obtain r c info where
    r: "record_charge_outcome (w_now w) bk (co_attempt ord) (co_token ord) c info (w_store w) =
      Inr (r, snd (settle_charge (w_now w) bk ord resp (w_store w)))" by blast
  from settle(2) have aok: "attempts_ok sha (attempts (w_store w))"
    and cok: "calls_ok (attempts (w_store w)) (w_calls w)" unfolding world_ok_def by blast+
  note q = quiet_outcome [OF aok]
  show ?case
    unfolding world_ok_def using attempts_ok_quiet [OF aok q] calls_ok_remove [OF calls_ok_quiet [OF cok q]]
    by (simp add: record_outcome_attempts [OF r])
next
  case (lost bk ord w)
  then show ?case by (simp add: world_ok_def calls_ok_remove)
next
  case (webhook w new_id bk aid intent)
  then have aok: "attempts_ok sha (attempts (w_store w))"
    and cok: "calls_ok (attempts (w_store w)) (w_calls w)" unfolding world_ok_def by blast+
  obtain f where f: "attempts (mark_attempt_succeeded aid intent (w_store w)) = map f (attempts (w_store w))"
    "\<And>a. quiet f a" using mark_attempt_attempts by blast
  show ?case
    using new_flow_attempts [of sha "w_now w" new_id bk aid intent "w_store w"]
      attempts_ok_quiet [OF aok f(2)] calls_ok_quiet [OF cok f(2)] aok cok
    unfolding world_ok_def f(1) by auto
next
  case (expire w bk r s')
  from expire(1) show ?case
  proof (cases rule: with_transaction_unit_cases)
    case (ok x)
    with expire(2) show ?thesis by (simp add: world_ok_def release_expired_attempts [OF ok(2)])
  qed (use expire(2) in simp)
next
  case (tick w t)
  then show ?case by (simp add: world_ok_def)
qed

lemma charge_run_keeps_world_ok:
  "charge_run sha w w' \<Longrightarrow> world_ok sha w \<Longrightarrow> world_ok sha w'"
  by (induction rule: rtranclp_induct) (auto intro: charge_step_keeps_world_ok)

lemma world_ok_initial: "attempts (w_store w) = [] \<Longrightarrow> w_calls w = [] \<Longrightarrow> world_ok sha w"
  by (simp add: world_ok_def attempts_ok_def calls_ok_def)

subsection \<open>What follows\<close>

lemma single_open_attempt:
  assumes "world_ok sha w" "a \<in> set (attempts (w_store w))" "b \<in> set (attempts (w_store w))"
    "open_attempt a" "open_attempt b" "pa_booking a = pa_booking b"
  shows "a = b"
proof -
  from assms(1) have ok: "attempts_ok sha (attempts (w_store w))" unfolding world_ok_def by blast
  have "latest_attempt (pa_booking a) (w_store w) = Some a" "latest_attempt (pa_booking a) (w_store w) = Some b"
    using latest_open [OF ok assms(2,4)] latest_open [OF ok assms(3,5), folded assms(6)] .
  then show ?thesis by simp
qed

lemma matching_open:
  assumes "world_ok sha w" "a \<in> set (attempts (w_store w))" "outcome_matches i tok a"
  shows "open_attempt a"
proof -
  from assms(1) have ok: "attempts_ok sha (attempts (w_store w))" unfolding world_ok_def by blast
  from assms(3) have "pa_token a \<noteq> None" "pa_status a \<noteq> At_succeeded" by (simp_all add: outcome_matches_def)
  with attempts_okD(3) [OF ok assms(2)] show ?thesis by blast
qed

lemma live_calls_exclusive:
  assumes ok: "world_ok sha w" and c: "(bk, o1) \<in> set (w_calls w)" "(bk', o2) \<in> set (w_calls w)"
    and a: "a \<in> set (attempts (w_store w))" "outcome_matches (co_attempt o1) (co_token o1) a"
      "outcome_matches (co_attempt o2) (co_token o2) a"
  shows "(bk, o1) = (bk', o2)"
proof -
  from ok have "distinct (map (\<lambda>c. co_token (snd c)) (w_calls w))"
    unfolding world_ok_def calls_ok_def by blast
  then have inj: "inj_on (\<lambda>c. co_token (snd c)) (set (w_calls w))" by (simp add: distinct_map)
  from a(2,3) have "co_token o1 = co_token o2" by (simp add: outcome_matches_def)
  with inj_onD [OF inj _ c] show ?thesis by simp
qed

lemma same_key_same_attempt:
  assumes ok: "world_ok sha w" and sha: "inj sha"
    and c: "(bk, o1) \<in> set (w_calls w)" "(bk', o2) \<in> set (w_calls w)" "co_key o1 = co_key o2"
  shows "bk = bk' \<and> co_attempt o1 = co_attempt o2"
proof -
  from ok have aok: "attempts_ok sha (attempts (w_store w))"
    and cok: "calls_ok (attempts (w_store w)) (w_calls w)" unfolding world_ok_def by blast+
  from calls_okD(1) [OF cok c(1)] obtain a where a: "a \<in> set (attempts (w_store w))"
    "pa_id a = co_attempt o1" "pa_booking a = bk" "pa_key a = co_key o1" by blast
  from calls_okD(1) [OF cok c(2)] obtain b where b: "b \<in> set (attempts (w_store w))"
    "pa_id b = co_attempt o2" "pa_booking b = bk'" "pa_key b = co_key o2" by blast
  have "attempt_key sha (pa_booking a) (nat (pa_number a)) = attempt_key sha (pa_booking b) (nat (pa_number b))"
    using attempts_okD(2) [OF aok a(1)] attempts_okD(2) [OF aok b(1)] a(4) b(4) c(3) by simp
  then have eq: "pa_booking a = pa_booking b" "nat (pa_number a) = nat (pa_number b)"
    by (simp_all add: attempt_key_inj [OF sha])
  with attempts_okD(1) [OF aok a(1)] attempts_okD(1) [OF aok b(1)] have "pa_number a = pa_number b" by simp
  with attempts_okD(5) [OF aok a(1) b(1) eq(1)] have "pa_id a = pa_id b" by blast
  with a(2,3) b(2,3) eq(1) show ?thesis by metis
qed

text \<open>While the open attempt is leased, nobody else is told to charge.\<close>

lemma leased_refuses:
  assumes ok: "world_ok sha w" and a: "a \<in> set (attempts (w_store w))" "open_attempt a" "lease_active a now"
    and d: "decide_charge sha now token new_id (pa_booking a) amount currency (w_store w) = Inr (d, t)"
  shows "t = w_store w \<and> (\<forall>ord. d \<noteq> Charge ord)"
proof -
  from ok have aok: "attempts_ok sha (attempts (w_store w))" unfolding world_ok_def by blast
  note l = latest_open [OF aok a(1,2)]
  from d show ?thesis by (cases rule: decide_charge_cases) (use l a in auto)
qed

lemma stale_settle_no_effect:
  assumes "\<And>a. a \<in> set (attempts s) \<Longrightarrow> \<not> outcome_matches (co_attempt ord) (co_token ord) a"
  shows "snd (settle_charge now bk ord resp s) = s"
    "\<not> ar_attempted (fst (settle_charge now bk ord resp s))"
proof -
  have "row_count (outcome_matches (co_attempt ord) (co_token ord)) (attempts s) = 0"
    using assms by (simp add: row_count_zero_iff)
  then have "record_charge_outcome now bk (co_attempt ord) (co_token ord) c info s = Inr (False, s)" for c info
    by (simp add: record_charge_outcome_def)
  then show "snd (settle_charge now bk ord resp s) = s"
    "\<not> ar_attempted (fst (settle_charge now bk ord resp s))"
    by (simp_all add: settle_charge_def with_transaction_def split: prod.split)
qed

subsection \<open>Success is final\<close>

definition keeps_success :: "attempt list \<Rightarrow> attempt list \<Rightarrow> bool" where
  "keeps_success as as' \<longleftrightarrow> (\<forall>a \<in> set as. pa_status a = At_succeeded \<longrightarrow>
     (\<exists>a' \<in> set as'. pa_id a' = pa_id a \<and> pa_booking a' = pa_booking a \<and> pa_status a' = At_succeeded))"

lemma keeps_success_refl [simp]: "keeps_success as as"
  unfolding keeps_success_def by blast

lemma keeps_success_trans: "keeps_success as bs \<Longrightarrow> keeps_success bs cs \<Longrightarrow> keeps_success as cs"
  unfolding keeps_success_def by metis

lemma keeps_success_map:
  assumes "\<And>a. pa_status a = At_succeeded \<Longrightarrow>
    pa_id (f a) = pa_id a \<and> pa_booking (f a) = pa_booking a \<and> pa_status (f a) = At_succeeded"
  shows "keeps_success as (map f as)"
  unfolding keeps_success_def using assms by (metis imageI list.set_map)

lemma keeps_success_decide:
  assumes "decide_charge sha now token new_id bk amount currency s = Inr (d, t)"
  shows "keeps_success (attempts s) (attempts t)"
  using assms
proof (cases rule: decide_charge_cases)
  case (claim b a)
  show ?thesis unfolding claim(8) claim_attempts by (rule keeps_success_map) simp
next
  case (reserve b)
  show ?thesis unfolding reserve(7) keeps_success_def by auto
qed simp

lemma charge_step_keeps_success:
  "charge_step sha w w' \<Longrightarrow> keeps_success (attempts (w_store w)) (attempts (w_store w'))"
proof (induction rule: charge_step.induct)
  case (decide token w new_id bk amount currency res s')
  from decide(2) show ?case
    by (cases rule: with_transaction_unit_cases) (simp_all add: keeps_success_decide)
next
  case (settle bk ord w resp)
  from settle_charge_store [of "w_now w" bk ord "w_store w" resp] obtain r c info where
    r: "record_charge_outcome (w_now w) bk (co_attempt ord) (co_token ord) c info (w_store w) =
      Inr (r, snd (settle_charge (w_now w) bk ord resp (w_store w)))" by blast
  have "keeps_success (attempts (w_store w)) (map (\<lambda>a. if outcome_matches (co_attempt ord) (co_token ord) a
      then apply_outcome c info a else a) (attempts (w_store w)))"
    by (rule keeps_success_map) (simp add: outcome_matches_def)
  then show ?case by (simp add: record_outcome_attempts [OF r])
next
  case (webhook w new_id bk aid intent)
  obtain f where f: "attempts (mark_attempt_succeeded aid intent (w_store w)) = map f (attempts (w_store w))"
    "\<And>a. quiet f a" "\<And>a. pa_status a = At_succeeded \<Longrightarrow> pa_status (f a) = At_succeeded"
    using mark_attempt_attempts by blast
  have "keeps_success (attempts (w_store w)) (map f (attempts (w_store w)))"
    by (rule keeps_success_map) (use quietD(1,2) [OF f(2)] f(3) in simp)
  with new_flow_attempts [of sha "w_now w" new_id bk aid intent "w_store w"] show ?case
    unfolding f(1) by auto
next
  case (expire w bk r s')
  from expire(1) show ?case
    by (cases rule: with_transaction_unit_cases) (simp_all add: release_expired_attempts)
qed simp_all

lemma charge_run_keeps_success:
  "charge_run sha w w' \<Longrightarrow> keeps_success (attempts (w_store w)) (attempts (w_store w'))"
  by (induction rule: rtranclp_induct) (auto intro: keeps_success_trans charge_step_keeps_success)

lemma never_charged_again:
  assumes "charge_run sha w w'" "has_succeeded_attempt bk (w_store w)"
  shows "decide_charge sha now token new_id bk amount currency (w_store w') = Inr (Already_succeeded, w_store w')"
proof -
  from assms(2) obtain a where "a \<in> set (attempts (w_store w))" "pa_booking a = bk" "pa_status a = At_succeeded"
    by (auto simp: has_succeeded_attempt_def)
  with charge_run_keeps_success [OF assms(1)] have "has_succeeded_attempt bk (w_store w')"
    unfolding keeps_success_def has_succeeded_attempt_def row_exists_iff by metis
  then show ?thesis by (simp add: decide_charge_def)
qed

subsection \<open>The grace deadline is fixed\<close>

definition grace_safe :: "(booking \<Rightarrow> booking) \<Rightarrow> bool" where
  "grace_safe g \<longleftrightarrow> (\<forall>b. b_id (g b) = b_id b \<and>
     (b_grace b \<noteq> None \<longrightarrow> b_grace (g b) = b_grace b \<and> b_hold (g b) = b_hold b))"

definition keeps_grace :: "booking list \<Rightarrow> booking list \<Rightarrow> bool" where
  "keeps_grace bs bs' \<longleftrightarrow> (\<forall>b \<in> set bs. b_grace b \<noteq> None \<longrightarrow>
     (\<exists>b' \<in> set bs'. b_id b' = b_id b \<and> b_grace b' = b_grace b \<and> b_hold b' = b_hold b))"

lemma keeps_grace_refl [simp]: "keeps_grace bs bs"
  unfolding keeps_grace_def by blast

lemma keeps_grace_trans: "keeps_grace as bs \<Longrightarrow> keeps_grace bs cs \<Longrightarrow> keeps_grace as cs"
  unfolding keeps_grace_def by metis

lemma keeps_grace_update:
  assumes "grace_safe g"
  shows "keeps_grace bs (update_where P g bs)"
  unfolding keeps_grace_def
proof (intro ballI impI)
  fix b assume b: "b \<in> set bs" "b_grace b \<noteq> None"
  show "\<exists>b' \<in> set (update_where P g bs). b_id b' = b_id b \<and> b_grace b' = b_grace b \<and> b_hold b' = b_hold b"
  proof (cases "P b")
    case True
    have "b_id (g b) = b_id b \<and> b_grace (g b) = b_grace b \<and> b_hold (g b) = b_hold b"
      using assms b(2) unfolding grace_safe_def by blast
    then show ?thesis by (rule bexI) (rule in_update_where_hit, fact b(1), fact True)
  next
    case False
    show ?thesis by (rule bexI [of _ b]) (simp, rule in_update_where_miss, fact b(1), fact False)
  qed
qed

lemma grace_safe_updates:
  "grace_safe (start_grace now)" "grace_safe (schedule_retry now)"
  "grace_safe (\<lambda>b. b\<lparr>b_status := st\<rparr>)"
  unfolding grace_safe_def start_grace_def schedule_retry_def coalesce_def
  by (simp_all split: option.split)

lemma record_outcome_grace:
  assumes "record_charge_outcome now bk i tok c info s = Inr (r, t)"
  shows "keeps_grace (bookings s) (bookings t)"
proof (cases "row_count (outcome_matches i tok) (attempts s) = 0")
  case True
  with assms show ?thesis by (simp add: record_charge_outcome_def)
next
  case False
  note upd = keeps_grace_update [OF grace_safe_updates(1)] keeps_grace_update [OF grace_safe_updates(2)]
  from False assms show ?thesis
    by (cases c) (auto simp: record_charge_outcome_def Let_def upd keeps_grace_trans [OF upd])
qed

lemma charge_step_keeps_grace:
  "charge_step sha w w' \<Longrightarrow> keeps_grace (bookings (w_store w)) (bookings (w_store w'))"
proof (induction rule: charge_step.induct)
  case (decide token w new_id bk amount currency res s')
  from decide(2) show ?case
  proof (cases rule: with_transaction_unit_cases)
    case (ok d)
    from ok(2) show ?thesis by (cases rule: decide_charge_cases) (simp_all add: claim_attempt_def)
  qed simp
next
  case (settle bk ord w resp)
  from settle_charge_store [of "w_now w" bk ord "w_store w" resp] obtain r c info where
    r: "record_charge_outcome (w_now w) bk (co_attempt ord) (co_token ord) c info (w_store w) =
      Inr (r, snd (settle_charge (w_now w) bk ord resp (w_store w)))" by blast
  from record_outcome_grace [OF r] show ?case by simp
next
  case (webhook w new_id bk aid intent)
  have "bookings (on_new_flow_payment_succeeded sha (w_now w) new_id bk aid intent (w_store w)) = bookings (w_store w) \<or>
    bookings (on_new_flow_payment_succeeded sha (w_now w) new_id bk aid intent (w_store w)) =
      update_where (pending_status bk) (\<lambda>b. b\<lparr>b_status := Confirmed\<rparr>) (bookings (w_store w))"
    by (cases rule: on_new_flow_cases [of sha "w_now w" new_id bk aid intent "w_store w"])
      (simp_all add: confirm_pending_def)
  then show ?case using keeps_grace_update [OF grace_safe_updates(3)] by auto
next
  case (expire w bk r s')
  from expire(1) show ?case
  proof (cases rule: with_transaction_unit_cases)
    case (ok x)
    then have "bookings s' = bookings (w_store w) \<or>
        bookings s' = update_where (\<lambda>b. b_id b = bk) (\<lambda>b. b\<lparr>b_status := Cancelled\<rparr>) (bookings (w_store w))"
      by (auto simp: release_expired_hold_def release_nights_def Let_def split: option.splits if_splits)
    then show ?thesis using keeps_grace_update [OF grace_safe_updates(3)] by auto
  qed simp
qed simp_all

lemma charge_run_keeps_grace:
  "charge_run sha w w' \<Longrightarrow> keeps_grace (bookings (w_store w)) (bookings (w_store w'))"
  by (induction rule: rtranclp_induct) (auto intro: keeps_grace_trans charge_step_keeps_grace)

end
