(* ===== verification/Stays.thy ===== *)
theory Stays
  imports Booking_Safety
begin

text \<open>
  The end of a stay (the first statement of completeStaysAndRequestReviews in
  lib/notifications/scheduledNotifications.ts): confirmed bookings whose check-out has come are completed.
\<close>

definition stay_over :: "millis \<Rightarrow> booking \<Rightarrow> bool" where
  "stay_over now b \<longleftrightarrow> b_status b = Confirmed \<and> b_check_out b \<le> day_of_ms now"

definition complete_stays :: "millis \<Rightarrow> store \<Rightarrow> booking list \<times> store" where
  "complete_stays now s =
     (map (\<lambda>b. b\<lparr>b_status := Completed\<rparr>) (select_where (stay_over now) (bookings s)),
      s\<lparr>bookings := update_where (stay_over now) (\<lambda>b. b\<lparr>b_status := Completed\<rparr>) (bookings s)\<rparr>)"

lemma shrinks_completed: "shrinks (\<lambda>b. b\<lparr>b_status := Completed\<rparr>)"
  by (simp add: shrinks_def active_def)

lemma complete_keeps_bookings_ok: "bookings_ok s \<Longrightarrow> bookings_ok (snd (complete_stays now s))"
  by (rule bookings_ok_update [where P = "stay_over now" and f = "\<lambda>b. b\<lparr>b_status := Completed\<rparr>"])
    (simp_all add: complete_stays_def shrinks_completed)

end
