(* ===== verification/System.thy ===== *)
theory System
  imports Ledger Charge_Protocol Stays
begin

text \<open>
  The operations on bookings, calendars and payments taken together, as one family of transactions
  on the store: every operation of the two payment flows and of the calendar that reads or writes
  bookings or availability, except the refund event, whose effect on bookings is stated apart (see
  \<open>partial_refund_double_booking\<close> in \<open>Ledger\<close>). The family satisfies the interface
  \<open>guarded_steps\<close> with the invariant \<open>bookings_ok\<close>, so no run of it sells a night twice.
\<close>

datatype sys_op =
  Op_create bool millis uuid booking_input
| Op_release millis uuid
| Op_cancel millis uuid actor
| Op_discard millis uuid uuid
| Op_archive millis uuid uuid
| Op_availability millis uuid day day avail_action
| Op_reconcile millis uuid
| Op_paid millis uuid string uuid
| Op_payment_failed string "string option" "string option"
| Op_refund_failed string
| Op_dispute dispute_event
| Op_decide millis uuid uuid uuid minor string
| Op_outcome millis uuid uuid uuid charge_status outcome_info
| Op_new_flow_paid millis uuid uuid "uuid option" string
| Op_save_method uuid string
| Op_clear_hold uuid
| Op_release_payouts millis
| Op_complete_stays millis

definition committed :: "('e + 'a) \<times> store \<Rightarrow> unit + unit \<times> store" where
  "committed r = (case r of (Inl e, t) \<Rightarrow> Inl () | (Inr x, t) \<Rightarrow> Inr ((), t))"

fun sys_body :: "(string \<Rightarrow> string) \<Rightarrow> sys_op \<Rightarrow> (store, unit, unit) tx" where
  "sys_body sha (Op_create delayed now i inp) s = committed (create_booking delayed now i inp s)"
| "sys_body sha (Op_release now bk) s = committed (with_transaction (release_expired_hold now bk) s)"
| "sys_body sha (Op_cancel now bk who) s = committed (cancel_booking now bk who s)"
| "sys_body sha (Op_discard now bk guest) s =
     committed (with_transaction (discard_unpaid_booking_tx now bk guest) s)"
| "sys_body sha (Op_archive now bk guest) s = committed (with_transaction (archive_booking now bk guest) s)"
| "sys_body sha (Op_availability now p ci co act) s =
     committed (with_transaction (mutate_availability now p ci co act) s)"
| "sys_body sha (Op_reconcile now p) s = Inr ((), snd (reconcile now p s))"
| "sys_body sha (Op_paid now pid intent bk) s =
     committed (with_transaction (on_payment_succeeded now pid intent bk) s)"
| "sys_body sha (Op_payment_failed intent c m) s = Inr ((), on_payment_failed intent c m s)"
| "sys_body sha (Op_refund_failed i) s = Inr ((), on_refund_failed i s)"
| "sys_body sha (Op_dispute ev) s = Inr ((), on_dispute_created ev s)"
| "sys_body sha (Op_decide now token i bk amount currency) s =
     committed (with_transaction (decide_charge sha now token i bk amount currency) s)"
| "sys_body sha (Op_outcome now bk aid token c info) s =
     committed (with_transaction (record_charge_outcome now bk aid token c info) s)"
| "sys_body sha (Op_new_flow_paid now i bk aid intent) s =
     Inr ((), on_new_flow_payment_succeeded sha now i bk aid intent s)"
| "sys_body sha (Op_save_method bk pm) s = committed (with_transaction (save_payment_method bk pm) s)"
| "sys_body sha (Op_clear_hold bk) s = Inr ((), clear_hold bk s)"
| "sys_body sha (Op_release_payouts now) s = Inr ((), snd (release_due_payouts now s))"
| "sys_body sha (Op_complete_stays now) s = Inr ((), snd (complete_stays now s))"

lemma committed_Inr: "committed r = Inr (u, t) \<longleftrightarrow> (\<exists>x. r = (Inr x, t))"
  by (cases r; cases "fst r") (auto simp: committed_def)

subsection \<open>The remaining operations keep the invariant\<close>

lemma shrinks_charge:
  "shrinks (start_grace now)" "shrinks (schedule_retry now)" "shrinks (\<lambda>b. b\<lparr>b_hold := h\<rparr>)"
  unfolding shrinks_def active_def start_grace_def schedule_retry_def by simp_all

lemma shrinks_method:
  "shrinks (with_method pm)"
  unfolding shrinks_def active_def with_method_def by simp

lemma outcome_keeps_bookings_ok:
  assumes ok: "bookings_ok s" and r: "record_charge_outcome now bk aid token c info s = Inr (r, t)"
  shows "bookings_ok t"
proof -
  let ?s1 = "s\<lparr>attempts := update_where (outcome_matches aid token) (apply_outcome c info) (attempts s)\<rparr>"
  let ?s2 = "?s1\<lparr>bookings := update_where (pending_status bk) (start_grace now) (bookings s)\<rparr>"
  let ?s3 = "?s2\<lparr>bookings := update_where (pending_status bk) (schedule_retry now)
      (update_where (pending_status bk) (start_grace now) (bookings s))\<rparr>"
  have s1: "bookings_ok ?s1" using ok by (rule bookings_ok_frame) simp_all
  have s2: "bookings_ok ?s2"
    by (rule bookings_ok_update [OF s1, where P = "pending_status bk" and f = "start_grace now"])
      (simp_all add: shrinks_charge)
  have s3: "bookings_ok ?s3"
    by (rule bookings_ok_update [OF s2, where P = "pending_status bk" and f = "schedule_retry now"])
      (simp_all add: shrinks_charge)
  from r ok s1 s2 s3 show ?thesis
    by (cases c) (auto simp: record_charge_outcome_def Let_def split: if_splits)
qed

lemma confirm_pending_keeps_bookings_ok:
  assumes "bookings_ok s"
  shows "bookings_ok (confirm_pending bk (mark_attempt_succeeded aid intent s))"
  by (rule bookings_ok_confirm [OF assms, where P = "pending_status bk" and st = Confirmed])
    (simp_all add: confirm_pending_def, simp add: pending_status_def active_def)

lemma new_flow_keeps_bookings_ok:
  assumes "bookings_ok s"
  shows "bookings_ok (on_new_flow_payment_succeeded sha now i bk aid intent s)"
proof (cases rule: on_new_flow_cases [of sha now i bk aid intent s])
  case ignored
  with assms show ?thesis by simp
next
  case (confirmed b)
  with confirm_pending_keeps_bookings_ok [OF assms] show ?thesis by simp
next
  case (entitled b pc)
  show ?thesis
    unfolding entitled(4)
    by (rule bookings_ok_frame [OF confirm_pending_keeps_bookings_ok [OF assms]]) simp_all
qed

lemma save_method_keeps_bookings_ok:
  assumes "bookings_ok s" "save_payment_method bk pm s = Inr (r, t)"
  shows "bookings_ok t"
proof (cases "find_booking bk s")
  case None
  with assms(2) show ?thesis by (simp add: save_payment_method_def)
next
  case (Some b)
  from assms(2) have t: "t = set_booking bk (with_method pm) s"
    unfolding save_payment_method_def Some option.case sum.inject prod.inject by (elim conjE) (rule sym)
  show ?thesis
    unfolding t by (rule bookings_ok_update [OF assms(1) _ _ shrinks_method]) (simp_all only: set_booking_frame)
qed

lemma clear_hold_keeps_bookings_ok: "bookings_ok s \<Longrightarrow> bookings_ok (clear_hold bk s)"
  by (rule bookings_ok_update [where P = "pending_status bk" and f = "\<lambda>b. b\<lparr>b_hold := None\<rparr>"])
    (simp_all add: clear_hold_def shrinks_charge)

lemma fold_release_frame:
  "bookings (fold (release_payout now) rows s) = bookings s" "avail (fold (release_payout now) rows s) = avail s"
  by (induction rows arbitrary: s) (simp_all add: release_payout_def)

lemma decide_frame:
  assumes "decide_charge sha now token i bk amount currency s = Inr (d, t)"
  shows "bookings t = bookings s \<and> avail t = avail s"
  using assms by (cases rule: decide_charge_cases) (simp_all add: claim_attempt_def)

lemma sys_body_keeps:
  assumes ok: "bookings_ok s" and op: "sys_body sha op s = Inr (x, t)"
  shows "bookings_ok t"
proof (cases op)
  case (Op_create delayed now i inp)
  with op show ?thesis by (auto simp: committed_Inr intro: create_keeps_bookings_ok [OF ok])
next
  case (Op_release now bk)
  with op show ?thesis
    by (auto simp: committed_Inr with_transaction_ok intro: release_keeps_bookings_ok [OF ok])
next
  case (Op_cancel now bk who)
  with op show ?thesis
    by (auto simp: committed_Inr cancel_booking_def with_transaction_ok intro: cancel_keeps_bookings_ok [OF ok])
next
  case (Op_discard now bk guest)
  with op show ?thesis
    by (auto simp: committed_Inr with_transaction_ok intro: discard_keeps_bookings_ok [OF ok])
next
  case (Op_archive now bk guest)
  with op show ?thesis
    by (auto simp: committed_Inr with_transaction_ok intro: archive_keeps_bookings_ok [OF ok])
next
  case (Op_availability now p ci co act)
  with op show ?thesis
    by (auto simp: committed_Inr with_transaction_ok intro: host_block_keeps_bookings_ok [OF ok])
next
  case (Op_reconcile now p)
  with op reconcile_keeps_bookings_ok [OF ok] show ?thesis by auto
next
  case (Op_paid now pid intent bk)
  with op show ?thesis
    by (auto simp: committed_Inr with_transaction_ok intro: payment_keeps_bookings_ok [OF ok])
next
  case (Op_payment_failed intent c m)
  with op show ?thesis by (auto simp: on_payment_failed_def intro: bookings_ok_frame [OF ok])
next
  case (Op_refund_failed i)
  with op show ?thesis by (auto simp: on_refund_failed_def intro: bookings_ok_frame [OF ok])
next
  case (Op_dispute ev)
  with op dispute_keeps_bookings_ok [OF ok] show ?thesis by auto
next
  case (Op_decide now token i bk amount currency)
  with op obtain d where "decide_charge sha now token i bk amount currency s = Inr (d, t)"
    by (auto simp: committed_Inr with_transaction_ok)
  from decide_frame [OF this] show ?thesis by (auto intro: bookings_ok_frame [OF ok])
next
  case (Op_outcome now bk aid token c info)
  with op show ?thesis
    by (auto simp: committed_Inr with_transaction_ok intro: outcome_keeps_bookings_ok [OF ok])
next
  case (Op_new_flow_paid now i bk aid intent)
  with op new_flow_keeps_bookings_ok [OF ok] show ?thesis by auto
next
  case (Op_save_method bk pm)
  with op show ?thesis
    by (auto simp: committed_Inr with_transaction_ok intro: save_method_keeps_bookings_ok [OF ok])
next
  case (Op_clear_hold bk)
  with op clear_hold_keeps_bookings_ok [OF ok] show ?thesis by auto
next
  case (Op_release_payouts now)
  with op show ?thesis
    by (auto simp: release_due_payouts_def Let_def fold_release_frame intro: bookings_ok_frame [OF ok])
next
  case (Op_complete_stays now)
  with op complete_keeps_bookings_ok [OF ok] show ?thesis by auto
qed

interpretation sys: guarded_steps "sys_body sha" bookings_ok for sha
  by unfold_locales (rule sys_body_keeps)

text \<open>The state after a sequence of operations, failed ones included.\<close>

definition sys_run :: "(string \<Rightarrow> string) \<Rightarrow> sys_op list \<Rightarrow> store \<Rightarrow> store" where
  "sys_run sha ops s = fold (\<lambda>op s. snd (with_transaction (sys_body sha op) s)) ops s"

lemma sys_run_keeps: "bookings_ok s \<Longrightarrow> bookings_ok (sys_run sha ops s)"
  using sys.run_keeps [of s sha ops] unfolding sys_run_def sys.exec_def by simp

end
