(* ===== verification/Scenario.thy ===== *)
theory Scenario
  imports System
begin

text \<open>
  Concrete rows on which the properties are exercised: one published property of one host, the
  launch fee configuration, a guest's booking at several points of its life, and its payment.
\<close>

definition demo_property :: property_row where
  "demo_property =
     \<lparr>p_id = ''villa'', p_name = ''Villa'', p_host = ''host'', p_status = Prop_published, p_compliance = Comp_approved,
      p_currency = ''GBP'', p_nightly = Some 10000, p_cleaning = 5000, p_acc_vat = Some (1 / 5),
      p_clean_vat = Some (1 / 5), p_max_guests = 4, p_min_stay = 1, p_max_stay = 30, p_policy = None\<rparr>"

definition demo_fees :: fee_config_row where
  "demo_fees =
     \<lparr>fc_version = launch_version, fc_guest_rate = 0, fc_host_rate = 3 / 20, fc_tax_rate = 0,
      fc_active = True, fc_from = 0\<rparr>"

definition demo_host :: host_row where
  "demo_host = \<lparr>h_id = ''host'', h_user = ''u1'', h_account = Some ''acct_1'', h_payout_status = Account_active\<rparr>"

definition open_store :: store where
  "open_store = empty_store\<lparr>properties := [demo_property], fee_configs := [demo_fees], hosts := [demo_host]\<rparr>"

definition demo_input :: "string \<Rightarrow> day \<Rightarrow> day \<Rightarrow> booking_input" where
  "demo_input key a b =
     \<lparr>bi_property = ''villa'', bi_guest = ''guest'', bi_check_in = a, bi_check_out = b, bi_guests = 2,
      bi_guest_name = ''A'', bi_guest_email = ''a@b.c'', bi_guest_phone = None, bi_key = key\<rparr>"

definition demo_booking :: "uuid \<Rightarrow> booking_status \<Rightarrow> booking" where
  "demo_booking i st =
     (new_booking False 0 i (demo_input i 20 22) demo_property default_rules)\<lparr>b_status := st\<rparr>"

definition demo_price :: "uuid \<Rightarrow> price_row" where
  "demo_price i =
     \<lparr>pc_booking = i, pc_currency = ''GBP'', pc_accommodation = 20000, pc_cleaning = 5000,
      pc_service_fee = 0, pc_taxes = 5000, pc_total = 30000, pc_commission = 3000, pc_payout = 27000,
      pc_revenue = 3000, pc_fee_version = launch_version\<rparr>"

definition demo_payment :: "payment_status \<Rightarrow> payment" where
  "demo_payment st =
     \<lparr>pay_id = ''pay1'', pay_booking = ''b1'', pay_intent = Some ''pi_1'', pay_status = st,
      pay_amount = 30000, pay_currency = ''GBP'', pay_failure_code = None, pay_failure_message = None\<rparr>"

definition demo_nights :: calendar where
  "demo_nights = (\<lambda>d. if 20 \<le> d \<and> d < 22 then Some booked_row else None)"

text \<open>The property with the guest's booking in a given status, its nights booked, its price and payment.\<close>

definition booked_with :: "booking_status \<Rightarrow> payment_status \<Rightarrow> store" where
  "booked_with st pst =
     open_store\<lparr>avail := (avail open_store)(''villa'' := demo_nights),
       bookings := [demo_booking ''b1'' st], prices := [demo_price ''b1''],
       payments := [demo_payment pst]\<rparr>"

definition demo_payout :: payout where
  "demo_payout =
     \<lparr>po_id = ''po1'', po_host = ''host'', po_booking = ''b1'', po_amount = 27000, po_currency = ''GBP'',
      po_status = Scheduled, po_release = 2000000000, po_released = None\<rparr>"

definition demo_refund :: "minor \<Rightarrow> refund_row" where
  "demo_refund amount =
     \<lparr>rf_id = ''rf1'', rf_booking = ''b1'', rf_payment = ''pay1'', rf_provider = Some ''re_1'',
      rf_amount = amount, rf_currency = ''GBP'', rf_reason = Guest_cancellation, rf_by = By_guest,
      rf_status = Refund_pending\<rparr>"

definition demo_refund_event :: "minor \<Rightarrow> refund_event" where
  "demo_refund_event amount =
     \<lparr>re_id = ''re_1'', re_status = ''succeeded'', re_intent = Some ''pi_1'', re_amount = amount\<rparr>"

text \<open>A paid booking in a given status with its payout and one requested refund.\<close>

definition refundable :: "booking_status \<Rightarrow> minor \<Rightarrow> store" where
  "refundable st amount =
     (booked_with st Paid)\<lparr>payouts := [demo_payout], refunds := [demo_refund amount]\<rparr>"

text \<open>The same after the guest cancelled and a second guest booked the released nights.\<close>

definition rebooked :: "minor \<Rightarrow> store" where
  "rebooked amount =
     (refundable Cancelled amount)\<lparr>bookings := [demo_booking ''b1'' Cancelled, demo_booking ''b2'' Confirmed]\<rparr>"

lemmas scenario_defs =
  demo_property_def demo_fees_def demo_host_def open_store_def demo_input_def demo_booking_def
  demo_price_def demo_payment_def demo_nights_def booked_with_def demo_payout_def demo_refund_def
  demo_refund_event_def refundable_def rebooked_def empty_store_def

text \<open>The outcome of a handler that returned a true flag, and the store it left.\<close>

definition took_effect :: "'e + bool \<times> store \<Rightarrow> bool" where
  "took_effect r = (case r of Inr (True, _) \<Rightarrow> True | _ \<Rightarrow> False)"

definition left_store :: "'e + 'a \<times> store \<Rightarrow> store" where
  "left_store r = (case r of Inr (_, t) \<Rightarrow> t | Inl _ \<Rightarrow> empty_store)"

lemma took_effect_eq: "took_effect r \<Longrightarrow> r = Inr (True, left_store r)"
  by (auto simp: took_effect_def left_store_def split: sum.splits prod.splits bool.splits)

text \<open>The results of a creation and of a transaction that committed.\<close>

definition created_row :: "('e + booking \<times> breakdown option) \<times> store \<Rightarrow> bool" where
  "created_row r = (case r of (Inr (b, Some bd), _) \<Rightarrow> True | _ \<Rightarrow> False)"

definition new_row :: "('e + booking \<times> breakdown option) \<times> store \<Rightarrow> booking" where
  "new_row r = fst (projr (fst r))"

definition new_breakdown :: "('e + booking \<times> breakdown option) \<times> store \<Rightarrow> breakdown" where
  "new_breakdown r = the (snd (projr (fst r)))"

lemma created_row_eq: "created_row r \<Longrightarrow> r = (Inr (new_row r, Some (new_breakdown r)), snd r)"
  by (cases r) (auto simp: created_row_def new_row_def new_breakdown_def split: sum.splits prod.splits option.splits)

definition succeeded :: "'e + 'a \<times> store \<Rightarrow> bool" where
  "succeeded r = (case r of Inr _ \<Rightarrow> True | Inl _ \<Rightarrow> False)"

definition left_value :: "'e + 'a \<times> store \<Rightarrow> 'a" where
  "left_value r = fst (projr r)"

lemma succeeded_eq: "succeeded r \<Longrightarrow> r = Inr (left_value r, left_store r)"
  by (cases r) (auto simp: succeeded_def left_value_def left_store_def)

text \<open>The stay is open: creation goes through, and the refund event of a paid booking takes effect.\<close>

lemma open_store_books:
  "created_row (create_booking False 0 ''b1'' (demo_input ''k1'' 20 22) open_store)"
  by code_simp

lemma refundable_takes_effect:
  "took_effect (on_refund_event 0 (demo_refund_event 30000) (refundable Confirmed 30000))"
  "took_effect (on_refund_event 0 (demo_refund_event 15000) (refundable Confirmed 15000))"
  "took_effect (on_refund_event 0 (demo_refund_event 15000) (rebooked 15000))"
  by code_simp+

lemma booked_pays:
  "took_effect (on_payment_succeeded 0 ''po1'' ''pi_1'' ''b1'' (booked_with Pending_payment Pay_pending))"
  by code_simp

lemma booked_cancels:
  "succeeded (cancel_booking_tx 0 ''b1'' By_guest (booked_with Confirmed Paid))"
  by code_simp

lemma booked_discards:
  "succeeded (discard_unpaid_booking_tx 0 ''b1'' ''guest'' (booked_with Pending_payment Pay_pending))"
  by code_simp

end
