(* ===== verification/Booking_Properties.thy ===== *)
theory Booking_Properties
  imports Scenario Iso_Date
begin

text \<open>
  The properties of pricing, cancellation, bookings and availability, each with a concrete instance.
\<close>


definition demo_run :: store where
  "demo_run = sys_run id [Op_create False 0 ''b1'' (demo_input ''k1'' 20 22),
     Op_create False 0 ''b2'' (demo_input ''k2'' 21 23), Op_create False 0 ''b3'' (demo_input ''k3'' 22 24)]
     open_store"

lemma demo_run_rows:
  "map (\<lambda>b. (b_id b, b_property b, b_check_in b, b_check_out b, b_status b)) (bookings demo_run) =
    [(''b1'', ''villa'', 20, 22, Pending_payment), (''b3'', ''villa'', 22, 24, Pending_payment)]"
  by code_simp


text \<open>
  The invariant behind it is kept from any state that satisfies it: whatever operations run, in
  whatever order and whether they commit or fail, every active booking keeps all of its nights and
  active bookings stay disjoint.
\<close>

lemma operations_keep_nights:
  assumes "bookings_ok s"
  shows "bookings_ok (sys_run sha ops s)"
  by (rule sys_run_keeps [OF assms])

lemma operations_keep_nights_witness:
  "bookings_ok (sys_run id [Op_cancel 0 ''b1'' By_guest, Op_reconcile 0 ''villa'', Op_dispute
     \<lparr>de_id = ''d'', de_intent = Some ''pi_1'', de_reason = ''r'', de_dispute_status = ''open'',
      de_amount = 1, de_due_by = None\<rparr>] (booked_with Confirmed Paid))"
  by (rule operations_keep_nights) code_simp



text \<open>
  Creation is idempotent. Repeating a request that succeeded, at any later time, with either flow
  enabled, returns the booking it made and changes nothing.
\<close>

lemma create_booking_idempotent:
  assumes "create_booking delayed now new_id i s = (Inr (b, bd), t)"
  shows "create_booking delayed' now' new_id' i t = (Inr (b, None), t)"
proof -
  note c = create_booking_cases [OF assms]
  have "first_where (\<lambda>x. b_idem x = bi_key i) (bookings t) = Some b"
    using c(4) by (cases rule: create_booking_tx_cases) (auto simp: first_where_insert)
  then have "create_booking_tx delayed' now' new_id' i (nights_between (bi_check_in i) (bi_check_out i)) t =
      Inr ((b, None), t)"
    by (simp add: create_booking_tx_def)
  with c(1-3) show ?thesis by (simp add: create_booking_def with_transaction_ok)
qed

lemma create_booking_idempotent_witness:
  "create_booking True 99 ''b9'' (demo_input ''k1'' 20 22)
     (snd (create_booking False 0 ''b1'' (demo_input ''k1'' 20 22) open_store)) =
   (Inr (new_row (create_booking False 0 ''b1'' (demo_input ''k1'' 20 22) open_store), None),
    snd (create_booking False 0 ''b1'' (demo_input ''k1'' 20 22) open_store))"
  by (rule create_booking_idempotent [OF created_row_eq [OF open_store_books]])

text \<open>
  Creation goes through whenever it should: for a published, approved property with current
  evidence, a party and a stay within its limits, free nights, a new key, an active fee
  configuration and, under the launch fees, both VAT rates, it returns a new booking.
\<close>

lemma create_booking_succeeds:
  assumes "0 < nights_between (bi_check_in i) (bi_check_out i)" "of_int \<lfloor>bi_guests i\<rfloor> = bi_guests i"
    "1 \<le> bi_guests i" "\<forall>b \<in> set (bookings s). b_idem b \<noteq> bi_key i \<and> b_id b \<noteq> new_id"
    "find_property (bi_property i) s = Some p"
    "stay_guard (day_of_ms now) s p (bi_guests i) (nights_between (bi_check_in i) (bi_check_out i)) = None"
    "\<forall>d. bi_check_in i \<le> d \<and> d < bi_check_out i \<longrightarrow> night_free (avail s (bi_property i)) d"
    "get_active_fee_config (fee_configs s) = Inr fees"
    "fee_version fees = launch_version \<longrightarrow> p_acc_vat p \<noteq> None \<and> p_clean_vat p \<noteq> None"
  shows "\<exists>b bd t. create_booking delayed now new_id i s = (Inr (b, Some bd), t)"
proof -
  have "\<exists>bd. calculate_price (pricing_of_row p) (nights_between (bi_check_in i) (bi_check_out i)) fees = Inr bd"
    using assms(1,9) by (simp add: calculate_price_def Let_def pricing_of_row_def)
  then obtain bd where "price_stay (booked_store i s) p (nights_between (bi_check_in i) (bi_check_out i)) = Inr bd"
    using assms(8) by (auto simp: price_stay_def)
  moreover have "first_where (\<lambda>b. b_idem b = bi_key i) (bookings s) = None"
    using assms(4) by (simp add: first_where_None)
  moreover have "\<not> nights_taken (avail s (bi_property i)) (bi_check_in i) (bi_check_out i)"
    using assms(7) by (auto simp: nights_taken_iff)
  ultimately have "\<exists>b t. create_booking_tx delayed now new_id i (nights_between (bi_check_in i) (bi_check_out i)) s =
      Inr ((b, Some bd), t)"
    using assms(4-6) unfolding create_booking_tx_def Let_def booked_store_def [symmetric] by auto
  with assms(1-3) show ?thesis by (auto simp: create_booking_def with_transaction_ok)
qed

lemma create_booking_succeeds_instance:
  "\<exists>b bd t. create_booking False 0 ''b1'' (demo_input ''k1'' 20 22) open_store = (Inr (b, Some bd), t)"
proof (rule create_booking_succeeds [where p = demo_property and
      fees = "\<lparr>fee_version = launch_version, guest_service_fee_rate = fl 0, host_commission_rate = fl (3 / 20),
        tax_rate = fl 0\<rparr>"])
  show "0 < nights_between (bi_check_in (demo_input ''k1'' 20 22)) (bi_check_out (demo_input ''k1'' 20 22))"
    by code_simp
  show "of_int \<lfloor>bi_guests (demo_input ''k1'' 20 22)\<rfloor> = bi_guests (demo_input ''k1'' 20 22)"
    "1 \<le> bi_guests (demo_input ''k1'' 20 22)" by (simp_all add: demo_input_def)
  show "\<forall>b \<in> set (bookings open_store). b_idem b \<noteq> bi_key (demo_input ''k1'' 20 22) \<and> b_id b \<noteq> ''b1''"
    "find_property (bi_property (demo_input ''k1'' 20 22)) open_store = Some demo_property"
    "\<forall>d. bi_check_in (demo_input ''k1'' 20 22) \<le> d \<and> d < bi_check_out (demo_input ''k1'' 20 22) \<longrightarrow>
      night_free (avail open_store (bi_property (demo_input ''k1'' 20 22))) d"
    by (simp_all add: scenario_defs night_free_def)
  show "stay_guard (day_of_ms 0) open_store demo_property (bi_guests (demo_input ''k1'' 20 22))
      (nights_between (bi_check_in (demo_input ''k1'' 20 22)) (bi_check_out (demo_input ''k1'' 20 22))) = None"
    by code_simp
  show "get_active_fee_config (fee_configs open_store) = Inr \<lparr>fee_version = launch_version,
      guest_service_fee_rate = fl 0, host_commission_rate = fl (3 / 20), tax_rate = fl 0\<rparr>"
    by (simp add: get_active_fee_config_def latest_fee_row_def select_where_def scenario_defs)
qed (simp add: demo_property_def)

text \<open>
  C26: The price of a stay is split without a penny lost or created: for every price the engine
  returns, what the host is paid and what HOST keeps (plus, outside the launch configuration, the
  taxes it passes on) is exactly what the guest pays; with rates between 0 and 1 every component is
  non-negative and the commission is at most the accommodation price.
\<close>

theorem price_conserved:
  assumes "calculate_price p n f = Inr b" "0 \<le> pp_nightly_minor p" "0 \<le> pp_cleaning_minor p"
    "0 \<le> guest_service_fee_rate f" "0 \<le> host_commission_rate f" "host_commission_rate f \<le> 1"
    "pp_nightly_minor p * n \<le> max_safe"
  shows "bd_payout b + bd_revenue b + (if fee_version f = launch_version then 0 else bd_taxes b) = bd_total b \<and>
    bd_accommodation b = pp_nightly_minor p * n \<and>
    0 \<le> bd_accommodation b \<and> 0 \<le> bd_cleaning b \<and> 0 \<le> bd_service_fee b \<and> 0 \<le> bd_revenue b \<and>
    0 \<le> bd_commission b \<and> bd_commission b \<le> bd_accommodation b"
proof -
  note f = calculate_price_fields [OF assms(1)]
  have a: "0 \<le> pp_nightly_minor p * n" using assms(2) f(11) by simp
  have "0 \<le> bd_service_fee b" "0 \<le> bd_commission b"
    unfolding f(3,4) using a assms by (simp_all add: rate_amount_nonneg)
  moreover have "bd_commission b \<le> bd_accommodation b"
    unfolding f(1,4) using a assms(5-7) by (intro rate_amount_le)
  ultimately show ?thesis using price_total_split [OF assms(1)] f a assms(3) by simp
qed

definition demo_launch_fees :: fee_config where
  "demo_launch_fees = \<lparr>fee_version = launch_version, guest_service_fee_rate = 0,
     host_commission_rate = fl (3 / 20), tax_rate = 0\<rparr>"

theorem price_conserved_witness:
  "\<exists>b. calculate_price (pricing_of_row demo_property) 2 demo_launch_fees = Inr b \<and>
     bd_payout b + bd_revenue b = bd_total b"
proof -
  have ok: "succeeded (case calculate_price (pricing_of_row demo_property) 2 demo_launch_fees of
      Inl e \<Rightarrow> Inl e | Inr b \<Rightarrow> Inr (b, empty_store))" by code_simp
  then obtain b where b: "calculate_price (pricing_of_row demo_property) 2 demo_launch_fees = Inr b"
    by (cases "calculate_price (pricing_of_row demo_property) 2 demo_launch_fees") (auto simp: succeeded_def)
  have "0 \<le> pp_nightly_minor (pricing_of_row demo_property)" "0 \<le> pp_cleaning_minor (pricing_of_row demo_property)"
    "0 \<le> guest_service_fee_rate demo_launch_fees" "0 \<le> host_commission_rate demo_launch_fees"
    "host_commission_rate demo_launch_fees \<le> 1" "pp_nightly_minor (pricing_of_row demo_property) * 2 \<le> max_safe"
    by code_simp+
  from price_conserved [OF b this] b show ?thesis by (auto simp: demo_launch_fees_def)
qed

text \<open>
  The conversion of stored prices is exact: the double nearest to a two-decimal price, times 100
  and rounded, is the price in minor units, for every amount up to ten billion major units.
\<close>

lemma stored_price_exact:
  assumes "\<bar>c\<bar> \<le> 1000000000000"
  shows "to_minor c = c"
  by (rule to_minor_exact [OF assms])

theorem stored_price_exact_witness: "to_minor 12345 = 12345"
  by (rule stored_price_exact) simp

text \<open>
  C27: Cancellation refunds stay in range and never grow by waiting: for a policy with percentages
  between 0 and 100 the refund is between 0 and what the guest paid and the host keeps at most the
  payout; when the tiers are ordered, a cancellation at a later instant never refunds more.
\<close>

theorem cancellation_refund_bounds:
  assumes "percents_ok rules" "ordered_policy rules" "0 \<le> paid" "paid \<le> max_safe"
    "0 \<le> payout" "payout \<le> max_safe" "now \<le> later"
  shows "0 \<le> oc_refundable (calculate_cancellation rules d paid payout now) \<and>
    oc_refundable (calculate_cancellation rules d paid payout now) \<le> paid \<and>
    0 \<le> oc_retained (calculate_cancellation rules d paid payout now) \<and>
    oc_retained (calculate_cancellation rules d paid payout now) \<le> payout \<and>
    oc_refundable (calculate_cancellation rules d paid payout later) \<le>
      oc_refundable (calculate_cancellation rules d paid payout now)"
  using calculate_cancellation_bounds [OF assms(1,3,4,5,6) refl]
    calculate_cancellation_mono [OF assms(2,1,3,7)] by simp

theorem cancellation_refund_bounds_witness:
  "oc_refundable (calculate_cancellation default_rules 20 30000 27000 (day_ms 18)) \<le>
    oc_refundable (calculate_cancellation default_rules 20 30000 27000 0)"
  using cancellation_refund_bounds [of default_rules 30000 27000 0 "day_ms 18" 20]
  by (simp add: percents_ok_def mk_tier_def max_safe_def day_ms_def)

text \<open>
  The cutoff of a tier is exact to the millisecond: although the hours left are computed by a
  floating-point division, a tier of c hours applies exactly until c hours before check-in begins.
\<close>

lemma cancellation_cutoff_exact:
  assumes "0 < cutoff_hours t" "cutoff_hours t \<le> max_safe" "\<bar>day_ms d - now\<bar> < max_safe"
  shows "refund_percent_for (t # ts) (hours_until d now) =
    (if now + cutoff_hours t * ms_per_hour \<le> day_ms d then refund_percent t
     else refund_percent_for ts (hours_until d now))"
  using hours_until_ge_iff [OF assms] by simp

lemma cancellation_cutoff_exact_witness:
  "refund_percent_for default_rules (hours_until 20 (day_ms 15)) = 100"
  using cancellation_cutoff_exact [of "mk_tier 120 100" 20 "day_ms 15" "[mk_tier 24 50, mk_tier 0 0]"]
  by (simp add: mk_tier_def max_safe_def day_ms_def)



text \<open>
  Only a checkout on which no money moved can be discarded: discarding succeeds only for the
  guest's own pending booking with no settled payment, no succeeded attempt and no entitlement, and
  then frees its nights and archives it as cancelled.
\<close>

lemma discard_effect:
  assumes "discard_unpaid_booking_tx now bk guest s = Inr (r, t)"
  shows "\<exists>b \<in> set (bookings s). b_id b = bk \<and> b_guest b = guest \<and> b_status b = Pending_payment \<and>
      b_archived b = None \<and>
      (\<forall>p \<in> set (payments s). pay_booking p = bk \<longrightarrow> pay_status p \<in> {Pay_pending, Pay_processing, Pay_failed}) \<and>
      (\<forall>a \<in> set (attempts s). pa_booking a = bk \<longrightarrow> pa_status a \<noteq> At_succeeded) \<and>
      (\<forall>e \<in> set (entitlements s). en_booking e \<noteq> bk) \<and>
      (\<forall>d. b_check_in b \<le> d \<and> d < b_check_out b \<longrightarrow> avail t (b_property b) d \<noteq> Some booked_row) \<and>
      (\<forall>c \<in> set (bookings t). b_id c = bk \<longrightarrow> b_status c = Cancelled \<and> b_archived c = Some now)"
  using assms
proof (cases rule: discard_cases)
  case (1 b)
  have "\<forall>d. b_check_in b \<le> d \<and> d < b_check_out b \<longrightarrow> avail t (b_property b) d \<noteq> Some booked_row"
    by (simp add: 1(7) release_nights_booked log_audit_def)
  moreover have "\<forall>c \<in> set (bookings t). b_id c = bk \<longrightarrow> b_status c = Cancelled \<and> b_archived c = Some now"
    by (simp add: 1(7))
  ultimately show ?thesis using first_where_Some [OF 1(1)] 1(2-6) by blast
qed

theorem discard_effect_witness:
  "\<exists>b \<in> set (bookings (booked_with Pending_payment Pay_pending)). b_id b = ''b1'' \<and> b_archived b = None"
  using discard_effect [OF succeeded_eq [OF booked_discards]] by blast

text \<open>
  The expired-hold sweep never cancels a reserved booking: releasing returns a booking only if it
  was pending with a deadline that has passed, so a booking whose deadline was cleared, or is still
  ahead, keeps its status and its nights.
\<close>

lemma sweep_spares_reserved:
  assumes "\<forall>b \<in> set (bookings s). b_id b = bk \<longrightarrow> \<not> hold_expired now b"
  shows "release_expired_hold now bk s = Inr (None, s) \<and> bk \<notin> set (find_expired_hold_booking_ids now s)"
proof
  show "release_expired_hold now bk s = Inr (None, s)"
  proof (cases "first_where (pending_status bk) (bookings s)")
    case (Some b)
    from first_where_Some [OF Some] assms have "\<not> hold_expired now b" by (simp add: pending_status_def)
    with Some show ?thesis
      by (auto simp: release_expired_hold_def hold_expired_def Let_def split: option.splits)
  qed (simp add: release_expired_hold_def)
  show "bk \<notin> set (find_expired_hold_booking_ids now s)"
    using assms unfolding find_expired_hold_booking_ids_def
    by (auto dest!: in_set_takeD)
qed

lemma sweep_spares_reserved_witness:
  "release_expired_hold 899999 ''b1'' (booked_with Pending_payment Pay_pending) =
    Inr (None, booked_with Pending_payment Pay_pending)"
  by (rule sweep_spares_reserved [THEN conjunct1])
    (simp add: scenario_defs new_booking_def hold_expired_def)

text \<open>
  A host's own blocking and unblocking cannot touch a booking: whatever range is given, booked
  rows stay exactly as they are, so do the bookings, and the calendar keeps its row constraint.
\<close>

lemma host_blocks_spare_bookings:
  assumes "mutate_availability now p ci co act s = Inr (r, t)" "\<forall>q. calendar_ok (avail s q)"
    "av_source row = Src_booking"
  shows "(avail t q d = Some row \<longleftrightarrow> avail s q d = Some row) \<and> bookings t = bookings s \<and>
    calendar_ok (avail t q)"
  using mutate_availability_booked [OF assms(1,3)] mutate_availability_frame(1) [OF assms(1)]
    mutate_availability_calendar_ok [OF assms(1,2)] by blast

lemma demo_calendar_ok: "\<forall>q. calendar_ok (avail (booked_with st pst) q)"
  by (auto simp: scenario_defs calendar_ok_def row_ok_def split: if_splits)

theorem host_blocks_spare_bookings_witness:
  "avail (left_store (mutate_availability 0 ''villa'' 19 23 Unblock (booked_with Confirmed Paid))) ''villa'' 20 =
    Some booked_row"
proof -
  have "mutate_availability 0 ''villa'' 19 23 Unblock (booked_with Confirmed Paid) =
      Inr (left_value (mutate_availability 0 ''villa'' 19 23 Unblock (booked_with Confirmed Paid)),
        left_store (mutate_availability 0 ''villa'' 19 23 Unblock (booked_with Confirmed Paid)))"
    by (rule succeeded_eq) code_simp
  from host_blocks_spare_bookings [OF this demo_calendar_ok, of booked_row "''villa''" 20]
  show ?thesis by (simp add: scenario_defs)
qed

text \<open>
  Reconciliation brings the imported nights in line and does nothing else: bookings' and the
  host's rows are untouched, an imported row remains exactly on the imported nights nothing else
  occupies, other properties are untouched, and running it again changes nothing.
\<close>

lemma reconcile_exact:
  shows "(\<forall>q d r. av_source r \<noteq> Src_ical \<longrightarrow>
      (avail (snd (reconcile now p s)) q d = Some r \<longleftrightarrow> avail s q d = Some r)) \<and>
    (\<forall>d r. avail (snd (reconcile now p s)) p d = Some r \<and> av_source r = Src_ical \<longleftrightarrow>
      r = ical_row \<and> d \<in> set (imported_now now s p) \<and>
      (\<forall>r'. avail s p d = Some r' \<longrightarrow> av_source r' = Src_ical)) \<and>
    (\<forall>q. q \<noteq> p \<longrightarrow> avail (snd (reconcile now p s)) q = avail s q) \<and>
    snd (reconcile now p (snd (reconcile now p s))) = snd (reconcile now p s)"
proof -
  have "avail (snd (reconcile now p s)) q = avail s q" if "q \<noteq> p" for q
    using rec.untouched [OF that] that by (simp add: avail_reconcile)
  then show ?thesis
    by (intro conjI allI impI reconcile_other_rows reconcile_imported_rows reconcile_idempotent)
qed

definition demo_feed_store :: store where
  "demo_feed_store =
     (booked_with Confirmed Paid)\<lparr>
       feeds := [\<lparr>f_id = ''f1'', f_property = ''villa'', f_name = ''n'', f_url = ''u'', f_active = True,
         f_status = Sync_success, f_started = None, f_completed = None, f_successful = None,
         f_error = None, f_etag = None, f_modified = None, f_created = 0, f_updated = 0\<rparr>],
       events := [\<lparr>fe_feed = ''f1'', fe_key = ''k'', fe_uid = ''u'', fe_starts = 21, fe_ends = 24,
         fe_summary = None\<rparr>]\<rparr>"

lemma reconcile_exact_witness:
  "avail (snd (reconcile 0 ''villa'' demo_feed_store)) ''villa'' 21 = Some booked_row \<and>
   imported_now 0 demo_feed_store ''villa'' = [21, 22, 23]"
proof
  show "imported_now 0 demo_feed_store ''villa'' = [21, 22, 23]" by code_simp
  have "avail demo_feed_store ''villa'' 21 = Some booked_row" by (simp add: demo_feed_store_def scenario_defs)
  with reconcile_exact [of 0 "''villa''" demo_feed_store]
  show "avail (snd (reconcile 0 ''villa'' demo_feed_store)) ''villa'' 21 = Some booked_row" by simp
qed

end
