(* ===== verification/Payment_Properties.thy ===== *)
theory Payment_Properties
  imports Scenario
begin

text \<open>
  The properties of the payment flows, each with a concrete instance: the ledger of a charge, refunds
  and payouts, the protocol of delayed charges, and transfers to hosts.
\<close>

subsection \<open>Charges and the ledger\<close>



text \<open>
  C11: After a recorded refund the reversals of every price component add up to its cumulative target,
  the component times all succeeded refunds over the charge, rounded once; so the totals do not
  depend on how, or in which order, the refunds arrived, and a second delivery changes nothing.
\<close>

theorem refund_reversals_on_target:
  assumes "on_refund_event now ev s = Inr (True, t)" "re_intent ev = Some i"
    "first_where (\<lambda>p. pay_intent p = Some i) (payments s) = Some p"
    "find_price (pay_booking p) s = Some pc"
  shows "already_reversed (pay_booking p) t k =
      reversal_amount (components_of pc k) (succeeded_total (pay_booking p) t) (pay_amount p) \<and>
    on_refund_event now' ev t = Inr (False, t)"
  using refund_ledger_target [OF assms] refund_event_once [OF assms(1)] by blast

theorem refund_reversals_on_target_witness:
  "already_reversed ''b1'' (left_store (on_refund_event 0 (demo_refund_event 15000)
       (refundable Confirmed 15000))) Cat_payout =
   reversal_amount 27000 (succeeded_total ''b1'' (left_store (on_refund_event 0 (demo_refund_event 15000)
       (refundable Confirmed 15000)))) 30000"
  using refund_reversals_on_target [OF took_effect_eq [OF refundable_takes_effect(2)],
      of "''pi_1''" "demo_payment Paid" "demo_price ''b1''" Cat_payout]
  by (simp add: scenario_defs components_of_def)

text \<open>
  A full refund leaves no residual: with all of the charge refunded, in however many parts, every
  component is reversed to the last penny although each target was computed in floating point, no
  payout of the booking is still scheduled, and the booking is refunded.
\<close>

lemma full_refund_no_residual:
  assumes "on_refund_event now ev s = Inr (True, t)" "re_intent ev = Some i"
    "first_where (\<lambda>p. pay_intent p = Some i) (payments s) = Some p"
    "find_price (pay_booking p) s = Some pc" "pay_amount p \<le> succeeded_total (pay_booking p) t"
    "\<And>k. 0 \<le> components_of pc k \<and> components_of pc k \<le> int32_max"
  shows "already_reversed (pay_booking p) t k = components_of pc k \<and>
    (\<forall>po \<in> set (payouts t). po_booking po = pay_booking p \<longrightarrow> po_status po \<noteq> Scheduled) \<and>
    (\<forall>b \<in> set (bookings t). b_id b = pay_booking p \<longrightarrow> b_status b = Refunded)"
  by (rule full_refund [OF assms])

lemma demo_components: "0 \<le> components_of (demo_price i) k \<and> components_of (demo_price i) k \<le> int32_max"
  by (cases k) (simp_all add: components_of_def demo_price_def)

lemma full_refund_no_residual_witness:
  "already_reversed ''b1'' (left_store (on_refund_event 0 (demo_refund_event 30000)
     (refundable Confirmed 30000))) Cat_payout = 27000"
proof -
  have p: "first_where (\<lambda>p. pay_intent p = Some ''pi_1'') (payments (refundable Confirmed 30000)) = Some (demo_payment Paid)"
    "re_intent (demo_refund_event 30000) = Some ''pi_1''"
    "find_price (pay_booking (demo_payment Paid)) (refundable Confirmed 30000) = Some (demo_price ''b1'')"
    by (simp_all add: scenario_defs)
  have "pay_amount (demo_payment Paid) \<le> succeeded_total (pay_booking (demo_payment Paid))
      (left_store (on_refund_event 0 (demo_refund_event 30000) (refundable Confirmed 30000)))" by code_simp
  from full_refund_no_residual [OF took_effect_eq [OF refundable_takes_effect(1)] p(2,1,3) this demo_components,
      of Cat_payout]
  show ?thesis by (simp add: demo_payment_def demo_price_def components_of_def)
qed

text \<open>
  C10: The scheduled payout follows the ledger: if the host's reversals are at the target and a payout
  not yet released is what is left of the host's part, a recorded refund keeps both true.
\<close>

theorem refund_keeps_payout_step:
  assumes "payout_in_step p pc s" "on_refund_event now ev s = Inr (True, t)"
    "re_intent ev = Some i" "first_where (\<lambda>p. pay_intent p = Some i) (payments s) = Some p"
    "find_price (pay_booking p) s = Some pc"
    "\<forall>r \<in> set (refunds s). 0 \<le> rf_amount r" "0 \<le> pc_payout pc" "0 < pay_amount p"
  shows "payout_in_step p pc t"
  by (rule refund_keeps_payout_in_step [OF assms])

theorem refund_keeps_payout_step_witness:
  "payout_in_step (demo_payment Paid) (demo_price ''b1'')
     (left_store (on_refund_event 0 (demo_refund_event 15000) (refundable Confirmed 15000)))"
proof (rule refund_keeps_payout_step [OF _ took_effect_eq [OF refundable_takes_effect(2)]])
  show "payout_in_step (demo_payment Paid) (demo_price ''b1'') (refundable Confirmed 15000)" by code_simp
qed (simp_all add: scenario_defs)

text \<open>
  C14: A partial refund can sell a night twice (a defect of the handler): it sets the booking to
  confirmed whatever its status was, so when a cancelled booking is refunded in part after another
  guest has booked the released nights, the result breaks the invariant that active bookings share
  no night.
\<close>

theorem partial_refund_revives_booking:
  assumes "on_refund_event now ev s = Inr (True, t)" "re_intent ev = Some i"
    "first_where (\<lambda>p. pay_intent p = Some i) (payments s) = Some p"
    "succeeded_total (pay_booking p) t < pay_amount p"
    "b \<in> set (bookings s)" "b_id b = pay_booking p"
    "c \<in> set (bookings s)" "active c" "b_id c \<noteq> b_id b" "\<not> nights_disjoint b c"
  shows "bookings t = update_where (\<lambda>b. b_id b = pay_booking p) (\<lambda>b. b\<lparr>b_status := Confirmed\<rparr>) (bookings s) \<and>
    \<not> bookings_ok t"
  using partial_refund_status [OF assms(1-4)] partial_refund_double_booking [OF assms] by blast

theorem partial_refund_revives_booking_witness:
  "bookings_ok (rebooked 15000) \<and>
   \<not> bookings_ok (left_store (on_refund_event 0 (demo_refund_event 15000) (rebooked 15000)))"
proof
  show "bookings_ok (rebooked 15000)" by code_simp
  have st: "succeeded_total (pay_booking (demo_payment Paid))
      (left_store (on_refund_event 0 (demo_refund_event 15000) (rebooked 15000))) < pay_amount (demo_payment Paid)"
    by code_simp
  have "\<not> nights_disjoint (demo_booking ''b1'' Cancelled) (demo_booking ''b2'' Confirmed)" by code_simp
  moreover have "re_intent (demo_refund_event 15000) = Some ''pi_1''"
    "first_where (\<lambda>p. pay_intent p = Some ''pi_1'') (payments (rebooked 15000)) = Some (demo_payment Paid)"
    "demo_booking ''b1'' Cancelled \<in> set (bookings (rebooked 15000))"
    "demo_booking ''b2'' Confirmed \<in> set (bookings (rebooked 15000))"
    by (simp_all add: rebooked_def refundable_def booked_with_def demo_refund_event_def demo_payment_def)
  moreover have "b_id (demo_booking ''b1'' Cancelled) = pay_booking (demo_payment Paid)"
    "active (demo_booking ''b2'' Confirmed)"
    "b_id (demo_booking ''b2'' Confirmed) \<noteq> b_id (demo_booking ''b1'' Cancelled)"
    by (simp_all add: demo_booking_def demo_payment_def active_def)
  ultimately show "\<not> bookings_ok (left_store (on_refund_event 0 (demo_refund_event 15000) (rebooked 15000)))"
    using partial_refund_revives_booking [OF took_effect_eq [OF refundable_takes_effect(3)] _ _ st] by blast
qed

text \<open>
  A late delivery of the success event undoes a refund's status (a defect of the handler): once
  the payment is refunded and the booking is no longer pending, the event writes the payment back to
  paid, although its handler is meant to be a no-op on redelivery.
\<close>

lemma late_success_marks_refunded_paid:
  assumes "first_where (\<lambda>p. pay_intent p = Some intent) (payments s) = Some p"
    "pay_status p = Pay_refunded" "\<forall>b \<in> set (bookings s). b_id b = bk \<longrightarrow> b_status b \<noteq> Pending_payment"
  shows "\<exists>t. on_payment_succeeded now pid intent bk s = Inr (False, t) \<and>
    (\<exists>q \<in> set (payments t). pay_id q = pay_id p \<and> pay_status q = Paid)"
proof -
  have np: "pay_status p \<noteq> Paid" using assms(2) by simp
  have "p\<lparr>pay_status := Paid\<rparr> \<in> set (payments
      (set_payment (\<lambda>p. pay_intent p = Some intent) (\<lambda>p. p\<lparr>pay_status := Paid\<rparr>) s))"
    unfolding set_payment_frame
    using first_where_Some [OF assms(1)] by (intro in_update_where_hit [where f = "\<lambda>p. p\<lparr>pay_status := Paid\<rparr>"]) simp_all
  moreover have "pay_id (p\<lparr>pay_status := Paid\<rparr>) = pay_id p \<and> pay_status (p\<lparr>pay_status := Paid\<rparr>) = Paid" by simp
  ultimately show ?thesis
    unfolding late_success_resets_payment [OF assms(1) np assms(3), of now pid] by blast
qed

lemma late_success_marks_refunded_paid_witness:
  "\<exists>t. on_payment_succeeded 0 ''po2'' ''pi_1'' ''b1'' (booked_with Refunded Pay_refunded) = Inr (False, t) \<and>
    (\<exists>q \<in> set (payments t). pay_id q = ''pay1'' \<and> pay_status q = Paid)"
  using late_success_marks_refunded_paid [of "''pi_1''" "booked_with Refunded Pay_refunded"
      "demo_payment Pay_refunded" "''b1''" 0 "''po2''"]
  by (simp add: scenario_defs)

text \<open>
  Money on hold is not paid out: a payout becomes paid only if it was scheduled, its release time
  has come and no dispute of its booking is open; and the dispute event leaves no payout of the
  booking scheduled.
\<close>

lemma payouts_released_only_when_due:
  assumes "p \<in> set (payouts (snd (release_due_payouts now s)))" "p \<notin> set (payouts s)"
  shows "\<exists>row \<in> set (payouts s). po_id row = po_id p \<and> po_status row = Scheduled \<and>
    po_release row \<le> now \<and> \<not> open_dispute (po_booking row) s"
  by (rule release_due_payouts_only_due [OF assms])

theorem payouts_released_only_when_due_witness:
  "\<exists>row \<in> set (payouts (refundable Confirmed 1)). po_id row = ''po1'' \<and> po_release row \<le> 2000000000"
  using payouts_released_only_when_due [of "demo_payout\<lparr>po_status := Payout_paid, po_released := Some 2000000000\<rparr>"
      2000000000 "refundable Confirmed 1"]
  by (simp add: scenario_defs release_due_payouts_def select_where_def payout_due_def open_dispute_def
      release_payout_def update_where_def)

text \<open>
  A refund whose answer was lost is not made twice: the retry finds the pending row of the first
  attempt, so it uses the same idempotency key, and when the provider lists the refund that row
  names it is adopted and no second one is created.
\<close>

lemma refund_retry_safe:
  assumes "new_id \<notin> rf_id ` set (refunds s)" "initiate_refund listed create new_id i s = (Inl msg, t)"
    "row_id = fst (fst (reserve_refund new_id i s))"
    "\<exists>r \<in> set (listed' (ri_intent i)). sr_host_refund r = Some row_id"
  shows "fst (reserve_refund n2 i t) = (row_id, True) \<and>
    initiate_refund listed' create1 n2 i t = initiate_refund listed' create2 n2 i t"
proof -
  have t: "t = snd (reserve_refund new_id i s)" by (rule initiate_refund_error [OF assms(2)])
  have r: "reserve_refund n2 i t = ((row_id, True), t)"
    using reserve_refund_again [OF assms(1), of n2 i] by (simp add: t assms(3))
  have "provider_refund listed' create1 i row_id True = provider_refund listed' create2 i row_id True"
    by (rule provider_refund_reconciles) (fact assms(4))
  then show ?thesis by (simp add: initiate_refund_def r)
qed

definition demo_refund_input :: refund_input where
  "demo_refund_input =
     \<lparr>ri_booking = ''b1'', ri_payment = ''pay1'', ri_intent = Some ''pi_1'', ri_amount = 15000,
      ri_currency = ''GBP'', ri_reason = Guest_cancellation, ri_by = By_guest\<rparr>"

lemma refund_retry_safe_witness:
  "fst (reserve_refund ''rf9'' demo_refund_input
     (snd (initiate_refund (\<lambda>_. []) (\<lambda>_. Inl ''timeout'') ''rf1'' demo_refund_input open_store))) = (''rf1'', True)"
  using refund_retry_safe [of "''rf1''" open_store "\<lambda>_. []" "\<lambda>_. Inl ''timeout''" demo_refund_input "''timeout''"
      "snd (initiate_refund (\<lambda>_. []) (\<lambda>_. Inl ''timeout'') ''rf1'' demo_refund_input open_store)" "''rf1''"
      "\<lambda>_. [\<lparr>sr_id = ''re_1'', sr_status = ''succeeded'', sr_host_refund = Some ''rf1''\<rparr>]" "''rf9''"]
  by (simp add: initiate_refund_def reserve_refund_def unresolved_refund_def scenario_defs provider_refund_def)

end
