(* ===== verification/Charge_Properties.thy ===== *)
theory Charge_Properties
  imports Scenario Charge_Protocol Payouts
begin

text \<open>
  The properties of delayed charges, transfers to hosts and lock keys, each with a concrete instance
  where it has hypotheses.
\<close>

subsection \<open>A concrete run\<close>

text \<open>The guest's booking in the delayed flow with a saved card, tax configured.\<close>

definition charge_booking :: booking where
  "charge_booking =
     (demo_booking ''b1'' Pending_payment)
       \<lparr>b_flow := Separate_charges_delayed_v1, b_tax := Platform_remits, b_customer := Some ''cus'',
        b_payment_method := Some ''pm'', b_scheduled := Some 0, b_hold := None\<rparr>"

definition charge_store :: store where
  "charge_store = (booked_with Pending_payment Pay_pending)\<lparr>bookings := [charge_booking]\<rparr>"

definition decide_at :: "uuid \<Rightarrow> uuid \<Rightarrow> world \<Rightarrow> world" where
  "decide_at token new_id w =
     (case with_transaction (decide_charge id (w_now w) token new_id ''b1'' 30000 ''GBP'') (w_store w) of
        (res, s') \<Rightarrow> w\<lparr>w_store := s', w_calls := started ''b1'' res @ w_calls w\<rparr>)"

lemma decide_at_step: "fresh_token token w \<Longrightarrow> charge_step id w (decide_at token new_id w)"
  unfolding decide_at_def by (cases "with_transaction
    (decide_charge id (w_now w) token new_id ''b1'' 30000 ''GBP'') (w_store w)") (simp add: charge_step.decide)

text \<open>A first worker starts a call; its lease runs out, and a second worker takes the attempt over.\<close>

definition world0 :: world where
  "world0 = \<lparr>w_store = charge_store, w_now = 0, w_calls = []\<rparr>"

definition world1 :: world where "world1 = decide_at ''t1'' ''a1'' world0"

definition world2 :: world where "world2 = decide_at ''t2'' ''a2'' (world1\<lparr>w_now := 200000\<rparr>)"

definition paid_intent :: intent where
  "paid_intent = \<lparr>in_id = ''pi_9'', in_status = In_succeeded, in_decline_code = None,
     in_error_code = None, in_error_message = None\<rparr>"

definition order2 :: charge_order where
  "order2 = \<lparr>co_attempt = ''a1'', co_key = attempt_key id ''b1'' 1, co_token = ''t2'',
     co_customer = ''cus'', co_method = ''pm''\<rparr>"

definition order1 :: charge_order where "order1 = order2\<lparr>co_token := ''t1''\<rparr>"

definition world3 :: world where
  "world3 = world2\<lparr>w_store := snd (settle_charge (w_now world2) ''b1'' order2 (Returned paid_intent) (w_store world2)),
     w_calls := remove1 (''b1'', order2) (w_calls world2)\<rparr>"

lemma world_calls:
  "w_calls world0 = []" "attempts (w_store world0) = []"
  "w_calls world1 = [(''b1'', order1)]" "w_calls world2 = [(''b1'', order2), (''b1'', order1)]"
  by code_simp+

lemma world_fresh: "fresh_token ''t1'' world0" "fresh_token ''t2'' (world1\<lparr>w_now := 200000\<rparr>)" "w_now world1 \<le> 200000"
  by code_simp+

lemma world1_run: "charge_run id world0 world1"
  unfolding world1_def by (rule r_into_rtranclp) (rule decide_at_step, rule world_fresh)

lemma world2_run: "charge_run id world0 world2"
proof -
  have "charge_step id world1 (world1\<lparr>w_now := 200000\<rparr>)" by (rule charge_step.tick) (rule world_fresh)
  moreover have "charge_step id (world1\<lparr>w_now := 200000\<rparr>) world2"
    unfolding world2_def by (rule decide_at_step) (rule world_fresh)
  ultimately show ?thesis using world1_run by (meson rtranclp.rtrancl_into_rtrancl)
qed

lemma world3_step: "charge_step id world2 world3"
  unfolding world3_def by (rule charge_step.settle) (simp add: world_calls)

text \<open>The one attempt of the run: taken over in \<open>world2\<close>, succeeded in \<open>world3\<close>.\<close>

definition attempt2 :: attempt where
  "attempt2 = (new_attempt id 0 ''a1'' ''b1'' 1 ''t1'' 30000 ''GBP'')\<lparr>pa_token := Some ''t2'', pa_lease := Some 320000\<rparr>"

lemma world_attempts:
  "attempts (w_store world2) = [attempt2]" "has_succeeded_attempt ''b1'' (w_store world3)"
  "open_attempt attempt2" "lease_active attempt2 200001" "pa_booking attempt2 = ''b1''"
  by code_simp+

subsection \<open>The delayed charge\<close>

text \<open>
  C7: Whatever workers, webhooks, crashes and lease expiries interleave, a booking has at most one
  open charge attempt, and among the provider calls still outstanding for a booking at most one can
  record its outcome: every other has lost its execution token.
\<close>

theorem one_live_charge_per_booking:
  assumes "attempts (w_store w0) = []" "w_calls w0 = []" "charge_run sha w0 w"
    "a \<in> set (attempts (w_store w))" "b \<in> set (attempts (w_store w))" "pa_booking a = pa_booking b"
  shows "(open_attempt a \<and> open_attempt b \<longrightarrow> a = b) \<and>
    ((bk, o1) \<in> set (w_calls w) \<and> (bk', o2) \<in> set (w_calls w) \<and>
      outcome_matches (co_attempt o1) (co_token o1) a \<and>
      outcome_matches (co_attempt o2) (co_token o2) b \<longrightarrow> (bk, o1) = (bk', o2))"
proof (intro conjI impI, goal_cases)
  case 1
  have "world_ok sha w" by (rule charge_run_keeps_world_ok [OF assms(3) world_ok_initial [OF assms(1,2)]])
  from single_open_attempt [OF this assms(4,5) _ _ assms(6)] 1 show ?case by blast
next
  case 2
  have ok: "world_ok sha w" by (rule charge_run_keeps_world_ok [OF assms(3) world_ok_initial [OF assms(1,2)]])
  from 2 have c: "(bk, o1) \<in> set (w_calls w)" "(bk', o2) \<in> set (w_calls w)"
    and m: "outcome_matches (co_attempt o1) (co_token o1) a" "outcome_matches (co_attempt o2) (co_token o2) b"
    by blast+
  have "b = a"
    by (rule single_open_attempt [OF ok assms(5,4) _ _ assms(6) [symmetric]])
      (rule matching_open [OF ok assms(5) m(2)], rule matching_open [OF ok assms(4) m(1)])
  with live_calls_exclusive [OF ok c assms(4) m(1)] m(2) show ?case by blast
qed

theorem one_live_charge_per_booking_witness:
  "\<not> outcome_matches (co_attempt order1) (co_token order1) attempt2"
proof
  assume m: "outcome_matches (co_attempt order1) (co_token order1) attempt2"
  have m2: "outcome_matches (co_attempt order2) (co_token order2) attempt2" by code_simp
  have a: "attempt2 \<in> set (attempts (w_store world2))" by (simp add: world_attempts)
  have "(''b1'', order1) = (''b1'', order2)"
    using one_live_charge_per_booking [OF world_calls(2,1) world2_run a a refl, of "''b1''" order1 "''b1''" order2]
      m m2 by (simp add: world_calls)
  then show False by (simp add: order1_def order2_def)
qed

text \<open>
  Two outstanding provider calls that carry the same idempotency key belong to the same attempt of
  the same booking, so the provider never merges the charges of two bookings or of two attempts (the
  digest is assumed free of collisions).
\<close>

lemma idempotency_key_names_attempt:
  assumes "inj sha" "attempts (w_store w0) = []" "w_calls w0 = []" "charge_run sha w0 w"
    "(bk, o1) \<in> set (w_calls w)" "(bk', o2) \<in> set (w_calls w)" "co_key o1 = co_key o2"
  shows "bk = bk' \<and> co_attempt o1 = co_attempt o2"
proof -
  have "world_ok sha w" by (rule charge_run_keeps_world_ok [OF assms(4) world_ok_initial [OF assms(2,3)]])
  then show ?thesis by (rule same_key_same_attempt [OF _ assms(1,5-7)])
qed

lemma idempotency_key_names_attempt_witness:
  "''b1'' = ''b1'' \<and> co_attempt order1 = co_attempt order2"
  by (rule idempotency_key_names_attempt [OF inj_on_id world_calls(2,1) world2_run])
    (simp_all add: world_calls order1_def)

text \<open>
  C8: A charge is never repeated: once an attempt of a booking has succeeded, then after any further
  steps of any workers every decision for that booking answers that it is already paid and changes
  nothing.
\<close>

theorem charged_at_most_once:
  assumes "charge_run sha w w'" "has_succeeded_attempt bk (w_store w)"
  shows "decide_charge sha now token new_id bk amount currency (w_store w') =
    Inr (Already_succeeded, w_store w')"
  by (rule never_charged_again [OF assms])

theorem charged_at_most_once_witness:
  "decide_charge id 5 ''t9'' ''a9'' ''b1'' 30000 ''GBP'' (w_store world3) = Inr (Already_succeeded, w_store world3)"
  by (rule charged_at_most_once [OF rtranclp.rtrancl_refl world_attempts(2)])

text \<open>
  The grace period does not move: once a failed charge has started it, its start and the deadline
  derived from it stay what they were, however many further attempts fail.
\<close>

lemma grace_deadline_fixed:
  assumes "charge_run sha w w'" "b \<in> set (bookings (w_store w))" "b_grace b \<noteq> None"
  shows "\<exists>b' \<in> set (bookings (w_store w')). b_id b' = b_id b \<and> b_grace b' = b_grace b \<and> b_hold b' = b_hold b"
  using charge_run_keeps_grace [OF assms(1)] assms(2,3) unfolding keeps_grace_def by blast

definition graced :: world where
  "graced = world0\<lparr>w_store := charge_store\<lparr>bookings := [start_grace 7 charge_booking]\<rparr>\<rparr>"

theorem grace_deadline_fixed_witness:
  "\<exists>b' \<in> set (bookings (w_store (decide_at ''t1'' ''a1'' graced))). b_id b' = ''b1'' \<and> b_grace b' = Some 7"
proof -
  have "fresh_token ''t1'' graced" by code_simp
  then have r: "charge_run id graced (decide_at ''t1'' ''a1'' graced)"
    by (intro r_into_rtranclp decide_at_step)
  have b: "start_grace 7 charge_booking \<in> set (bookings (w_store graced))" by (simp add: graced_def)
  have g: "b_grace (start_grace 7 charge_booking) = Some 7" "b_id (start_grace 7 charge_booking) = ''b1''"
    by code_simp+
  from grace_deadline_fixed [OF r b] g show ?thesis by auto
qed

text \<open>
  While a worker holds the lease of a booking's open attempt, no other worker is told to charge
  and nothing changes; and a worker that lost the lease cannot record what it saw.
\<close>

lemma lease_excludes_others:
  assumes "attempts (w_store w0) = []" "w_calls w0 = []" "charge_run sha w0 w"
    "a \<in> set (attempts (w_store w))" "open_attempt a" "lease_active a now"
    "decide_charge sha now token new_id (pa_booking a) amount currency (w_store w) = Inr (d, t)"
  shows "t = w_store w \<and> (\<forall>ord. d \<noteq> Charge ord)"
  by (rule leased_refuses [OF charge_run_keeps_world_ok [OF assms(3) world_ok_initial [OF assms(1,2)]] assms(4-7)])

lemma lease_excludes_others_witness:
  "\<forall>ord t. decide_charge id 200001 ''t3'' ''a3'' ''b1'' 30000 ''GBP'' (w_store world2) \<noteq> Inr (Charge ord, t)"
proof (intro allI notI)
  fix ord t
  assume "decide_charge id 200001 ''t3'' ''a3'' ''b1'' 30000 ''GBP'' (w_store world2) = Inr (Charge ord, t)"
  then have d: "decide_charge id 200001 ''t3'' ''a3'' (pa_booking attempt2) 30000 ''GBP'' (w_store world2) =
      Inr (Charge ord, t)" by (simp only: world_attempts(5))
  have a: "attempt2 \<in> set (attempts (w_store world2))" by (simp add: world_attempts)
  from lease_excludes_others [OF world_calls(2,1) world2_run a world_attempts(3,4) d] show False by blast
qed

text \<open>
  Charging is off until it is configured: with the flag off, or for a booking whose tax treatment
  is unconfigured, an attempt changes nothing and does not depend on the provider; and every booking
  that creation makes is unconfigured.
\<close>

lemma charging_needs_configuration:
  assumes "\<not> enabled \<or> (\<exists>b. find_booking bk s = Some b \<and> b_tax b = Tax_unconfigured)"
  shows "snd (attempt_scheduled_charge enabled sha stripe meanwhile t1 t2 token new_id bk amount currency s) = s \<and>
    attempt_scheduled_charge enabled sha stripe meanwhile t1 t2 token new_id bk amount currency s =
      attempt_scheduled_charge enabled sha stripe' meanwhile' t1 t2' token' new_id' bk amount currency s"
proof -
  consider (off) "\<not> enabled" | (paid) "has_succeeded_attempt bk s" |
    (refused) r where "\<And>tok i. decide_charge sha t1 tok i bk amount currency s = Inr (Refuse r, s)"
  proof (cases "enabled \<and> \<not> has_succeeded_attempt bk s")
    case True
    with assms obtain b where b: "find_booking bk s = Some b" "b_tax b = Tax_unconfigured" by blast
    have "booking_refusal b t1 \<noteq> None" by (simp add: booking_refusal_def b(2))
    then obtain r where "booking_refusal b t1 = Some r" by blast
    with b True refused show ?thesis by (simp add: decide_charge_def)
  qed (use off paid in blast)
  then show ?thesis
    by cases (simp_all add: attempt_scheduled_charge_def with_transaction_def decide_charge_def Let_def)
qed

theorem charging_needs_configuration_witness:
  "snd (attempt_scheduled_charge True id (\<lambda>_. Returned paid_intent) (\<lambda>s. s) 0 0 ''t'' ''a'' ''b1'' 1 ''GBP''
     (booked_with Pending_payment Pay_pending)) = booked_with Pending_payment Pay_pending"
proof -
  have "find_booking ''b1'' (booked_with Pending_payment Pay_pending) = Some (demo_booking ''b1'' Pending_payment)"
    "b_tax (demo_booking ''b1'' Pending_payment) = Tax_unconfigured"
    by code_simp+
  then show ?thesis
    using charging_needs_configuration [of True "''b1''" "booked_with Pending_payment Pay_pending"] by blast
qed

text \<open>
  C28: The charge date is exact although it is computed with double division: a booking is charged
  immediately when fewer than 61 whole days remain before check-in, and otherwise at midnight sixty
  days before check-in, a time that lies in the future.
\<close>

theorem charge_timing_exact:
  assumes "\<bar>day_ms check_in - now\<bar> < max_safe"
  shows "decide_charge_timing check_in now =
      (if day_ms (check_in - 61) < now then \<lparr>ct_immediate = True, ct_date = None\<rparr>
       else \<lparr>ct_immediate = False, ct_date = Some (day_ms (check_in - 60))\<rparr>) \<and>
    (\<forall>t. ct_date (decide_charge_timing check_in now) = Some t \<longrightarrow> now < t)"
proof -
  note imm = immediate_iff [OF assms] and later = deferred_date [OF assms] and none = immediate_date [of check_in now]
  have "decide_charge_timing check_in now =
      (if day_ms (check_in - 61) < now then \<lparr>ct_immediate = True, ct_date = None\<rparr>
       else \<lparr>ct_immediate = False, ct_date = Some (day_ms (check_in - 60))\<rparr>)"
    by (rule charge_timing.equality) (use imm later(1) none in auto)
  moreover have "now < t" if "ct_date (decide_charge_timing check_in now) = Some t" for t
    using that later none by (cases "ct_immediate (decide_charge_timing check_in now)") auto
  ultimately show ?thesis by blast
qed

theorem charge_timing_exact_witness:
  "decide_charge_timing 20061 (day_ms 20000) = \<lparr>ct_immediate = False, ct_date = Some (day_ms 20001)\<rparr>"
  using charge_timing_exact [of 20061 "day_ms 20000"] by (simp add: day_ms_def max_safe_def)

subsection \<open>Transfers\<close>


definition demo_entitlement :: entitlement where
  "demo_entitlement =
     \<lparr>en_id = ''e1'', en_booking = ''b1'', en_host = ''host'', en_amount = 27000, en_tax = None,
      en_currency = ''GBP'', en_status = Transfer_claimed, en_release = 0, en_claimed_at = Some 0,
      en_worker = Some ''w'', en_transfer = None, en_key = ''k''\<rparr>"

definition claimed_store :: store where
  "claimed_store = open_store\<lparr>entitlements := [demo_entitlement]\<rparr>"

definition make_demo_transfer :: "transfer_request \<Rightarrow> string + transfer" where
  "make_demo_transfer q = Inr \<lparr>tr_id = ''tr_'' @ tq_entitlement q, tr_entitlement = Some (tq_entitlement q)\<rparr>"

lemma claimed_release: "rl_attempted (fst (attempt_release True (\<lambda>_. []) make_demo_transfer ''e1'' claimed_store))"
  by code_simp


text \<open>
  A transfer or reversal is not repeated after a lost answer: a transfer the provider already
  lists for the entitlement is adopted whatever a new request would return, and a reversal that was
  executed is not executed again.
\<close>

lemma transfer_adopted:
  assumes "\<forall>acct. \<exists>x \<in> set (listed acct). tr_entitlement x = Some i"
  shows "attempt_release enabled listed create i s = attempt_release enabled listed create' i s \<and>
    (vr_attempted (fst (execute_reversal now ltr ctr j s)) \<longrightarrow>
      \<not> vr_attempted (fst (execute_reversal now' ltr' ctr' j (snd (execute_reversal now ltr ctr j s)))))"
  using attempt_release_reconciles [of listed i enabled create s create'] assms execute_reversal_once by blast

theorem transfer_adopted_witness:
  "attempt_release True (\<lambda>_. [\<lparr>tr_id = ''tr_1'', tr_entitlement = Some ''e1''\<rparr>]) make_demo_transfer ''e1'' claimed_store =
   attempt_release True (\<lambda>_. [\<lparr>tr_id = ''tr_1'', tr_entitlement = Some ''e1''\<rparr>]) (\<lambda>_. Inl ''x'') ''e1'' claimed_store"
  using transfer_adopted [of "\<lambda>_. [\<lparr>tr_id = ''tr_1'', tr_entitlement = Some ''e1''\<rparr>]" "''e1''" True make_demo_transfer
      claimed_store "\<lambda>_. Inl ''x''"] by simp

end
