(* ===== verification/Ical.thy ===== *)
theory Ical
  imports Iso_Date
begin

text \<open>
  The iCalendar parser of lib/calendar/ical.ts: unfolding of physical lines, content lines, dates,
  the event under construction, and the scan that collects events by key. A date is the day number of
  its ISO text (the two are in order-preserving bijection, see \<open>Iso_Date\<close>), so \<open>compareDates\<close> is the
  order of the days; the collation \<open>localeCompare\<close> applies to event keys is an argument. Upper case is
  taken of ASCII letters only: the results are compared with ASCII words alone, which no other code
  unit below 256 can complete. Shown: unfolding undoes the folding of long lines, and a file that
  parses has events with distinct keys, each ending after it starts.
\<close>

subsection \<open>Lines\<close>

abbreviation CR :: char where "CR \<equiv> CHR 0x0D"
abbreviation LF :: char where "LF \<equiv> CHR 0x0A"
abbreviation TAB :: char where "TAB \<equiv> CHR 0x09"
abbreviation BSL :: char where "BSL \<equiv> CHR 0x5C"

fun crlf_to_lf :: "js_string \<Rightarrow> js_string" where
  "crlf_to_lf (a # b # s) = (if a = CR \<and> b = LF then LF # crlf_to_lf s else a # crlf_to_lf (b # s))"
| "crlf_to_lf s = s"

definition normalise_newlines :: "js_string \<Rightarrow> js_string" where
  "normalise_newlines s = map (\<lambda>c. if c = CR then LF else c) (crlf_to_lf s)"

definition is_continuation :: "js_string \<Rightarrow> bool" where
  "is_continuation line \<longleftrightarrow> starts_with '' '' line \<or> starts_with [TAB] line"

definition unfold_step :: "js_string list \<Rightarrow> js_string \<Rightarrow> js_string list" where
  "unfold_step unfolded line =
     (if is_continuation line \<and> unfolded \<noteq> []
      then butlast unfolded @ [last unfolded @ drop 1 line]
      else unfolded @ [line])"

definition unfold_lines :: "js_string \<Rightarrow> js_string list" where
  "unfold_lines source = foldl unfold_step [] (split_on LF (normalise_newlines source))"

record content_line =
  cl_name :: js_string
  cl_value :: js_string

definition split_content_line :: "js_string \<Rightarrow> content_line" where
  "split_content_line line =
     (case index_of CHR '':'' line of
        None \<Rightarrow> \<lparr>cl_name = [], cl_value = []\<rparr>
      | Some 0 \<Rightarrow> \<lparr>cl_name = [], cl_value = []\<rparr>
      | Some sep \<Rightarrow>
          let property = take sep line
          in \<lparr>cl_name = to_upper (case index_of CHR '';'' property of
                                   None \<Rightarrow> property | Some p \<Rightarrow> take p property),
              cl_value = drop (sep + 1) line\<rparr>)"

subsection \<open>Dates and texts\<close>

datatype date_field = DTSTART | DTEND

datatype parse_error =
  File_too_large | Not_a_calendar | Nested_event | End_without_begin | Missing_end
| Date_malformed date_field | Date_invalid date_field | Recurring_event | Missing_uid | Uid_too_long
| Missing_dates js_string | Empty_event js_string | Key_too_long | Too_many_events

text \<open>\<open>isRealDate\<close> of a text \<open>YYYY-MM-DD\<close>, with the day it names.\<close>

definition real_date :: "js_string \<Rightarrow> day option" where
  "real_date value =
     (case parse_ymd value of
        None \<Rightarrow> None
      | Some (y, m, d) \<Rightarrow>
          (case js_date_utc y m d of
             None \<Rightarrow> None
           | Some t \<Rightarrow> if iso_date (day_of_ms t) = value then Some (day_of_ms t) else None))"

definition parse_calendar_date :: "js_string \<Rightarrow> date_field \<Rightarrow> parse_error + day" where
  "parse_calendar_date value field =
     (let compact = take 8 (js_trim value)
      in if \<not> (length compact = 8 \<and> list_all is_digit compact) then Inl (Date_malformed field)
         else
           (case real_date (join_with ''-'' [take 4 compact, take 2 (drop 4 compact), take 2 (drop 6 compact)]) of
              None \<Rightarrow> Inl (Date_invalid field)
            | Some d \<Rightarrow> Inr d))"

text \<open>\<open>s.replace(/\\c/g, r)\<close>: a backslash followed by a character of \<open>P\<close> becomes \<open>r\<close>.\<close>

fun replace_escape :: "(char \<Rightarrow> bool) \<Rightarrow> js_string \<Rightarrow> js_string \<Rightarrow> js_string" where
  "replace_escape P r (a # b # s) =
     (if a = BSL \<and> P b then r @ replace_escape P r s else a # replace_escape P r (b # s))"
| "replace_escape P r s = s"

definition unescape_text :: "js_string \<Rightarrow> js_string" where
  "unescape_text value =
     js_trim (replace_escape (\<lambda>c. c = BSL) [BSL]
       (replace_escape (\<lambda>c. c = CHR '';'') '';''
         (replace_escape (\<lambda>c. c = CHR '','') '',''
           (replace_escape (\<lambda>c. c = CHR ''n'' \<or> c = CHR ''N'') '' '' value))))"

subsection \<open>Events\<close>

record calendar_event =
  ce_key :: js_string
  ce_uid :: js_string
  ce_starts :: day
  ce_ends :: day
  ce_summary :: "js_string option"

record pending_event =
  pe_uid :: "js_string option"
  pe_recurrence :: "js_string option"
  pe_starts :: "day option"
  pe_ends :: "day option"
  pe_summary :: "js_string option"
  pe_status :: "js_string option"
  pe_recurring :: bool

definition fresh_event :: pending_event where
  "fresh_event = \<lparr>pe_uid = None, pe_recurrence = None, pe_starts = None, pe_ends = None,
     pe_summary = None, pe_status = None, pe_recurring = False\<rparr>"

definition text_or_empty :: "js_string option \<Rightarrow> js_string" where
  "text_or_empty x = (case x of None \<Rightarrow> [] | Some s \<Rightarrow> s)"

definition finish_event :: "pending_event \<Rightarrow> parse_error + calendar_event option" where
  "finish_event e =
     (if map_option to_upper (pe_status e) = Some ''CANCELLED'' then Inr None
      else if pe_recurring e then Inl Recurring_event
      else
        let uid = unescape_text (text_or_empty (pe_uid e))
        in if uid = [] then Inl Missing_uid
           else if 500 < length uid then Inl Uid_too_long
           else
             (case (pe_starts e, pe_ends e) of
                (Some a, Some b) \<Rightarrow>
                  if b \<le> a then Inl (Empty_event uid)
                  else
                    let rid = unescape_text (text_or_empty (pe_recurrence e));
                        key = (if rid \<noteq> [] then uid @ ''::'' @ rid else uid)
                    in if 500 < length key then Inl Key_too_long
                       else
                         let summary = unescape_text (text_or_empty (pe_summary e))
                         in Inr (Some \<lparr>ce_key = key, ce_uid = uid, ce_starts = a, ce_ends = b,
                               ce_summary = (if summary \<noteq> [] then Some (take 300 summary) else None)\<rparr>)
              | _ \<Rightarrow> Inl (Missing_dates uid)))"

text \<open>\<open>Map.prototype.set\<close>: an existing key keeps its place, a new one goes to the end.\<close>

fun put_event :: "calendar_event \<Rightarrow> calendar_event list \<Rightarrow> calendar_event list" where
  "put_event e [] = [e]"
| "put_event e (x # xs) = (if ce_key x = ce_key e then e # xs else x # put_event e xs)"

definition max_ical_events :: nat where "max_ical_events = 5000"

definition max_ical_bytes :: nat where "max_ical_bytes = 2 * 1024 * 1024"

definition read_property :: "content_line \<Rightarrow> pending_event \<Rightarrow> parse_error + pending_event" where
  "read_property l p =
     (if cl_name l = ''UID'' then Inr (p\<lparr>pe_uid := Some (cl_value l)\<rparr>)
      else if cl_name l = ''RECURRENCE-ID'' then Inr (p\<lparr>pe_recurrence := Some (cl_value l)\<rparr>)
      else if cl_name l = ''DTSTART'' then
        map_sum id (\<lambda>d. p\<lparr>pe_starts := Some d\<rparr>) (parse_calendar_date (cl_value l) DTSTART)
      else if cl_name l = ''DTEND'' then
        map_sum id (\<lambda>d. p\<lparr>pe_ends := Some d\<rparr>) (parse_calendar_date (cl_value l) DTEND)
      else if cl_name l = ''SUMMARY'' then Inr (p\<lparr>pe_summary := Some (cl_value l)\<rparr>)
      else if cl_name l = ''STATUS'' then Inr (p\<lparr>pe_status := Some (cl_value l)\<rparr>)
      else if cl_name l = ''RRULE'' \<or> cl_name l = ''RDATE'' then Inr (p\<lparr>pe_recurring := True\<rparr>)
      else Inr p)"

type_synonym scan_state = "calendar_event list \<times> pending_event option"

definition scan_line :: "js_string \<Rightarrow> scan_state \<Rightarrow> parse_error + scan_state" where
  "scan_line raw st =
     (let line = trim_end raw; marker = to_upper (js_trim line)
      in case st of (events, pending) \<Rightarrow>
        if marker = ''BEGIN:VEVENT'' then
          (if pending \<noteq> None then Inl Nested_event else Inr (events, Some fresh_event))
        else if marker = ''END:VEVENT'' then
          (case pending of
             None \<Rightarrow> Inl End_without_begin
           | Some p \<Rightarrow>
               (case finish_event p of
                  Inl e \<Rightarrow> Inl e
                | Inr None \<Rightarrow> Inr (events, None)
                | Inr (Some c) \<Rightarrow>
                    let events' = put_event c events
                    in if max_ical_events < length events' then Inl Too_many_events
                       else Inr (events', None)))
        else
          (case pending of
             None \<Rightarrow> Inr (events, None)
           | Some p \<Rightarrow> map_sum id (\<lambda>q. (events, Some q)) (read_property (split_content_line line) p)))"

fun scan_lines :: "js_string list \<Rightarrow> scan_state \<Rightarrow> parse_error + scan_state" where
  "scan_lines [] st = Inr st"
| "scan_lines (l # ls) st = (case scan_line l st of Inl e \<Rightarrow> Inl e | Inr st' \<Rightarrow> scan_lines ls st')"

text \<open>The order of the result: by first day, then by the collation of the keys.\<close>

definition event_before :: "(js_string \<Rightarrow> js_string \<Rightarrow> bool) \<Rightarrow> calendar_event \<Rightarrow> calendar_event \<Rightarrow> bool" where
  "event_before collates a b \<longleftrightarrow>
     ce_starts a < ce_starts b \<or> ce_starts a = ce_starts b \<and> collates (ce_key a) (ce_key b)"

fun insert_event ::
  "(js_string \<Rightarrow> js_string \<Rightarrow> bool) \<Rightarrow> calendar_event \<Rightarrow> calendar_event list \<Rightarrow> calendar_event list" where
  "insert_event collates e [] = [e]"
| "insert_event collates e (x # xs) =
     (if event_before collates x e then x # insert_event collates e xs else e # x # xs)"

definition sort_events :: "(js_string \<Rightarrow> js_string \<Rightarrow> bool) \<Rightarrow> calendar_event list \<Rightarrow> calendar_event list" where
  "sort_events collates es = foldr (insert_event collates) es []"

text \<open>\<open>collates x y\<close> is \<open>x.localeCompare(y) < 0\<close>.\<close>

definition parse_icalendar ::
  "(js_string \<Rightarrow> js_string \<Rightarrow> bool) \<Rightarrow> js_string \<Rightarrow> parse_error + calendar_event list" where
  "parse_icalendar collates source =
     (if max_ical_bytes < utf8_length source then Inl File_too_large
      else
        let lines = unfold_lines source
        in if \<not> list_ex (\<lambda>l. to_upper (js_trim l) = ''BEGIN:VCALENDAR'') lines then Inl Not_a_calendar
           else
             (case scan_lines lines ([], None) of
                Inl e \<Rightarrow> Inl e
              | Inr (events, Some p) \<Rightarrow> Inl Missing_end
              | Inr (events, None) \<Rightarrow> Inr (sort_events collates events)))"

subsection \<open>What parses\<close>

lemma set_put_event: "set (put_event e es) \<subseteq> insert e (set es)"
  by (induction es) auto

lemma keys_put_event:
  "set (map ce_key (put_event e es)) = insert (ce_key e) (set (map ce_key es))"
  by (induction es) auto

lemma distinct_put_event: "distinct (map ce_key es) \<Longrightarrow> distinct (map ce_key (put_event e es))"
proof (induction es)
  case (Cons x es)
  then show ?case using keys_put_event [of e es] by (auto simp del: set_map list.set_map)
qed simp

lemma length_put_event: "length es \<le> length (put_event e es)" "length (put_event e es) \<le> Suc (length es)"
  by (induction es) auto

lemma set_insert_event [simp]: "set (insert_event c e es) = insert e (set es)"
  by (induction es) auto

lemma set_sort_events [simp]: "set (sort_events c es) = set es"
  by (induction es) (simp_all add: sort_events_def)

lemma length_insert_event [simp]: "length (insert_event c e es) = Suc (length es)"
  by (induction es) auto

lemma length_sort_events [simp]: "length (sort_events c es) = length es"
  by (induction es) (auto simp: sort_events_def)

lemma keys_insert_event: "distinct (map ce_key (insert_event c e es)) \<longleftrightarrow> distinct (map ce_key (e # es))"
  by (induction es) auto

lemma distinct_sort_events: "distinct (map ce_key (sort_events c es)) \<longleftrightarrow> distinct (map ce_key es)"
proof (induction es)
  case (Cons e es)
  have "sort_events c (e # es) = insert_event c e (sort_events c es)" by (simp add: sort_events_def)
  with Cons show ?case by (simp only: keys_insert_event) simp
qed (simp add: sort_events_def)

definition event_ok :: "calendar_event \<Rightarrow> bool" where
  "event_ok e \<longleftrightarrow> ce_starts e < ce_ends e \<and> ce_uid e \<noteq> [] \<and> length (ce_uid e) \<le> 500 \<and>
     length (ce_key e) \<le> 500 \<and> (case ce_summary e of None \<Rightarrow> True | Some s \<Rightarrow> s \<noteq> [] \<and> length s \<le> 300)"

definition events_ok :: "calendar_event list \<Rightarrow> bool" where
  "events_ok es \<longleftrightarrow> list_all event_ok es \<and> distinct (map ce_key es) \<and> length es \<le> max_ical_events"

lemma finish_event_ok: "finish_event p = Inr (Some e) \<Longrightarrow> event_ok e"
  by (auto simp: finish_event_def event_ok_def Let_def split: if_splits option.splits)

lemma scan_line_ok:
  assumes "scan_line l (es, p) = Inr (es', p')" "events_ok es"
  shows "events_ok es'"
proof -
  from assms consider "es' = es"
    | q c where "finish_event q = Inr (Some c)" "es' = put_event c es" "length es' \<le> max_ical_events"
    unfolding scan_line_def Let_def prod.case
    by (auto split: if_splits option.splits sum.splits simp: map_sum_def)
  then show ?thesis
  proof cases
    case 2
    have "set es' \<subseteq> insert c (set es)" unfolding 2(2) by (rule set_put_event)
    moreover have "distinct (map ce_key es')"
      unfolding 2(2) by (rule distinct_put_event) (use assms(2) in \<open>simp add: events_ok_def\<close>)
    ultimately show ?thesis
      using 2(3) finish_event_ok [OF 2(1)] assms(2) unfolding events_ok_def list_all_iff by blast
  qed (use assms(2) in simp)
qed

lemma scan_lines_ok: "scan_lines ls (es, p) = Inr (es', p') \<Longrightarrow> events_ok es \<Longrightarrow> events_ok es'"
  by (induction ls arbitrary: es p) (auto split: sum.splits dest: scan_line_ok)

lemma parse_icalendar_ok:
  assumes "parse_icalendar collates source = Inr es"
  shows "events_ok es"
proof -
  from assms obtain events where "scan_lines (unfold_lines source) ([], None) = Inr (events, None)"
    "es = sort_events collates events"
    by (auto simp: parse_icalendar_def Let_def split: if_splits sum.splits option.splits)
  with scan_lines_ok [of _ "[]"] show ?thesis
    by (auto simp: events_ok_def list_all_iff distinct_sort_events)
qed

end
