(* ===== verification/Calendar_Export.thy ===== *)
theory Calendar_Export
  imports Ical Store
begin

text \<open>
  The calendar a property publishes (lib/calendar/calendarExport.ts): the unavailable days from today
  on, grouped into ranges and written as an iCalendar file with folded lines. Dates are day numbers.
  Shown: the ranges cover exactly the days, in order and without touching each other; and the
  program's own parser reads the file back as exactly these ranges.
\<close>

subsection \<open>Ranges of days\<close>

record date_range =
  dr_starts :: day
  dr_ends :: day

fun group_from :: "day \<Rightarrow> day \<Rightarrow> day list \<Rightarrow> date_range list" where
  "group_from range_start previous [] = [\<lparr>dr_starts = range_start, dr_ends = previous + 1\<rparr>]"
| "group_from range_start previous (date # dates) =
     (if date = previous + 1 then group_from range_start date dates
      else \<lparr>dr_starts = range_start, dr_ends = previous + 1\<rparr> # group_from date date dates)"

definition group_consecutive_dates :: "day list \<Rightarrow> date_range list" where
  "group_consecutive_dates values =
     (case sort (remdups values) of [] \<Rightarrow> [] | d # dates \<Rightarrow> group_from d d dates)"

subsection \<open>The text\<close>

fun escape_newlines :: "js_string \<Rightarrow> js_string" where
  "escape_newlines (a # b # s) =
     (if a = CR \<and> b = LF then BSL # CHR ''n'' # escape_newlines s
      else if a = LF then BSL # CHR ''n'' # escape_newlines (b # s)
      else a # escape_newlines (b # s))"
| "escape_newlines [a] = (if a = LF then [BSL, CHR ''n''] else [a])"
| "escape_newlines [] = []"

definition put_backslash :: "char \<Rightarrow> js_string \<Rightarrow> js_string" where
  "put_backslash c s = concat (map (\<lambda>x. if x = c then [BSL, c] else [x]) s)"

definition escape_ical_text :: "js_string \<Rightarrow> js_string" where
  "escape_ical_text value =
     put_backslash CHR '';'' (put_backslash CHR '','' (escape_newlines (put_backslash BSL value)))"

abbreviation maximum_length :: nat where "maximum_length \<equiv> 73"

definition chunk_width :: "bool \<Rightarrow> nat" where
  "chunk_width first = (if first then maximum_length else maximum_length - 1)"

lemma chunk_width_simps [simp]: "chunk_width True = 73" "chunk_width False = 72" "0 < chunk_width f"
  by (simp_all add: chunk_width_def)

function fold_chunks :: "bool \<Rightarrow> js_string \<Rightarrow> js_string list" where
  "fold_chunks first remaining =
     (if remaining = [] then []
      else
        let width = chunk_width first;
            chunk = take width remaining
        in (if first then chunk else CHR '' '' # chunk) # fold_chunks False (drop width remaining))"
  by pat_completeness auto
termination
  by (relation "measure (\<lambda>(first, remaining). length remaining)") simp_all

declare fold_chunks.simps [simp del]

definition fold_line :: "js_string \<Rightarrow> js_string list" where
  "fold_line line = (if length line \<le> maximum_length then [line] else fold_chunks True line)"

definition compact_date :: "day \<Rightarrow> js_string" where
  "compact_date d = filter (\<lambda>c. c \<noteq> CHR ''-'') (iso_date d)"

text \<open>\<open>toISOString()\<close> of a time, and the same without separators and milliseconds.\<close>

definition iso_instant :: "millis \<Rightarrow> js_string" where
  "iso_instant t =
     (let ms = t mod ms_per_day
      in iso_date (day_of_ms t) @ ''T'' @ pad2 (ms div 3600000) @ '':'' @ pad2 (ms div 60000 mod 60) @
         '':'' @ pad2 (ms div 1000 mod 60) @ ''.'' @ digit_char (ms mod 1000 div 100) # pad2 (ms mod 100) @ ''Z'')"

definition generated_at :: "millis \<Rightarrow> js_string" where
  "generated_at t =
     (let plain = filter (\<lambda>c. c \<noteq> CHR ''-'' \<and> c \<noteq> CHR '':'') (iso_instant t)
      in take (length plain - 5) plain @ ''Z'')"

definition range_uid :: "uuid \<Rightarrow> date_range \<Rightarrow> js_string" where
  "range_uid pid r =
     ''host-'' @ pid @ ''-'' @ iso_date (dr_starts r) @ ''-'' @ iso_date (dr_ends r) @ ''@hostcityliving.com''"

definition range_lines :: "millis \<Rightarrow> uuid \<Rightarrow> date_range \<Rightarrow> js_string list" where
  "range_lines now pid r =
     [''BEGIN:VEVENT'',
      ''UID:'' @ range_uid pid r,
      ''DTSTAMP:'' @ generated_at now,
      ''DTSTART;VALUE=DATE:'' @ compact_date (dr_starts r),
      ''DTEND;VALUE=DATE:'' @ compact_date (dr_ends r),
      ''STATUS:CONFIRMED'', ''TRANSP:OPAQUE'', ''SUMMARY:Unavailable'', ''END:VEVENT'']"

definition calendar_head :: "js_string \<Rightarrow> js_string list" where
  "calendar_head name =
     [''BEGIN:VCALENDAR'', ''VERSION:2.0'', ''PRODID:-//HOST//Property Availability//EN'',
      ''CALSCALE:GREGORIAN'', ''METHOD:PUBLISH'', ''X-WR-CALNAME:'' @ escape_ical_text (''HOST - '' @ name)]"

definition calendar_lines :: "millis \<Rightarrow> uuid \<Rightarrow> js_string \<Rightarrow> date_range list \<Rightarrow> js_string list" where
  "calendar_lines now pid name ranges =
     calendar_head name @ concat (map (range_lines now pid) ranges) @ [''END:VCALENDAR'']"

definition build_calendar :: "millis \<Rightarrow> uuid \<Rightarrow> js_string \<Rightarrow> date_range list \<Rightarrow> js_string" where
  "build_calendar now pid name ranges =
     join_with [CR, LF] (concat (map fold_line (calendar_lines now pid name ranges))) @ [CR, LF]"

record calendar_export =
  cx_property :: uuid
  cx_name :: js_string
  cx_body :: js_string

text \<open>The days the query returns; \<open>horizon\<close> is any day not before the last row of the calendar.\<close>

definition unavailable_days :: "day \<Rightarrow> day \<Rightarrow> calendar \<Rightarrow> day list" where
  "unavailable_days today horizon m =
     filter (\<lambda>d. case m d of None \<Rightarrow> False | Some r \<Rightarrow> av_status r \<noteq> Available) [today..horizon]"

definition generate_calendar_export :: "millis \<Rightarrow> day \<Rightarrow> uuid \<Rightarrow> store \<Rightarrow> calendar_export option" where
  "generate_calendar_export now horizon token s =
     (case first_where (\<lambda>x. ex_token x = token \<and> row_exists (\<lambda>p. p_id p = ex_property x) (properties s))
             (exports s) of
        None \<Rightarrow> None
      | Some x \<Rightarrow>
          (case find_property (ex_property x) s of
             None \<Rightarrow> None
           | Some p \<Rightarrow>
               let ranges = group_consecutive_dates
                     (unavailable_days (day_of_ms now) horizon (avail s (p_id p)))
               in Some \<lparr>cx_property = p_id p, cx_name = p_name p,
                        cx_body = build_calendar now (p_id p) (p_name p) ranges\<rparr>))"

subsection \<open>The ranges cover the days\<close>

abbreviation range_days :: "date_range \<Rightarrow> day list" where
  "range_days r \<equiv> [dr_starts r..dr_ends r - 1]"

definition ranges_ok :: "date_range list \<Rightarrow> bool" where
  "ranges_ok rs \<longleftrightarrow> list_all (\<lambda>r. dr_starts r < dr_ends r) rs \<and>
     sorted_wrt (\<lambda>a b. dr_ends a < dr_starts b) rs"

lemma group_from_props:
  assumes "start \<le> prev" "sorted_wrt (<) (prev # ds)"
  shows "concat (map range_days (group_from start prev ds)) = [start..prev] @ ds \<and>
    ranges_ok (group_from start prev ds) \<and> (\<forall>r \<in> set (group_from start prev ds). start \<le> dr_starts r)"
  using assms
proof (induction start prev ds rule: group_from.induct)
  case (1 start prev)
  then show ?case by (simp add: ranges_ok_def)
next
  case (2 start prev d ds)
  show ?case
  proof (cases "d = prev + 1")
    case True
    have "[start..prev + 1] = [start..prev] @ [prev + 1]"
      using upto_rec2 [of start "prev + 1"] 2(3) by simp
    with 2 True show ?thesis by simp
  next
    case False
    with 2(4) have gap: "prev + 1 < d" by simp
    from False 2 have "concat (map range_days (group_from d d ds)) = [d..d] @ ds"
      "ranges_ok (group_from d d ds)" "\<forall>r \<in> set (group_from d d ds). d \<le> dr_starts r"
      by simp_all
    with False 2(3) gap show ?thesis by (auto simp: ranges_ok_def)
  qed
qed

lemma group_consecutive_props:
  "concat (map range_days (group_consecutive_dates ds)) = sort (remdups ds)"
  "ranges_ok (group_consecutive_dates ds)"
proof -
  have s: "sorted_wrt (<) (sort (remdups ds))" by (simp add: strict_sorted_iff)
  show "concat (map range_days (group_consecutive_dates ds)) = sort (remdups ds)"
    "ranges_ok (group_consecutive_dates ds)"
    using group_from_props [of "hd (sort (remdups ds))" "hd (sort (remdups ds))" "tl (sort (remdups ds))"] s
    by (cases "sort (remdups ds)"; simp add: group_consecutive_dates_def ranges_ok_def)+
qed

subsection \<open>Folding and unfolding\<close>

lemma unfold_chunks:
  "foldl unfold_step (acc @ [x]) (fold_chunks False r) = acc @ [x @ r]"
proof (induction "False" r arbitrary: x rule: fold_chunks.induct)
  case (1 r)
  show ?case
  proof (cases "r = []")
    case True
    then show ?thesis by (subst fold_chunks.simps) simp
  next
    case False
    have "unfold_step (acc @ [x]) (CHR '' '' # take 72 r) = acc @ [x @ take 72 r]"
      by (simp add: unfold_step_def is_continuation_def starts_with_def)
    then show ?thesis
      using 1 [OF False refl refl, of "x @ take 72 r"] False
      by (subst fold_chunks.simps) simp
  qed
qed

definition plain_line :: "js_string \<Rightarrow> bool" where
  "plain_line l \<longleftrightarrow> CR \<notin> set l \<and> LF \<notin> set l \<and> \<not> is_continuation l"

lemma unfold_fold_line:
  assumes "plain_line l"
  shows "foldl unfold_step acc (fold_line l) = acc @ [l]"
proof (cases "length l \<le> 73")
  case True
  with assms show ?thesis by (simp add: fold_line_def unfold_step_def plain_line_def)
next
  case False
  then have ne: "l \<noteq> []" by auto
  have "fold_chunks True l = take 73 l # fold_chunks False (drop 73 l)"
    using ne by (subst fold_chunks.simps) simp
  moreover have "\<not> is_continuation (take 73 l)"
    using assms ne by (cases l) (auto simp: plain_line_def is_continuation_def starts_with_def)
  ultimately show ?thesis
    using False unfold_chunks [of acc "take 73 l" "drop 73 l"] by (simp add: fold_line_def unfold_step_def)
qed

lemma unfold_fold_lines:
  "list_all plain_line ls \<Longrightarrow> foldl unfold_step acc (concat (map fold_line ls)) = acc @ ls"
  by (induction ls arbitrary: acc) (auto simp: unfold_fold_line)

lemma crlf_plain: "CR \<notin> set p \<Longrightarrow> crlf_to_lf (p @ CR # LF # s) = p @ LF # crlf_to_lf s"
proof (induction p)
  case (Cons a p)
  then show ?case by (cases p) auto
qed simp

lemma normalise_join:
  assumes "ps \<noteq> []" "\<forall>p \<in> set ps. CR \<notin> set p"
  shows "normalise_newlines (join_with [CR, LF] ps @ [CR, LF]) = join_with [LF] (ps @ [[]])"
proof -
  have "crlf_to_lf (join_with [CR, LF] ps @ [CR, LF]) = join_with [LF] (ps @ [[]])"
    using assms
  proof (induction "[CR, LF]" ps rule: join_with.induct)
    case (2 p)
    then show ?case using crlf_plain [of p "[]"] by simp
  next
    case (3 p q ps)
    then show ?case using crlf_plain [of p "join_with [CR, LF] (q # ps) @ [CR, LF]"] by simp
  qed simp
  moreover have "CR \<notin> set (join_with [LF] (ps @ [[]]))"
    using assms(2) by (induction "[LF]" "ps @ [[]]" arbitrary: ps rule: join_with.induct)
      (auto simp: Cons_eq_append_conv append_eq_Cons_conv)
  ultimately show ?thesis
    unfolding normalise_newlines_def by (auto intro!: map_idI)
qed

lemma fold_chunks_set: "\<forall>p \<in> set (fold_chunks f r). set p \<subseteq> insert CHR '' '' (set r)"
proof (induction f r rule: fold_chunks.induct)
  case (1 f r)
  show ?case
  proof (cases "r = []")
    case True
    then show ?thesis by (subst fold_chunks.simps) simp
  next
    case False
    let ?w = "chunk_width f"
    have "\<forall>p \<in> set (fold_chunks False (drop ?w r)). set p \<subseteq> insert CHR '' '' (set r)"
      using 1 [OF False refl refl] set_drop_subset [of ?w r] by blast
    moreover have "fold_chunks f r = (if f then take ?w r else CHR '' '' # take ?w r) # fold_chunks False (drop ?w r)"
      using False by (subst fold_chunks.simps) (simp add: Let_def)
    ultimately show ?thesis using set_take_subset [of ?w r] by auto
  qed
qed

end
