(* ===== verification/Calendar_Roundtrip.thy ===== *)
theory Calendar_Roundtrip
  imports Calendar_Export
begin

text \<open>
  The parser of lib/calendar/ical.ts reads what lib/calendar/calendarExport.ts writes: every line
  survives folding, dates and identifiers survive the text syntax, and the events come back as the
  ranges: any other reader of the format learns exactly the unavailable nights. (An import by this
  program drops them again, see \<open>Calendar_Sync\<close>: they are recognised by their UID.)
\<close>

subsection \<open>Lines\<close>

lemma fold_line_props:
  "fold_line l \<noteq> []" "\<forall>p \<in> set (fold_line l). set p \<subseteq> insert CHR '' '' (set l)"
proof -
  show "fold_line l \<noteq> []"
    by (cases "l = []") (auto simp: fold_line_def fold_chunks.simps)
  show "\<forall>p \<in> set (fold_line l). set p \<subseteq> insert CHR '' '' (set l)"
    using fold_chunks_set [of True l] by (auto simp: fold_line_def)
qed

lemma unfold_calendar:
  assumes "list_all plain_line ls" "ls \<noteq> []"
  shows "unfold_lines (join_with [CR, LF] (concat (map fold_line ls)) @ [CR, LF]) = ls @ [[]]"
proof -
  let ?ps = "concat (map fold_line ls)"
  have cl: "CR \<notin> set p \<and> LF \<notin> set p" if "p \<in> set ?ps" for p
  proof -
    from that obtain l where "l \<in> set ls" "p \<in> set (fold_line l)" by auto
    with fold_line_props(2) [of l] assms(1) show ?thesis by (auto simp: list_all_iff plain_line_def)
  qed
  have ne: "?ps \<noteq> []" using assms(2) fold_line_props(1) by (cases ls) auto
  have "normalise_newlines (join_with [CR, LF] ?ps @ [CR, LF]) = join_with [LF] (?ps @ [[]])"
    by (rule normalise_join [OF ne]) (use cl in blast)
  moreover have "split_on LF (join_with [LF] (?ps @ [[]])) = ?ps @ [[]]"
    by (rule split_on_join) (use cl in auto)
  moreover have "foldl unfold_step ls [[]] = ls @ [[]]"
    by (simp add: unfold_step_def is_continuation_def starts_with_def)
  ultimately show ?thesis
    using unfold_fold_lines [OF assms(1), of "[]"] by (simp add: unfold_lines_def)
qed

lemma trim_end_Cons: "\<not> js_space c \<Longrightarrow> \<exists>t. trim_end (c # s) = c # t"
proof (induction s rule: rev_induct)
  case (snoc x s)
  then show ?case
    by (cases "js_space x") (auto simp: trim_end_def)
qed (simp add: trim_end_def)

text \<open>What a line that starts with some other letter cannot be.\<close>

lemma marker_Cons:
  assumes "\<not> js_space c"
  shows "\<exists>t. to_upper (js_trim (trim_end (c # s))) = upper_char c # t"
proof -
  obtain t where "trim_end (c # s) = c # t" using trim_end_Cons [OF assms] by blast
  moreover obtain u where "trim_end (c # t) = c # u" using trim_end_Cons [OF assms] by blast
  ultimately show ?thesis using assms by (simp add: js_trim_def trim_start_def to_upper_def)
qed

definition other_letter :: "char \<Rightarrow> bool" where
  "other_letter c \<longleftrightarrow> \<not> js_space c \<and> upper_char c \<noteq> CHR ''B'' \<and> upper_char c \<noteq> CHR ''E''"

lemma marker_other:
  assumes "other_letter c"
  shows "to_upper (js_trim (trim_end (c # s))) \<noteq> ''BEGIN:VEVENT''"
    "to_upper (js_trim (trim_end (c # s))) \<noteq> ''END:VEVENT''"
  using marker_Cons [of c s] assms by (auto simp: other_letter_def)

lemma scan_outside: "other_letter c \<Longrightarrow> scan_line (c # s) (es, None) = Inr (es, None)"
  by (simp add: scan_line_def Let_def marker_other)

lemma scan_inside:
  assumes "other_letter c" "\<not> js_space (last (c # s))"
  shows "scan_line (c # s) (es, Some p) =
    map_sum id (\<lambda>q. (es, Some q)) (read_property (split_content_line (c # s)) p)"
proof -
  have t: "trim_end (c # s) = c # s" using assms(2) by (intro trim_end_id) blast
  from marker_other [OF assms(1), of s] show ?thesis by (simp add: scan_line_def Let_def t)
qed

lemma scan_lines_append:
  "scan_lines (xs @ ys) st = (case scan_lines xs st of Inl e \<Rightarrow> Inl e | Inr st' \<Rightarrow> scan_lines ys st')"
  by (induction xs arbitrary: st) (auto split: sum.split)

subsection \<open>Dates and identifiers\<close>

lemma compact_date_eq:
  "civil_of_day z = (y, m, d) \<Longrightarrow> compact_date z = pad4 y @ pad2 m @ pad2 d"
proof -
  have id: "filter (\<lambda>c. c \<noteq> CHR ''-'') s = s" if "list_all is_digit s" for s
    using that digit_not_dash by (auto simp: list_all_iff filter_id_conv)
  assume "civil_of_day z = (y, m, d)"
  then show ?thesis
    by (simp add: compact_date_def iso_date_def iso_text_def id pad2_digits pad4_digits)
qed

lemma real_date_iso: "four_digit_year z \<Longrightarrow> real_date (iso_date z) = Some z"
proof -
  assume f: "four_digit_year z"
  obtain y m d where z: "civil_of_day z = (y, m, d)" by (cases "civil_of_day z")
  note v = epoch_day_of_civil [OF z]
  from valid_civil_ranges [OF v(1)] have "js_date_utc y m d = Some (day_ms z)"
    by (simp add: js_date_utc_def v(2) [symmetric] epoch_day_def)
  then show ?thesis
    by (simp add: real_date_def iso_date_parse [OF f] z day_of_ms_def day_ms_def)
qed

lemma compact_digits: "list_all is_digit (compact_date z)" "length (compact_date z) = 8"
  by (cases "civil_of_day z"; simp add: compact_date_eq pad2_digits pad4_digits)+

lemma parse_compact_date: "four_digit_year z \<Longrightarrow> parse_calendar_date (compact_date z) f = Inr z"
proof -
  assume z: "four_digit_year z"
  obtain y m d where c: "civil_of_day z = (y, m, d)" by (cases "civil_of_day z")
  have "join_with ''-'' [take 4 (compact_date z), take 2 (drop 4 (compact_date z)), take 2 (drop 6 (compact_date z))] =
      iso_date z"
    by (simp add: compact_date_eq [OF c] iso_date_def c iso_text_def)
  with compact_digits [of z] real_date_iso [OF z] show ?thesis
    by (simp add: parse_calendar_date_def digits_trim)
qed

lemma replace_escape_id: "BSL \<notin> set s \<Longrightarrow> replace_escape P r s = s"
  by (induction P r s rule: replace_escape.induct) auto

lemma unescape_plain: "BSL \<notin> set s \<Longrightarrow> unescape_text s = js_trim s"
  by (simp add: unescape_text_def replace_escape_id)

subsection \<open>One event\<close>

definition plain_id :: "uuid \<Rightarrow> bool" where
  "plain_id pid \<longleftrightarrow> BSL \<notin> set pid \<and> CR \<notin> set pid \<and> LF \<notin> set pid \<and> length pid \<le> 400"

definition range_ok :: "date_range \<Rightarrow> bool" where
  "range_ok r \<longleftrightarrow> dr_starts r < dr_ends r \<and> four_digit_year (dr_starts r) \<and> four_digit_year (dr_ends r)"

definition event_of :: "uuid \<Rightarrow> date_range \<Rightarrow> calendar_event" where
  "event_of pid r =
     \<lparr>ce_key = range_uid pid r, ce_uid = range_uid pid r, ce_starts = dr_starts r, ce_ends = dr_ends r,
      ce_summary = Some ''Unavailable''\<rparr>"

lemma iso_date_chars:
  "length (iso_date z) = 10" "\<forall>c \<in> set (iso_date z). is_digit c \<or> c = CHR ''-''"
proof -
  obtain y m d where z: "civil_of_day z = (y, m, d)" by (cases "civil_of_day z")
  show "length (iso_date z) = 10" by (simp add: iso_date_def z)
  show "\<forall>c \<in> set (iso_date z). is_digit c \<or> c = CHR ''-''"
    using pad2_digits pad4_digits by (auto simp: iso_date_def z iso_text_def list_all_iff)
qed

lemma not_digit [simp]: "\<not> is_digit BSL" "\<not> is_digit CR" "\<not> is_digit LF" "\<not> is_digit CHR '':''" "\<not> is_digit CHR '';''"
  by (simp_all add: is_digit_def)

lemma iso_date_plain: "BSL \<notin> set (iso_date z)" "CR \<notin> set (iso_date z)" "LF \<notin> set (iso_date z)"
  using iso_date_chars(2) [of z] not_digit by fastforce+

lemma range_uid_plain:
  assumes "plain_id pid"
  shows "BSL \<notin> set (range_uid pid r)" "CR \<notin> set (range_uid pid r)" "LF \<notin> set (range_uid pid r)"
    "length (range_uid pid r) \<le> 500" "range_uid pid r \<noteq> []"
    "unescape_text (range_uid pid r) = range_uid pid r" "\<not> js_space (last (range_uid pid r))"
proof -
  show b: "BSL \<notin> set (range_uid pid r)" "CR \<notin> set (range_uid pid r)" "LF \<notin> set (range_uid pid r)"
    using assms iso_date_plain by (auto simp: range_uid_def plain_id_def)
  show "length (range_uid pid r) \<le> 500" "range_uid pid r \<noteq> []"
    using assms by (simp_all add: range_uid_def plain_id_def iso_date_chars)
  show "\<not> js_space (last (range_uid pid r))" by (simp add: range_uid_def js_space_def)
  then have "js_trim (range_uid pid r) = range_uid pid r"
    by (intro js_trim_id) (simp add: range_uid_def js_space_def)
  with b(1) show "unescape_text (range_uid pid r) = range_uid pid r" by (simp add: unescape_plain)
qed

lemma finish_range:
  assumes "plain_id pid" "range_ok r"
  shows "finish_event \<lparr>pe_uid = Some (range_uid pid r), pe_recurrence = None, pe_starts = Some (dr_starts r),
    pe_ends = Some (dr_ends r), pe_summary = Some ''Unavailable'', pe_status = Some ''CONFIRMED'',
    pe_recurring = False\<rparr> = Inr (Some (event_of pid r))"
proof -
  have u: "unescape_text [] = []" "unescape_text ''Unavailable'' = ''Unavailable''"
    "to_upper ''CONFIRMED'' \<noteq> ''CANCELLED''" by code_simp+
  show ?thesis
    using assms(2) range_uid_plain(4-6) [OF assms(1), of r] u
    by (simp add: finish_event_def text_or_empty_def event_of_def range_ok_def Let_def)
qed

lemma other_letters: "other_letter CHR ''U''" "other_letter CHR ''D''" "other_letter CHR ''S''" "other_letter CHR ''T''"
    "other_letter CHR ''V''" "other_letter CHR ''P''" "other_letter CHR ''C''" "other_letter CHR ''M''" "other_letter CHR ''X''"
  by code_simp+

lemma split_line_names:
  "split_content_line (''UID:'' @ v) = \<lparr>cl_name = ''UID'', cl_value = v\<rparr>"
  "split_content_line (''DTSTAMP:'' @ v) = \<lparr>cl_name = ''DTSTAMP'', cl_value = v\<rparr>"
  "split_content_line (''DTSTART;VALUE=DATE:'' @ v) = \<lparr>cl_name = ''DTSTART'', cl_value = v\<rparr>"
  "split_content_line (''DTEND;VALUE=DATE:'' @ v) = \<lparr>cl_name = ''DTEND'', cl_value = v\<rparr>"
  "split_content_line ''STATUS:CONFIRMED'' = \<lparr>cl_name = ''STATUS'', cl_value = ''CONFIRMED''\<rparr>"
  "split_content_line ''TRANSP:OPAQUE'' = \<lparr>cl_name = ''TRANSP'', cl_value = ''OPAQUE''\<rparr>"
  "split_content_line ''SUMMARY:Unavailable'' = \<lparr>cl_name = ''SUMMARY'', cl_value = ''Unavailable''\<rparr>"
proof -
  have up: "to_upper ''UID'' = ''UID''" "to_upper ''DTSTAMP'' = ''DTSTAMP''" "to_upper ''DTSTART'' = ''DTSTART''"
    "to_upper ''DTEND'' = ''DTEND''" by code_simp+
  show "split_content_line (''UID:'' @ v) = \<lparr>cl_name = ''UID'', cl_value = v\<rparr>"
    "split_content_line (''DTSTAMP:'' @ v) = \<lparr>cl_name = ''DTSTAMP'', cl_value = v\<rparr>"
    "split_content_line (''DTSTART;VALUE=DATE:'' @ v) = \<lparr>cl_name = ''DTSTART'', cl_value = v\<rparr>"
    "split_content_line (''DTEND;VALUE=DATE:'' @ v) = \<lparr>cl_name = ''DTEND'', cl_value = v\<rparr>"
    using up by (simp_all add: split_content_line_def)
  show "split_content_line ''STATUS:CONFIRMED'' = \<lparr>cl_name = ''STATUS'', cl_value = ''CONFIRMED''\<rparr>"
    "split_content_line ''TRANSP:OPAQUE'' = \<lparr>cl_name = ''TRANSP'', cl_value = ''OPAQUE''\<rparr>"
    "split_content_line ''SUMMARY:Unavailable'' = \<lparr>cl_name = ''SUMMARY'', cl_value = ''Unavailable''\<rparr>"
    by code_simp+
qed

lemma scan_begin: "scan_line ''BEGIN:VEVENT'' (es, None) = Inr (es, Some fresh_event)"
proof -
  have "to_upper (js_trim (trim_end ''BEGIN:VEVENT'')) = ''BEGIN:VEVENT''" by code_simp
  then show ?thesis by (simp add: scan_line_def Let_def)
qed

lemma scan_end:
  assumes "finish_event p = Inr (Some e)" "length (put_event e es) \<le> max_ical_events"
  shows "scan_line ''END:VEVENT'' (es, Some p) = Inr (put_event e es, None)"
proof -
  have "to_upper (js_trim (trim_end ''END:VEVENT'')) = ''END:VEVENT''" by code_simp
  with assms show ?thesis by (simp add: scan_line_def Let_def)
qed

lemma generated_at_last: "last (generated_at now) = CHR ''Z''" "generated_at now \<noteq> []"
  by (simp_all add: generated_at_def Let_def)

lemma compact_last: "compact_date z \<noteq> []" "\<not> js_space (last (compact_date z))"
proof -
  show n: "compact_date z \<noteq> []" using compact_digits(2) [of z] by auto
  show "\<not> js_space (last (compact_date z))"
    using compact_digits(1) [of z] last_in_set [OF n] digit_not_dash(2) by (auto simp: list_all_iff)
qed

lemma scan_range:
  assumes "plain_id pid" "range_ok r" "length (put_event (event_of pid r) es) \<le> max_ical_events"
  shows "scan_lines (range_lines now pid r) (es, None) = Inr (put_event (event_of pid r) es, None)"
proof -
  have step: "scan_line (c # s) (es, Some p) =
      map_sum id (\<lambda>q. (es, Some q)) (read_property (split_content_line (c # s)) p)"
    if "other_letter c" "\<not> js_space (last (c # s))" for c s p
    using scan_inside [OF that] .
  have l: "\<not> js_space CHR ''Z''" "\<not> js_space CHR ''D''" "\<not> js_space CHR ''E''" "\<not> js_space CHR ''e''"
    by (simp_all add: js_space_def)
  have uid: "scan_line (''UID:'' @ range_uid pid r) (es, Some p) = Inr (es, Some (p\<lparr>pe_uid := Some (range_uid pid r)\<rparr>))" for p
    using step [of "CHR ''U''" "''ID:'' @ range_uid pid r" p] range_uid_plain(5,7) [OF assms(1), of r]
      split_line_names(1) [of "range_uid pid r"]
    by (simp add: other_letters read_property_def)
  have stamp: "scan_line (''DTSTAMP:'' @ generated_at now) (es, Some p) = Inr (es, Some p)" for p
    using step [of "CHR ''D''" "''TSTAMP:'' @ generated_at now" p] split_line_names(2) [of "generated_at now"]
    by (simp add: other_letters read_property_def generated_at_last l)
  have start: "scan_line (''DTSTART;VALUE=DATE:'' @ compact_date (dr_starts r)) (es, Some p) =
      Inr (es, Some (p\<lparr>pe_starts := Some (dr_starts r)\<rparr>))" for p
    using step [of "CHR ''D''" "''TSTART;VALUE=DATE:'' @ compact_date (dr_starts r)" p]
      split_line_names(3) [of "compact_date (dr_starts r)"] assms(2)
    by (simp add: other_letters read_property_def compact_last parse_compact_date range_ok_def)
  have stop: "scan_line (''DTEND;VALUE=DATE:'' @ compact_date (dr_ends r)) (es, Some p) =
      Inr (es, Some (p\<lparr>pe_ends := Some (dr_ends r)\<rparr>))" for p
    using step [of "CHR ''D''" "''TEND;VALUE=DATE:'' @ compact_date (dr_ends r)" p]
      split_line_names(4) [of "compact_date (dr_ends r)"] assms(2)
    by (simp add: other_letters read_property_def compact_last parse_compact_date range_ok_def)
  have rest: "scan_line ''STATUS:CONFIRMED'' (es, Some p) = Inr (es, Some (p\<lparr>pe_status := Some ''CONFIRMED''\<rparr>))"
    "scan_line ''TRANSP:OPAQUE'' (es, Some p) = Inr (es, Some p)"
    "scan_line ''SUMMARY:Unavailable'' (es, Some p) = Inr (es, Some (p\<lparr>pe_summary := Some ''Unavailable''\<rparr>))" for p
    using step [of "CHR ''S''" "''TATUS:CONFIRMED''" p] step [of "CHR ''T''" "''RANSP:OPAQUE''" p]
      step [of "CHR ''S''" "''UMMARY:Unavailable''" p] split_line_names(5-7)
    by (simp_all add: other_letters read_property_def l)
  show ?thesis
    unfolding range_lines_def scan_lines.simps scan_begin sum.case fresh_event_def uid stamp start stop rest
    using scan_end [OF finish_range [OF assms(1,2)] assms(3)] by simp
qed

lemma put_event_new: "ce_key e \<notin> ce_key ` set es \<Longrightarrow> put_event e es = es @ [e]"
  by (induction es) auto

lemma scan_ranges:
  assumes "plain_id pid" "list_all range_ok rs" "distinct (map ce_key (es @ map (event_of pid) rs))"
    "length es + length rs \<le> max_ical_events"
  shows "scan_lines (concat (map (range_lines now pid) rs)) (es, None) = Inr (es @ map (event_of pid) rs, None)"
  using assms(2-4)
proof (induction rs arbitrary: es)
  case (Cons r rs)
  have put: "put_event (event_of pid r) es = es @ [event_of pid r]"
    using Cons.prems(2) by (intro put_event_new) auto
  have "scan_lines (range_lines now pid r) (es, None) = Inr (es @ [event_of pid r], None)"
    using scan_range [OF assms(1), of r es now] Cons.prems by (simp add: put)
  moreover have "scan_lines (concat (map (range_lines now pid) rs)) (es @ [event_of pid r], None) =
      Inr ((es @ [event_of pid r]) @ map (event_of pid) rs, None)"
    using Cons.prems by (intro Cons.IH) simp_all
  ultimately show ?case by (simp add: scan_lines_append)
qed simp

subsection \<open>The whole file\<close>

lemma put_backslash_set: "set (put_backslash c s) \<subseteq> insert BSL (set s)"
  by (auto simp: put_backslash_def)

lemma escape_newlines_set:
  "LF \<notin> set (escape_newlines s)" "CR \<notin> set s \<Longrightarrow> CR \<notin> set (escape_newlines s)"
  by (induction s rule: escape_newlines.induct) auto

lemma escape_ical_text_plain:
  assumes "CR \<notin> set v"
  shows "CR \<notin> set (escape_ical_text v)" "LF \<notin> set (escape_ical_text v)"
proof -
  define w where "w = escape_newlines (put_backslash BSL v)"
  have "CR \<notin> set (put_backslash BSL v)" using put_backslash_set [of BSL v] assms by auto
  then have "CR \<notin> set w" "LF \<notin> set w" by (simp_all add: w_def escape_newlines_set)
  then show "CR \<notin> set (escape_ical_text v)" "LF \<notin> set (escape_ical_text v)"
    using put_backslash_set [of "CHR '','' " w] put_backslash_set [of "CHR '';'' " "put_backslash CHR '','' w"]
    unfolding escape_ical_text_def w_def [symmetric] by auto
qed

lemma plain_other_letter: "other_letter c \<Longrightarrow> CR \<notin> set s \<Longrightarrow> LF \<notin> set s \<Longrightarrow> plain_line (c # s)"
  by (auto simp: plain_line_def is_continuation_def starts_with_def other_letter_def js_space_def)

lemma digits_plain: "list_all is_digit s \<Longrightarrow> CR \<notin> set s \<and> LF \<notin> set s"
  by (auto simp: list_all_iff)

lemma generated_at_plain: "CR \<notin> set (generated_at now)" "LF \<notin> set (generated_at now)"
proof -
  have d: "0 \<le> now mod ms_per_day mod 1000 div 100" "now mod ms_per_day mod 1000 div 100 \<le> 9" by simp_all
  have p: "CR \<notin> set (pad2 n)" "LF \<notin> set (pad2 n)" for n using digits_plain [OF pad2_digits] by blast+
  have c: "digit_char (now mod ms_per_day mod 1000 div 100) \<noteq> CR" "digit_char (now mod ms_per_day mod 1000 div 100) \<noteq> LF"
    using digit_char_props(1) [OF d] by auto
  have "CR \<notin> set (iso_instant now)" "LF \<notin> set (iso_instant now)"
    using iso_date_plain(2,3) p c by (simp_all add: iso_instant_def Let_def)
  then show "CR \<notin> set (generated_at now)" "LF \<notin> set (generated_at now)"
    by (auto simp: generated_at_def Let_def dest: in_set_takeD)
qed

lemma calendar_lines_plain:
  assumes "plain_id pid" "CR \<notin> set name"
  shows "list_all plain_line (calendar_lines now pid name rs)"
proof -
  have h: "list_all plain_line (calendar_head name)"
    using escape_ical_text_plain [of "''HOST - '' @ name"] assms(2)
    by (simp add: calendar_head_def plain_line_def is_continuation_def starts_with_def)
  have "plain_line l" if "l \<in> set (range_lines now pid r)" for l r
    using that range_uid_plain(2,3) [OF assms(1), of r] generated_at_plain [of now]
      digits_plain [OF compact_digits(1)]
    by (auto simp: range_lines_def plain_line_def is_continuation_def starts_with_def)
  moreover have "plain_line ''END:VCALENDAR''" by (simp add: plain_line_def is_continuation_def starts_with_def)
  ultimately show ?thesis using h unfolding calendar_lines_def list_all_iff by auto
qed

lemma scan_head: "scan_lines (calendar_head name) (es, None) = Inr (es, None)"
proof -
  have b: "to_upper (js_trim (trim_end ''BEGIN:VCALENDAR'')) \<notin> {''BEGIN:VEVENT'', ''END:VEVENT''}" by code_simp
  then have "scan_line ''BEGIN:VCALENDAR'' (es, None) = Inr (es, None)" by (simp add: scan_line_def Let_def)
  then show ?thesis by (simp add: calendar_head_def scan_outside other_letters)
qed

lemma scan_tail: "scan_lines [''END:VCALENDAR'', []] (es, None) = Inr (es, None)"
proof -
  have "to_upper (js_trim (trim_end ''END:VCALENDAR'')) \<notin> {''BEGIN:VEVENT'', ''END:VEVENT''}"
    "to_upper (js_trim (trim_end [])) \<notin> {''BEGIN:VEVENT'', ''END:VEVENT''}" by code_simp+
  then show ?thesis by (simp add: scan_line_def Let_def)
qed

lemma insert_event_front:
  assumes "\<forall>x \<in> set es. ce_starts e < ce_starts x"
  shows "insert_event c e es = e # es"
  using assms by (cases es) (auto simp: event_before_def)

lemma sort_events_id: "sorted_wrt (\<lambda>a b. ce_starts a < ce_starts b) es \<Longrightarrow> sort_events c es = es"
proof (induction es)
  case (Cons e es)
  have "sort_events c (e # es) = insert_event c e (sort_events c es)" by (simp add: sort_events_def)
  with Cons show ?case by (simp add: insert_event_front)
qed (simp add: sort_events_def)

lemma range_uid_inj:
  assumes "range_ok a" "range_ok b" "range_uid pid a = range_uid pid b"
  shows "dr_starts a = dr_starts b"
  using assms by (auto simp: range_uid_def range_ok_def iso_date_chars iso_date_inj)

lemma ranges_sorted:
  assumes "ranges_ok rs"
  shows "sorted_wrt (\<lambda>a b. dr_starts a < dr_starts b) rs"
proof -
  have "sorted_wrt (\<lambda>a b. dr_ends a < dr_starts b) rs" "\<forall>r \<in> set rs. dr_starts r < dr_ends r"
    using assms by (auto simp: ranges_ok_def list_all_iff)
  then show ?thesis by (induction rs) fastforce+
qed

lemma distinct_uids:
  assumes "ranges_ok rs" "list_all range_ok rs"
  shows "distinct (map (range_uid pid) rs)"
  using ranges_sorted [OF assms(1)] assms(2)
proof (induction rs)
  case (Cons r rs)
  have "range_uid pid r \<noteq> range_uid pid x" if "x \<in> set rs" for x
    using that Cons.prems range_uid_inj [of r x pid] by (auto simp: list_all_iff)
  with Cons show ?case by auto
qed simp

lemma parse_built:
  assumes "plain_id pid" "CR \<notin> set name" "ranges_ok rs" "list_all range_ok rs" "length rs \<le> max_ical_events"
    "utf8_length (build_calendar now pid name rs) \<le> max_ical_bytes"
  shows "parse_icalendar c (build_calendar now pid name rs) = Inr (map (event_of pid) rs)"
proof -
  let ?ls = "calendar_lines now pid name rs"
  have un: "unfold_lines (build_calendar now pid name rs) = ?ls @ [[]]"
    unfolding build_calendar_def
    by (rule unfold_calendar [OF calendar_lines_plain [OF assms(1,2)]]) (simp add: calendar_lines_def)
  have keys: "ce_key \<circ> event_of pid = range_uid pid" by (simp add: fun_eq_iff event_of_def)
  have "scan_lines (concat (map (range_lines now pid) rs)) ([], None) = Inr ([] @ map (event_of pid) rs, None)"
    by (rule scan_ranges [OF assms(1,4)]) (use distinct_uids [OF assms(3,4)] keys assms(5) in simp_all)
  then have "scan_lines (?ls @ [[]]) ([], None) = Inr (map (event_of pid) rs, None)"
    using scan_tail by (simp add: calendar_lines_def scan_lines_append scan_head)
  moreover have "list_ex (\<lambda>l. to_upper (js_trim l) = ''BEGIN:VCALENDAR'') (?ls @ [[]])"
  proof -
    have "to_upper (js_trim ''BEGIN:VCALENDAR'') = ''BEGIN:VCALENDAR''" by code_simp
    then show ?thesis by (simp add: calendar_lines_def calendar_head_def)
  qed
  moreover have "sort_events c (map (event_of pid) rs) = map (event_of pid) rs"
    using ranges_sorted [OF assms(3)] by (intro sort_events_id) (simp add: sorted_wrt_map event_of_def)
  ultimately show ?thesis
    using assms(6) by (simp add: parse_icalendar_def un)
qed

end
