(* ===== verification/Safe_Fetch.thy ===== *)
theory Safe_Fetch
  imports Keys Js_Number
begin

text \<open>
  Fetching an external calendar without being led into a private network
  (lib/calendar/safeCalendarFetch.ts): the address filter, the check of a URL, the bounded reading of
  the body and the loop that follows redirects by hand. What node provides is an argument: the URL
  parser, name resolution, \<open>net.isIP\<close> and the request itself; each may answer differently at every
  hop. Shown: the filter of IPv4 addresses is membership in twelve address blocks, every URL
  requested has passed the check at its own hop, and there are at most four requests.
\<close>

subsection \<open>Numbers in texts\<close>

datatype js_num = NaN | Infinite | Finite rat

definition finite_num :: "rat \<Rightarrow> js_num" where
  "finite_num q = (if 2 ^ 1024 - 2 ^ 970 \<le> \<bar>q\<bar> then Infinite else Finite (fl q))"

definition exponent_part :: "js_string \<Rightarrow> int option" where
  "exponent_part s =
     (case s of
        [] \<Rightarrow> Some 0
      | c # t \<Rightarrow>
          if c \<noteq> CHR ''e'' \<and> c \<noteq> CHR ''E'' then None
          else
            let digits = (if starts_with ''+'' t \<or> starts_with ''-'' t then drop 1 t else t)
            in if digits = [] \<or> \<not> list_all is_digit digits then None
               else Some (if starts_with ''-'' t then - digits_value digits 0 else digits_value digits 0))"

definition power_of_ten :: "int \<Rightarrow> rat" where
  "power_of_ten e = (if 0 \<le> e then 10 ^ nat e else 1 / 10 ^ nat (- e))"

definition decimal_value :: "js_string \<Rightarrow> rat option" where
  "decimal_value s =
     (let whole = takeWhile is_digit s; rest = dropWhile is_digit s;
          pointed = starts_with ''.'' rest;
          fraction = (if pointed then takeWhile is_digit (drop 1 rest) else []);
          tail = (if pointed then dropWhile is_digit (drop 1 rest) else rest)
      in if whole = [] \<and> fraction = [] then None
         else map_option (\<lambda>e. (of_int (digits_value whole 0) +
                of_int (digits_value fraction 0) / 10 ^ length fraction) * power_of_ten e)
              (exponent_part tail))"

definition radix_digit :: "char \<Rightarrow> int" where
  "radix_digit c =
     (let l = lower_char c
      in if is_digit l then digit_value l
         else if 97 \<le> code l \<and> code l \<le> 122 then int (code l) - 87 else 36)"

fun radix_value :: "int \<Rightarrow> js_string \<Rightarrow> int \<Rightarrow> int" where
  "radix_value r [] acc = acc"
| "radix_value r (c # s) acc = radix_value r s (r * acc + radix_digit c)"

definition radix_of :: "js_string \<Rightarrow> int option" where
  "radix_of s =
     (let p = to_lower (take 2 s)
      in if p = ''0x'' then Some 16 else if p = ''0o'' then Some 8 else if p = ''0b'' then Some 2 else None)"

text \<open>\<open>Number(s)\<close> of a string.\<close>

definition js_number :: "js_string \<Rightarrow> js_num" where
  "js_number s =
     (let t = js_trim s
      in if t = [] then Finite 0
         else case radix_of t of
           Some r \<Rightarrow>
             let digits = drop 2 t
             in if digits = [] \<or> list_ex (\<lambda>c. r \<le> radix_digit c) digits then NaN
                else finite_num (of_int (radix_value r digits 0))
         | None \<Rightarrow>
             let signed = starts_with ''+'' t \<or> starts_with ''-'' t; u = (if signed then drop 1 t else t)
             in if u = ''Infinity'' then Infinite
                else case decimal_value u of
                  None \<Rightarrow> NaN
                | Some q \<Rightarrow> finite_num (if starts_with ''-'' t then - q else q))"

text \<open>\<open>Number.parseInt(s, 16)\<close>: the longest hexadecimal prefix, \<open>None\<close> for \<open>NaN\<close>.\<close>

definition parse_int16 :: "js_string \<Rightarrow> int option" where
  "parse_int16 s =
     (let t = trim_start s;
          u = (if starts_with ''+'' t \<or> starts_with ''-'' t then drop 1 t else t);
          v = (if to_lower (take 2 u) = ''0x'' then drop 2 u else u);
          digits = takeWhile (\<lambda>c. radix_digit c < 16) v
      in if digits = [] then None
         else Some (if starts_with ''-'' t then - radix_value 16 digits 0 else radix_value 16 digits 0))"

subsection \<open>Addresses\<close>

definition strip_suffix :: "char \<Rightarrow> js_string \<Rightarrow> js_string" where
  "strip_suffix c s = (if ends_with [c] s then butlast s else s)"

definition normalize_hostname :: "js_string \<Rightarrow> js_string" where
  "normalize_hostname h =
     (let l = to_lower h; a = (if starts_with ''['' l then drop 1 l else l)
      in strip_suffix CHR ''.'' (strip_suffix CHR '']'' a))"

definition octet :: "js_string \<Rightarrow> int option" where
  "octet part =
     (case js_number part of
        Finite q \<Rightarrow> if of_int \<lfloor>q\<rfloor> = q \<and> 0 \<le> q \<and> q \<le> 255 then Some \<lfloor>q\<rfloor> else None
      | _ \<Rightarrow> None)"

definition parse_ipv4 :: "js_string \<Rightarrow> int list option" where
  "parse_ipv4 address =
     (let parts = split_on CHR ''.'' address
      in if length parts \<noteq> 4 then None
         else if list_ex (\<lambda>p. octet p = None) parts then None else Some (map (\<lambda>p. the (octet p)) parts))"

definition blocked_quad :: "int \<Rightarrow> int \<Rightarrow> int \<Rightarrow> bool" where
  "blocked_quad a b c \<longleftrightarrow>
     a = 0 \<or> a = 10 \<or> a = 127 \<or> (a = 100 \<and> 64 \<le> b \<and> b \<le> 127) \<or> (a = 169 \<and> b = 254) \<or>
     (a = 172 \<and> 16 \<le> b \<and> b \<le> 31) \<or> (a = 192 \<and> b = 0) \<or> (a = 192 \<and> b = 168) \<or>
     (a = 192 \<and> b = 0 \<and> c = 2) \<or> (a = 198 \<and> (b = 18 \<or> b = 19)) \<or>
     (a = 198 \<and> b = 51 \<and> c = 100) \<or> (a = 203 \<and> b = 0 \<and> c = 113) \<or> 224 \<le> a"

definition is_blocked_ipv4 :: "js_string \<Rightarrow> bool" where
  "is_blocked_ipv4 address =
     (case parse_ipv4 address of
        Some [a, b, c, d] \<Rightarrow> blocked_quad a b c
      | _ \<Rightarrow> True)"

definition is_blocked_ipv6 :: "js_string \<Rightarrow> bool" where
  "is_blocked_ipv6 address =
     (let n = hd (split_on CHR ''%'' (to_lower address))
      in if n = ''::'' \<or> n = ''::1'' then True
         else if starts_with ''::ffff:'' n then is_blocked_ipv4 (drop 7 n)
         else
           let segment = hd (split_on CHR '':'' n)
           in case parse_int16 (if segment = [] then ''0'' else segment) of
                None \<Rightarrow> True
              | Some v \<Rightarrow>
                  (0xfc00 \<le> v \<and> v \<le> 0xfdff) \<or> (0xfe80 \<le> v \<and> v \<le> 0xfebf) \<or>
                  (0xff00 \<le> v \<and> v \<le> 0xffff) \<or> starts_with ''2001:db8:'' n)"

text \<open>\<open>is_ip\<close> is node's \<open>net.isIP\<close>: 4, 6, or 0 for anything that is no address.\<close>

definition is_blocked_network_address :: "(js_string \<Rightarrow> nat) \<Rightarrow> js_string \<Rightarrow> bool" where
  "is_blocked_network_address is_ip address =
     (if is_ip address = 4 then is_blocked_ipv4 address
      else if is_ip address = 6 then is_blocked_ipv6 address
      else True)"

subsection \<open>The check of a URL\<close>

record url =
  url_protocol :: js_string
  url_username :: js_string
  url_password :: js_string
  url_port :: js_string
  url_hostname :: js_string
  url_text :: js_string

datatype fetch_error =
  Invalid_url | Not_https | Has_credentials | Wrong_port | Host_not_allowed | Not_resolved
| Private_network | Response_too_large | Not_reachable | Too_many_redirects | Invalid_redirect
| Redirect_not_a_url | Http_status int | Web_page

definition local_hostname :: "js_string \<Rightarrow> bool" where
  "local_hostname h \<longleftrightarrow>
     h = [] \<or> h = ''localhost'' \<or> ends_with ''.localhost'' h \<or> ends_with ''.local'' h \<or>
     ends_with ''.internal'' h \<or> ends_with ''.lan'' h"

definition addresses_of ::
  "(js_string \<Rightarrow> nat) \<Rightarrow> (js_string \<Rightarrow> js_string list option) \<Rightarrow> js_string \<Rightarrow> js_string list option" where
  "addresses_of is_ip resolver h = (if is_ip h \<noteq> 0 then Some [h] else resolver h)"

definition assert_safe_url ::
  "(js_string \<Rightarrow> url option) \<Rightarrow> (js_string \<Rightarrow> nat) \<Rightarrow> (js_string \<Rightarrow> js_string list option) \<Rightarrow> js_string \<Rightarrow>
    fetch_error + url" where
  "assert_safe_url parse_url is_ip resolver raw =
     (case parse_url raw of
        None \<Rightarrow> Inl Invalid_url
      | Some u \<Rightarrow>
          if url_protocol u \<noteq> ''https:'' then Inl Not_https
          else if url_username u \<noteq> [] \<or> url_password u \<noteq> [] then Inl Has_credentials
          else if url_port u \<noteq> [] \<and> url_port u \<noteq> ''443'' then Inl Wrong_port
          else
            let h = normalize_hostname (url_hostname u)
            in if local_hostname h then Inl Host_not_allowed
               else case addresses_of is_ip resolver h of
                 None \<Rightarrow> Inl Not_resolved
               | Some addresses \<Rightarrow>
                   if addresses = [] then Inl Not_resolved
                   else if list_ex (is_blocked_network_address is_ip) addresses then Inl Private_network
                   else Inr u)"

subsection \<open>The response\<close>

abbreviation max_calendar_bytes :: int where
  "max_calendar_bytes \<equiv> 2 * 1024 * 1024"

abbreviation max_redirects :: nat where
  "max_redirects \<equiv> 3"

record response =
  rs_status :: int
  rs_etag :: "js_string option"
  rs_modified :: "js_string option"
  rs_location :: "js_string option"
  rs_type :: "js_string option"
  rs_length :: "js_string option"
  rs_body :: "nat list list option"

text \<open>The chunks of the body as they arrive; reading stops at the first that exceeds the limit.\<close>

fun read_chunks :: "nat list list \<Rightarrow> int \<Rightarrow> nat list list \<Rightarrow> fetch_error + nat list" where
  "read_chunks [] seen chunks = Inr (concat chunks)"
| "read_chunks (c # cs) seen chunks =
     (let seen' = seen + int (length c)
      in if max_calendar_bytes < seen' then Inl Response_too_large
         else read_chunks cs seen' (chunks @ [c]))"

definition read_limited_body :: "(nat list \<Rightarrow> js_string) \<Rightarrow> response \<Rightarrow> fetch_error + js_string" where
  "read_limited_body decode r =
     (let declared = js_number (case rs_length r of None \<Rightarrow> ''0'' | Some t \<Rightarrow> t);
          large = (case declared of Finite q \<Rightarrow> of_int max_calendar_bytes < q | _ \<Rightarrow> False)
      in if large then Inl Response_too_large
         else case rs_body r of
           None \<Rightarrow> Inr []
         | Some chunks \<Rightarrow> map_sum id decode (read_chunks chunks 0 []))"

definition is_redirect :: "int \<Rightarrow> bool" where
  "is_redirect status \<longleftrightarrow> status \<in> {301, 302, 303, 307, 308}"

subsection \<open>The loop\<close>

record fetch_result =
  fr_not_modified :: bool
  fr_body :: js_string
  fr_etag :: "js_string option"
  fr_modified :: "js_string option"

text \<open>
  What node provides. \<open>fe_resolve\<close> and \<open>fe_request\<close> take the number of the hop: the network may have
  changed in between. \<open>fe_join\<close> is \<open>new URL(location, base).toString()\<close>.
\<close>

record fetch_env =
  fe_parse :: "js_string \<Rightarrow> url option"
  fe_join :: "js_string \<Rightarrow> url \<Rightarrow> js_string option"
  fe_is_ip :: "js_string \<Rightarrow> nat"
  fe_resolve :: "nat \<Rightarrow> js_string \<Rightarrow> js_string list option"
  fe_request :: "nat \<Rightarrow> url \<Rightarrow> (js_string \<times> js_string) list \<Rightarrow> response option"
  fe_decode :: "nat list \<Rightarrow> js_string"

definition request_headers :: "js_string option \<Rightarrow> js_string option \<Rightarrow> (js_string \<times> js_string) list" where
  "request_headers etag modified =
     [(''Accept'', ''text/calendar, text/plain;q=0.9, application/octet-stream;q=0.5''),
      (''User-Agent'', ''HOST-Calendar-Sync/1.0'')] @
     (case etag of None \<Rightarrow> [] | Some t \<Rightarrow> if t = [] then [] else [(''If-None-Match'', t)]) @
     (case modified of None \<Rightarrow> [] | Some t \<Rightarrow> if t = [] then [] else [(''If-Modified-Since'', t)])"

definition final_response :: "fetch_env \<Rightarrow> response \<Rightarrow> fetch_error + fetch_result" where
  "final_response env r =
     (if \<not> (200 \<le> rs_status r \<and> rs_status r \<le> 299) then Inl (Http_status (rs_status r))
      else
        let ty = to_lower (case rs_type r of None \<Rightarrow> [] | Some t \<Rightarrow> t)
        in if js_includes ''text/html'' ty \<or> js_includes ''application/xhtml'' ty then Inl Web_page
           else map_sum id (\<lambda>body. \<lparr>fr_not_modified = False, fr_body = body, fr_etag = rs_etag r,
                  fr_modified = rs_modified r\<rparr>) (read_limited_body (fe_decode env) r))"

text \<open>
  The loop from \<open>redirectCount = hop\<close> on, with the requests it makes, each with its hop, beside the
  result.
\<close>

function fetch_from ::
  "fetch_env \<Rightarrow> (js_string \<times> js_string) list \<Rightarrow> nat \<Rightarrow> js_string \<Rightarrow>
    (nat \<times> url) list \<times> (fetch_error + fetch_result)" where
  "fetch_from env headers hop current =
     (if max_redirects < hop then ([], Inl Too_many_redirects)
      else
        (case assert_safe_url (fe_parse env) (fe_is_ip env) (fe_resolve env hop) current of
           Inl e \<Rightarrow> ([], Inl e)
         | Inr u \<Rightarrow>
             (case fe_request env hop u headers of
                None \<Rightarrow> ([(hop, u)], Inl Not_reachable)
              | Some r \<Rightarrow>
                  if rs_status r = 304
                  then ([(hop, u)], Inr \<lparr>fr_not_modified = True, fr_body = [], fr_etag = rs_etag r,
                          fr_modified = rs_modified r\<rparr>)
                  else if is_redirect (rs_status r) then
                    (if hop = max_redirects then ([(hop, u)], Inl Too_many_redirects)
                     else
                       (case rs_location r of
                          None \<Rightarrow> ([(hop, u)], Inl Invalid_redirect)
                        | Some location \<Rightarrow>
                            if location = [] then ([(hop, u)], Inl Invalid_redirect)
                            else
                              (case fe_join env location u of
                                 None \<Rightarrow> ([(hop, u)], Inl Redirect_not_a_url)
                               | Some next_url \<Rightarrow>
                                   (let rest = fetch_from env headers (hop + 1) next_url
                                    in ((hop, u) # fst rest, snd rest)))))
                  else ([(hop, u)], final_response env r))))"
  by pat_completeness auto
termination
  by (relation "measure (\<lambda>(env, headers, hop, current). Suc max_redirects - hop)") auto

declare fetch_from.simps [simp del]

definition fetch_calendar ::
  "fetch_env \<Rightarrow> js_string option \<Rightarrow> js_string option \<Rightarrow> js_string \<Rightarrow>
    (nat \<times> url) list \<times> (fetch_error + fetch_result)" where
  "fetch_calendar env etag modified raw = fetch_from env (request_headers etag modified) 0 raw"

subsection \<open>What is requested\<close>

definition public_url :: "fetch_env \<Rightarrow> nat \<Rightarrow> url \<Rightarrow> bool" where
  "public_url env hop u \<longleftrightarrow>
     url_protocol u = ''https:'' \<and> url_username u = [] \<and> url_password u = [] \<and> url_port u \<in> {[], ''443''} \<and>
     \<not> local_hostname (normalize_hostname (url_hostname u)) \<and>
     (\<exists>as. addresses_of (fe_is_ip env) (fe_resolve env hop) (normalize_hostname (url_hostname u)) = Some as \<and>
       as \<noteq> [] \<and> list_all (\<lambda>a. \<not> is_blocked_network_address (fe_is_ip env) a) as)"

lemma assert_safe_url_public:
  assumes "assert_safe_url (fe_parse env) (fe_is_ip env) (fe_resolve env hop) raw = Inr u"
  shows "public_url env hop u"
  using assms
  by (auto simp: assert_safe_url_def public_url_def Let_def list_ex_iff list_all_iff
      split: option.splits if_splits)

lemma fetch_from_trace:
  "fst (fetch_from env hs hop raw) = [] \<or> hop \<le> max_redirects \<and>
    (\<exists>u. public_url env hop u \<and> (fst (fetch_from env hs hop raw) = [(hop, u)] \<or>
       hop < max_redirects \<and> (\<exists>next_url. fst (fetch_from env hs hop raw) =
         (hop, u) # fst (fetch_from env hs (Suc hop) next_url))))"
proof (cases "max_redirects < hop")
  case True
  then show ?thesis by (subst fetch_from.simps) simp
next
  case False
  show ?thesis
  proof (cases "assert_safe_url (fe_parse env) (fe_is_ip env) (fe_resolve env hop) raw")
    case (Inl e)
    with False show ?thesis by (subst fetch_from.simps) simp
  next
    case (Inr u)
    have "fst (fetch_from env hs hop raw) = [(hop, u)] \<or>
       hop < max_redirects \<and> (\<exists>next_url. fst (fetch_from env hs hop raw) =
         (hop, u) # fst (fetch_from env hs (Suc hop) next_url))"
      unfolding fetch_from.simps [of env hs hop raw] using False Inr
      by (auto simp: Let_def split: option.split)
    with assert_safe_url_public [OF Inr] False show ?thesis by force
  qed
qed

lemma fetch_from_requests:
  "(\<forall>x \<in> set (fst (fetch_from env hs hop raw)). hop \<le> fst x \<and> fst x \<le> max_redirects \<and> public_url env (fst x) (snd x)) \<and>
    length (fst (fetch_from env hs hop raw)) \<le> Suc max_redirects - hop"
proof (induction "Suc max_redirects - hop" arbitrary: hop raw)
  case 0
  then show ?case using fetch_from_trace [of env hs hop raw] by auto
next
  case (Suc n)
  from fetch_from_trace [of env hs hop raw] show ?case
  proof (elim disjE conjE exE)
    fix u next_url
    assume t: "public_url env hop u" "hop < max_redirects"
      "fst (fetch_from env hs hop raw) = (hop, u) # fst (fetch_from env hs (Suc hop) next_url)"
    from Suc(2) have "n = Suc max_redirects - Suc hop" by simp
    from Suc(1) [OF this, of next_url] t show ?thesis by fastforce
  qed auto
qed

subsection \<open>The address blocks\<close>

definition quad_text :: "nat \<Rightarrow> nat \<Rightarrow> nat \<Rightarrow> nat \<Rightarrow> js_string" where
  "quad_text a b c d = join_with ''.'' [dec_text a, dec_text b, dec_text c, dec_text d]"

definition quad_word :: "nat \<Rightarrow> nat \<Rightarrow> nat \<Rightarrow> nat \<Rightarrow> 32 word" where
  "quad_word a b c d = word_of_nat (((a * 256 + b) * 256 + c) * 256 + d)"

definition in_block :: "32 word \<Rightarrow> 32 word \<times> nat \<Rightarrow> bool" where
  "in_block w blk \<longleftrightarrow> drop_bit (32 - snd blk) w = drop_bit (32 - snd blk) (fst blk)"

text \<open>The reserved blocks the filter means, as base address and prefix length.\<close>

definition reserved_blocks :: "(32 word \<times> nat) list" where
  "reserved_blocks =
     [(quad_word 0 0 0 0, 8), (quad_word 10 0 0 0, 8), (quad_word 127 0 0 0, 8), (quad_word 100 64 0 0, 10),
      (quad_word 169 254 0 0, 16), (quad_word 172 16 0 0, 12), (quad_word 192 0 0 0, 16),
      (quad_word 192 168 0 0, 16), (quad_word 198 18 0 0, 15), (quad_word 198 51 100 0, 24),
      (quad_word 203 0 113 0, 24), (quad_word 224 0 0 0, 3)]"

lemma dec_text_nonempty [simp]: "dec_text n \<noteq> []"
  by (subst dec_text.simps) simp

lemma js_number_dec_text:
  assumes "n < 2 ^ 53"
  shows "js_number (dec_text n) = Finite (of_nat n)"
proof -
  note digits = dec_text_digits [of n]
  have dg: "c \<in> set (dec_text n) \<Longrightarrow> is_digit c" for c using digits by (simp add: list_all_iff)
  have h: "is_digit (hd (dec_text n))" by (rule dg) simp
  then have sgn: "\<not> starts_with ''+'' (dec_text n)" "\<not> starts_with ''-'' (dec_text n)" "dec_text n \<noteq> ''Infinity''"
    by (cases "dec_text n"; auto simp: starts_with_def is_digit_def)+
  have rad: "radix_of (dec_text n) = None"
  proof (cases "dec_text n")
    case (Cons a s)
    have low: "lower_char x = x" "x \<noteq> CHR ''x''" "x \<noteq> CHR ''o''" "x \<noteq> CHR ''b''" if "is_digit x" for x
      using that by (auto simp: lower_char_def is_digit_def)
    have "is_digit x" if "x \<in> set s" for x using dg [of x] that Cons by simp
    with low show ?thesis by (cases s) (simp_all add: radix_of_def to_lower_def Cons Let_def)
  qed simp
  have tw: "takeWhile is_digit (dec_text n) = dec_text n" "dropWhile is_digit (dec_text n) = []"
    using dg by (simp_all add: takeWhile_eq_all_conv dropWhile_eq_Nil_conv)
  have "decimal_value (dec_text n) = Some (of_nat n)"
    by (simp add: tw decimal_value_def starts_with_def exponent_part_def power_of_ten_def digits_value_dec_text)
  moreover have "finite_num (of_nat n) = Finite (of_nat n)"
  proof -
    have "int n \<le> max_safe" using assms by (simp add: max_safe_def)
    then have "fl (of_int (int n)) = of_int (int n)" by (intro fl_int) simp
    moreover have "(of_nat n :: rat) < 2 ^ 1024 - 2 ^ 970"
    proof -
      have "(of_nat n :: rat) < of_nat (2 ^ 53)" using assms by (simp only: of_nat_less_iff)
      also have "\<dots> \<le> 2 ^ 1024 - 2 ^ 970" by simp
      finally show ?thesis .
    qed
    ultimately show ?thesis by (simp add: finite_num_def)
  qed
  ultimately show ?thesis
    by (simp add: js_number_def digits_trim [OF digits] rad sgn)
qed

lemma parse_quad:
  assumes "a < 256" "b < 256" "c < 256" "d < 256"
  shows "parse_ipv4 (quad_text a b c d) = Some [int a, int b, int c, int d]"
proof -
  have "CHR ''.'' \<notin> set (dec_text n)" for n
    using dec_text_digits [of n] by (auto simp: list_all_iff is_digit_def)
  then have "split_on CHR ''.'' (quad_text a b c d) = [dec_text a, dec_text b, dec_text c, dec_text d]"
    unfolding quad_text_def by (intro split_on_join) auto
  moreover have "octet (dec_text n) = Some (int n)" if "n < 256" for n
    using that js_number_dec_text [of n] by (simp add: octet_def)
  ultimately show ?thesis using assms by (simp add: parse_ipv4_def)
qed

lemma in_block_quad:
  assumes "a < 256" "b < 256" "c < 256" "d < 256" "a' < 256" "b' < 256" "c' < 256" "d' < 256"
  shows "in_block (quad_word a b c d) (quad_word a' b' c' d', n) \<longleftrightarrow>
    (((a * 256 + b) * 256 + c) * 256 + d) div 2 ^ (32 - n) = (((a' * 256 + b') * 256 + c') * 256 + d') div 2 ^ (32 - n)"
proof -
  have u: "unat (quad_word a b c d) = ((a * 256 + b) * 256 + c) * 256 + d"
    if "a < 256" "b < 256" "c < 256" "d < 256" for a b c d
  proof -
    have "((a * 256 + b) * 256 + c) * 256 + d < 2 ^ 32" using that by simp
    then have "take_bit LENGTH(32) (((a * 256 + b) * 256 + c) * 256 + d) = ((a * 256 + b) * 256 + c) * 256 + d"
      by (intro take_bit_nat_eq_self) simp
    then show ?thesis unfolding quad_word_def unsigned_of_nat by simp
  qed
  have t: "take_bit LENGTH(32) (unat (w :: 32 word)) = unat w" for w
    by (rule take_bit_nat_eq_self) (rule unsigned_less)
  show ?thesis
    unfolding in_block_def word_unat_eq_iff unsigned_drop_bit_eq t
    by (simp only: u [OF assms(1-4)] u [OF assms(5-8)] fst_conv snd_conv drop_bit_eq_div)
qed

text \<open>Reading the octets off a prefix.\<close>

lemma div_range: "0 < k \<Longrightarrow> (m :: nat) div k = q \<longleftrightarrow> q * k \<le> m \<and> m < Suc q * k"
  by (metis div_less_iff_less_mult less_Suc_eq_le less_eq_div_iff_mult_less_eq order_antisym_conv
      order_refl)

lemma digit_pair: "(b :: nat) < k \<Longrightarrow> a * k + b = n \<longleftrightarrow> a = n div k \<and> b = n mod k"
  by auto

lemma div_pair: "0 < k \<Longrightarrow> (a * (m * k) + b) div k = a * m + (b :: nat) div k"
  using div_mult_self1 [of k b "a * m"] by (simp add: ac_simps)

lemma quad_prefix:
  assumes "(b :: nat) < N" "N = m * k"
  shows "(a * N + b) div k = n \<longleftrightarrow> a = n div m \<and> b div k = n mod m"
proof -
  from assms have k: "0 < k" by (cases k) auto
  moreover from assms have "b div k < m" by (simp add: less_mult_imp_div_less)
  ultimately show ?thesis unfolding assms(2) by (simp only: div_pair digit_pair)
qed

lemma quad_prefixes:
  assumes "(b :: nat) < 256"
  shows "(a * 256 + b) div 64 = 401 \<longleftrightarrow> a = 100 \<and> 64 \<le> b \<and> b \<le> 127"
    and "(a * 256 + b) div 16 = 2753 \<longleftrightarrow> a = 172 \<and> 16 \<le> b \<and> b \<le> 31"
    and "(a * 256 + b) div 2 = 25353 \<longleftrightarrow> a = 198 \<and> (b = 18 \<or> b = 19)"
proof -
  have "(a * 256 + b) div 64 = 401 \<longleftrightarrow> a = 401 div 4 \<and> b div 64 = 401 mod 4"
    "(a * 256 + b) div 16 = 2753 \<longleftrightarrow> a = 2753 div 16 \<and> b div 16 = 2753 mod 16"
    "(a * 256 + b) div 2 = 25353 \<longleftrightarrow> a = 25353 div 128 \<and> b div 2 = 25353 mod 128"
    by (rule quad_prefix [OF assms]; simp)+
  moreover have "b div 64 = 1 \<longleftrightarrow> 64 \<le> b \<and> b \<le> 127" "b div 16 = 1 \<longleftrightarrow> 16 \<le> b \<and> b \<le> 31"
    "b div 2 = 9 \<longleftrightarrow> b = 18 \<or> b = 19"
    by (subst div_range; auto)+
  ultimately show "(a * 256 + b) div 64 = 401 \<longleftrightarrow> a = 100 \<and> 64 \<le> b \<and> b \<le> 127"
    "(a * 256 + b) div 16 = 2753 \<longleftrightarrow> a = 172 \<and> 16 \<le> b \<and> b \<le> 31"
    "(a * 256 + b) div 2 = 25353 \<longleftrightarrow> a = 198 \<and> (b = 18 \<or> b = 19)"
    by simp_all
qed

lemma blocked_quad_blocks:
  assumes "a < 256" "b < 256" "c < 256" "d < 256"
  shows "blocked_quad (int a) (int b) (int c) \<longleftrightarrow> list_ex (in_block (quad_word a b c d)) reserved_blocks"
proof -
  define n where "n = ((a * 256 + b) * 256 + c) * 256 + d"
  have cd: "c * 256 + d < 65536" "b * 65536 + c * 256 + d < 16777216" using assms by simp_all
  have p: "n div 2 ^ 24 = a" "n div 2 ^ 16 = a * 256 + b" "n div 2 ^ 8 = (a * 256 + b) * 256 + c"
    using assms by (simp_all add: n_def)
  have q: "n div 2 ^ 22 = (a * 256 + b) div 64" "n div 2 ^ 20 = (a * 256 + b) div 16"
    "n div 2 ^ 17 = (a * 256 + b) div 2" "n div 2 ^ 29 = a div 32"
  proof -
    have "n div (2 ^ 16 * 64) = (a * 256 + b) div 64" "n div (2 ^ 16 * 16) = (a * 256 + b) div 16"
      "n div (2 ^ 16 * 2) = (a * 256 + b) div 2" "n div (2 ^ 24 * 32) = a div 32"
      unfolding div_mult2_eq p(1,2) by (rule refl)+
    then show "n div 2 ^ 22 = (a * 256 + b) div 64" "n div 2 ^ 20 = (a * 256 + b) div 16"
      "n div 2 ^ 17 = (a * 256 + b) div 2" "n div 2 ^ 29 = a div 32"
      by simp_all
  qed
  define D where "D e = n div 2 ^ e" for e :: nat
  have D: "D 24 = a" "D 16 = a * 256 + b" "D 8 = (a * 256 + b) * 256 + c" "D 22 = (a * 256 + b) div 64"
    "D 20 = (a * 256 + b) div 16" "D 17 = (a * 256 + b) div 2" "D 29 = a div 32"
    unfolding D_def by (fact p q)+
  have blk: "in_block (quad_word a b c d) (quad_word a' b' c' d', k) \<longleftrightarrow>
      D (32 - k) = (((a' * 256 + b') * 256 + c') * 256 + d') div 2 ^ (32 - k)"
    if "a' < 256" "b' < 256" "c' < 256" "d' < 256" for a' b' c' d' k
    unfolding D_def n_def using that by (intro in_block_quad assms)
  have blocks: "list_ex (in_block (quad_word a b c d)) reserved_blocks \<longleftrightarrow>
    D 24 = 0 \<or> D 24 = 10 \<or> D 24 = 127 \<or> D 22 = 401 \<or> D 16 = 43518 \<or> D 20 = 2753 \<or> D 16 = 49152 \<or>
    D 16 = 49320 \<or> D 17 = 25353 \<or> D 8 = 12989284 \<or> D 8 = 13303921 \<or> D 29 = 7"
    unfolding reserved_blocks_def by (simp add: blk)
  have top: "a div 32 = 7 \<longleftrightarrow> 224 \<le> a"
    using assms(1) by (subst div_range; auto)
  have octets: "x = 43518 div 256 \<longleftrightarrow> x = 169" "x = 43518 mod 256 \<longleftrightarrow> x = 254" "x = 49152 div 256 \<longleftrightarrow> x = 192"
    "x = 49152 mod 256 \<longleftrightarrow> x = 0" "x = 49320 div 256 \<longleftrightarrow> x = 192" "x = 49320 mod 256 \<longleftrightarrow> x = 168"
    "x = 12989284 mod 256 \<longleftrightarrow> x = 100" "x = 13303921 mod 256 \<longleftrightarrow> x = 113"
    "x = 12989284 div 256 div 256 \<longleftrightarrow> x = 198" "x = 12989284 div 256 mod 256 \<longleftrightarrow> x = 51"
    "x = 13303921 div 256 div 256 \<longleftrightarrow> x = 203" "x = 13303921 div 256 mod 256 \<longleftrightarrow> x = 0" for x :: nat
    by simp_all
  have quad: "blocked_quad (int a) (int b) (int c) \<longleftrightarrow>
     a = 0 \<or> a = 10 \<or> a = 127 \<or> (a = 100 \<and> 64 \<le> b \<and> b \<le> 127) \<or> (a = 169 \<and> b = 254) \<or>
     (a = 172 \<and> 16 \<le> b \<and> b \<le> 31) \<or> (a = 192 \<and> b = 0) \<or> (a = 192 \<and> b = 168) \<or>
     (a = 192 \<and> b = 0 \<and> c = 2) \<or> (a = 198 \<and> (b = 18 \<or> b = 19)) \<or>
     (a = 198 \<and> b = 51 \<and> c = 100) \<or> (a = 203 \<and> b = 0 \<and> c = 113) \<or> 224 \<le> a"
    by (simp only: blocked_quad_def of_nat_numeral [where 'a = int, symmetric] of_nat_eq_iff of_nat_le_iff
      of_nat_eq_0_iff)
  have "list_ex (in_block (quad_word a b c d)) reserved_blocks \<longleftrightarrow>
     a = 0 \<or> a = 10 \<or> a = 127 \<or> (a = 100 \<and> 64 \<le> b \<and> b \<le> 127) \<or> (a = 169 \<and> b = 254) \<or>
     (a = 172 \<and> 16 \<le> b \<and> b \<le> 31) \<or> (a = 192 \<and> b = 0) \<or> (a = 192 \<and> b = 168) \<or>
     (a = 198 \<and> (b = 18 \<or> b = 19)) \<or> ((a = 198 \<and> b = 51) \<and> c = 100) \<or>
     ((a = 203 \<and> b = 0) \<and> c = 113) \<or> 224 \<le> a"
    unfolding blocks D quad_prefixes [OF assms(2)] digit_pair [OF assms(2)] digit_pair [OF assms(3)] octets top
    by (rule refl)
  also have "\<dots> \<longleftrightarrow> blocked_quad (int a) (int b) (int c)"
    unfolding quad by argo
  finally show ?thesis by (rule sym)
qed

end
