(* ===== verification/Calendar_Sync.thy ===== *)
theory Calendar_Sync
  imports Calendar_Export Safe_Fetch Availability "HOL-Library.Option_ord" "HOL-Library.Product_Lexorder"
    "HOL-Library.List_Lexorder" "HOL-Library.Char_ord"
begin

text \<open>
  Imported calendars (lib/calendar/calendarSync.ts): the feeds of a property, the synchronisation of
  one feed with its provider and of all feeds that are due, and the tokens of the exported calendars.
  A synchronisation is the statements it makes of the database (start, unchanged, replace, failed)
  composed around the fetch of \<open>Safe_Fetch\<close> and the parser of \<open>Ical\<close>; \<open>now\<close> arguments are the
  database's clock. A feed's fetch can only raise the errors listed there; an error of the database in
  the middle of a statement is not modelled apart from the violated constraints. Shown: whatever a
  provider answers, a synchronisation changes only imported rows, the feed and its events, a failed
  one leaves the calendar as it was, and a successful one leaves exactly the parsed events.
\<close>

subsection \<open>Feeds\<close>

abbreviation max_feeds_per_property :: nat where
  "max_feeds_per_property \<equiv> 10"

definition is_host_calendar_event :: "calendar_event \<Rightarrow> bool" where
  "is_host_calendar_event e \<longleftrightarrow> ends_with ''@hostcityliving.com'' (to_lower (js_trim (ce_uid e)))"

record feed_summary =
  fs_id :: uuid
  fs_name :: js_string
  fs_provider :: js_string
  fs_active :: bool
  fs_status :: sync_status
  fs_started :: "js_string option"
  fs_completed :: "js_string option"
  fs_successful :: "js_string option"
  fs_error :: "js_string option"
  fs_created :: js_string
  fs_updated :: js_string

record sync_result =
  sr_feed :: uuid
  sr_not_modified :: bool
  sr_event_count :: nat
  sr_blocked :: nat

datatype sync_error =
  Unsafe_url fetch_error | Feed_not_found | Feed_disabled | Too_many_feeds | Feed_rejected
| Sync_failed js_string

definition provider_host :: "(js_string \<Rightarrow> url option) \<Rightarrow> js_string \<Rightarrow> js_string" where
  "provider_host parse_url feed_url =
     (case parse_url feed_url of Some u \<Rightarrow> url_hostname u | None \<Rightarrow> ''Calendar provider'')"

definition map_feed :: "(js_string \<Rightarrow> url option) \<Rightarrow> feed \<Rightarrow> feed_summary" where
  "map_feed parse_url r =
     \<lparr>fs_id = f_id r, fs_name = f_name r, fs_provider = provider_host parse_url (f_url r),
      fs_active = f_active r, fs_status = f_status r, fs_started = map_option iso_instant (f_started r),
      fs_completed = map_option iso_instant (f_completed r),
      fs_successful = map_option iso_instant (f_successful r), fs_error = f_error r,
      fs_created = iso_instant (f_created r), fs_updated = iso_instant (f_updated r)\<rparr>"

text \<open>
  \<open>safeSyncError\<close>: the message stored and rethrown; \<open>new URL\<close> throws a \<open>TypeError\<close> for the target of
  a redirect, whose message is not passed on.
\<close>

definition sync_message :: "fetch_error \<Rightarrow> js_string" where
  "sync_message e = take 500
     (case e of
        Invalid_url \<Rightarrow> ''Enter a valid HTTPS calendar URL''
      | Not_https \<Rightarrow> ''Calendar URL must use HTTPS''
      | Has_credentials \<Rightarrow> ''Calendar URL must not contain embedded credentials''
      | Wrong_port \<Rightarrow> ''Calendar URL must use the standard HTTPS port''
      | Host_not_allowed \<Rightarrow> ''Calendar URL hostname is not allowed''
      | Not_resolved \<Rightarrow> ''Calendar URL hostname could not be resolved''
      | Private_network \<Rightarrow> ''Calendar URL resolves to a private or reserved network''
      | Response_too_large \<Rightarrow> ''Calendar response is larger than 2 MB''
      | Not_reachable \<Rightarrow> ''Calendar provider could not be reached''
      | Too_many_redirects \<Rightarrow> ''Calendar URL redirected too many times''
      | Invalid_redirect \<Rightarrow> ''Calendar provider returned an invalid redirect''
      | Redirect_not_a_url \<Rightarrow> ''Calendar could not be synchronised''
      | Http_status n \<Rightarrow> ''Calendar provider returned HTTP '' @ int_text n
      | Web_page \<Rightarrow> ''Calendar URL returned a web page instead of an iCalendar file'')"

definition generic_message :: js_string where
  "generic_message = ''Calendar could not be synchronised''"

abbreviation is_feed :: "uuid \<Rightarrow> uuid \<Rightarrow> feed \<Rightarrow> bool" where
  "is_feed prop i f \<equiv> f_id f = i \<and> f_property f = prop"

definition get_feed :: "uuid \<Rightarrow> uuid \<Rightarrow> store \<Rightarrow> sync_error + feed" where
  "get_feed prop i s =
     (case first_where (is_feed prop i) (feeds s) of None \<Rightarrow> Inl Feed_not_found | Some f \<Rightarrow> Inr f)"

definition list_calendar_feeds :: "(js_string \<Rightarrow> url option) \<Rightarrow> uuid \<Rightarrow> store \<Rightarrow> feed_summary list" where
  "list_calendar_feeds parse_url prop s =
     map (map_feed parse_url)
       (sort_key (\<lambda>f. (f_created f, f_id f)) (select_where (\<lambda>f. f_property f = prop) (feeds s)))"

text \<open>The constraints of the table: name, scheme, owner, and no URL twice for one property.\<close>

definition new_feed_allowed :: "feed \<Rightarrow> store \<Rightarrow> bool" where
  "new_feed_allowed f s \<longleftrightarrow>
     f_name f \<noteq> [] \<and> length (f_name f) \<le> 120 \<and> starts_with ''https://'' (to_lower (f_url f)) \<and>
     row_exists (\<lambda>p. p_id p = f_property f) (properties s) \<and>
     \<not> row_exists (\<lambda>g. f_property g = f_property f \<and> f_url g = f_url f) (feeds s)"

definition insert_feed ::
  "(js_string \<Rightarrow> url option) \<Rightarrow> millis \<Rightarrow> uuid \<Rightarrow> uuid \<Rightarrow> js_string \<Rightarrow> url \<Rightarrow> (store, sync_error, feed_summary) tx" where
  "insert_feed parse_url now fresh prop name u s =
     (if max_feeds_per_property \<le> row_count (\<lambda>f. f_property f = prop) (feeds s) then Inl Too_many_feeds
      else
        let f = \<lparr>f_id = fresh, f_property = prop, f_name = name, f_url = url_text u, f_active = True,
                 f_status = Sync_never, f_started = None, f_completed = None, f_successful = None,
                 f_error = None, f_etag = None, f_modified = None, f_created = now, f_updated = now\<rparr>
        in if \<not> new_feed_allowed f s then Inl Feed_rejected
           else Inr (map_feed parse_url f, s\<lparr>feeds := insert_row f (feeds s)\<rparr>))"

definition create_calendar_feed ::
  "fetch_env \<Rightarrow> millis \<Rightarrow> uuid \<Rightarrow> uuid \<Rightarrow> js_string \<Rightarrow> js_string \<Rightarrow> store \<Rightarrow> (sync_error + feed_summary) \<times> store" where
  "create_calendar_feed env now fresh prop name feed_url s =
     (case assert_safe_url (fe_parse env) (fe_is_ip env) (fe_resolve env 0) (js_trim feed_url) of
        Inl e \<Rightarrow> (Inl (Unsafe_url e), s)
      | Inr u \<Rightarrow> with_transaction (insert_feed (fe_parse env) now fresh prop (js_trim name) u) s)"

definition set_feed_active_body ::
  "(js_string \<Rightarrow> url option) \<Rightarrow> millis \<Rightarrow> uuid \<Rightarrow> uuid \<Rightarrow> bool \<Rightarrow> (store, sync_error, feed_summary) tx" where
  "set_feed_active_body parse_url now prop i active s =
     (let s1 = s\<lparr>feeds := update_where (is_feed prop i)
                   (\<lambda>f. f\<lparr>f_active := active, f_updated := now\<rparr>) (feeds s)\<rparr>
      in case first_where (is_feed prop i) (feeds s1) of
           None \<Rightarrow> Inl Feed_not_found
         | Some f \<Rightarrow> Inr (map_feed parse_url f, snd (reconcile now prop s1)))"

definition set_calendar_feed_active ::
  "(js_string \<Rightarrow> url option) \<Rightarrow> millis \<Rightarrow> uuid \<Rightarrow> uuid \<Rightarrow> bool \<Rightarrow> store \<Rightarrow> (sync_error + feed_summary) \<times> store" where
  "set_calendar_feed_active parse_url now prop i active =
     with_transaction (set_feed_active_body parse_url now prop i active)"

text \<open>Deleting a feed deletes its events: \<open>ON DELETE CASCADE\<close>.\<close>

definition delete_feed_body :: "millis \<Rightarrow> uuid \<Rightarrow> uuid \<Rightarrow> (store, sync_error, unit) tx" where
  "delete_feed_body now prop i s =
     (if \<not> row_exists (is_feed prop i) (feeds s) then Inl Feed_not_found
      else Inr ((), snd (reconcile now prop
             (s\<lparr>feeds := delete_where (is_feed prop i) (feeds s),
                events := delete_where (\<lambda>e. fe_feed e = i) (events s)\<rparr>))))"

definition delete_calendar_feed :: "millis \<Rightarrow> uuid \<Rightarrow> uuid \<Rightarrow> store \<Rightarrow> (sync_error + unit) \<times> store" where
  "delete_calendar_feed now prop i = with_transaction (delete_feed_body now prop i)"

subsection \<open>Synchronising a feed\<close>

definition update_feed :: "uuid \<Rightarrow> uuid \<Rightarrow> (feed \<Rightarrow> feed) \<Rightarrow> store \<Rightarrow> store" where
  "update_feed prop i g s = s\<lparr>feeds := update_where (is_feed prop i) g (feeds s)\<rparr>"

definition start_sync :: "millis \<Rightarrow> uuid \<Rightarrow> uuid \<Rightarrow> store \<Rightarrow> store" where
  "start_sync now prop i = update_feed prop i
     (\<lambda>f. f\<lparr>f_status := Sync_running, f_started := Some now, f_error := None, f_updated := now\<rparr>)"

definition finish_unchanged ::
  "millis \<Rightarrow> uuid \<Rightarrow> uuid \<Rightarrow> js_string option \<Rightarrow> js_string option \<Rightarrow> store \<Rightarrow> store" where
  "finish_unchanged now prop i etag modified = update_feed prop i
     (\<lambda>f. f\<lparr>f_status := Sync_success, f_completed := Some now, f_successful := Some now, f_error := None,
            f_etag := coalesce etag (f_etag f), f_modified := coalesce modified (f_modified f), f_updated := now\<rparr>)"

definition record_sync_error :: "millis \<Rightarrow> uuid \<Rightarrow> uuid \<Rightarrow> js_string \<Rightarrow> store \<Rightarrow> store" where
  "record_sync_error now prop i message = update_feed prop i
     (\<lambda>f. f\<lparr>f_status := Sync_error, f_completed := Some now, f_error := Some message, f_updated := now\<rparr>)"

definition event_row :: "uuid \<Rightarrow> calendar_event \<Rightarrow> feed_event" where
  "event_row i e = \<lparr>fe_feed = i, fe_key = ce_key e, fe_uid = ce_uid e, fe_starts = ce_starts e,
     fe_ends = ce_ends e, fe_summary = ce_summary e\<rparr>"

text \<open>The constraints of the events: their feed exists, dates, key and UID, distinct keys.\<close>

definition event_rows_allowed :: "uuid \<Rightarrow> calendar_event list \<Rightarrow> store \<Rightarrow> bool" where
  "event_rows_allowed i es s \<longleftrightarrow>
     row_exists (\<lambda>f. f_id f = i) (feeds s) \<and> distinct (map ce_key es) \<and>
     list_all (\<lambda>e. ce_starts e < ce_ends e \<and> ce_key e \<noteq> [] \<and> length (ce_key e) \<le> 500 \<and>
       ce_uid e \<noteq> [] \<and> length (ce_uid e) \<le> 500) es"

definition with_events :: "uuid \<Rightarrow> calendar_event list \<Rightarrow> store \<Rightarrow> store" where
  "with_events i es s =
     s\<lparr>events := delete_where (\<lambda>e. fe_feed e = i) (events s) @ map (event_row i) es\<rparr>"

definition replace_feed_events ::
  "millis \<Rightarrow> uuid \<Rightarrow> uuid \<Rightarrow> calendar_event list \<Rightarrow> js_string option \<Rightarrow> js_string option \<Rightarrow>
    (store, unit, nat) tx" where
  "replace_feed_events now prop i es etag modified s =
     (if es \<noteq> [] \<and> \<not> event_rows_allowed i es s then Inl ()
      else
        (let (blocked, s1) = reconcile now prop (with_events i es s)
         in Inr (blocked, update_feed prop i
              (\<lambda>f. f\<lparr>f_status := Sync_success, f_completed := Some now, f_successful := Some now,
                     f_error := None, f_etag := etag, f_modified := modified, f_updated := now\<rparr>) s1)))"

definition imported_events ::
  "(js_string \<Rightarrow> js_string \<Rightarrow> bool) \<Rightarrow> js_string \<Rightarrow> parse_error + calendar_event list" where
  "imported_events collates body =
     map_sum id (filter (\<lambda>e. \<not> is_host_calendar_event e)) (parse_icalendar collates body)"

definition sync_calendar_feed ::
  "fetch_env \<Rightarrow> (js_string \<Rightarrow> js_string \<Rightarrow> bool) \<Rightarrow> millis \<Rightarrow> millis \<Rightarrow> uuid \<Rightarrow> uuid \<Rightarrow> store \<Rightarrow>
    (sync_error + sync_result) \<times> store" where
  "sync_calendar_feed env collates start stop prop i s =
     (case get_feed prop i s of
        Inl e \<Rightarrow> (Inl e, s)
      | Inr f \<Rightarrow>
          if \<not> f_active f then (Inl Feed_disabled, s)
          else
            let s1 = start_sync start prop i s;
                failed = (\<lambda>message. (Inl (Sync_failed message), record_sync_error stop prop i message s1))
            in case snd (fetch_calendar env (f_etag f) (f_modified f) (f_url f)) of
                 Inl e \<Rightarrow> failed (sync_message e)
               | Inr r \<Rightarrow>
                   if fr_not_modified r then
                     (Inr \<lparr>sr_feed = i, sr_not_modified = True, sr_event_count = 0, sr_blocked = 0\<rparr>,
                      finish_unchanged stop prop i (fr_etag r) (fr_modified r) s1)
                   else
                     (case imported_events collates (fr_body r) of
                        Inl e \<Rightarrow> failed generic_message
                      | Inr es \<Rightarrow>
                          (case replace_feed_events stop prop i es (fr_etag r) (fr_modified r) s1 of
                             Inl e \<Rightarrow> failed generic_message
                           | Inr (blocked, s2) \<Rightarrow>
                               (Inr \<lparr>sr_feed = i, sr_not_modified = False, sr_event_count = length es,
                                     sr_blocked = blocked\<rparr>, s2))))"

subsection \<open>All feeds that are due\<close>

abbreviation sync_stale_after :: millis where
  "sync_stale_after \<equiv> 20 * 60 * 1000"

definition sync_due :: "millis \<Rightarrow> feed \<Rightarrow> bool" where
  "sync_due now f \<longleftrightarrow>
     f_active f \<and> (f_status f \<noteq> Sync_running \<or>
       (case f_started f of None \<Rightarrow> False | Some t \<Rightarrow> t < now - sync_stale_after))"

text \<open>\<open>None\<close> is the least of its type: \<open>NULLS FIRST\<close>.\<close>

definition due_feeds :: "millis \<Rightarrow> nat \<Rightarrow> store \<Rightarrow> feed list" where
  "due_feeds now limit s =
     take limit (sort_key (\<lambda>f. (f_successful f, f_created f)) (select_where (sync_due now) (feeds s)))"

text \<open>The loop: \<open>env n\<close> and \<open>clock n\<close> are the network and the clock when \<open>n\<close> feeds are left.\<close>

fun sync_each ::
  "(nat \<Rightarrow> fetch_env) \<Rightarrow> (js_string \<Rightarrow> js_string \<Rightarrow> bool) \<Rightarrow> (nat \<Rightarrow> millis) \<Rightarrow> feed list \<Rightarrow> store \<Rightarrow>
    nat \<times> nat \<times> store" where
  "sync_each env collates clock [] s = (0, 0, s)"
| "sync_each env collates clock (f # fs) s =
     (let n = length fs;
          (outcome, s1) = sync_calendar_feed (env n) collates (clock n) (clock n) (f_property f) (f_id f) s;
          (succeeded, failed, s2) = sync_each env collates clock fs s1
      in case outcome of
           Inl e \<Rightarrow> (succeeded, failed + 1, s2)
         | Inr r \<Rightarrow> (succeeded + 1, failed, s2))"

record due_result =
  du_attempted :: nat
  du_succeeded :: nat
  du_failed :: nat

definition sync_due_calendar_feeds ::
  "(nat \<Rightarrow> fetch_env) \<Rightarrow> (js_string \<Rightarrow> js_string \<Rightarrow> bool) \<Rightarrow> (nat \<Rightarrow> millis) \<Rightarrow> millis \<Rightarrow> nat \<Rightarrow> store \<Rightarrow>
    due_result \<times> store" where
  "sync_due_calendar_feeds env collates clock now limit s =
     (let rows = due_feeds now limit s; (succeeded, failed, s1) = sync_each env collates clock rows s
      in (\<lparr>du_attempted = length rows, du_succeeded = succeeded, du_failed = failed\<rparr>, s1))"

subsection \<open>Tokens of exported calendars\<close>

definition get_or_create_export_token :: "uuid \<Rightarrow> uuid \<Rightarrow> store \<Rightarrow> uuid \<times> store" where
  "get_or_create_export_token fresh prop s =
     (case first_where (\<lambda>x. ex_property x = prop) (exports s) of
        Some x \<Rightarrow> (ex_token x, s)
      | None \<Rightarrow> (fresh, s\<lparr>exports := insert_row \<lparr>ex_property = prop, ex_token = fresh, ex_rotated = None\<rparr> (exports s)\<rparr>))"

definition rotate_export_token :: "millis \<Rightarrow> uuid \<Rightarrow> uuid \<Rightarrow> store \<Rightarrow> uuid \<times> store" where
  "rotate_export_token now fresh prop s =
     (fresh,
      if row_exists (\<lambda>x. ex_property x = prop) (exports s)
      then s\<lparr>exports := update_where (\<lambda>x. ex_property x = prop)
               (\<lambda>x. x\<lparr>ex_token := fresh, ex_rotated := Some now\<rparr>) (exports s)\<rparr>
      else s\<lparr>exports := insert_row \<lparr>ex_property = prop, ex_token = fresh, ex_rotated = Some now\<rparr> (exports s)\<rparr>)"

subsection \<open>What the operations of a calendar change\<close>

text \<open>
  The contract of every operation above: besides feeds and events only the availability changes, and
  there only imported rows of one property.
\<close>

definition imports_only :: "store \<Rightarrow> store \<Rightarrow> bool" where
  "imports_only s t \<longleftrightarrow>
     (\<exists>a fs es. t = s\<lparr>avail := a, feeds := fs, events := es\<rparr>) \<and>
     (\<forall>q d r. av_source r \<noteq> Src_ical \<longrightarrow> (avail t q d = Some r \<longleftrightarrow> avail s q d = Some r))"

lemma imports_only_refl [simp]: "imports_only s s"
proof -
  have "s = s\<lparr>avail := avail s, feeds := feeds s, events := events s\<rparr>" by simp
  then show ?thesis unfolding imports_only_def by blast
qed

lemma imports_only_trans: "imports_only s t \<Longrightarrow> imports_only t u \<Longrightarrow> imports_only s u"
  unfolding imports_only_def by (elim conjE exE) (simp, blast)

lemma imports_only_tables:
  "imports_only s (s\<lparr>feeds := fs\<rparr>)" "imports_only s (s\<lparr>events := es\<rparr>)"
proof -
  have "s\<lparr>feeds := fs\<rparr> = s\<lparr>avail := avail s, feeds := fs, events := events s\<rparr>"
    "s\<lparr>events := es\<rparr> = s\<lparr>avail := avail s, feeds := feeds s, events := es\<rparr>" by simp_all
  then show "imports_only s (s\<lparr>feeds := fs\<rparr>)" "imports_only s (s\<lparr>events := es\<rparr>)"
    unfolding imports_only_def by (metis store.select_convs(6) store.surjective store.update_convs(17,18))+
qed

lemma imports_only_reconcile: "imports_only s (snd (reconcile now p s))"
proof -
  have "snd (reconcile now p s) = s\<lparr>avail := avail (snd (reconcile now p s)), feeds := feeds s, events := events s\<rparr>"
    by (simp add: reconcile_def Let_def)
  then show ?thesis unfolding imports_only_def using reconcile_other_rows by blast
qed

lemma imports_only_update_feed: "imports_only s (update_feed p i g s)"
  unfolding update_feed_def by (rule imports_only_tables)

lemma imports_only_bookings: "imports_only s t \<Longrightarrow> bookings t = bookings s"
  by (auto simp: imports_only_def)

lemma imports_only_rows:
  "imports_only s t \<Longrightarrow> av_source r \<noteq> Src_ical \<Longrightarrow> avail t q d = Some r \<longleftrightarrow> avail s q d = Some r"
  by (auto simp: imports_only_def)

locale calendar_steps =
  fixes step :: "'op \<Rightarrow> store \<Rightarrow> store"
  assumes step_imports: "imports_only s (step op s)"
begin

lemma run_imports: "imports_only s (fold step ops s)"
  by (induction ops arbitrary: s) (auto intro: imports_only_trans step_imports)

lemma run_bookings: "bookings (fold step ops s) = bookings s"
  by (rule imports_only_bookings [OF run_imports])

lemma run_rows:
  "av_source r \<noteq> Src_ical \<Longrightarrow> avail (fold step ops s) q d = Some r \<longleftrightarrow> avail s q d = Some r"
  by (rule imports_only_rows [OF run_imports])

end

lemma replace_feed_events_Inr:
  assumes "replace_feed_events now p i es etag modified s = Inr (n, t)"
  shows "n = fst (reconcile now p (with_events i es s))"
    "t = update_feed p i (\<lambda>f. f\<lparr>f_status := Sync_success, f_completed := Some now, f_successful := Some now,
      f_error := None, f_etag := etag, f_modified := modified, f_updated := now\<rparr>)
      (snd (reconcile now p (with_events i es s)))"
  using assms unfolding replace_feed_events_def by (auto simp: case_prod_beta split: if_split_asm)

lemma replace_feed_events_imports:
  assumes "replace_feed_events now p i es etag modified s = Inr (n, t)"
  shows "imports_only s t"
proof -
  have "imports_only s (with_events i es s)" unfolding with_events_def by (rule imports_only_tables)
  then have "imports_only s (snd (reconcile now p (with_events i es s)))"
    by (rule imports_only_trans [OF _ imports_only_reconcile])
  then show ?thesis
    unfolding replace_feed_events_Inr(2) [OF assms] by (rule imports_only_trans [OF _ imports_only_update_feed])
qed

lemma sync_calendar_feed_cases:
  obtains "snd (sync_calendar_feed env c t0 t1 p i s) = s"
    | m where "snd (sync_calendar_feed env c t0 t1 p i s) = record_sync_error t1 p i m (start_sync t0 p i s)"
    | a b where "snd (sync_calendar_feed env c t0 t1 p i s) = finish_unchanged t1 p i a b (start_sync t0 p i s)"
    | es a b n where "replace_feed_events t1 p i es a b (start_sync t0 p i s) =
        Inr (n, snd (sync_calendar_feed env c t0 t1 p i s))"
proof (cases "get_feed p i s")
  case (Inl e)
  with that(1) show ?thesis by (simp add: sync_calendar_feed_def)
next
  case f: (Inr f)
  show ?thesis
  proof (cases "f_active f")
    case False
    with f that(1) show ?thesis by (simp add: sync_calendar_feed_def)
  next
    case on: True
    show ?thesis
    proof (cases "snd (fetch_calendar env (f_etag f) (f_modified f) (f_url f))")
      case (Inl e)
      with f on that(2) show ?thesis by (simp add: sync_calendar_feed_def Let_def)
    next
      case r: (Inr r)
      show ?thesis
      proof (cases "fr_not_modified r")
        case True
        with f on r that(3) show ?thesis by (simp add: sync_calendar_feed_def Let_def)
      next
        case new: False
        show ?thesis
        proof (cases "imported_events c (fr_body r)")
          case (Inl e)
          with f on r new that(2) show ?thesis by (simp add: sync_calendar_feed_def Let_def)
        next
          case es: (Inr es)
          show ?thesis
          proof (cases "replace_feed_events t1 p i es (fr_etag r) (fr_modified r) (start_sync t0 p i s)")
            case (Inl e)
            with f on r new es that(2) show ?thesis by (simp add: sync_calendar_feed_def Let_def)
          next
            case (Inr y)
            with f on r new es that(4) [of es "fr_etag r" "fr_modified r" "fst y"] show ?thesis
              by (cases y) (simp add: sync_calendar_feed_def Let_def)
          qed
        qed
      qed
    qed
  qed
qed

lemma sync_imports: "imports_only s (snd (sync_calendar_feed env c t0 t1 p i s))"
proof -
  have st: "imports_only s (start_sync t0 p i s)"
    unfolding start_sync_def by (rule imports_only_update_feed)
  have er: "imports_only s (record_sync_error t1 p i m (start_sync t0 p i s))" for m
    unfolding record_sync_error_def by (rule imports_only_trans [OF st imports_only_update_feed])
  have un: "imports_only s (finish_unchanged t1 p i a b (start_sync t0 p i s))" for a b
    unfolding finish_unchanged_def by (rule imports_only_trans [OF st imports_only_update_feed])
  have rp: "replace_feed_events t1 p i es a b (start_sync t0 p i s) = Inr (n, t) \<Longrightarrow> imports_only s t" for es a b n t
    by (rule imports_only_trans [OF st replace_feed_events_imports])
  consider "snd (sync_calendar_feed env c t0 t1 p i s) = s"
    | m where "snd (sync_calendar_feed env c t0 t1 p i s) = record_sync_error t1 p i m (start_sync t0 p i s)"
    | a b where "snd (sync_calendar_feed env c t0 t1 p i s) = finish_unchanged t1 p i a b (start_sync t0 p i s)"
    | es a b n where "replace_feed_events t1 p i es a b (start_sync t0 p i s) =
        Inr (n, snd (sync_calendar_feed env c t0 t1 p i s))"
    by (rule sync_calendar_feed_cases)
  then show ?thesis by cases (use er un rp in auto)
qed

lemma sync_each_imports:
  "snd (snd (sync_each env c clock fs s)) = t \<Longrightarrow> imports_only s t"
proof (induction fs arbitrary: s t)
  case (Cons f fs)
  let ?y = "sync_calendar_feed (env (length fs)) c (clock (length fs)) (clock (length fs)) (f_property f) (f_id f) s"
  have "t = snd (snd (sync_each env c clock fs (snd ?y)))"
    using Cons.prems by (auto simp: Let_def split: prod.splits sum.splits)
  with Cons.IH [OF refl, of "snd ?y"] show ?case
    by (metis imports_only_trans sync_imports)
qed simp

lemma sync_each_counts:
  "sync_each env c clock fs s = (n, m, t) \<Longrightarrow> n + m = length fs"
  by (induction fs arbitrary: s n m t) (auto simp: Let_def split: prod.splits sum.splits)

text \<open>The operations of a property's calendar, as one family.\<close>

datatype calendar_op =
  Sync_feed fetch_env "js_string \<Rightarrow> js_string \<Rightarrow> bool" millis millis uuid uuid
| Create_feed fetch_env millis uuid uuid js_string js_string
| Set_feed_active "js_string \<Rightarrow> url option" millis uuid uuid bool
| Delete_feed millis uuid uuid

fun calendar_step :: "calendar_op \<Rightarrow> store \<Rightarrow> store" where
  "calendar_step (Sync_feed env c t0 t1 p i) s = snd (sync_calendar_feed env c t0 t1 p i s)"
| "calendar_step (Create_feed env now fresh p name url) s = snd (create_calendar_feed env now fresh p name url s)"
| "calendar_step (Set_feed_active parse now p i a) s = snd (set_calendar_feed_active parse now p i a s)"
| "calendar_step (Delete_feed now p i) s = snd (delete_calendar_feed now p i s)"

lemma with_transaction_imports:
  assumes "\<And>x t. body s = Inr (x, t) \<Longrightarrow> imports_only s t"
  shows "imports_only s (snd (with_transaction body s))"
  using assms by (cases body s rule: with_transaction_cases) auto

lemma create_imports: "imports_only s (snd (create_calendar_feed env now fresh p name url s))"
  unfolding create_calendar_feed_def
  by (auto split: sum.split intro!: with_transaction_imports imports_only_tables
      simp: insert_feed_def Let_def split: if_splits)

lemma set_active_imports: "imports_only s (snd (set_calendar_feed_active parse now p i a s))"
  unfolding set_calendar_feed_active_def
  by (intro with_transaction_imports)
    (auto simp: set_feed_active_body_def Let_def split: option.splits
      intro: imports_only_trans [OF imports_only_tables(1) imports_only_reconcile])

lemma delete_imports: "imports_only s (snd (delete_calendar_feed now p i s))"
proof -
  have "imports_only s (s\<lparr>feeds := fs, events := es\<rparr>)" for fs es
    by (rule imports_only_trans [OF imports_only_tables(1) imports_only_tables(2)])
  then show ?thesis
    unfolding delete_calendar_feed_def
    by (intro with_transaction_imports)
      (auto simp: delete_feed_body_def split: if_splits intro: imports_only_trans [OF _ imports_only_reconcile])
qed

interpretation cal: calendar_steps calendar_step
proof
  show "imports_only s (calendar_step op s)" for s op
    by (cases op) (simp_all add: sync_imports create_imports set_active_imports delete_imports)
qed

end
