(* ===== verification/Calendar_Properties.thy ===== *)
theory Calendar_Properties
  imports Calendar_Roundtrip Calendar_Sync Scenario
begin

text \<open>
  The properties of imported and exported calendars: what is exported reads back as the unavailable
  nights, own exports are not imported again, what a fetch may reach, and what a synchronisation may
  change.
\<close>

subsection \<open>Export and import\<close>

lemma length_group_from: "length (group_from start prev ds) \<le> Suc (length ds)"
  by (induction start prev ds rule: group_from.induct) auto

lemma length_sort_remdups: "length (sort (remdups (ds :: day list))) \<le> length ds"
  by simp

lemma length_group: "length (group_consecutive_dates ds) \<le> length ds"
proof (cases "sort (remdups ds)")
  case Nil
  then show ?thesis by (simp add: group_consecutive_dates_def)
next
  case (Cons a as)
  then have "length (group_consecutive_dates ds) \<le> length (sort (remdups ds))"
    using length_group_from [of a a as] by (simp add: group_consecutive_dates_def)
  with length_sort_remdups [of ds] show ?thesis by linarith
qed

lemma unavailable_days_props:
  "sort (remdups (unavailable_days a b m)) = unavailable_days a b m"
  "d \<in> set (unavailable_days a b m) \<Longrightarrow> a \<le> d \<and> d \<le> b"
  "a \<le> b + 1 \<Longrightarrow> int (length (unavailable_days a b m)) \<le> b - a + 1"
proof -
  have "sorted (unavailable_days a b m)" "distinct (unavailable_days a b m)"
    by (simp_all add: unavailable_days_def sorted_wrt_filter)
  then show "sort (remdups (unavailable_days a b m)) = unavailable_days a b m"
    by (simp add: distinct_remdups_id sorted_sort_id)
  show "d \<in> set (unavailable_days a b m) \<Longrightarrow> a \<le> d \<and> d \<le> b"
    by (auto simp: unavailable_days_def)
  have "length (unavailable_days a b m) \<le> length [a..b]"
    unfolding unavailable_days_def by (rule length_filter_le)
  then show "a \<le> b + 1 \<Longrightarrow> int (length (unavailable_days a b m)) \<le> b - a + 1"
    by simp
qed

lemma group_range_in:
  assumes "r \<in> set (group_consecutive_dates ds)"
  shows "dr_starts r < dr_ends r" "dr_starts r \<in> set ds" "dr_ends r - 1 \<in> set ds"
proof -
  from assms group_consecutive_props(2) [of ds] show lt: "dr_starts r < dr_ends r"
    by (auto simp: ranges_ok_def list_all_iff)
  have "set (range_days r) \<subseteq> set (concat (map range_days (group_consecutive_dates ds)))"
    using assms by auto
  then have "set (range_days r) \<subseteq> set ds" by (simp only: group_consecutive_props(1)) simp
  with lt show "dr_starts r \<in> set ds" "dr_ends r - 1 \<in> set ds" by auto
qed

text \<open>The hypotheses under which an export is read back, and what it is then read as.\<close>

lemma export_parses:
  assumes "generate_calendar_export now horizon token s = Some x"
    and "plain_id (cx_property x)" "CR \<notin> set (cx_name x)"
    and "list_all four_digit_year [day_of_ms now..horizon + 1]" "horizon - day_of_ms now < 5000"
    and "utf8_length (cx_body x) \<le> max_ical_bytes"
  shows "parse_icalendar c (cx_body x) = Inr (map (event_of (cx_property x))
      (group_consecutive_dates (unavailable_days (day_of_ms now) horizon (avail s (cx_property x)))))"
proof -
  let ?ds = "unavailable_days (day_of_ms now) horizon (avail s (cx_property x))"
  let ?rs = "group_consecutive_dates ?ds"
  have body: "cx_body x = build_calendar now (cx_property x) (cx_name x) ?rs"
    using assms(1) by (auto simp: generate_calendar_export_def Let_def split: option.splits)
  have "range_ok r" if "r \<in> set ?rs" for r
  proof -
    note r = group_range_in [OF that]
    from unavailable_days_props(2) [OF r(2)] unavailable_days_props(2) [OF r(3)] r(1) assms(4) show ?thesis
      by (auto simp: range_ok_def list_all_iff)
  qed
  moreover have "length ?rs \<le> max_ical_events"
  proof (cases "day_of_ms now \<le> horizon + 1")
    case True
    with unavailable_days_props(3) [OF this, of "avail s (cx_property x)"] length_group [of ?ds] assms(5)
    show ?thesis by (simp add: max_ical_events_def)
  next
    case False
    then have "?ds = []" by (simp add: unavailable_days_def)
    with length_group [of ?ds] show ?thesis by simp
  qed
  ultimately show ?thesis
    using assms(2,3,6) group_consecutive_props(2) [of ?ds] unfolding body
    by (intro parse_built) (auto simp: list_all_iff)
qed

text \<open>
  C30: what the export endpoint of a property writes is read by the parser as events whose nights are,
  in order and without repetition, the nights of the property that are not available from today on.
\<close>

theorem export_reads_back:
  assumes "generate_calendar_export now horizon token s = Some x"
    and "plain_id (cx_property x)" "CR \<notin> set (cx_name x)"
    and "list_all four_digit_year [day_of_ms now..horizon + 1]" "horizon - day_of_ms now < 5000"
    and "utf8_length (cx_body x) \<le> max_ical_bytes"
  shows "\<exists>es. parse_icalendar collates (cx_body x) = Inr es \<and>
    concat (map (\<lambda>e. [ce_starts e..ce_ends e - 1]) es) =
      unavailable_days (day_of_ms now) horizon (avail s (cx_property x))"
proof -
  let ?ds = "unavailable_days (day_of_ms now) horizon (avail s (cx_property x))"
  have "concat (map (\<lambda>e. [ce_starts e..ce_ends e - 1]) (map (event_of (cx_property x)) (group_consecutive_dates ?ds))) =
      concat (map range_days (group_consecutive_dates ?ds))"
    by (simp add: comp_def event_of_def)
  also have "\<dots> = ?ds" by (simp only: group_consecutive_props(1) unavailable_days_props(1))
  finally show ?thesis using export_parses [OF assms] by blast
qed

definition export_store :: store where
  "export_store = (booked_with Confirmed Paid)\<lparr>
     exports := [\<lparr>ex_property = ''villa'', ex_token = ''t1'', ex_rotated = None\<rparr>]\<rparr>"

definition export_demo :: calendar_export where
  "export_demo = \<lparr>cx_property = ''villa'', cx_name = ''Villa'',
     cx_body = build_calendar (day_ms 19) ''villa'' ''Villa'' [\<lparr>dr_starts = 20, dr_ends = 22\<rparr>]\<rparr>"

lemma export_demo_ranges:
  "group_consecutive_dates (unavailable_days 19 24 (avail export_store ''villa'')) = [\<lparr>dr_starts = 20, dr_ends = 22\<rparr>]"
proof -
  have "avail export_store ''villa'' = demo_nights" by (simp add: export_store_def booked_with_def)
  moreover have "group_consecutive_dates (unavailable_days 19 24 demo_nights) = [\<lparr>dr_starts = 20, dr_ends = 22\<rparr>]"
    by code_simp
  ultimately show ?thesis by (simp only:)
qed

lemma export_demo_hyps:
  "generate_calendar_export (day_ms 19) 24 ''t1'' export_store = Some export_demo"
  "plain_id (cx_property export_demo)" "CR \<notin> set (cx_name export_demo)"
  "list_all four_digit_year [day_of_ms (day_ms 19)..24 + 1]" "24 - day_of_ms (day_ms 19) < 5000"
  "utf8_length (cx_body export_demo) \<le> max_ical_bytes"
proof -
  have tables: "exports export_store = [\<lparr>ex_property = ''villa'', ex_token = ''t1'', ex_rotated = None\<rparr>]"
    "properties export_store = [demo_property]"
    by (simp_all add: export_store_def booked_with_def open_store_def)
  have names: "p_id demo_property = ''villa''" "p_name demo_property = ''Villa''"
    by (simp_all add: demo_property_def)
  show "generate_calendar_export (day_ms 19) 24 ''t1'' export_store = Some export_demo"
    unfolding generate_calendar_export_def tables export_demo_def
    by (simp only: names export_demo_ranges first_where_Cons calendar_export.simps export_row.simps option.case
      row_exists_iff list.set simp_thms if_True bex_simps day_of_day_ms Let_def)
  show "plain_id (cx_property export_demo)" by code_simp
  show "CR \<notin> set (cx_name export_demo)" by code_simp
  show "list_all four_digit_year [day_of_ms (day_ms 19)..24 + 1]" by code_simp
  show "24 - day_of_ms (day_ms 19) < 5000" by code_simp
  have "utf8_length (cx_body export_demo) \<le> 1000" by code_simp
  then show "utf8_length (cx_body export_demo) \<le> max_ical_bytes" by (simp add: max_ical_bytes_def)
qed

theorem export_reads_back_witness:
  "\<exists>es. parse_icalendar str_less (cx_body export_demo) = Inr es \<and>
    concat (map (\<lambda>e. [ce_starts e..ce_ends e - 1]) es) =
      unavailable_days (day_of_ms (day_ms 19)) 24 (avail export_store (cx_property export_demo))"
  by (rule export_reads_back [OF export_demo_hyps])

lemma own_event: "is_host_calendar_event (event_of pid r)"
proof -
  let ?suffix = "''@hostcityliving.com''"
  have "js_trim (range_uid pid r) = range_uid pid r"
    by (rule js_trim_id) (simp add: range_uid_def js_space_def)
  moreover have "to_lower ?suffix = ?suffix" by code_simp
  then have "to_lower (range_uid pid r) = to_lower (''host-'' @ pid @ ''-'' @ iso_date (dr_starts r) @ ''-'' @
      iso_date (dr_ends r)) @ ?suffix"
    unfolding range_uid_def to_lower_def by (simp only: map_append append_assoc)
  ultimately show ?thesis
    by (simp only: is_host_calendar_event_def event_of_def calendar_event.select_convs ends_with_append)
qed

text \<open>
  a calendar exported by this program, subscribed to by one of its properties, imports no event:
  two properties that subscribe to each other cannot block nights in a circle.
\<close>

lemma own_export_imports_nothing:
  assumes "generate_calendar_export now horizon token s = Some x"
    and "plain_id (cx_property x)" "CR \<notin> set (cx_name x)"
    and "list_all four_digit_year [day_of_ms now..horizon + 1]" "horizon - day_of_ms now < 5000"
    and "utf8_length (cx_body x) \<le> max_ical_bytes"
  shows "imported_events collates (cx_body x) = Inr []"
  unfolding imported_events_def export_parses [OF assms] by (simp add: own_event)

lemma own_export_imports_nothing_witness:
  "imported_events str_less (cx_body export_demo) = Inr []"
  by (rule own_export_imports_nothing [OF export_demo_hyps])

text \<open>
  C31: a calendar file that is accepted has at most 5000 events, with distinct keys, each ending after
  it starts and with a key and UID of at most 500 characters; anything else is an error.
\<close>

theorem parsed_events_ok:
  assumes "parse_icalendar collates source = Inr es"
  shows "length es \<le> 5000 \<and> distinct (map ce_key es) \<and>
    list_all (\<lambda>e. ce_starts e < ce_ends e \<and> ce_uid e \<noteq> [] \<and> length (ce_uid e) \<le> 500 \<and> length (ce_key e) \<le> 500) es"
  using parse_icalendar_ok [OF assms] by (auto simp: events_ok_def event_ok_def list_all_iff max_ical_events_def)

theorem parsed_events_ok_witness:
  "\<exists>es. parse_icalendar str_less (cx_body export_demo) = Inr es \<and> es \<noteq> [] \<and> length es \<le> 5000 \<and>
    distinct (map ce_key es)"
proof -
  have parse: "parse_icalendar str_less (cx_body export_demo) = Inr [event_of ''villa'' \<lparr>dr_starts = 20, dr_ends = 22\<rparr>]"
    using export_parses [OF export_demo_hyps, of str_less] export_demo_ranges by (simp add: export_demo_def)
  from parsed_events_ok [OF parse] parse show ?thesis by blast
qed

subsection \<open>What a fetch may reach\<close>

text \<open>
  C32: fetching a calendar ends after at most four requests, one per hop, and every URL requested, the
  targets of redirects included, was checked at its own hop: HTTPS on the standard port, no
  credentials, no local name, and none of the addresses its name then resolved to blocked.
\<close>

theorem calendar_requests_public:
  "length (fst (fetch_calendar env etag modified raw)) \<le> 4 \<and>
   list_all (\<lambda>(hop, u). hop \<le> 3 \<and> url_protocol u = ''https:'' \<and> url_username u = [] \<and> url_password u = [] \<and>
       url_port u \<in> {[], ''443''} \<and> \<not> local_hostname (normalize_hostname (url_hostname u)) \<and>
       (\<exists>as. addresses_of (fe_is_ip env) (fe_resolve env hop) (normalize_hostname (url_hostname u)) = Some as \<and>
          as \<noteq> [] \<and> list_all (\<lambda>a. \<not> is_blocked_network_address (fe_is_ip env) a) as))
     (fst (fetch_calendar env etag modified raw))"
  using fetch_from_requests [of env "request_headers etag modified" 0 raw]
  unfolding fetch_calendar_def public_url_def list_all_iff by auto

lemma quad_text_chars: "c \<in> set (quad_text a b c' d) \<Longrightarrow> is_digit c \<or> c = CHR ''.''"
  using dec_text_digits by (auto simp: quad_text_def list_all_iff)

lemma mapped_quad:
  "is_blocked_ipv6 (''::ffff:'' @ quad_text a b c d) = is_blocked_ipv4 (quad_text a b c d)"
proof -
  let ?q = "quad_text a b c d"
  have low: "lower_char x = x" if "is_digit x \<or> x = CHR ''.''" for x
    using that by (auto simp: lower_char_def is_digit_def)
  have q: "to_lower ?q = ?q"
    unfolding to_lower_def by (rule map_idI) (use quad_text_chars low in blast)
  have pre: "to_lower ''::ffff:'' = ''::ffff:''" by code_simp
  have "to_lower (''::ffff:'' @ ?q) = ''::ffff:'' @ ?q"
    using q pre by (simp only: to_lower_def map_append)
  moreover have "CHR ''%'' \<notin> set (''::ffff:'' @ ?q)"
    using quad_text_chars [of "CHR ''%''" a b c d] by (auto simp: is_digit_def)
  then have "split_on CHR ''%'' (''::ffff:'' @ ?q) = [''::ffff:'' @ ?q]"
    using split_on_join [of "[''::ffff:'' @ ?q]" "CHR ''%''"] by simp
  ultimately show ?thesis
    by (simp add: is_blocked_ipv6_def starts_with_def)
qed

text \<open>
  C33: an IPv4 address, written as such or mapped into IPv6, passes the filter exactly when the 32-bit
  address lies in none of the twelve reserved blocks (private, loopback, shared, link-local,
  documentation, benchmarking, multicast and above).
\<close>

theorem ipv4_filter_is_block_list:
  assumes "a < 256" "b < 256" "c < 256" "d < 256"
  shows "is_blocked_ipv4 (quad_text a b c d) = list_ex (in_block (quad_word a b c d)) reserved_blocks \<and>
    is_blocked_ipv6 (''::ffff:'' @ quad_text a b c d) = list_ex (in_block (quad_word a b c d)) reserved_blocks"
proof -
  have "is_blocked_ipv4 (quad_text a b c d) = list_ex (in_block (quad_word a b c d)) reserved_blocks"
    using blocked_quad_blocks [OF assms] parse_quad [OF assms] by (simp add: is_blocked_ipv4_def)
  then show ?thesis by (simp only: mapped_quad simp_thms)
qed

theorem ipv4_filter_is_block_list_witness:
  "is_blocked_ipv4 (quad_text 100 64 0 1) = list_ex (in_block (quad_word 100 64 0 1)) reserved_blocks \<and>
    is_blocked_ipv6 (''::ffff:'' @ quad_text 100 64 0 1) = list_ex (in_block (quad_word 100 64 0 1)) reserved_blocks"
  by (rule ipv4_filter_is_block_list) simp_all

subsection \<open>What a synchronisation changes\<close>

lemma update_feed_frame [simp]:
  "avail (update_feed p i g s) = avail s" "events (update_feed p i g s) = events s"
  "feeds (update_feed p i g s) = update_where (is_feed p i) g (feeds s)"
  by (simp_all add: update_feed_def)

lemma imported_days_update:
  assumes "\<And>f. f_id (g f) = f_id f \<and> f_property (g f) = f_property f \<and> f_active (g f) = f_active f"
  shows "imported_days today (update_where P g fs) es p = imported_days today fs es p"
proof -
  have "row_exists (\<lambda>f. f_id f = j \<and> f_property f = p \<and> f_active f) (update_where P g fs) \<longleftrightarrow>
      row_exists (\<lambda>f. f_id f = j \<and> f_property f = p \<and> f_active f) fs" for j
    using assms by simp
  then show ?thesis by (simp only: imported_days_def)
qed

text \<open>
  C34: a synchronisation that downloads and accepts a calendar leaves, for its feed, exactly the events
  of the file that are not the program's own, leaves the events of every other feed, and leaves as
  imported nights of the property exactly the nights of the events of its active feeds from today on
  that no booking and no host row occupies; other properties keep their calendar.
\<close>

theorem sync_imports_exactly:
  assumes "sync_calendar_feed env collates t0 t1 p i s = (Inr r, t)" "\<not> sr_not_modified r"
  shows "\<exists>f x es. get_feed p i s = Inr f \<and>
    snd (fetch_calendar env (f_etag f) (f_modified f) (f_url f)) = Inr x \<and>
    imported_events collates (fr_body x) = Inr es \<and> sr_event_count r = length es \<and>
    events t = filter (\<lambda>e. fe_feed e \<noteq> i) (events s) @ map (event_row i) es \<and>
    (\<forall>d row. (avail t p d = Some row \<and> av_source row = Src_ical) =
      (row = ical_row \<and> d \<in> set (imported_now t1 t p) \<and>
       (\<forall>row'. avail s p d = Some row' \<longrightarrow> av_source row' = Src_ical))) \<and>
    (\<forall>q. q \<noteq> p \<longrightarrow> avail t q = avail s q)"
proof -
  have "\<exists>f x es n. get_feed p i s = Inr f \<and>
      snd (fetch_calendar env (f_etag f) (f_modified f) (f_url f)) = Inr x \<and>
      imported_events collates (fr_body x) = Inr es \<and> sr_event_count r = length es \<and>
      replace_feed_events t1 p i es (fr_etag x) (fr_modified x) (start_sync t0 p i s) = Inr (n, t)"
    using assms unfolding sync_calendar_feed_def Let_def
    by (auto split: sum.split_asm if_split_asm)
  then obtain f x es n where es: "get_feed p i s = Inr f"
      "snd (fetch_calendar env (f_etag f) (f_modified f) (f_url f)) = Inr x"
      "imported_events collates (fr_body x) = Inr es" "sr_event_count r = length es"
    and rep: "replace_feed_events t1 p i es (fr_etag x) (fr_modified x) (start_sync t0 p i s) = Inr (n, t)"
    by blast
  let ?s1 = "with_events i es (start_sync t0 p i s)"
  note t = replace_feed_events_Inr(2) [OF rep]
  have ev: "events ?s1 = filter (\<lambda>e. fe_feed e \<noteq> i) (events s) @ map (event_row i) es" and av: "avail ?s1 = avail s"
    by (simp_all add: with_events_def start_sync_def delete_where_def)
  have "imported_now t1 t p = imported_now t1 ?s1 p"
    unfolding t imported_now_def update_feed_frame reconcile_frame by (rule imported_days_update) simp
  then have "(avail t p d = Some row \<and> av_source row = Src_ical) =
      (row = ical_row \<and> d \<in> set (imported_now t1 t p) \<and>
       (\<forall>row'. avail s p d = Some row' \<longrightarrow> av_source row' = Src_ical))" for d row
    using reconcile_imported_rows [of t1 p ?s1 d row] av t by simp
  moreover have "avail t q = avail s q" if "q \<noteq> p" for q
    using that av t by (simp add: avail_reconcile)
  moreover have "events t = filter (\<lambda>e. fe_feed e \<noteq> i) (events s) @ map (event_row i) es"
    using ev t by simp
  ultimately show ?thesis using es by blast
qed

text \<open>A provider that answers with one event, and a feed of the demo property that asks it.\<close>

definition demo_file :: js_string where
  "demo_file = join_with [LF]
     [''BEGIN:VCALENDAR'', ''BEGIN:VEVENT'', ''UID:a@x'', ''DTSTART:19700122'', ''DTEND:19700124'', ''END:VEVENT'',
      ''END:VCALENDAR'']"

definition demo_url :: url where
  "demo_url = \<lparr>url_protocol = ''https:'', url_username = [], url_password = [], url_port = [],
     url_hostname = ''cal.example'', url_text = ''https://cal.example/a.ics''\<rparr>"

definition demo_env :: fetch_env where
  "demo_env =
     \<lparr>fe_parse = (\<lambda>_. Some demo_url), fe_join = (\<lambda>_ _. None),
      fe_is_ip = (\<lambda>h. if h = quad_text 93 184 216 34 then 4 else 0),
      fe_resolve = (\<lambda>_ _. Some [quad_text 93 184 216 34]),
      fe_request = (\<lambda>_ _ _. Some \<lparr>rs_status = 200, rs_etag = None, rs_modified = None, rs_location = None,
        rs_type = Some ''text/calendar'', rs_length = None, rs_body = Some [map of_char demo_file]\<rparr>),
      fe_decode = map char_of\<rparr>"

definition demo_feed :: feed where
  "demo_feed =
     \<lparr>f_id = ''f1'', f_property = ''villa'', f_name = ''n'', f_url = ''https://cal.example/a.ics'', f_active = True,
      f_status = Sync_never, f_started = None, f_completed = None, f_successful = None, f_error = None,
      f_etag = None, f_modified = None, f_created = 0, f_updated = 0\<rparr>"

definition sync_store :: store where
  "sync_store = (booked_with Confirmed Paid)\<lparr>feeds := [demo_feed]\<rparr>"

lemma demo_safe:
  "assert_safe_url (fe_parse demo_env) (fe_is_ip demo_env) (fe_resolve demo_env 0) raw = Inr demo_url"
proof -
  have host: "normalize_hostname (url_hostname demo_url) = ''cal.example''" "\<not> local_hostname ''cal.example''"
    by code_simp+
  have "length (quad_text 93 184 216 34) \<noteq> length ''cal.example''" by code_simp
  then have other: "''cal.example'' \<noteq> quad_text 93 184 216 34" by metis
  have "\<not> is_blocked_ipv4 (quad_text 93 184 216 34)"
    by (simp add: is_blocked_ipv4_def parse_quad blocked_quad_def)
  then show ?thesis
    using host other
    by (simp add: assert_safe_url_def demo_env_def demo_url_def addresses_of_def is_blocked_network_address_def)
qed

lemma demo_fetch:
  "snd (fetch_calendar demo_env None None raw) =
     Inr \<lparr>fr_not_modified = False, fr_body = demo_file, fr_etag = None, fr_modified = None\<rparr>"
proof -
  let ?r = "\<lparr>rs_status = 200, rs_etag = None, rs_modified = None, rs_location = None,
        rs_type = Some ''text/calendar'', rs_length = None, rs_body = Some [map of_char demo_file]\<rparr>"
  have req: "fe_request demo_env 0 demo_url hs = Some ?r" for hs by (simp add: demo_env_def)
  have "dec_text 0 = ''0''" by code_simp
  then have zero: "js_number ''0'' = Finite 0" using js_number_dec_text [of 0] by simp
  have len: "int (length demo_file) \<le> 1000" by code_simp
  have ty: "\<not> js_includes ''text/html'' (to_lower ''text/calendar'')"
    "\<not> js_includes ''application/xhtml'' (to_lower ''text/calendar'')" by code_simp+
  have dec: "fe_decode demo_env = map char_of" by (simp add: demo_env_def)
  have "final_response demo_env ?r =
      Inr \<lparr>fr_not_modified = False, fr_body = demo_file, fr_etag = None, fr_modified = None\<rparr>"
    using len ty by (simp add: final_response_def read_limited_body_def zero dec comp_def)
  then show ?thesis
    unfolding fetch_calendar_def
    by (subst fetch_from.simps) (simp add: demo_safe req is_redirect_def)
qed

lemma demo_imported:
  "imported_events str_less demo_file =
     Inr [\<lparr>ce_key = ''a@x'', ce_uid = ''a@x'', ce_starts = 21, ce_ends = 23, ce_summary = None\<rparr>]"
proof -
  let ?e = "\<lparr>ce_key = ''a@x'', ce_uid = ''a@x'', ce_starts = 21, ce_ends = 23, ce_summary = None\<rparr>"
  have "utf8_length demo_file \<le> 1000" by code_simp
  then have "\<not> max_ical_bytes < utf8_length demo_file" by (simp add: max_ical_bytes_def)
  moreover have "list_ex (\<lambda>l. to_upper (js_trim l) = ''BEGIN:VCALENDAR'') (unfold_lines demo_file)" by code_simp
  moreover have "scan_lines (unfold_lines demo_file) ([], None) = Inr ([?e], None)" by code_simp
  moreover have "\<not> is_host_calendar_event ?e" by code_simp
  ultimately show ?thesis
    by (simp add: imported_events_def parse_icalendar_def sort_events_def)
qed

lemma demo_sync:
  "\<exists>n t. sync_calendar_feed demo_env str_less 0 0 ''villa'' ''f1'' sync_store =
     (Inr \<lparr>sr_feed = ''f1'', sr_not_modified = False, sr_event_count = 1, sr_blocked = n\<rparr>, t)"
proof -
  let ?e = "\<lparr>ce_key = ''a@x'', ce_uid = ''a@x'', ce_starts = 21, ce_ends = 23, ce_summary = None\<rparr>"
  have f: "get_feed ''villa'' ''f1'' sync_store = Inr demo_feed" "f_active demo_feed" "f_etag demo_feed = None"
    "f_modified demo_feed = None"
    by (simp_all add: get_feed_def sync_store_def demo_feed_def)
  have "event_rows_allowed ''f1'' [?e] (start_sync 0 ''villa'' ''f1'' sync_store)"
    by (simp add: event_rows_allowed_def start_sync_def update_feed_def sync_store_def demo_feed_def update_where_def)
  then have "\<exists>n t. replace_feed_events 0 ''villa'' ''f1'' [?e] None None (start_sync 0 ''villa'' ''f1'' sync_store) = Inr (n, t)"
    unfolding replace_feed_events_def by (simp add: case_prod_beta)
  then obtain n t where
    "replace_feed_events 0 ''villa'' ''f1'' [?e] None None (start_sync 0 ''villa'' ''f1'' sync_store) = Inr (n, t)"
    by blast
  then have "sync_calendar_feed demo_env str_less 0 0 ''villa'' ''f1'' sync_store =
     (Inr \<lparr>sr_feed = ''f1'', sr_not_modified = False, sr_event_count = 1, sr_blocked = n\<rparr>, t)"
    unfolding sync_calendar_feed_def Let_def by (simp add: f demo_fetch demo_imported)
  then show ?thesis by blast
qed

theorem sync_imports_exactly_witness:
  "\<exists>r t. sync_calendar_feed demo_env str_less 0 0 ''villa'' ''f1'' sync_store = (Inr r, t) \<and>
    events t = [\<lparr>fe_feed = ''f1'', fe_key = ''a@x'', fe_uid = ''a@x'', fe_starts = 21, fe_ends = 23,
      fe_summary = None\<rparr>]"
proof -
  from demo_sync obtain n t where y: "sync_calendar_feed demo_env str_less 0 0 ''villa'' ''f1'' sync_store =
     (Inr \<lparr>sr_feed = ''f1'', sr_not_modified = False, sr_event_count = 1, sr_blocked = n\<rparr>, t)" by blast
  have f: "get_feed ''villa'' ''f1'' sync_store = Inr demo_feed" "f_etag demo_feed = None" "f_modified demo_feed = None"
    by (simp_all add: get_feed_def sync_store_def demo_feed_def)
  have "events sync_store = []" by (simp add: sync_store_def booked_with_def open_store_def empty_store_def)
  then have "events t = [\<lparr>fe_feed = ''f1'', fe_key = ''a@x'', fe_uid = ''a@x'', fe_starts = 21, fe_ends = 23,
      fe_summary = None\<rparr>]"
    using sync_imports_exactly [OF y] by (auto simp: f demo_fetch demo_imported event_row_def)
  with y show ?thesis by blast
qed

text \<open>
  a synchronisation that fails, wherever it fails, is reported as an error and leaves every
  property's calendar and all imported events as they were; only the feed's own status changes.
\<close>

lemma failed_sync_keeps_calendar:
  assumes "fst (sync_calendar_feed env collates t0 t1 p i s) = Inl e"
  shows "avail (snd (sync_calendar_feed env collates t0 t1 p i s)) = avail s \<and>
    events (snd (sync_calendar_feed env collates t0 t1 p i s)) = events s \<and>
    delete_where (is_feed p i) (feeds (snd (sync_calendar_feed env collates t0 t1 p i s))) =
      delete_where (is_feed p i) (feeds s)"
proof -
  have keep: "delete_where (is_feed p i) (update_where (is_feed p i) g fs) = delete_where (is_feed p i) fs"
    if "\<And>f. f_id (g f) = f_id f \<and> f_property (g f) = f_property f" for g fs
    using that by (induction fs) (auto simp: update_where_def delete_where_def)
  have same: "avail (record_sync_error t1 p i m (start_sync t0 p i s)) = avail s \<and>
      events (record_sync_error t1 p i m (start_sync t0 p i s)) = events s \<and>
      delete_where (is_feed p i) (feeds (record_sync_error t1 p i m (start_sync t0 p i s))) =
        delete_where (is_feed p i) (feeds s)" for m
    by (simp add: record_sync_error_def start_sync_def keep)
  from assms consider "snd (sync_calendar_feed env collates t0 t1 p i s) = s"
    | m where "snd (sync_calendar_feed env collates t0 t1 p i s) = record_sync_error t1 p i m (start_sync t0 p i s)"
    unfolding sync_calendar_feed_def Let_def
    by (auto split: sum.split_asm if_split_asm)
  then show ?thesis by cases (use same in auto)
qed

text \<open>The same provider when it does not answer.\<close>

definition down_env :: fetch_env where
  "down_env = demo_env\<lparr>fe_request := (\<lambda>_ _ _. None)\<rparr>"

lemma failed_sync_keeps_calendar_witness:
  "fst (sync_calendar_feed down_env str_less 0 0 ''villa'' ''f1'' sync_store) =
     Inl (Sync_failed ''Calendar provider could not be reached'') \<and>
   avail (snd (sync_calendar_feed down_env str_less 0 0 ''villa'' ''f1'' sync_store)) = avail sync_store"
proof
  have f: "get_feed ''villa'' ''f1'' sync_store = Inr demo_feed" "f_active demo_feed"
    by (simp_all add: get_feed_def sync_store_def demo_feed_def)
  have "snd (fetch_calendar down_env etag modified raw) = Inl Not_reachable" for etag modified raw
    unfolding fetch_calendar_def
    by (subst fetch_from.simps) (use demo_safe in \<open>simp add: down_env_def\<close>)
  moreover have "sync_message Not_reachable = ''Calendar provider could not be reached''" by code_simp
  ultimately show err: "fst (sync_calendar_feed down_env str_less 0 0 ''villa'' ''f1'' sync_store) =
      Inl (Sync_failed ''Calendar provider could not be reached'')"
    by (simp add: sync_calendar_feed_def f)
  from failed_sync_keeps_calendar [OF err]
  show "avail (snd (sync_calendar_feed down_env str_less 0 0 ''villa'' ''f1'' sync_store)) = avail sync_store"
    by (elim conjE)
qed

text \<open>
  no sequence of calendar operations (adding, enabling, disabling and deleting feeds, and
  synchronising them with providers that answer anything at all) changes a booking, or adds, removes
  or changes a row of the calendar that a booking or a host made.
\<close>

lemma calendar_operations_keep_bookings:
  assumes "av_source row \<noteq> Src_ical"
  shows "bookings (fold calendar_step ops s) = bookings s \<and>
    (avail (fold calendar_step ops s) q d = Some row) = (avail s q d = Some row)"
  using cal.run_bookings cal.run_rows [OF assms] by simp

lemma calendar_operations_keep_bookings_witness:
  "(avail (fold calendar_step
       [Sync_feed demo_env str_less 0 0 ''villa'' ''f1'', Delete_feed 0 ''villa'' ''f1''] sync_store) ''villa'' 20 =
     Some booked_row) = (avail sync_store ''villa'' 20 = Some booked_row)"
proof -
  have "av_source booked_row \<noteq> Src_ical" by simp
  then show ?thesis by (rule conjunct2 [OF calendar_operations_keep_bookings])
qed

text \<open>
  the scheduled run attempts at most its limit of feeds, all active and none that another run started
  in the last twenty minutes; every attempt is counted once, as succeeded or failed, and a failure
  does not stop the run.
\<close>

lemma due_sync_counts:
  "du_succeeded (fst (sync_due_calendar_feeds env collates clock now limit s)) +
     du_failed (fst (sync_due_calendar_feeds env collates clock now limit s)) =
     du_attempted (fst (sync_due_calendar_feeds env collates clock now limit s)) \<and>
   du_attempted (fst (sync_due_calendar_feeds env collates clock now limit s)) \<le> limit \<and>
   list_all (\<lambda>f. f \<in> set (feeds s) \<and> sync_due now f) (due_feeds now limit s)"
proof -
  let ?rows = "due_feeds now limit s"
  obtain n m t where y: "sync_each env collates clock ?rows s = (n, m, t)" by (metis prod_cases3)
  from sync_each_counts [OF y] have "n + m = length ?rows" .
  moreover have "set ?rows \<subseteq> set (select_where (sync_due now) (feeds s))"
    unfolding due_feeds_def using set_take_subset by (metis set_sort)
  ultimately show ?thesis
    using y by (auto simp: sync_due_calendar_feeds_def Let_def list_all_iff) (simp add: due_feeds_def)
qed

end
