(* ===== verification/Accounts.thy ===== *)
theory Accounts
  imports Store Js_String
begin

text \<open>
  Accounts, sign-in and sessions (lib/auth/authOptions.ts, session.ts, permissions.ts,
  adminSecurity.ts, bookingAccess.ts, hostAccess.ts and the session routes). The record \<open>accounts\<close>
  holds the tables these read and write; the signed session token is the record \<open>jwt\<close>, whose signature
  next-auth checks. Password hashing (bcrypt) and digests are arguments. The log of security events is
  written on every path; its metadata is left out.
\<close>

subsection \<open>Tables\<close>

record user_row =
  us_id :: uuid
  us_email :: js_string
  us_hash :: "js_string option"
  us_status :: js_string
  us_verified :: "millis option"
  us_version :: int
  us_fails :: int
  us_window :: "millis option"
  us_locked :: "millis option"
  us_changed :: "millis option"

record auth_session =
  as_id :: uuid
  as_user :: uuid
  as_seen :: millis
  as_expires :: millis
  as_revoked :: "millis option"
  as_reason :: "js_string option"

text \<open>A single-use token: of a password reset, an email verification, a sign-in, a recovery code.\<close>

record one_time =
  ot_hash :: js_string
  ot_user :: uuid
  ot_expires :: millis
  ot_used :: "millis option"

datatype purpose = Registration | Authentication

record challenge_row =
  ch_id :: uuid
  ch_user :: "uuid option"
  ch_text :: js_string
  ch_purpose :: purpose
  ch_expires :: millis
  ch_used :: "millis option"

record credential_row =
  cr_id :: uuid
  cr_user :: uuid
  cr_credential :: js_string
  cr_key :: js_string
  cr_counter :: int
  cr_label :: js_string
  cr_last_used :: "millis option"

record admin_row =
  ad_user :: uuid
  ad_role :: js_string
  ad_disabled :: "millis option"

datatype outcome = Success | Failure

record security_event =
  se_user :: "uuid option"
  se_type :: js_string
  se_outcome :: outcome

datatype security_action = Revoke_sessions | Unlock_login

record accounts =
  users :: "user_row list"
  owners :: "(uuid \<times> uuid) list"
  sessions :: "auth_session list"
  reset_tokens :: "one_time list"
  verify_tokens :: "one_time list"
  login_tokens :: "one_time list"
  recovery_codes :: "one_time list"
  challenges :: "challenge_row list"
  credentials :: "credential_row list"
  admins :: "admin_row list"
  permissions :: "(js_string \<times> js_string \<times> js_string) list"
  security_log :: "security_event list"
  admin_actions :: "(uuid \<times> uuid \<times> security_action \<times> js_string) list"

text \<open>\<open>owners\<close> is \<open>host_profiles\<close> as pairs of user and profile.\<close>

definition record_security_event :: "uuid option \<Rightarrow> js_string \<Rightarrow> outcome \<Rightarrow> accounts \<Rightarrow> accounts" where
  "record_security_event u ty r a =
     a\<lparr>security_log := insert_row \<lparr>se_user = u, se_type = ty, se_outcome = r\<rparr> (security_log a)\<rparr>"

abbreviation find_user :: "uuid \<Rightarrow> accounts \<Rightarrow> user_row option" where
  "find_user i a \<equiv> first_where (\<lambda>u. us_id u = i) (users a)"

abbreviation user_by_email :: "js_string \<Rightarrow> accounts \<Rightarrow> user_row option" where
  "user_by_email email a \<equiv> first_where (\<lambda>u. to_lower (us_email u) = to_lower email) (users a)"

definition update_user :: "uuid \<Rightarrow> (user_row \<Rightarrow> user_row) \<Rightarrow> accounts \<Rightarrow> accounts" where
  "update_user i f a = a\<lparr>users := update_where (\<lambda>u. us_id u = i) f (users a)\<rparr>"

definition token_live :: "millis \<Rightarrow> one_time \<Rightarrow> bool" where
  "token_live now t \<longleftrightarrow> ot_used t = None \<and> now < ot_expires t"

subsection \<open>Roles and the session token\<close>

datatype user_role = Guest | Host | Admin

record jwt =
  jw_user :: uuid
  jw_roles :: "user_role list"
  jw_host :: "uuid option"
  jw_admin :: "js_string option"
  jw_version :: int
  jw_session :: uuid

definition resolve_roles :: "uuid \<Rightarrow> accounts \<Rightarrow> user_role list \<times> uuid option \<times> js_string option" where
  "resolve_roles u a =
     (let h = first_where (\<lambda>p. fst p = u) (owners a);
          d = first_where (\<lambda>r. ad_user r = u \<and> ad_disabled r = None) (admins a)
      in (Guest # (if h = None then [] else [Host]) @ (if d = None then [] else [Admin]),
          map_option snd h, map_option ad_role d))"

abbreviation session_lifetime :: millis where
  "session_lifetime \<equiv> 30 * ms_per_day"

text \<open>The \<open>jwt\<close> callback at sign-in: roles are resolved once, and a session row is inserted.\<close>

definition jwt_sign_in :: "millis \<Rightarrow> uuid \<Rightarrow> uuid \<Rightarrow> int \<Rightarrow> accounts \<Rightarrow> jwt \<times> accounts" where
  "jwt_sign_in now sid u version a =
     (case resolve_roles u a of (roles, h, adm) \<Rightarrow>
        (\<lparr>jw_user = u, jw_roles = roles, jw_host = h, jw_admin = adm, jw_version = version, jw_session = sid\<rparr>,
         a\<lparr>sessions := insert_row \<lparr>as_id = sid, as_user = u, as_seen = now, as_expires = now + session_lifetime,
             as_revoked = None, as_reason = None\<rparr> (sessions a)\<rparr>))"

text \<open>The same callback with the trigger \<open>update\<close>.\<close>

definition jwt_update :: "jwt \<Rightarrow> accounts \<Rightarrow> jwt" where
  "jwt_update t a =
     (case resolve_roles (jw_user t) a of (roles, h, adm) \<Rightarrow>
        t\<lparr>jw_roles := roles, jw_host := h, jw_admin := adm\<rparr>)"

definition sign_out :: "millis \<Rightarrow> jwt \<Rightarrow> accounts \<Rightarrow> accounts" where
  "sign_out now t a =
     a\<lparr>sessions := update_where (\<lambda>s. as_id s = jw_session t)
         (\<lambda>s. s\<lparr>as_revoked := coalesce (as_revoked s) (Some now),
                as_reason := coalesce (as_reason s) (Some ''signed_out'')\<rparr>) (sessions a)\<rparr>"

subsection \<open>Sign-in with a password\<close>

abbreviation failed_login_limit :: int where
  "failed_login_limit \<equiv> 10"

abbreviation login_window :: millis where
  "login_window \<equiv> 15 * 60 * 1000"

definition window_over :: "millis \<Rightarrow> user_row \<Rightarrow> bool" where
  "window_over now u \<longleftrightarrow> (case us_window u of None \<Rightarrow> True | Some w \<Rightarrow> w < now - login_window)"

text \<open>The \<open>UPDATE\<close> after a wrong password; its right-hand sides all read the old row.\<close>

definition count_failure :: "millis \<Rightarrow> user_row \<Rightarrow> user_row" where
  "count_failure now u =
     (let n = (if window_over now u then 1 else us_fails u + 1)
      in u\<lparr>us_fails := n,
           us_window := (if window_over now u then Some now else us_window u),
           us_locked := (if failed_login_limit \<le> n then Some (now + login_window) else us_locked u)\<rparr>)"

definition clear_failures :: "user_row \<Rightarrow> user_row" where
  "clear_failures u = u\<lparr>us_fails := 0, us_window := None, us_locked := None\<rparr>"

definition login_locked :: "millis \<Rightarrow> user_row \<Rightarrow> bool" where
  "login_locked now u \<longleftrightarrow> (case us_locked u of None \<Rightarrow> False | Some t \<Rightarrow> now < t)"

record login =
  lg_user :: uuid
  lg_email :: js_string
  lg_version :: int

text \<open>\<open>matches pw hash\<close> is \<open>bcrypt.compare\<close>. The comparison with a dummy hash only takes time.\<close>

definition authorize_password ::
  "(js_string \<Rightarrow> js_string \<Rightarrow> bool) \<Rightarrow> bool \<Rightarrow> millis \<Rightarrow> js_string \<Rightarrow> js_string \<Rightarrow> accounts \<Rightarrow>
    login option \<times> accounts" where
  "authorize_password matches require_verified now email password a =
     (if email = [] \<or> password = [] then (None, a)
      else
        (case user_by_email email a of
           None \<Rightarrow> (None, record_security_event None ''password.login'' Failure a)
         | Some u \<Rightarrow>
             let failed = (\<lambda>a. (None, record_security_event (Some (us_id u)) ''password.login'' Failure a))
             in (case us_hash u of
                   None \<Rightarrow> failed a
                 | Some h \<Rightarrow>
                     if us_status u \<noteq> ''active'' \<or> h = [] then failed a
                     else if login_locked now u then failed a
                     else if \<not> matches password h then failed (update_user (us_id u) (count_failure now) a)
                     else if require_verified \<and> us_verified u = None then failed a
                     else (Some \<lparr>lg_user = us_id u, lg_email = us_email u, lg_version = us_version u\<rparr>,
                           record_security_event (Some (us_id u)) ''password.login'' Success
                             (update_user (us_id u) clear_failures a)))))"

text \<open>Sign-in with a token of a passkey or a recovery code; \<open>sha\<close> is the SHA-256 digest.\<close>

definition authorize_token ::
  "(js_string \<Rightarrow> js_string) \<Rightarrow> millis \<Rightarrow> js_string \<Rightarrow> accounts \<Rightarrow> login option \<times> accounts" where
  "authorize_token sha now raw a =
     (case first_where (\<lambda>t. ot_hash t = sha raw \<and> token_live now t \<and>
              row_exists (\<lambda>u. us_id u = ot_user t \<and> us_status u = ''active'') (users a)) (login_tokens a) of
        None \<Rightarrow> (None, a)
      | Some t \<Rightarrow>
          (case first_where (\<lambda>u. us_id u = ot_user t \<and> us_status u = ''active'') (users a) of
             None \<Rightarrow> (None, a)
           | Some u \<Rightarrow>
               (Some \<lparr>lg_user = us_id u, lg_email = us_email u, lg_version = us_version u\<rparr>,
                a\<lparr>login_tokens := update_where (\<lambda>x. ot_hash x = sha raw)
                    (\<lambda>x. x\<lparr>ot_used := Some now\<rparr>) (login_tokens a)\<rparr>)))"

text \<open>The \<open>signIn\<close> callback for Google: the user is found or created by email.\<close>

definition sign_in_google :: "millis \<Rightarrow> uuid \<Rightarrow> js_string \<Rightarrow> accounts \<Rightarrow> login \<times> accounts" where
  "sign_in_google now new_id email a =
     (case user_by_email email a of
        Some u \<Rightarrow> (\<lparr>lg_user = us_id u, lg_email = email, lg_version = us_version u\<rparr>, a)
      | None \<Rightarrow>
          (\<lparr>lg_user = new_id, lg_email = email, lg_version = 1\<rparr>,
           a\<lparr>users := insert_row \<lparr>us_id = new_id, us_email = email, us_hash = None, us_status = ''active'',
               us_verified = Some now, us_version = 1, us_fails = 0, us_window = None, us_locked = None,
               us_changed = None\<rparr> (users a)\<rparr>))"

subsection \<open>Guards of the routes\<close>

datatype auth_error = Not_signed_in | Session_expired | Forbidden js_string | Not_found js_string

definition auth_status :: "auth_error \<Rightarrow> int" where
  "auth_status e = (case e of Not_signed_in \<Rightarrow> 401 | Session_expired \<Rightarrow> 401 | Forbidden _ \<Rightarrow> 403 | Not_found _ \<Rightarrow> 404)"

definition session_current :: "millis \<Rightarrow> jwt \<Rightarrow> accounts \<Rightarrow> bool" where
  "session_current now t a \<longleftrightarrow>
     (case find_user (jw_user t) a of
        None \<Rightarrow> False
      | Some u \<Rightarrow> us_status u = ''active'' \<and> us_version u = jw_version t \<and>
          row_exists (\<lambda>s. as_id s = jw_session t \<and> as_user s = us_id u \<and> as_revoked s = None \<and>
            now < as_expires s) (sessions a))"

definition require_session :: "millis \<Rightarrow> jwt option \<Rightarrow> accounts \<Rightarrow> (auth_error + jwt) \<times> accounts" where
  "require_session now token a =
     (case token of
        None \<Rightarrow> (Inl Not_signed_in, a)
      | Some t \<Rightarrow>
          if \<not> session_current now t a then (Inl Session_expired, a)
          else (Inr t, a\<lparr>sessions := update_where
                 (\<lambda>s. as_id s = jw_session t \<and> as_seen s < now - 5 * 60 * 1000) (\<lambda>s. s\<lparr>as_seen := now\<rparr>) (sessions a)\<rparr>))"

definition require_role ::
  "user_role \<Rightarrow> millis \<Rightarrow> jwt option \<Rightarrow> accounts \<Rightarrow> (auth_error + jwt) \<times> accounts" where
  "require_role role now token a =
     (case require_session now token a of
        (Inl e, a1) \<Rightarrow> (Inl e, a1)
      | (Inr t, a1) \<Rightarrow> if role \<in> set (jw_roles t) then (Inr t, a1) else (Inl (Forbidden ''role''), a1))"

definition require_admin_role ::
  "js_string list \<Rightarrow> millis \<Rightarrow> jwt option \<Rightarrow> accounts \<Rightarrow> (auth_error + jwt) \<times> accounts" where
  "require_admin_role allowed now token a =
     (case require_role Admin now token a of
        (Inl e, a1) \<Rightarrow> (Inl e, a1)
      | (Inr t, a1) \<Rightarrow>
          (case jw_admin t of
             None \<Rightarrow> (Inl (Forbidden ''admin role''), a1)
           | Some r \<Rightarrow> if r \<noteq> [] \<and> r \<in> set allowed then (Inr t, a1) else (Inl (Forbidden ''admin role''), a1)))"

definition require_permission ::
  "js_string \<Rightarrow> js_string \<Rightarrow> millis \<Rightarrow> jwt option \<Rightarrow> accounts \<Rightarrow> (auth_error + jwt) \<times> accounts" where
  "require_permission resource action now token a =
     (case require_role Admin now token a of
        (Inl e, a1) \<Rightarrow> (Inl e, a1)
      | (Inr t, a1) \<Rightarrow>
          if jw_admin t = Some ''super_admin'' then (Inr t, a1)
          else if row_exists (\<lambda>p. Some (fst p) = jw_admin t \<and> snd p = (resource, action)) (permissions a1)
          then (Inr t, a1) else (Inl (Forbidden ''permission''), a1))"

definition require_secure_admin ::
  "bool \<Rightarrow> millis \<Rightarrow> jwt option \<Rightarrow> accounts \<Rightarrow> (auth_error + jwt) \<times> accounts" where
  "require_secure_admin super now token a =
     (case require_role Admin now token a of
        (Inl e, a1) \<Rightarrow> (Inl e, a1)
      | (Inr t, a1) \<Rightarrow>
          (case first_where (\<lambda>r. ad_user r = jw_user t) (admins a1) of
             None \<Rightarrow> (Inl (Forbidden ''disabled''), a1)
           | Some r \<Rightarrow>
               if ad_disabled r \<noteq> None then (Inl (Forbidden ''disabled''), a1)
               else if super \<and> ad_role r \<noteq> ''super_admin'' then (Inl (Forbidden ''super admin''), a1)
               else if (case find_user (jw_user t) a1 of None \<Rightarrow> True | Some u \<Rightarrow> us_verified u = None)
               then (Inl (Forbidden ''verify email''), a1)
               else if \<not> row_exists (\<lambda>c. cr_user c = jw_user t) (credentials a1)
               then (Inl (Forbidden ''add passkey''), a1)
               else (Inr t, a1)))"

text \<open>\<open>performAdminSecurityAction\<close>\<close>

definition admin_security_tx ::
  "millis \<Rightarrow> uuid \<Rightarrow> uuid \<Rightarrow> security_action \<Rightarrow> js_string \<Rightarrow> (accounts, auth_error, unit) tx" where
  "admin_security_tx now actor target act reason a =
     (if find_user target a = None then Inl (Not_found ''user'')
      else
        let a1 = (case act of
              Revoke_sessions \<Rightarrow>
                update_user target (\<lambda>u. u\<lparr>us_version := us_version u + 1\<rparr>)
                  (a\<lparr>sessions := update_where (\<lambda>s. as_user s = target \<and> as_revoked s = None)
                      (\<lambda>s. s\<lparr>as_revoked := coalesce (as_revoked s) (Some now),
                             as_reason := coalesce (as_reason s) (Some ''admin_security_action'')\<rparr>) (sessions a)\<rparr>)
            | Unlock_login \<Rightarrow> update_user target clear_failures a)
        in Inr ((), a1\<lparr>admin_actions := insert_row (actor, target, act, reason) (admin_actions a1)\<rparr>))"

definition perform_admin_security_action ::
  "millis \<Rightarrow> uuid \<Rightarrow> uuid \<Rightarrow> security_action \<Rightarrow> js_string \<Rightarrow> accounts \<Rightarrow> (auth_error + unit) \<times> accounts" where
  "perform_admin_security_action now actor target act reason a =
     (case with_transaction (admin_security_tx now actor target act reason) a of
        (Inl e, a1) \<Rightarrow> (Inl e, a1)
      | (Inr x, a1) \<Rightarrow> (Inr x, record_security_event (Some target)
           (case act of Revoke_sessions \<Rightarrow> ''admin.revoke_sessions'' | Unlock_login \<Rightarrow> ''admin.unlock_login'')
           Success a1))"

subsection \<open>Access to a booking and to a property\<close>

record access =
  ac_role :: user_role
  ac_guest :: uuid
  ac_host :: uuid
  ac_property :: uuid

definition resolve_booking_access :: "jwt \<Rightarrow> uuid \<Rightarrow> store \<Rightarrow> auth_error + access" where
  "resolve_booking_access t i s =
     (case find_booking i s of
        None \<Rightarrow> Inl (Not_found ''booking'')
      | Some b \<Rightarrow>
          let ok = (\<lambda>r. Inr \<lparr>ac_role = r, ac_guest = b_guest b, ac_host = b_host b, ac_property = b_property b\<rparr>)
          in if jw_user t = b_guest b then ok Guest
             else if jw_host t = Some (b_host b) then ok Host
             else if Admin \<in> set (jw_roles t) then ok Admin
             else Inl (Forbidden ''booking''))"

definition resolve_host_property_access :: "jwt \<Rightarrow> uuid \<Rightarrow> store \<Rightarrow> auth_error + uuid" where
  "resolve_host_property_access t i s =
     (case find_property i s of
        None \<Rightarrow> Inl (Not_found ''property'')
      | Some p \<Rightarrow>
          if jw_host t = None \<or> jw_host t = Some [] \<or> jw_host t \<noteq> Some (p_host p)
          then (if Admin \<in> set (jw_roles t) then Inr (p_host p) else Inl (Forbidden ''property''))
          else Inr (p_host p))"

subsection \<open>The sessions of an account\<close>

definition list_sessions :: "millis \<Rightarrow> jwt \<Rightarrow> accounts \<Rightarrow> (auth_session \<times> bool) list" where
  "list_sessions now t a =
     map (\<lambda>s. (s, as_id s = jw_session t))
       (rev (sort_key as_seen (rev (select_where (\<lambda>s. as_user s = jw_user t \<and> as_revoked s = None \<and>
          now < as_expires s) (sessions a)))))"

definition revoke_other_sessions :: "millis \<Rightarrow> jwt \<Rightarrow> accounts \<Rightarrow> nat \<times> accounts" where
  "revoke_other_sessions now t a =
     (let P = (\<lambda>s. as_user s = jw_user t \<and> as_id s \<noteq> jw_session t \<and> as_revoked s = None)
      in (row_count P (sessions a),
          record_security_event (Some (jw_user t)) ''sessions.revoked_others'' Success
            (a\<lparr>sessions := update_where P
                (\<lambda>s. s\<lparr>as_revoked := Some now, as_reason := Some ''user_revoked_other_sessions''\<rparr>) (sessions a)\<rparr>)))"

end
