(* ===== verification/Credentials.thy ===== *)
theory Credentials
  imports Accounts
begin

text \<open>
  The ways an account's credentials change: registration, password reset and change, email
  verification, recovery codes and passkeys (lib/auth/passwordReset.ts, emailVerification.ts,
  recoveryCodes.ts, passkeys.ts and the routes under app/api/auth and app/api/account). Random tokens
  and identifiers are arguments, and so are the digests, bcrypt and the WebAuthn library's verdicts.
  Mail is taken to be sent. A recovery code's year has 365 days.
\<close>

subsection \<open>Registration\<close>

datatype register_error = Registration_failed

definition register_account ::
  "(js_string \<Rightarrow> js_string) \<Rightarrow> uuid \<Rightarrow> js_string \<Rightarrow> js_string \<Rightarrow> accounts \<Rightarrow> (register_error + uuid) \<times> accounts" where
  "register_account bcrypt new_id email password a =
     (if user_by_email email a \<noteq> None then (Inl Registration_failed, a)
      else (Inr new_id, record_security_event (Some new_id) ''account_registered'' Success
             (a\<lparr>users := insert_row \<lparr>us_id = new_id, us_email = email, us_hash = Some (bcrypt password),
                us_status = ''active'', us_verified = None, us_version = 1, us_fails = 0, us_window = None,
                us_locked = None, us_changed = None\<rparr> (users a)\<rparr>)))"

subsection \<open>Password reset\<close>

abbreviation reset_ttl :: millis where
  "reset_ttl \<equiv> 30 * 60 * 1000"

definition use_tokens :: "millis \<Rightarrow> (one_time \<Rightarrow> bool) \<Rightarrow> one_time list \<Rightarrow> one_time list" where
  "use_tokens now P = update_where P (\<lambda>t. t\<lparr>ot_used := Some now\<rparr>)"

definition request_password_reset ::
  "(js_string \<Rightarrow> js_string) \<Rightarrow> millis \<Rightarrow> js_string \<Rightarrow> js_string \<Rightarrow> accounts \<Rightarrow> accounts" where
  "request_password_reset sha now raw email a =
     (case first_where (\<lambda>u. to_lower (us_email u) = to_lower email \<and> us_status u = ''active'') (users a) of
        None \<Rightarrow> a
      | Some u \<Rightarrow> a\<lparr>reset_tokens := insert_row
            \<lparr>ot_hash = sha raw, ot_user = us_id u, ot_expires = now + reset_ttl, ot_used = None\<rparr> (reset_tokens a)\<rparr>)"

text \<open>
  \<open>confirmPasswordReset\<close> runs outside a transaction: the query that finds the token, and the updates
  after the new password has been hashed, are two steps.
\<close>

datatype reset_error = Invalid_link

definition reset_lookup ::
  "(js_string \<Rightarrow> js_string) \<Rightarrow> millis \<Rightarrow> js_string \<Rightarrow> accounts \<Rightarrow> reset_error + one_time" where
  "reset_lookup sha now raw a =
     (case first_where (\<lambda>t. ot_hash t = sha raw \<and> token_live now t) (reset_tokens a) of
        None \<Rightarrow> Inl Invalid_link | Some t \<Rightarrow> Inr t)"

definition reset_apply ::
  "(js_string \<Rightarrow> js_string) \<Rightarrow> millis \<Rightarrow> one_time \<Rightarrow> js_string \<Rightarrow> accounts \<Rightarrow> accounts" where
  "reset_apply bcrypt now t password a =
     (let a1 = update_user (ot_user t) (\<lambda>u. u\<lparr>us_hash := Some (bcrypt password), us_changed := Some now,
            us_version := us_version u + 1\<rparr>) a;
          a2 = a1\<lparr>reset_tokens := use_tokens now (\<lambda>x. ot_hash x = ot_hash t) (reset_tokens a1)\<rparr>
      in a2\<lparr>reset_tokens := use_tokens now (\<lambda>x. ot_user x = ot_user t \<and> ot_used x = None) (reset_tokens a2)\<rparr>)"

definition confirm_password_reset ::
  "(js_string \<Rightarrow> js_string) \<Rightarrow> (js_string \<Rightarrow> js_string) \<Rightarrow> millis \<Rightarrow> millis \<Rightarrow> js_string \<Rightarrow> js_string \<Rightarrow>
    accounts \<Rightarrow> (reset_error + unit) \<times> accounts" where
  "confirm_password_reset sha bcrypt found written raw password a =
     (case reset_lookup sha found raw a of
        Inl e \<Rightarrow> (Inl e, a)
      | Inr t \<Rightarrow> (Inr (), reset_apply bcrypt written t password a))"

subsection \<open>Email verification\<close>

definition request_email_verification ::
  "(js_string \<Rightarrow> js_string) \<Rightarrow> millis \<Rightarrow> js_string \<Rightarrow> uuid \<Rightarrow> accounts \<Rightarrow> accounts" where
  "request_email_verification sha now raw u a =
     (let a1 = a\<lparr>verify_tokens := use_tokens now (\<lambda>t. ot_user t = u \<and> ot_used t = None) (verify_tokens a)\<rparr>
      in record_security_event (Some u) ''email_verification_requested'' Success
           (a1\<lparr>verify_tokens := insert_row
              \<lparr>ot_hash = sha raw, ot_user = u, ot_expires = now + 24 * ms_per_hour, ot_used = None\<rparr> (verify_tokens a1)\<rparr>))"

definition verify_email_tx ::
  "(js_string \<Rightarrow> js_string) \<Rightarrow> millis \<Rightarrow> js_string \<Rightarrow> (accounts, reset_error, uuid) tx" where
  "verify_email_tx sha now raw a =
     (case first_where (\<lambda>t. ot_hash t = sha raw \<and> token_live now t) (verify_tokens a) of
        None \<Rightarrow> Inl Invalid_link
      | Some t \<Rightarrow>
          let a1 = update_user (ot_user t) (\<lambda>u. u\<lparr>us_verified := coalesce (us_verified u) (Some now)\<rparr>) a
          in Inr (ot_user t, a1\<lparr>verify_tokens :=
               use_tokens now (\<lambda>x. ot_user x = ot_user t \<and> ot_used x = None) (verify_tokens a1)\<rparr>))"

definition confirm_email_verification ::
  "(js_string \<Rightarrow> js_string) \<Rightarrow> millis \<Rightarrow> js_string \<Rightarrow> accounts \<Rightarrow> (reset_error + uuid) \<times> accounts" where
  "confirm_email_verification sha now raw a =
     (case with_transaction (verify_email_tx sha now raw) a of
        (Inl e, a1) \<Rightarrow> (Inl e, a1)
      | (Inr u, a1) \<Rightarrow> (Inr u, record_security_event (Some u) ''email_verified'' Success a1))"

subsection \<open>Changing the password\<close>

datatype password_error = Wrong_password | Same_password

definition change_password_tx ::
  "(js_string \<Rightarrow> js_string \<Rightarrow> bool) \<Rightarrow> (js_string \<Rightarrow> js_string) \<Rightarrow> millis \<Rightarrow> uuid \<Rightarrow> js_string \<Rightarrow> js_string \<Rightarrow>
    (accounts, password_error, unit) tx" where
  "change_password_tx matches bcrypt now i current new a =
     (case first_where (\<lambda>u. us_id u = i \<and> us_status u = ''active'') (users a) of
        None \<Rightarrow> Inl Wrong_password
      | Some u \<Rightarrow>
          (case us_hash u of
             None \<Rightarrow> Inl Wrong_password
           | Some h \<Rightarrow>
               if h = [] \<or> \<not> matches current h then Inl Wrong_password
               else if matches new h then Inl Same_password
               else
                 let a1 = update_user i (\<lambda>u. clear_failures (u\<lparr>us_hash := Some (bcrypt new),
                        us_changed := Some now, us_version := us_version u + 1\<rparr>)) a
                 in Inr ((), a1\<lparr>
                      sessions := update_where (\<lambda>s. as_user s = i)
                        (\<lambda>s. s\<lparr>as_revoked := coalesce (as_revoked s) (Some now),
                               as_reason := coalesce (as_reason s) (Some ''password_changed'')\<rparr>) (sessions a1),
                      reset_tokens := use_tokens now (\<lambda>t. ot_user t = i \<and> ot_used t = None) (reset_tokens a1),
                      recovery_codes := delete_where (\<lambda>t. ot_user t = i) (recovery_codes a1),
                      login_tokens := delete_where (\<lambda>t. ot_user t = i) (login_tokens a1),
                      challenges := update_where (\<lambda>c. ch_user c = Some i \<and> ch_used c = None)
                        (\<lambda>c. c\<lparr>ch_used := Some now\<rparr>) (challenges a1)\<rparr>)))"

definition change_password ::
  "(js_string \<Rightarrow> js_string \<Rightarrow> bool) \<Rightarrow> (js_string \<Rightarrow> js_string) \<Rightarrow> millis \<Rightarrow> uuid \<Rightarrow> js_string \<Rightarrow> js_string \<Rightarrow>
    accounts \<Rightarrow> (password_error + unit) \<times> accounts" where
  "change_password matches bcrypt now i current new a =
     (case with_transaction (change_password_tx matches bcrypt now i current new) a of
        (Inl e, a1) \<Rightarrow> (Inl e, record_security_event (Some i) ''password.changed'' Failure a1)
      | (Inr x, a1) \<Rightarrow> (Inr x, record_security_event (Some i) ''password.changed'' Success a1))"

subsection \<open>Recovery codes\<close>

definition hex_letter :: "char \<Rightarrow> bool" where
  "hex_letter c \<longleftrightarrow> is_digit c \<or> (97 \<le> code c \<and> code c \<le> 102) \<or> (65 \<le> code c \<and> code c \<le> 70)"

definition normalize_recovery_code :: "js_string \<Rightarrow> js_string" where
  "normalize_recovery_code c = to_upper (filter hex_letter c)"

text \<open>\<open>hmac\<close> is the keyed digest under \<open>AUTH_SECRET\<close>.\<close>

definition hash_recovery_code :: "(js_string \<Rightarrow> js_string) \<Rightarrow> js_string \<Rightarrow> js_string" where
  "hash_recovery_code hmac c = hmac (normalize_recovery_code c)"

text \<open>\<open>raw.match(/.{1,4}/g).join("-")\<close> of the hexadecimal text of eight random bytes.\<close>

function chunks4 :: "js_string \<Rightarrow> js_string list" where
  "chunks4 s = (if s = [] then [] else take 4 s # chunks4 (drop 4 s))"
  by pat_completeness auto
termination
  by (relation "measure length") simp_all

declare chunks4.simps [simp del]

definition recovery_code_of :: "js_string \<Rightarrow> js_string" where
  "recovery_code_of raw = join_with ''-'' (chunks4 (to_upper raw))"

definition generate_recovery_codes ::
  "(js_string \<Rightarrow> js_string \<Rightarrow> bool) \<Rightarrow> (js_string \<Rightarrow> js_string) \<Rightarrow> millis \<Rightarrow> js_string list \<Rightarrow> uuid \<Rightarrow> js_string \<Rightarrow>
    accounts \<Rightarrow> (password_error + js_string list) \<times> accounts" where
  "generate_recovery_codes matches hmac now raws i password a =
     (let refused = (Inl Wrong_password, record_security_event (Some i) ''recovery_codes.generated'' Failure a)
      in case first_where (\<lambda>u. us_id u = i \<and> us_status u = ''active'') (users a) of
           None \<Rightarrow> refused
         | Some u \<Rightarrow>
             (case us_hash u of
                None \<Rightarrow> refused
              | Some h \<Rightarrow>
                  if h = [] \<or> \<not> matches password h then refused
                  else
                    let codes = map recovery_code_of raws
                    in (Inr codes, record_security_event (Some i) ''recovery_codes.generated'' Success
                         (a\<lparr>recovery_codes := delete_where (\<lambda>t. ot_user t = i) (recovery_codes a) @
                              map (\<lambda>c. \<lparr>ot_hash = hash_recovery_code hmac c, ot_user = i,
                                ot_expires = now + 365 * ms_per_day, ot_used = None\<rparr>) codes\<rparr>))))"

definition login_token :: "(js_string \<Rightarrow> js_string) \<Rightarrow> millis \<Rightarrow> js_string \<Rightarrow> uuid \<Rightarrow> one_time" where
  "login_token sha now raw u = \<lparr>ot_hash = sha raw, ot_user = u, ot_expires = now + 60 * 1000, ot_used = None\<rparr>"

definition recovery_tx ::
  "(js_string \<Rightarrow> js_string) \<Rightarrow> (js_string \<Rightarrow> js_string) \<Rightarrow> millis \<Rightarrow> js_string \<Rightarrow> js_string \<Rightarrow> js_string \<Rightarrow>
    (accounts, unit, uuid) tx" where
  "recovery_tx sha hmac now raw email c a =
     (let h = hash_recovery_code hmac c
      in case first_where (\<lambda>t. ot_hash t = h \<and> token_live now t \<and>
               row_exists (\<lambda>u. us_id u = ot_user t \<and> to_lower (us_email u) = to_lower (js_trim email) \<and>
                 us_status u = ''active'') (users a)) (recovery_codes a) of
           None \<Rightarrow> Inl ()
         | Some t \<Rightarrow> Inr (ot_user t, a\<lparr>
             recovery_codes := use_tokens now (\<lambda>x. ot_hash x = h) (recovery_codes a),
             login_tokens := insert_row (login_token sha now raw (ot_user t)) (login_tokens a)\<rparr>))"

definition recover_account ::
  "(js_string \<Rightarrow> js_string) \<Rightarrow> (js_string \<Rightarrow> js_string) \<Rightarrow> millis \<Rightarrow> js_string \<Rightarrow> js_string \<Rightarrow> js_string \<Rightarrow>
    accounts \<Rightarrow> (unit + uuid) \<times> accounts" where
  "recover_account sha hmac now raw email c a =
     (if js_trim email = [] \<or> js_trim c = []
      then (Inl (), record_security_event None ''recovery_code.authenticated'' Failure a)
      else
        (case with_transaction (recovery_tx sha hmac now raw email c) a of
           (Inl e, a1) \<Rightarrow> (Inl e, record_security_event None ''recovery_code.authenticated'' Failure a1)
         | (Inr u, a1) \<Rightarrow> (Inr u, record_security_event (Some u) ''recovery_code.authenticated'' Success a1)))"

subsection \<open>Passkeys\<close>

abbreviation challenge_ttl :: millis where
  "challenge_ttl \<equiv> 10 * 60 * 1000"

definition start_challenge ::
  "millis \<Rightarrow> uuid \<Rightarrow> uuid option \<Rightarrow> purpose \<Rightarrow> js_string \<Rightarrow> accounts \<Rightarrow> accounts" where
  "start_challenge now i u p txt a =
     a\<lparr>challenges := insert_row \<lparr>ch_id = i, ch_user = u, ch_text = txt, ch_purpose = p,
         ch_expires = now + challenge_ttl, ch_used = None\<rparr> (challenges a)\<rparr>"

definition challenge_live :: "millis \<Rightarrow> challenge_row \<Rightarrow> bool" where
  "challenge_live now c \<longleftrightarrow> ch_used c = None \<and> now < ch_expires c"

text \<open>\<open>UPDATE webauthn_challenges SET used_at ... WHERE id = $1 AND used_at IS NULL RETURNING id\<close>\<close>

definition consume_challenge :: "millis \<Rightarrow> uuid \<Rightarrow> accounts \<Rightarrow> (unit + accounts)" where
  "consume_challenge now i a =
     (if row_exists (\<lambda>c. ch_id c = i \<and> ch_used c = None) (challenges a)
      then Inr (a\<lparr>challenges := update_where (\<lambda>c. ch_id c = i \<and> ch_used c = None)
             (\<lambda>c. c\<lparr>ch_used := Some now\<rparr>) (challenges a)\<rparr>)
      else Inl ())"

text \<open>
  \<open>verify\<close> is \<open>verifyAuthenticationResponse\<close> for the client's response: given challenge, key and counter
  it fails or gives the new counter. The lookups and the transaction may see different databases.
\<close>

definition passkey_tx ::
  "(js_string \<Rightarrow> js_string) \<Rightarrow> millis \<Rightarrow> js_string \<Rightarrow> uuid \<Rightarrow> js_string \<Rightarrow> int \<Rightarrow> uuid \<Rightarrow> (accounts, unit, uuid) tx" where
  "passkey_tx sha now raw challenge credential counter u a =
     (case consume_challenge now challenge a of
        Inl e \<Rightarrow> Inl e
      | Inr a1 \<Rightarrow> Inr (u, a1\<lparr>
          credentials := update_where (\<lambda>c. cr_credential c = credential)
            (\<lambda>c. c\<lparr>cr_counter := counter, cr_last_used := Some now\<rparr>) (credentials a1),
          login_tokens := insert_row (login_token sha now raw u) (login_tokens a1)\<rparr>))"

definition verify_passkey_login ::
  "(js_string \<Rightarrow> js_string) \<Rightarrow> (js_string \<Rightarrow> js_string \<Rightarrow> int \<Rightarrow> int option) \<Rightarrow> (accounts \<Rightarrow> accounts) \<Rightarrow> millis \<Rightarrow> millis \<Rightarrow>
    js_string \<Rightarrow> uuid \<Rightarrow> js_string \<Rightarrow> accounts \<Rightarrow> (unit + uuid) \<times> accounts" where
  "verify_passkey_login sha verify meanwhile found written raw challenge credential a =
     (case (first_where (\<lambda>c. ch_id c = challenge \<and> ch_purpose c = Authentication \<and> challenge_live found c) (challenges a),
            first_where (\<lambda>c. cr_credential c = credential \<and>
              row_exists (\<lambda>u. us_id u = cr_user c \<and> us_status u = ''active'') (users a)) (credentials a)) of
        (Some ch, Some cr) \<Rightarrow>
          (case verify (ch_text ch) (cr_key cr) (cr_counter cr) of
             None \<Rightarrow> (Inl (), a)
           | Some counter \<Rightarrow>
               (case with_transaction (passkey_tx sha written raw challenge credential counter (cr_user cr)) (meanwhile a) of
                  (Inl e, a1) \<Rightarrow> (Inl e, a1)
                | (Inr u, a1) \<Rightarrow> (Inr u, record_security_event (Some u) ''passkey.authenticated'' Success a1)))
      | _ \<Rightarrow> (Inl (), a))"

definition register_passkey_tx ::
  "millis \<Rightarrow> uuid \<Rightarrow> credential_row \<Rightarrow> (accounts, unit, unit) tx" where
  "register_passkey_tx now challenge c a =
     (case consume_challenge now challenge a of
        Inl e \<Rightarrow> Inl e
      | Inr a1 \<Rightarrow>
          if row_exists (\<lambda>x. cr_credential x = cr_credential c) (credentials a1) then Inl ()
          else Inr ((), a1\<lparr>credentials := insert_row c (credentials a1)\<rparr>))"

definition passkey_label :: "js_string option \<Rightarrow> js_string" where
  "passkey_label l =
     (let t = (case l of None \<Rightarrow> [] | Some x \<Rightarrow> take 80 (js_trim x)) in if t = [] then ''Passkey'' else t)"

definition verify_passkey_registration ::
  "(js_string \<Rightarrow> (js_string \<times> js_string \<times> int) option) \<Rightarrow> (accounts \<Rightarrow> accounts) \<Rightarrow> millis \<Rightarrow> millis \<Rightarrow> uuid \<Rightarrow>
    uuid \<Rightarrow> js_string option \<Rightarrow> uuid \<Rightarrow> accounts \<Rightarrow> (unit + unit) \<times> accounts" where
  "verify_passkey_registration verify meanwhile found written new_id challenge label u a =
     (case first_where (\<lambda>c. ch_id c = challenge \<and> ch_user c = Some u \<and> ch_purpose c = Registration \<and>
             challenge_live found c) (challenges a) of
        None \<Rightarrow> (Inl (), a)
      | Some ch \<Rightarrow>
          (case verify (ch_text ch) of
             None \<Rightarrow> (Inl (), a)
           | Some (cid, key, counter) \<Rightarrow>
               (case with_transaction (register_passkey_tx written challenge
                      \<lparr>cr_id = new_id, cr_user = u, cr_credential = cid, cr_key = key, cr_counter = counter,
                       cr_label = passkey_label label, cr_last_used = None\<rparr>) (meanwhile a) of
                  (Inl e, a1) \<Rightarrow> (Inl e, a1)
                | (Inr x, a1) \<Rightarrow> (Inr x, record_security_event (Some u) ''passkey.registered'' Success a1))))"

datatype passkey_error = Account_missing | Last_sign_in_method | Passkey_missing

definition remove_passkey_tx :: "uuid \<Rightarrow> uuid \<Rightarrow> (accounts, passkey_error, unit) tx" where
  "remove_passkey_tx i u a =
     (case find_user u a of
        None \<Rightarrow> Inl Account_missing
      | Some r \<Rightarrow>
          if (us_hash r = None \<or> us_hash r = Some []) \<and> row_count (\<lambda>c. cr_user c = u) (credentials a) \<le> 1
          then Inl Last_sign_in_method
          else if \<not> row_exists (\<lambda>c. cr_id c = i \<and> cr_user c = u) (credentials a) then Inl Passkey_missing
          else Inr ((), a\<lparr>credentials := delete_where (\<lambda>c. cr_id c = i \<and> cr_user c = u) (credentials a)\<rparr>))"

subsection \<open>Purging\<close>

abbreviation older :: "millis \<Rightarrow> millis option \<Rightarrow> bool" where
  "older t x \<equiv> (case x of None \<Rightarrow> False | Some y \<Rightarrow> y < t)"

definition stale_token :: "millis \<Rightarrow> one_time \<Rightarrow> bool" where
  "stale_token t x \<longleftrightarrow> ot_expires x < t \<or> older t (ot_used x)"

definition purge_expired_security_data :: "millis \<Rightarrow> accounts \<Rightarrow> accounts" where
  "purge_expired_security_data now a = a\<lparr>
     challenges := delete_where (\<lambda>c. ch_expires c < now - ms_per_day \<or> older (now - ms_per_day) (ch_used c)) (challenges a),
     login_tokens := delete_where (stale_token (now - ms_per_day)) (login_tokens a),
     reset_tokens := delete_where (stale_token (now - 7 * ms_per_day)) (reset_tokens a),
     verify_tokens := delete_where (stale_token (now - 7 * ms_per_day)) (verify_tokens a),
     sessions := delete_where (\<lambda>s. as_expires s < now - 30 * ms_per_day \<or>
       older (now - 30 * ms_per_day) (as_revoked s)) (sessions a)\<rparr>"

end
