(* ===== verification/Rate_Limit.thy ===== *)
theory Rate_Limit
  imports Js_String
begin

text \<open>
  The gate in front of every request (middleware.ts): the origin check of state-changing calls, the
  rate limits and the security headers; and the interface \<open>window_counter\<close> of a counter that admits a
  bounded number of events per window of time, which the in-memory limiter here and the login lock of
  \<open>Accounts\<close> both implement. The distributed limiter is a service, an argument of the model. Shown: a
  window counter admits at most its capacity per window, and no state-changing request of another
  origin reaches a handler unless its path is exempt.
\<close>

subsection \<open>Interface: counters of a time window\<close>

text \<open>
  \<open>step t s\<close> decides whether the event at time \<open>t\<close> is admitted. \<open>view\<close> reads start and count of the
  current window, if there is one. An admitted event is counted in the current window while that
  lasts, and opens a new one afterwards.
\<close>

locale window_counter =
  fixes step :: "int \<Rightarrow> 's \<Rightarrow> bool \<times> 's"
    and view :: "'s \<Rightarrow> (int \<times> int) option"
    and inv :: "'s \<Rightarrow> bool"
    and width :: int
    and cap :: int
  assumes width_pos: "0 < width"
    and cap_pos: "0 < cap"
    and keeps: "inv s \<Longrightarrow> (\<And>w c. view s = Some (w, c) \<Longrightarrow> w \<le> t) \<Longrightarrow> inv (snd (step t s))"
    and refused: "inv s \<Longrightarrow> \<not> fst (step t s) \<Longrightarrow> view (snd (step t s)) = view s"
    and inside: "inv s \<Longrightarrow> fst (step t s) \<Longrightarrow> view s = Some (w, c) \<Longrightarrow> t \<le> w + width \<Longrightarrow>
      c < cap \<and> view (snd (step t s)) = Some (w, c + 1)"
    and expired: "inv s \<Longrightarrow> fst (step t s) \<Longrightarrow> view s = Some (w, c) \<Longrightarrow> w + width < t \<Longrightarrow>
      view (snd (step t s)) = Some (t, 1)"
    and first: "inv s \<Longrightarrow> fst (step t s) \<Longrightarrow> view s = None \<Longrightarrow> view (snd (step t s)) = Some (t, 1)"
begin

fun admitted :: "int list \<Rightarrow> 's \<Rightarrow> nat" where
  "admitted [] s = 0"
| "admitted (t # ts) s =
     (if fst (step t s) then Suc (admitted ts (snd (step t s))) else admitted ts (snd (step t s)))"

text \<open>
  The invariant of a run that began at \<open>t0\<close> and has admitted \<open>n\<close> events: \<open>k\<close> windows were filled and
  left before the current one began.
\<close>

definition run_inv :: "int \<Rightarrow> int \<Rightarrow> int \<Rightarrow> 's \<Rightarrow> bool" where
  "run_inv t0 now n s \<longleftrightarrow> inv s \<and>
     (case view s of
        None \<Rightarrow> n = 0
      | Some (w, c) \<Rightarrow> \<exists>k \<ge> 0. n \<le> cap * k + c \<and> c \<le> cap \<and> t0 + k * width \<le> w \<and> w \<le> now)"

lemma run_inv_step:
  assumes "run_inv t0 now n s" "now \<le> t" "t0 \<le> t"
  shows "run_inv t0 t (if fst (step t s) then n + 1 else n) (snd (step t s))"
proof -
  from assms(1) have s: "inv s" by (simp add: run_inv_def)
  have keep: "inv (snd (step t s))"
    by (rule keeps [OF s]) (use assms(1,2) in \<open>auto simp: run_inv_def\<close>)
  show ?thesis
  proof (cases "fst (step t s)")
    case False
    with assms(1,2) refused [OF s False] keep show ?thesis
      by (force simp: run_inv_def split: option.splits)
  next
    case True
    show ?thesis
    proof (cases "view s")
      case None
      with assms(1) have "n = 0" by (simp add: run_inv_def)
      with first [OF s True None] True keep assms(3) cap_pos show ?thesis
        by (auto simp: run_inv_def intro: exI [of _ 0])
    next
      case (Some v)
      obtain w c where v: "v = (w, c)" by (cases v)
      from assms(1) Some v obtain k where k: "0 \<le> k" "n \<le> cap * k + c" "c \<le> cap" "t0 + k * width \<le> w" "w \<le> now"
        by (auto simp: run_inv_def)
      show ?thesis
      proof (cases "t \<le> w + width")
        case in_w: True
        from inside [OF s True Some [unfolded v] in_w] k True keep assms(2) show ?thesis
          by (auto simp: run_inv_def intro!: exI [of _ k])
      next
        case False
        then have "w + width < t" by simp
        from expired [OF s True Some [unfolded v] this] k True keep this show ?thesis
          using cap_pos by (auto simp: run_inv_def algebra_simps intro!: exI [of _ "k + 1"])
      qed
    qed
  qed
qed

definition final :: "int list \<Rightarrow> 's \<Rightarrow> 's" where
  "final ts s = fold (\<lambda>t s. snd (step t s)) ts s"

lemma run_inv_run:
  assumes "run_inv t0 now n s" "sorted (now # ts)" "t0 \<le> now"
  shows "run_inv t0 (last (now # ts)) (n + int (admitted ts s)) (final ts s)"
  using assms
proof (induction ts arbitrary: now n s)
  case (Cons t ts)
  have "run_inv t0 t (if fst (step t s) then n + 1 else n) (snd (step t s))"
    by (rule run_inv_step [OF Cons.prems(1)]) (use Cons.prems in auto)
  moreover have "sorted (t # ts)" "t0 \<le> t" using Cons.prems by auto
  ultimately have "run_inv t0 (last (t # ts))
      ((if fst (step t s) then n + 1 else n) + int (admitted ts (snd (step t s)))) (final ts (snd (step t s)))"
    by (rule Cons.IH)
  then show ?case by (simp add: final_def ac_simps split: if_splits)
qed (simp add: final_def)

text \<open>At most \<open>cap\<close> events are admitted per window, counted from the first event.\<close>

lemma admitted_bound:
  assumes "inv s" "view s = None" "sorted (t0 # ts)"
  shows "int (admitted (t0 # ts) s) \<le> cap * ((last (t0 # ts) - t0) div width + 1)"
proof -
  have "run_inv t0 t0 0 s" using assms(1,2) by (simp add: run_inv_def)
  from run_inv_run [OF this, of "t0 # ts"] assms(3) obtain s' where
    s': "run_inv t0 (last (t0 # ts)) (int (admitted (t0 # ts) s)) s'" by (auto simp del: admitted.simps)
  show ?thesis
  proof (cases "view s'")
    case None
    moreover from assms(3) have "t0 \<le> last (t0 # ts)" by auto
    then have "0 \<le> (last (t0 # ts) - t0) div width" using width_pos by (simp add: pos_imp_zdiv_nonneg_iff)
    ultimately show ?thesis using s' cap_pos by (simp add: run_inv_def)
  next
    case (Some v)
    obtain w c where v: "v = (w, c)" by (cases v)
    from s' Some v obtain k where k: "0 \<le> k" "int (admitted (t0 # ts) s) \<le> cap * k + c" "c \<le> cap"
      "t0 + k * width \<le> w" "w \<le> last (t0 # ts)"
      by (auto simp: run_inv_def)
    from k have "k * width \<le> last (t0 # ts) - t0" by (simp del: last.simps)
    then have "(k * width) div width \<le> (last (t0 # ts) - t0) div width" by (rule zdiv_mono1 [OF _ width_pos])
    then have "k \<le> (last (t0 # ts) - t0) div width" using width_pos by (simp del: last.simps)
    then have "cap * (k + 1) \<le> cap * ((last (t0 # ts) - t0) div width + 1)" using cap_pos by simp
    with k show ?thesis by (simp add: algebra_simps)
  qed
qed

end

subsection \<open>The in-memory limiter\<close>

record bucket =
  bk_count :: int
  bk_reset :: millis

type_synonym buckets = "js_string \<Rightarrow> bucket option"

definition local_limit :: "millis \<Rightarrow> js_string \<Rightarrow> int \<Rightarrow> int \<Rightarrow> buckets \<Rightarrow> bool \<times> buckets" where
  "local_limit now key limit window_ms m =
     (case m key of
        None \<Rightarrow> (True, m(key \<mapsto> \<lparr>bk_count = 1, bk_reset = now + window_ms\<rparr>))
      | Some b \<Rightarrow>
          if bk_reset b < now then (True, m(key \<mapsto> \<lparr>bk_count = 1, bk_reset = now + window_ms\<rparr>))
          else if limit \<le> bk_count b then (False, m)
          else (True, m(key \<mapsto> b\<lparr>bk_count := bk_count b + 1\<rparr>)))"

definition bucket_view :: "js_string \<Rightarrow> int \<Rightarrow> buckets \<Rightarrow> (int \<times> int) option" where
  "bucket_view key window_ms m = map_option (\<lambda>b. (bk_reset b - window_ms, bk_count b)) (m key)"

lemma local_limit_counter:
  assumes "0 < window_ms" "0 < limit"
  shows "window_counter (\<lambda>now. local_limit now key limit window_ms) (bucket_view key window_ms) (\<lambda>_. True)
    window_ms limit"
  using assms by unfold_locales (auto simp: local_limit_def bucket_view_def split: option.splits if_splits)

interpretation auth_limit: window_counter
  "\<lambda>now. local_limit now key 5 900000" "bucket_view key 900000" "\<lambda>_. True" 900000 5 for key
  by (rule local_limit_counter) simp_all

subsection \<open>The middleware\<close>

record request =
  rq_method :: js_string
  rq_path :: js_string
  rq_origin :: "js_string option"
  rq_self :: js_string
  rq_forwarded :: "js_string option"
  rq_real_ip :: "js_string option"

datatype limiter = Lim_auth | Lim_financial | Lim_ai | Lim_contact | Lim_newsletter

datatype gate = Invalid_origin | Not_configured js_string | Rate_limited js_string | Pass

text \<open>
  The deployment: the parsed origin of \<open>APP_URL\<close>, the two switches, and the distributed limiters when
  they are configured. A limiter answers for an address; its answers may change between calls.
\<close>

record deployment =
  dp_app_origin :: "js_string option"
  dp_production :: bool
  dp_development :: bool
  dp_require_distributed :: bool
  dp_limiter :: "(limiter \<Rightarrow> js_string \<Rightarrow> bool) option"

definition client_ip :: "request \<Rightarrow> js_string" where
  "client_ip r =
     (case rq_forwarded r of
        Some f \<Rightarrow> js_trim (hd (split_on CHR '','' f))
      | None \<Rightarrow> (case rq_real_ip r of Some ip \<Rightarrow> ip | None \<Rightarrow> ''unknown''))"

definition auth_paths :: "js_string list" where
  "auth_paths =
     [''/api/auth/register'', ''/api/auth/password-reset/request'', ''/api/auth/password-reset/confirm'',
      ''/api/auth/email-verification/confirm'', ''/api/auth/recovery-code'', ''/api/auth/callback/credentials'',
      ''/api/account/recovery-codes'', ''/api/account/password'', ''/api/account/privacy'']"

definition financial_paths :: "js_string list" where
  "financial_paths = [''/api/payments/'', ''/api/bookings'', ''/api/admin/refunds'', ''/api/admin/security/actions'']"

definition mutating :: "js_string \<Rightarrow> bool" where
  "mutating m \<longleftrightarrow> m \<in> {''POST'', ''PUT'', ''PATCH'', ''DELETE''}"

definition hex_digit :: "char \<Rightarrow> bool" where
  "hex_digit c \<longleftrightarrow> is_digit c \<or> (97 \<le> code c \<and> code c \<le> 102)"

text \<open>The pattern of \<open>BLOB_UPLOAD_PATH\<close>, on the lower-case path (the flag \<open>i\<close>).\<close>

definition uuid_shape :: "js_string \<Rightarrow> bool" where
  "uuid_shape u =
     (case split_on CHR ''-'' u of
        [a, b, c, d, e] \<Rightarrow>
          map length [a, b, c, d, e] = [8, 4, 4, 4, 12] \<and> list_all (list_all hex_digit) [a, b, c, d, e] \<and>
          hd c \<in> {CHR ''1'', CHR ''2'', CHR ''3'', CHR ''4'', CHR ''5''} \<and>
          hd d \<in> {CHR ''8'', CHR ''9'', CHR ''a'', CHR ''b''}
      | _ \<Rightarrow> False)"

definition blob_upload_path :: "js_string \<Rightarrow> bool" where
  "blob_upload_path path =
     (let p = to_lower path
      in starts_with ''/api/host/properties/'' p \<and> ends_with ''/images/upload'' p \<and>
         length p = 71 \<and> uuid_shape (take 36 (drop 21 p)))"

definition is_exempt_mutation :: "js_string \<Rightarrow> bool" where
  "is_exempt_mutation path \<longleftrightarrow>
     blob_upload_path path \<or> starts_with ''/api/webhooks/'' path \<or> path = ''/api/cron/sweep'' \<or>
     (starts_with ''/api/auth/'' path \<and> \<not> list_ex (\<lambda>p. starts_with p path) auth_paths)"

definition trusted_origin :: "deployment \<Rightarrow> request \<Rightarrow> bool" where
  "trusted_origin env r =
     (case rq_origin r of
        None \<Rightarrow> False
      | Some [] \<Rightarrow> False
      | Some origin \<Rightarrow> origin = rq_self r \<or> dp_app_origin env = Some origin)"

text \<open>\<open>X ? limiter : production ? 503 : localLimit\<close>, the block repeated for each kind of path.\<close>

definition limiter_key :: "limiter \<Rightarrow> js_string \<Rightarrow> js_string" where
  "limiter_key k ip =
     (case k of Lim_auth \<Rightarrow> ''auth:'' | Lim_financial \<Rightarrow> ''financial:'' | Lim_ai \<Rightarrow> ''ai:''
      | Lim_contact \<Rightarrow> ''contact:'' | Lim_newsletter \<Rightarrow> ''newsletter:'') @ ip"

definition limiter_quota :: "limiter \<Rightarrow> int \<times> int" where
  "limiter_quota k =
     (case k of Lim_auth \<Rightarrow> (5, 15 * 60000) | Lim_financial \<Rightarrow> (20, 15 * 60000) | Lim_ai \<Rightarrow> (12, 15 * 60000)
      | Lim_contact \<Rightarrow> (5, 15 * 60000) | Lim_newsletter \<Rightarrow> (5, 60 * 60000))"

definition limiter_name :: "limiter \<Rightarrow> js_string" where
  "limiter_name k =
     (case k of Lim_ai \<Rightarrow> ''Security'' | Lim_contact \<Rightarrow> ''Contact'' | Lim_newsletter \<Rightarrow> ''Newsletter'' | _ \<Rightarrow> ''Security'') @
     '' service is temporarily unavailable.''"

definition limiter_message :: "limiter \<Rightarrow> js_string" where
  "limiter_message k =
     (case k of
        Lim_ai \<Rightarrow> ''The concierge has received too many questions. Try again later.''
      | Lim_contact \<Rightarrow> ''Too many contact requests. Try again later.''
      | Lim_newsletter \<Rightarrow> ''Too many subscription requests. Try again later.''
      | _ \<Rightarrow> ''Too many attempts. Try again later.'')"

definition check_limit :: "deployment \<Rightarrow> millis \<Rightarrow> limiter \<Rightarrow> js_string \<Rightarrow> buckets \<Rightarrow> gate \<times> buckets" where
  "check_limit env now k ip m =
     (let verdict = (\<lambda>ok. if ok then Pass else Rate_limited (limiter_message k))
      in case dp_limiter env of
           Some service \<Rightarrow> (verdict (service k ip), m)
         | None \<Rightarrow>
             if dp_production env \<or> dp_require_distributed env then (Not_configured (limiter_name k), m)
             else let (ok, m') = local_limit now (limiter_key k ip) (fst (limiter_quota k)) (snd (limiter_quota k)) m
                  in (verdict ok, m'))"

text \<open>The limits a request is subject to, in the order they are checked.\<close>

definition limits_of :: "request \<Rightarrow> limiter list" where
  "limits_of r =
     (let p = rq_path r; post = (rq_method r = ''POST''); mut = mutating (rq_method r)
      in (if p = ''/api/newsletter'' \<and> post then [Lim_newsletter] else []) @
         (if p = ''/api/contact'' \<and> post then [Lim_contact] else []) @
         (if p = ''/api/ai/concierge'' \<and> post then [Lim_ai] else []) @
         (if mut \<and> list_ex (\<lambda>q. starts_with q p) auth_paths then [Lim_auth]
          else if mut \<and> list_ex (\<lambda>q. starts_with q p) financial_paths then [Lim_financial] else []))"

fun check_limits :: "deployment \<Rightarrow> millis \<Rightarrow> limiter list \<Rightarrow> js_string \<Rightarrow> buckets \<Rightarrow> gate \<times> buckets" where
  "check_limits env now [] ip m = (Pass, m)"
| "check_limits env now (k # ks) ip m =
     (case check_limit env now k ip m of
        (Pass, m') \<Rightarrow> check_limits env now ks ip m'
      | (g, m') \<Rightarrow> (g, m'))"

definition middleware :: "deployment \<Rightarrow> millis \<Rightarrow> request \<Rightarrow> buckets \<Rightarrow> gate \<times> buckets" where
  "middleware env now r m =
     (if mutating (rq_method r) \<and> starts_with ''/api/'' (rq_path r) \<and> \<not> is_exempt_mutation (rq_path r) \<and>
         \<not> trusted_origin env r
      then (Invalid_origin, m)
      else check_limits env now (limits_of r) (client_ip r) m)"

end
