(* ===== verification/Account_Safety.thy ===== *)
theory Account_Safety
  imports Credentials Rate_Limit
begin

text \<open>
  What no sequence of account operations can do: lower a session version, or make a spent one-time
  token usable again. Both are proved for all operations of \<open>Accounts\<close> and \<open>Credentials\<close> as one family,
  the first through the interface \<open>guarded_steps\<close>, the second through \<open>one_time_table\<close>, interpreted on
  the tables of reset tokens, sign-in tokens and recovery codes. Last, the login lock as a
  \<open>window_counter\<close>.
\<close>

subsection \<open>All operations\<close>

type_synonym text_fun = "js_string \<Rightarrow> js_string"
type_synonym text_rel = "js_string \<Rightarrow> js_string \<Rightarrow> bool"

datatype account_op =
  Op_register text_fun uuid js_string js_string
| Op_google millis uuid js_string
| Op_password text_rel bool millis js_string js_string
| Op_token text_fun millis js_string
| Op_jwt millis uuid uuid int
| Op_session millis "jwt option"
| Op_sign_out millis jwt
| Op_revoke_others millis jwt
| Op_reset_request text_fun millis js_string js_string
| Op_reset text_fun text_fun millis millis js_string js_string
| Op_verify_request text_fun millis js_string uuid
| Op_verify text_fun millis js_string
| Op_change text_rel text_fun millis uuid js_string js_string
| Op_codes text_rel text_fun millis "js_string list" uuid js_string
| Op_recover text_fun text_fun millis js_string js_string js_string
| Op_challenge millis uuid "uuid option" purpose js_string
| Op_passkey text_fun millis js_string uuid js_string int uuid
| Op_add_passkey millis uuid credential_row
| Op_remove_passkey uuid uuid
| Op_admin millis uuid uuid security_action js_string
| Op_purge millis

fun account_step :: "account_op \<Rightarrow> accounts \<Rightarrow> accounts" where
  "account_step (Op_register bcrypt i email pw) a = snd (register_account bcrypt i email pw a)"
| "account_step (Op_google now i email) a = snd (sign_in_google now i email a)"
| "account_step (Op_password m rv now email pw) a = snd (authorize_password m rv now email pw a)"
| "account_step (Op_token sha now raw) a = snd (authorize_token sha now raw a)"
| "account_step (Op_jwt now sid u v) a = snd (jwt_sign_in now sid u v a)"
| "account_step (Op_session now t) a = snd (require_session now t a)"
| "account_step (Op_sign_out now t) a = sign_out now t a"
| "account_step (Op_revoke_others now t) a = snd (revoke_other_sessions now t a)"
| "account_step (Op_reset_request sha now raw email) a = request_password_reset sha now raw email a"
| "account_step (Op_reset sha bcrypt t1 t2 raw pw) a = snd (confirm_password_reset sha bcrypt t1 t2 raw pw a)"
| "account_step (Op_verify_request sha now raw u) a = request_email_verification sha now raw u a"
| "account_step (Op_verify sha now raw) a = snd (confirm_email_verification sha now raw a)"
| "account_step (Op_change m bcrypt now i old new) a = snd (change_password m bcrypt now i old new a)"
| "account_step (Op_codes m hmac now raws i pw) a = snd (generate_recovery_codes m hmac now raws i pw a)"
| "account_step (Op_recover sha hmac now raw email c) a = snd (recover_account sha hmac now raw email c a)"
| "account_step (Op_challenge now i u p txt) a = start_challenge now i u p txt a"
| "account_step (Op_passkey sha now raw ch cred n u) a = snd (with_transaction (passkey_tx sha now raw ch cred n u) a)"
| "account_step (Op_add_passkey now ch c) a = snd (with_transaction (register_passkey_tx now ch c) a)"
| "account_step (Op_remove_passkey i u) a = snd (with_transaction (remove_passkey_tx i u) a)"
| "account_step (Op_admin now actor target act reason) a = snd (perform_admin_security_action now actor target act reason a)"
| "account_step (Op_purge now) a = purge_expired_security_data now a"

lemmas account_op_defs =
  register_account_def sign_in_google_def authorize_password_def authorize_token_def jwt_sign_in_def
  require_session_def sign_out_def revoke_other_sessions_def request_password_reset_def
  confirm_password_reset_def reset_lookup_def reset_apply_def request_email_verification_def
  confirm_email_verification_def verify_email_tx_def change_password_def change_password_tx_def
  generate_recovery_codes_def recover_account_def recovery_tx_def start_challenge_def passkey_tx_def
  register_passkey_tx_def remove_passkey_tx_def perform_admin_security_action_def admin_security_tx_def
  purge_expired_security_data_def consume_challenge_def with_transaction_def record_security_event_def
  update_user_def

subsection \<open>Session versions\<close>

definition version_at_least :: "uuid \<Rightarrow> int \<Rightarrow> accounts \<Rightarrow> bool" where
  "version_at_least u v a \<longleftrightarrow> (case find_user u a of None \<Rightarrow> False | Some r \<Rightarrow> v \<le> us_version r)"

definition versions_grow :: "accounts \<Rightarrow> accounts \<Rightarrow> bool" where
  "versions_grow a b \<longleftrightarrow> (\<forall>u v. version_at_least u v a \<longrightarrow> version_at_least u v b)"

lemma versions_grow_refl: "users b = users a \<Longrightarrow> versions_grow a b"
  by (simp add: versions_grow_def version_at_least_def)

lemma versions_grow_update:
  assumes "users b = update_where (\<lambda>r. us_id r = i) f (users a)"
    and "\<And>r. us_id (f r) = us_id r" "\<And>r. us_version r \<le> us_version (f r)"
  shows "versions_grow a b"
proof -
  have "find_user u b = map_option (\<lambda>r. if us_id r = i then f r else r) (find_user u a)" for u
    unfolding assms(1) by (rule first_where_update) (simp add: assms(2))
  then show ?thesis
    by (auto simp: versions_grow_def version_at_least_def split: option.splits
        intro: order_trans [OF _ assms(3)])
qed

lemma versions_grow_insert:
  assumes "users b = insert_row r (users a)"
  shows "versions_grow a b"
  by (auto simp: versions_grow_def version_at_least_def assms first_where_insert split: option.splits)

lemma count_failure_keeps [simp]:
  "us_id (count_failure now u) = us_id u" "us_version (count_failure now u) = us_version u"
  "us_email (count_failure now u) = us_email u" "us_hash (count_failure now u) = us_hash u"
  "us_status (count_failure now u) = us_status u" "us_verified (count_failure now u) = us_verified u"
  by (simp_all add: count_failure_def Let_def)

lemma clear_failures_keeps [simp]:
  "us_id (clear_failures u) = us_id u" "us_version (clear_failures u) = us_version u"
  "us_email (clear_failures u) = us_email u" "us_hash (clear_failures u) = us_hash u"
  by (simp_all add: clear_failures_def)

lemma users_record_security_event [simp]: "users (record_security_event u ty r a) = users a"
  by (simp add: record_security_event_def)

lemma users_update_user [simp]: "users (update_user i f a) = update_where (\<lambda>u. us_id u = i) f (users a)"
  by (simp add: update_user_def)

text \<open>How each operation that writes the table of users changes it.\<close>

definition password_update :: "text_rel \<Rightarrow> bool \<Rightarrow> millis \<Rightarrow> js_string \<Rightarrow> user_row \<Rightarrow> user_row \<Rightarrow> user_row" where
  "password_update matches require_verified now password u =
     (case us_hash u of
        None \<Rightarrow> (\<lambda>r. r)
      | Some h \<Rightarrow>
          if us_status u \<noteq> ''active'' \<or> h = [] \<or> login_locked now u then (\<lambda>r. r)
          else if \<not> matches password h then count_failure now
          else if require_verified \<and> us_verified u = None then (\<lambda>r. r)
          else clear_failures)"

lemma update_where_id [simp]: "update_where P (\<lambda>r. r) t = t"
  by (simp add: update_where_def)

lemma users_authorize_password:
  assumes "e \<noteq> []" "p \<noteq> []" "user_by_email e a = Some u"
  shows "users (snd (authorize_password m rv now e p a)) =
    update_where (\<lambda>r. us_id r = us_id u) (password_update m rv now p u) (users a)"
  using assms by (cases "us_hash u") (simp_all add: authorize_password_def password_update_def Let_def)

lemma users_authorize_none:
  assumes "e = [] \<or> p = [] \<or> user_by_email e a = None"
  shows "users (snd (authorize_password m rv now e p a)) = users a"
  using assms by (auto simp: authorize_password_def)

lemma password_update_keeps:
  "us_id (password_update m rv now p u r) = us_id r"
  "us_version (password_update m rv now p u r) = us_version r"
  "us_email (password_update m rv now p u r) = us_email r"
  by (auto simp: password_update_def split: option.split)

lemma users_reset: "users (reset_apply bcrypt now t pw a) =
    update_where (\<lambda>u. us_id u = ot_user t) (\<lambda>u. u\<lparr>us_hash := Some (bcrypt pw), us_changed := Some now,
      us_version := us_version u + 1\<rparr>) (users a)"
  by (simp add: reset_apply_def Let_def)

lemma account_step_versions: "versions_grow a (account_step op a)"
proof (cases op)
  case (Op_register f i e p)
  then show ?thesis
    by (cases "user_by_email e a = None")
      (simp_all add: register_account_def versions_grow_refl versions_grow_insert)
next
  case (Op_google now i e)
  then show ?thesis
    by (cases "user_by_email e a") (simp_all add: sign_in_google_def versions_grow_refl versions_grow_insert)
next
  case (Op_password m rv now e p)
  show ?thesis
  proof (cases "e = [] \<or> p = [] \<or> user_by_email e a = None")
    case True
    then show ?thesis by (simp add: Op_password users_authorize_none versions_grow_refl)
  next
    case False
    then obtain u where "user_by_email e a = Some u" "e \<noteq> []" "p \<noteq> []" by auto
    from users_authorize_password [OF this(2,3,1)] show ?thesis
      by (intro versions_grow_update [where f = "password_update m rv now p u" and i = "us_id u"])
        (simp_all add: Op_password password_update_keeps)
  qed
next
  case (Op_reset sha bcrypt t1 t2 raw pw)
  show ?thesis
  proof (cases "reset_lookup sha t1 raw a")
    case (Inr t)
    then have "users (account_step op a) = users (reset_apply bcrypt t2 t pw a)"
      by (simp add: Op_reset confirm_password_reset_def)
    then show ?thesis unfolding users_reset by (rule versions_grow_update) simp_all
  qed (simp add: Op_reset confirm_password_reset_def versions_grow_refl)
next
  case (Op_verify sha now raw)
  show ?thesis
  proof (cases "first_where (\<lambda>t. ot_hash t = sha raw \<and> token_live now t) (verify_tokens a)")
    case (Some t)
    then have "users (account_step op a) = update_where (\<lambda>u. us_id u = ot_user t)
        (\<lambda>u. u\<lparr>us_verified := coalesce (us_verified u) (Some now)\<rparr>) (users a)"
      by (simp add: Op_verify confirm_email_verification_def verify_email_tx_def with_transaction_def Let_def)
    then show ?thesis by (rule versions_grow_update) simp_all
  qed (simp add: Op_verify confirm_email_verification_def verify_email_tx_def with_transaction_def versions_grow_refl)
next
  case (Op_change m bcrypt now i old new)
  show ?thesis
  proof (cases "change_password_tx m bcrypt now i old new a")
    case (Inr x)
    then have "users (account_step op a) = update_where (\<lambda>u. us_id u = i)
        (\<lambda>u. clear_failures (u\<lparr>us_hash := Some (bcrypt new), us_changed := Some now,
          us_version := us_version u + 1\<rparr>)) (users a)"
      by (cases x) (auto simp: Op_change change_password_def change_password_tx_def with_transaction_def Let_def
          split: option.split_asm if_split_asm)
    then show ?thesis by (rule versions_grow_update) simp_all
  qed (simp add: Op_change change_password_def with_transaction_def versions_grow_refl)
next
  case (Op_admin now actor target act reason)
  show ?thesis
  proof (cases "find_user target a = None")
    case False
    then have "users (account_step op a) = update_where (\<lambda>u. us_id u = target)
        (if act = Revoke_sessions then \<lambda>u. u\<lparr>us_version := us_version u + 1\<rparr> else clear_failures) (users a)"
      by (cases act) (auto simp: Op_admin perform_admin_security_action_def admin_security_tx_def
          with_transaction_def Let_def)
    then show ?thesis by (rule versions_grow_update) simp_all
  qed (simp add: Op_admin perform_admin_security_action_def admin_security_tx_def with_transaction_def
      versions_grow_refl)
next
  case (Op_session now t)
  then show ?thesis by (cases t) (simp_all add: require_session_def versions_grow_refl)
next
  case (Op_token sha now raw)
  then show ?thesis
    by (auto simp: authorize_token_def intro!: versions_grow_refl split: option.split)
next
  case (Op_reset_request sha now raw e)
  then show ?thesis
    by (auto simp: request_password_reset_def intro!: versions_grow_refl split: option.split)
next
  case (Op_codes m hmac now raws i pw)
  then show ?thesis
    by (auto simp: generate_recovery_codes_def Let_def intro!: versions_grow_refl split: option.split)
next
  case (Op_recover sha hmac now raw e c)
  then show ?thesis
    by (auto simp: recover_account_def recovery_tx_def with_transaction_def Let_def
        intro!: versions_grow_refl split: option.split)
next
  case (Op_passkey sha now raw ch cred n u)
  then show ?thesis
    by (auto simp: passkey_tx_def consume_challenge_def with_transaction_def intro!: versions_grow_refl)
next
  case (Op_add_passkey now ch c)
  then show ?thesis
    by (auto simp: register_passkey_tx_def consume_challenge_def with_transaction_def intro!: versions_grow_refl)
next
  case (Op_remove_passkey i u)
  then show ?thesis
    by (auto simp: remove_passkey_tx_def with_transaction_def intro!: versions_grow_refl split: option.split)
next
  case (Op_jwt now sid u v)
  then show ?thesis by (auto simp: jwt_sign_in_def intro!: versions_grow_refl split: prod.split)
qed (simp_all add: sign_out_def revoke_other_sessions_def request_email_verification_def start_challenge_def
    purge_expired_security_data_def Let_def versions_grow_refl)

definition account_body :: "account_op \<Rightarrow> (accounts, unit, unit) tx" where
  "account_body op a = Inr ((), account_step op a)"

interpretation ver: guarded_steps account_body "version_at_least u v" for u v
proof
  fix a op x b
  assume "version_at_least u v a" "account_body op a = Inr (x, b)"
  then have "version_at_least u v a" "b = account_step op a" by (simp_all add: account_body_def)
  with account_step_versions [of a op] show "version_at_least u v b" by (auto simp: versions_grow_def)
qed

lemma exec_account_step: "ver.exec = account_step"
  by (rule ext)+ (simp add: ver.exec_def with_transaction_def account_body_def)

lemma run_version: "version_at_least u v a \<Longrightarrow> version_at_least u v (fold account_step ops a)"
  using ver.run_keeps [of u v a ops] by (simp add: exec_account_step)

lemma stale_version_refused:
  assumes "version_at_least (jw_user t) v a" "jw_version t < v"
  shows "\<not> session_current now t a"
  using assms by (auto simp: session_current_def version_at_least_def split: option.splits)

lemma version_bump:
  assumes "find_user u a = Some r" "users b = update_where (\<lambda>x. us_id x = u) f (users a)"
    "\<And>x. us_id (f x) = us_id x" "\<And>x. us_version (f x) = us_version x + 1"
  shows "version_at_least u (us_version r + 1) b"
proof -
  have "find_user u b = map_option (\<lambda>x. if us_id x = u then f x else x) (find_user u a)"
    unfolding assms(2) by (rule first_where_update) (simp add: assms(3))
  with assms(1,4) first_where_Some [OF assms(1)] show ?thesis by (simp add: version_at_least_def)
qed

subsection \<open>Spent tokens\<close>

definition spent :: "js_string \<Rightarrow> one_time list \<Rightarrow> bool" where
  "spent h ts \<longleftrightarrow> (\<forall>t \<in> set ts. ot_hash t = h \<longrightarrow> ot_used t \<noteq> None)"

lemma spent_use [simp]: "spent h ts \<Longrightarrow> spent h (use_tokens now P ts)"
  by (auto simp: spent_def use_tokens_def)

lemma spent_update: "spent h ts \<Longrightarrow> spent h (update_where P (\<lambda>t. t\<lparr>ot_used := Some now\<rparr>) ts)"
  by (auto simp: spent_def)

lemma spent_delete [simp]: "spent h ts \<Longrightarrow> spent h (delete_where P ts)"
  by (simp add: spent_def)

lemma spent_insert [simp]: "ot_hash t \<noteq> h \<Longrightarrow> spent h ts \<Longrightarrow> spent h (insert_row t ts)"
  by (simp add: spent_def)

lemma spent_append [simp]: "spent h (ts @ us) \<longleftrightarrow> spent h ts \<and> spent h us"
  by (auto simp: spent_def)

lemma spent_by_use: "(\<And>t. ot_hash t = h \<Longrightarrow> P t) \<Longrightarrow> spent h (use_tokens now P ts)"
  by (auto simp: spent_def use_tokens_def)

lemma spent_not_live: "spent h ts \<Longrightarrow> first_where (\<lambda>t. ot_hash t = h \<and> token_live now t \<and> Q t) ts = None"
  by (auto simp: first_where_None spent_def token_live_def)

text \<open>
  The contract of a table of one-time tokens under a family of operations: an operation makes a token
  with a given digest usable only when it issues that digest.
\<close>

locale one_time_table =
  fixes step :: "'op \<Rightarrow> accounts \<Rightarrow> accounts"
    and table :: "accounts \<Rightarrow> one_time list"
    and issues :: "js_string \<Rightarrow> 'op \<Rightarrow> accounts \<Rightarrow> bool"
  assumes stays_spent: "spent h (table a) \<Longrightarrow> \<not> issues h op a \<Longrightarrow> spent h (table (step op a))"
begin

fun never_issued :: "js_string \<Rightarrow> 'op list \<Rightarrow> accounts \<Rightarrow> bool" where
  "never_issued h [] a = True"
| "never_issued h (op # ops) a \<longleftrightarrow> \<not> issues h op a \<and> never_issued h ops (step op a)"

lemma run_spent: "spent h (table a) \<Longrightarrow> never_issued h ops a \<Longrightarrow> spent h (table (fold step ops a))"
  by (induction ops arbitrary: a) (auto intro: stays_spent)

lemma never_redeemed:
  "spent h (table a) \<Longrightarrow> never_issued h ops a \<Longrightarrow>
    first_where (\<lambda>t. ot_hash t = h \<and> token_live now t \<and> Q t) (table (fold step ops a)) = None"
  by (rule spent_not_live) (rule run_spent)

end

fun issues_reset :: "js_string \<Rightarrow> account_op \<Rightarrow> accounts \<Rightarrow> bool" where
  "issues_reset h (Op_reset_request sha now raw e) a = (sha raw = h)"
| "issues_reset h _ a = False"

fun issues_login :: "js_string \<Rightarrow> account_op \<Rightarrow> accounts \<Rightarrow> bool" where
  "issues_login h (Op_recover sha hmac now raw e c) a = (sha raw = h)"
| "issues_login h (Op_passkey sha now raw ch cred n u) a = (sha raw = h)"
| "issues_login h _ a = False"

fun issues_code :: "js_string \<Rightarrow> account_op \<Rightarrow> accounts \<Rightarrow> bool" where
  "issues_code h (Op_codes m hmac now raws i pw) a = (h \<in> set (map (hash_recovery_code hmac \<circ> recovery_code_of) raws))"
| "issues_code h _ a = False"

lemma record_security_event_tables [simp]:
  "reset_tokens (record_security_event u ty r a) = reset_tokens a"
  "login_tokens (record_security_event u ty r a) = login_tokens a"
  "recovery_codes (record_security_event u ty r a) = recovery_codes a"
  "sessions (record_security_event u ty r a) = sessions a"
  by (simp_all add: record_security_event_def)

lemma update_user_tables [simp]:
  "reset_tokens (update_user i f a) = reset_tokens a" "login_tokens (update_user i f a) = login_tokens a"
  "recovery_codes (update_user i f a) = recovery_codes a" "sessions (update_user i f a) = sessions a"
  by (simp_all add: update_user_def)

lemma step_reset_tokens:
  assumes "spent h (reset_tokens a)" "\<not> issues_reset h op a"
  shows "spent h (reset_tokens (account_step op a))"
proof (cases op)
  case (Op_reset sha bcrypt t1 t2 raw pw)
  with assms show ?thesis
    by (auto simp: confirm_password_reset_def reset_apply_def Let_def split: sum.split)
next
  case (Op_password m rv now e p)
  with assms show ?thesis
    by (auto simp: authorize_password_def Let_def split: option.split)
next
  case (Op_change m bcrypt now i old new)
  with assms show ?thesis
    by (auto simp: change_password_def change_password_tx_def with_transaction_def Let_def split: option.split)
next
  case (Op_admin now actor target act reason)
  with assms show ?thesis
    by (cases act) (auto simp: perform_admin_security_action_def admin_security_tx_def with_transaction_def Let_def)
qed (use assms in \<open>auto simp: account_op_defs Let_def spent_update split: option.split prod.split\<close>)

interpretation reset_table: one_time_table account_step reset_tokens issues_reset
  by unfold_locales (rule step_reset_tokens)

lemma step_login_tokens:
  assumes "spent h (login_tokens a)" "\<not> issues_login h op a"
  shows "spent h (login_tokens (account_step op a))"
proof (cases op)
  case (Op_reset sha bcrypt t1 t2 raw pw)
  with assms show ?thesis
    by (auto simp: confirm_password_reset_def reset_apply_def Let_def split: sum.split)
next
  case (Op_password m rv now e p)
  with assms show ?thesis
    by (auto simp: authorize_password_def Let_def split: option.split)
next
  case (Op_change m bcrypt now i old new)
  with assms show ?thesis
    by (auto simp: change_password_def change_password_tx_def with_transaction_def Let_def split: option.split)
next
  case (Op_admin now actor target act reason)
  with assms show ?thesis
    by (cases act) (auto simp: perform_admin_security_action_def admin_security_tx_def with_transaction_def Let_def)
qed (use assms in \<open>auto simp: account_op_defs Let_def spent_update login_token_def split: option.split prod.split\<close>)

interpretation login_table: one_time_table account_step login_tokens issues_login
  by unfold_locales (rule step_login_tokens)

lemma step_recovery_codes:
  assumes "spent h (recovery_codes a)" "\<not> issues_code h op a"
  shows "spent h (recovery_codes (account_step op a))"
proof (cases op)
  case (Op_reset sha bcrypt t1 t2 raw pw)
  with assms show ?thesis
    by (auto simp: confirm_password_reset_def reset_apply_def Let_def split: sum.split)
next
  case (Op_password m rv now e p)
  with assms show ?thesis
    by (auto simp: authorize_password_def Let_def split: option.split)
next
  case (Op_change m bcrypt now i old new)
  with assms show ?thesis
    by (auto simp: change_password_def change_password_tx_def with_transaction_def Let_def split: option.split)
next
  case (Op_codes m hmac now raws i pw)
  with assms(2) have "spent h (map (\<lambda>c. \<lparr>ot_hash = hash_recovery_code hmac c, ot_user = i, ot_expires = e, ot_used = None\<rparr>)
      (map recovery_code_of raws))" for e
    by (auto simp: spent_def)
  with Op_codes assms(1) show ?thesis
    by (auto simp: generate_recovery_codes_def Let_def comp_def split: option.split)
next
  case (Op_admin now actor target act reason)
  with assms show ?thesis
    by (cases act) (auto simp: perform_admin_security_action_def admin_security_tx_def with_transaction_def Let_def)
qed (use assms in \<open>auto simp: account_op_defs Let_def split: option.split prod.split\<close>)

interpretation code_table: one_time_table account_step recovery_codes issues_code
  by unfold_locales (rule step_recovery_codes)

subsection \<open>The login lock\<close>

definition guess_step :: "millis \<Rightarrow> user_row \<Rightarrow> bool \<times> user_row" where
  "guess_step now u = (if login_locked now u then (False, u) else (True, count_failure now u))"

definition guess_view :: "user_row \<Rightarrow> (int \<times> int) option" where
  "guess_view u = map_option (\<lambda>w. (w, us_fails u)) (us_window u)"

text \<open>
  Ten failures lock the account for at least the rest of their window; the eleventh, possible only in
  the last instant of a window whose ten failures fell into its first, locks it beyond.
\<close>

definition lock_inv :: "user_row \<Rightarrow> bool" where
  "lock_inv u \<longleftrightarrow>
     (case us_window u of
        None \<Rightarrow> True
      | Some w \<Rightarrow> (10 \<le> us_fails u \<longrightarrow> (\<exists>l. us_locked u = Some l \<and> w + login_window \<le> l)) \<and>
          (11 \<le> us_fails u \<longrightarrow> (\<exists>l. us_locked u = Some l \<and> w + login_window < l)))"

interpretation guess: window_counter guess_step guess_view lock_inv login_window 11
proof
  show "0 < login_window" "(0::int) < 11" by simp_all
next
  fix u t
  assume "lock_inv u" "\<And>w c. guess_view u = Some (w, c) \<Longrightarrow> w \<le> t"
  then show "lock_inv (snd (guess_step t u))"
    by (cases "us_window u"; cases "us_locked u")
      (auto simp: guess_step_def guess_view_def lock_inv_def count_failure_def window_over_def login_locked_def Let_def)
next
  fix u t
  assume "\<not> fst (guess_step t u)"
  then show "guess_view (snd (guess_step t u)) = guess_view u"
    by (simp add: guess_step_def split: if_splits)
next
  fix u t w c
  assume a: "lock_inv u" "fst (guess_step t u)" "guess_view u = Some (w, c)" "t \<le> w + login_window"
  then show "c < 11 \<and> guess_view (snd (guess_step t u)) = Some (w, c + 1)"
    by (auto simp: guess_step_def guess_view_def lock_inv_def count_failure_def window_over_def login_locked_def Let_def
        split: if_splits option.splits)
next
  fix u t w c
  assume "fst (guess_step t u)" "guess_view u = Some (w, c)" "w + login_window < t"
  then show "guess_view (snd (guess_step t u)) = Some (t, 1)"
    by (auto simp: guess_step_def guess_view_def count_failure_def window_over_def Let_def split: if_splits)
next
  fix u t
  assume "fst (guess_step t u)" "guess_view u = None"
  then show "guess_view (snd (guess_step t u)) = Some (t, 1)"
    by (auto simp: guess_step_def guess_view_def count_failure_def window_over_def Let_def split: if_splits)
qed

text \<open>A wrong password for an account is one step of the counter on its row.\<close>

fun guesses :: "text_rel \<Rightarrow> bool \<Rightarrow> js_string \<Rightarrow> (millis \<times> js_string) list \<Rightarrow> accounts \<Rightarrow> nat" where
  "guesses m rv e [] a = 0"
| "guesses m rv e ((t, p) # gs) a =
     (if (case user_by_email e a of None \<Rightarrow> False | Some u \<Rightarrow> \<not> login_locked t u) then 1 else 0) +
     guesses m rv e gs (snd (authorize_password m rv t e p a))"

definition guess_target :: "text_rel \<Rightarrow> js_string list \<Rightarrow> user_row \<Rightarrow> bool" where
  "guess_target m ps u \<longleftrightarrow> us_status u = ''active'' \<and>
     (\<exists>h. us_hash u = Some h \<and> h \<noteq> [] \<and> (\<forall>p \<in> set ps. p \<noteq> [] \<and> \<not> m p h))"

lemma wrong_password_step:
  assumes "user_by_email e a = Some u" "guess_target m (p # ps) u" "e \<noteq> []"
  shows "user_by_email e (snd (authorize_password m rv t e p a)) = Some (snd (guess_step t u))"
proof -
  from assms(2) have p: "p \<noteq> []" by (auto simp: guess_target_def)
  have up: "password_update m rv t p u = (if login_locked t u then (\<lambda>r. r) else count_failure t)"
    using assms(2) by (auto simp: guess_target_def password_update_def)
  have "user_by_email e (snd (authorize_password m rv t e p a)) =
      map_option (\<lambda>r. if us_id r = us_id u then password_update m rv t p u r else r) (user_by_email e a)"
    unfolding users_authorize_password [OF assms(3) p assms(1)]
    by (rule first_where_update) (simp add: password_update_keeps)
  then show ?thesis unfolding assms(1) up by (simp add: guess_step_def)
qed

lemma guesses_admitted:
  assumes "user_by_email e a = Some u" "guess_target m (map snd gs) u" "e \<noteq> []"
  shows "guesses m rv e gs a = guess.admitted (map fst gs) u"
  using assms(1,2)
proof (induction gs arbitrary: a u)
  case (Cons g gs)
  obtain t p where g: "g = (t, p)" by (cases g)
  have t: "guess_target m (p # map snd gs) u" using Cons.prems(2) by (simp add: g)
  have next_row: "user_by_email e (snd (authorize_password m rv t e p a)) = Some (snd (guess_step t u))"
    by (rule wrong_password_step [OF Cons.prems(1) t assms(3)])
  have "guess_target m (map snd gs) (snd (guess_step t u))"
    using t by (auto simp: guess_target_def guess_step_def)
  note ih = Cons.IH [OF next_row this]
  have "fst (guess_step t u) \<longleftrightarrow> \<not> login_locked t u" by (simp add: guess_step_def)
  with ih Cons.prems(1) show ?case by (simp add: g)
qed simp

end
