(* ===== verification/Privacy.thy ===== *)
theory Privacy
  imports Account_Safety
begin

text \<open>
  Deleting an account on request (lib/privacy/retention.ts and the privacy route): what blocks it, and
  the transaction that anonymises the guest's data and removes every credential, on the tables of
  \<open>Accounts\<close> and of \<open>Store\<close> together. Of the personal rows of other tables (messages, notifications,
  profiles, saved properties) only that they are removed could be said, so they are left out.
\<close>

datatype request_status = Rq_pending | Rq_processing | Rq_completed | Rq_cancelled | Rq_blocked

record privacy_request =
  pr_id :: uuid
  pr_user :: uuid
  pr_status :: request_status
  pr_execute_after :: millis
  pr_completed :: "millis option"
  pr_blocked :: "js_string option"

record world_state =
  ws_accounts :: accounts
  ws_store :: store
  ws_requests :: "privacy_request list"

datatype blocker = Is_admin | Is_host | Active_booking | Unresolved_payment

definition blocker_text :: "blocker \<Rightarrow> js_string" where
  "blocker_text b =
     (case b of
        Is_admin \<Rightarrow> ''Administrator accounts require a controlled offboarding review.''
      | Is_host \<Rightarrow> ''Host accounts require property and payout offboarding before deletion.''
      | Active_booking \<Rightarrow> ''An upcoming or active booking must finish or be cancelled first.''
      | Unresolved_payment \<Rightarrow> ''A payment or dispute is still unresolved.'')"

definition deletion_blocker :: "day \<Rightarrow> uuid \<Rightarrow> world_state \<Rightarrow> blocker option" where
  "deletion_blocker today u w =
     (let a = ws_accounts w; s = ws_store w
      in if row_exists (\<lambda>r. ad_user r = u) (admins a) then Some Is_admin
         else if row_exists (\<lambda>p. fst p = u) (owners a) then Some Is_host
         else if row_exists (\<lambda>b. b_guest b = u \<and> today \<le> b_check_out b \<and> b_status b \<noteq> Cancelled \<and>
                   b_status b \<noteq> Completed) (bookings s) then Some Active_booking
         else if row_exists (\<lambda>b. b_guest b = u \<and> row_exists (\<lambda>p. pay_booking p = b_id b \<and>
                   (pay_status p = Pay_pending \<or> pay_status p = Pay_processing \<or> pay_status p = Pay_disputed)) (payments s))
                 (bookings s) then Some Unresolved_payment
         else None)"

definition anonymous_email :: "uuid \<Rightarrow> js_string" where
  "anonymous_email u = ''deleted-'' @ u @ ''@deleted.invalid''"

definition anonymise_booking :: "uuid \<Rightarrow> booking \<Rightarrow> booking" where
  "anonymise_booking u b =
     b\<lparr>b_guest_name := ''Deleted guest'', b_guest_email := anonymous_email u, b_guest_phone := None\<rparr>"

definition erase_account :: "uuid \<Rightarrow> accounts \<Rightarrow> accounts" where
  "erase_account u a =
     update_user u (\<lambda>r. r\<lparr>us_email := anonymous_email u, us_hash := None, us_status := ''deleted'',
         us_version := us_version r + 1, us_fails := 0, us_window := None, us_locked := None\<rparr>)
       (a\<lparr>recovery_codes := delete_where (\<lambda>t. ot_user t = u) (recovery_codes a),
          sessions := delete_where (\<lambda>s. as_user s = u) (sessions a),
          credentials := delete_where (\<lambda>c. cr_user c = u) (credentials a),
          challenges := delete_where (\<lambda>c. ch_user c = Some u) (challenges a),
          login_tokens := delete_where (\<lambda>t. ot_user t = u) (login_tokens a),
          reset_tokens := delete_where (\<lambda>t. ot_user t = u) (reset_tokens a),
          verify_tokens := delete_where (\<lambda>t. ot_user t = u) (verify_tokens a),
          security_log := update_where (\<lambda>e. se_user e = Some u) (\<lambda>e. e\<lparr>se_user := None\<rparr>) (security_log a)\<rparr>)"

definition erase_store :: "uuid \<Rightarrow> store \<Rightarrow> store" where
  "erase_store u s =
     s\<lparr>bookings := update_where (\<lambda>b. b_guest b = u) (anonymise_booking u) (bookings s),
       audit := update_where (\<lambda>e. au_actor e = Some u) (\<lambda>e. e\<lparr>au_actor := None\<rparr>) (audit s)\<rparr>"

datatype deletion_outcome = Skipped | Blocked_request | Deleted

definition set_request :: "uuid \<Rightarrow> (privacy_request \<Rightarrow> privacy_request) \<Rightarrow> world_state \<Rightarrow> world_state" where
  "set_request i f w = w\<lparr>ws_requests := update_where (\<lambda>r. pr_id r = i) f (ws_requests w)\<rparr>"

definition execute_deletion :: "millis \<Rightarrow> uuid \<Rightarrow> (world_state, unit, deletion_outcome) tx" where
  "execute_deletion now i w =
     (case first_where (\<lambda>r. pr_id r = i \<and> pr_status r = Rq_pending) (ws_requests w) of
        None \<Rightarrow> Inr (Skipped, w)
      | Some r \<Rightarrow>
          (case deletion_blocker (day_of_ms now) (pr_user r) w of
             Some b \<Rightarrow> Inr (Blocked_request,
               set_request i (\<lambda>r. r\<lparr>pr_status := Rq_blocked, pr_blocked := Some (blocker_text b)\<rparr>) w)
           | None \<Rightarrow> Inr (Deleted,
               set_request i (\<lambda>r. r\<lparr>pr_status := Rq_completed, pr_completed := Some now\<rparr>)
                 (w\<lparr>ws_accounts := erase_account (pr_user r) (ws_accounts w),
                    ws_store := erase_store (pr_user r) (ws_store w)\<rparr>))))"

fun execute_each :: "millis \<Rightarrow> uuid list \<Rightarrow> world_state \<Rightarrow> nat \<times> nat \<times> world_state" where
  "execute_each now [] w = (0, 0, w)"
| "execute_each now (i # is) w =
     (let (r, w1) = with_transaction (execute_deletion now i) w;
          w2 = (if r = Inr Deleted
                then w1\<lparr>ws_accounts := record_security_event None ''privacy.deletion'' Success (ws_accounts w1)\<rparr> else w1);
          (c, b, w3) = execute_each now is w2
      in (if r = Inr Deleted then c + 1 else c, if r = Inr Blocked_request then b + 1 else b, w3))"

record deletion_result =
  de_considered :: nat
  de_completed :: nat
  de_blocked :: nat

definition due_requests :: "millis \<Rightarrow> world_state \<Rightarrow> privacy_request list" where
  "due_requests now w =
     take 50 (sort_key pr_execute_after
       (select_where (\<lambda>r. pr_status r = Rq_pending \<and> pr_execute_after r \<le> now) (ws_requests w)))"

definition execute_due_privacy_deletions :: "millis \<Rightarrow> world_state \<Rightarrow> deletion_result \<times> world_state" where
  "execute_due_privacy_deletions now w =
     (let due = due_requests now w; (c, b, w1) = execute_each now (map pr_id due) w
      in (\<lparr>de_considered = length due, de_completed = c, de_blocked = b\<rparr>, w1))"

subsection \<open>Requests\<close>

datatype privacy_error = Not_confirmed | Password_wrong | Blocked_by blocker | Already_pending | No_pending_request

text \<open>\<open>POST /api/account/privacy\<close> after the session check; the partial unique index allows one open request.\<close>

definition request_deletion ::
  "text_rel \<Rightarrow> millis \<Rightarrow> uuid \<Rightarrow> uuid \<Rightarrow> js_string \<Rightarrow> js_string \<Rightarrow> world_state \<Rightarrow> (privacy_error + unit) \<times> world_state" where
  "request_deletion matches now new_id u password confirmation w =
     (if confirmation \<noteq> ''DELETE'' then (Inl Not_confirmed, w)
      else
        (case first_where (\<lambda>r. us_id r = u \<and> us_status r = ''active'') (users (ws_accounts w)) of
           None \<Rightarrow> (Inl Password_wrong, w)
         | Some r \<Rightarrow>
             if (case us_hash r of None \<Rightarrow> True | Some h \<Rightarrow> h = [] \<or> password = [] \<or> \<not> matches password h)
             then (Inl Password_wrong, w)
             else
               (case deletion_blocker (day_of_ms now) u w of
                  Some b \<Rightarrow> (Inl (Blocked_by b), w)
                | None \<Rightarrow>
                    if row_exists (\<lambda>q. pr_user q = u \<and> (pr_status q = Rq_pending \<or> pr_status q = Rq_processing)) (ws_requests w)
                    then (Inl Already_pending, w)
                    else (Inr (), w\<lparr>ws_requests := insert_row
                      \<lparr>pr_id = new_id, pr_user = u, pr_status = Rq_pending, pr_execute_after = now + 30 * ms_per_day,
                       pr_completed = None, pr_blocked = None\<rparr> (ws_requests w),
                     ws_accounts := record_security_event (Some u) ''privacy.deletion_requested'' Success (ws_accounts w)\<rparr>))))"

definition cancel_deletion :: "uuid \<Rightarrow> world_state \<Rightarrow> (privacy_error + unit) \<times> world_state" where
  "cancel_deletion u w =
     (if \<not> row_exists (\<lambda>q. pr_user q = u \<and> pr_status q = Rq_pending) (ws_requests w) then (Inl No_pending_request, w)
      else (Inr (), w\<lparr>ws_requests := update_where (\<lambda>q. pr_user q = u \<and> pr_status q = Rq_pending)
                 (\<lambda>q. q\<lparr>pr_status := Rq_cancelled\<rparr>) (ws_requests w),
               ws_accounts := record_security_event (Some u) ''privacy.deletion_cancelled'' Success (ws_accounts w)\<rparr>))"

end
