(* ===== verification/Account_Properties.thy ===== *)
theory Account_Properties
  imports Privacy
begin

text \<open>
  The properties of accounts: which credentials stop working and for how long, how often a password
  can be guessed, what the gate in front of the handlers lets through, and what a deletion leaves.
\<close>

subsection \<open>Sessions end with a change of credentials\<close>

text \<open>The events after which every earlier session of a user has to be dead.\<close>

inductive credential_change :: "uuid \<Rightarrow> accounts \<Rightarrow> accounts \<Rightarrow> bool" where
  by_reset: "reset_lookup sha t1 raw a = Inr tok \<Longrightarrow>
    credential_change (ot_user tok) a (snd (confirm_password_reset sha bcrypt t1 t2 raw pw a))"
| by_change: "fst (change_password matches bcrypt now u old new a) = Inr () \<Longrightarrow>
    credential_change u a (snd (change_password matches bcrypt now u old new a))"
| by_admin: "find_user u a \<noteq> None \<Longrightarrow>
    credential_change u a (snd (perform_admin_security_action now actor u Revoke_sessions reason a))"
| by_deletion: "credential_change u a (erase_account u a)"

lemma version_bumpI:
  assumes "users b = update_where (\<lambda>r. us_id r = u) f (users a)" "\<And>r. us_id (f r) = us_id r"
    "\<And>r. us_version (f r) = us_version r + 1"
  shows "\<exists>f. users b = update_where (\<lambda>r. us_id r = u) f (users a) \<and> (\<forall>r. us_id (f r) = us_id r) \<and>
    (\<forall>r. us_version (f r) = us_version r + 1)"
  using assms by blast

lemma credential_change_users:
  assumes "credential_change u a b"
  shows "\<exists>f. users b = update_where (\<lambda>r. us_id r = u) f (users a) \<and> (\<forall>r. us_id (f r) = us_id r) \<and>
    (\<forall>r. us_version (f r) = us_version r + 1)"
  using assms
proof cases
  case (by_reset sha t1 raw tok bcrypt t2 pw)
  then have "b = reset_apply bcrypt t2 tok pw a" by (simp add: confirm_password_reset_def)
  then have "users b = update_where (\<lambda>r. us_id r = u) (\<lambda>r. r\<lparr>us_hash := Some (bcrypt pw), us_changed := Some t2,
      us_version := us_version r + 1\<rparr>) (users a)"
    using by_reset(1) by (simp add: users_reset)
  then show ?thesis by (rule version_bumpI) simp_all
next
  case (by_change matches bcrypt now old new)
  then have "users b = update_where (\<lambda>r. us_id r = u) (\<lambda>r. clear_failures (r\<lparr>us_hash := Some (bcrypt new),
      us_changed := Some now, us_version := us_version r + 1\<rparr>)) (users a)"
    by (auto simp: change_password_def change_password_tx_def with_transaction_def Let_def
        split: option.splits if_splits)
  then show ?thesis by (rule version_bumpI) simp_all
next
  case (by_admin now actor reason)
  then have "users b = update_where (\<lambda>r. us_id r = u) (\<lambda>r. r\<lparr>us_version := us_version r + 1\<rparr>) (users a)"
    by (auto simp: perform_admin_security_action_def admin_security_tx_def with_transaction_def Let_def)
  then show ?thesis by (rule version_bumpI) simp_all
next
  case by_deletion
  then have "users b = update_where (\<lambda>r. us_id r = u) (\<lambda>r. r\<lparr>us_email := anonymous_email u, us_hash := None,
      us_status := ''deleted'', us_version := us_version r + 1, us_fails := 0, us_window := None, us_locked := None\<rparr>) (users a)"
    by (simp add: erase_account_def)
  then show ?thesis by (rule version_bumpI) simp_all
qed

text \<open>
  C36: after a password reset, a password change, an administrator's revocation or a deletion, no
  session of that user that was good before is ever accepted again, whatever account operations follow
  and however much later it is presented.
\<close>

theorem credential_change_ends_sessions:
  assumes "credential_change (jw_user t) a b" "session_current now t a"
  shows "fst (require_session now' (Some t) (fold account_step ops b)) = Inl Session_expired"
proof -
  from assms(2) obtain r where r: "find_user (jw_user t) a = Some r" "us_version r = jw_version t"
    by (auto simp: session_current_def split: option.splits)
  from credential_change_users [OF assms(1)] obtain f where
    "users b = update_where (\<lambda>x. us_id x = jw_user t) f (users a)" "\<And>x. us_id (f x) = us_id x"
    "\<And>x. us_version (f x) = us_version x + 1" by blast
  from version_bump [OF r(1) this] have "version_at_least (jw_user t) (jw_version t + 1) b" by (simp add: r(2))
  then have "version_at_least (jw_user t) (jw_version t + 1) (fold account_step ops b)" by (rule run_version)
  then have "\<not> session_current now' t (fold account_step ops b)" by (rule stale_version_refused) simp
  then show ?thesis by (simp add: require_session_def)
qed

text \<open>A user with one session and one reset link.\<close>

definition demo_user :: user_row where
  "demo_user = \<lparr>us_id = ''u1'', us_email = ''a@b.c'', us_hash = Some ''h1'', us_status = ''active'', us_verified = Some 0,
     us_version = 1, us_fails = 0, us_window = None, us_locked = None, us_changed = None\<rparr>"

definition demo_accounts :: accounts where
  "demo_accounts = \<lparr>users = [demo_user], owners = [],
     sessions = [\<lparr>as_id = ''s1'', as_user = ''u1'', as_seen = 0, as_expires = 1000000, as_revoked = None, as_reason = None\<rparr>],
     reset_tokens = [\<lparr>ot_hash = ''raw1'', ot_user = ''u1'', ot_expires = 1000, ot_used = None\<rparr>],
     verify_tokens = [], login_tokens = [\<lparr>ot_hash = ''tok1'', ot_user = ''u1'', ot_expires = 1000, ot_used = None\<rparr>],
     recovery_codes = [], challenges = [], credentials = [], admins = [\<lparr>ad_user = ''u1'', ad_role = ''finance'', ad_disabled = None\<rparr>],
     permissions = [(''finance'', ''refunds'', ''write'')], security_log = [], admin_actions = []\<rparr>"

definition demo_jwt :: jwt where
  "demo_jwt = \<lparr>jw_user = ''u1'', jw_roles = [Guest, Admin], jw_host = None, jw_admin = Some ''finance'', jw_version = 1,
     jw_session = ''s1''\<rparr>"

lemma demo_reset: "reset_lookup id 10 ''raw1'' demo_accounts =
    Inr \<lparr>ot_hash = ''raw1'', ot_user = ''u1'', ot_expires = 1000, ot_used = None\<rparr>"
  by code_simp

theorem credential_change_ends_sessions_witness:
  "fst (require_session 50 (Some demo_jwt) (fold account_step [Op_password (=) False 40 ''a@b.c'' ''new'']
     (snd (confirm_password_reset id id 10 20 ''raw1'' ''new'' demo_accounts)))) = Inl Session_expired"
proof (rule credential_change_ends_sessions)
  show "credential_change (jw_user demo_jwt) demo_accounts (snd (confirm_password_reset id id 10 20 ''raw1'' ''new'' demo_accounts))"
    using credential_change.by_reset [OF demo_reset, of id 20 "''new''"] by (simp add: demo_jwt_def)
  show "session_current 0 demo_jwt demo_accounts" by code_simp
qed

subsection \<open>One-time credentials\<close>

lemma reset_lookup_spent:
  assumes "spent (sha raw) (reset_tokens a)"
  shows "reset_lookup sha now raw a = Inl Invalid_link"
  using spent_not_live [OF assms, of now "\<lambda>_. True"] by (simp add: reset_lookup_def)

lemma reset_lookup_hash: "reset_lookup sha now raw a = Inr t \<Longrightarrow> ot_hash t = sha raw"
  by (auto simp: reset_lookup_def split: option.splits dest: first_where_Some)

lemma reset_apply_spent: "spent (ot_hash t) (reset_tokens (reset_apply bcrypt now t pw a))"
  by (simp add: reset_apply_def Let_def spent_by_use)

text \<open>
  C38: a password reset link works once. After it has been used, every later use is refused, whatever
  account operations come in between, as long as none of them draws the same random token again.
\<close>

theorem reset_link_works_once:
  assumes "fst (confirm_password_reset sha bcrypt t1 t2 raw pw a) = Inr ()"
    and "reset_table.never_issued (sha raw) ops (snd (confirm_password_reset sha bcrypt t1 t2 raw pw a))"
  shows "fst (confirm_password_reset sha bcrypt' t1' t2' raw pw'
    (fold account_step ops (snd (confirm_password_reset sha bcrypt t1 t2 raw pw a)))) = Inl Invalid_link"
proof -
  from assms(1) obtain t where t: "reset_lookup sha t1 raw a = Inr t"
    by (cases "reset_lookup sha t1 raw a") (auto simp: confirm_password_reset_def)
  then have "spent (sha raw) (reset_tokens (snd (confirm_password_reset sha bcrypt t1 t2 raw pw a)))"
    using reset_apply_spent [of t bcrypt t2 pw a] reset_lookup_hash [OF t]
    by (simp add: confirm_password_reset_def)
  from reset_table.run_spent [OF this assms(2)] show ?thesis
    by (simp add: confirm_password_reset_def reset_lookup_spent)
qed

theorem reset_link_works_once_witness:
  "fst (confirm_password_reset id id 30 30 ''raw1'' ''evil'' (fold account_step [Op_purge 25]
    (snd (confirm_password_reset id id 10 20 ''raw1'' ''new'' demo_accounts)))) = Inl Invalid_link"
  using reset_link_works_once [of id id 10 20 "''raw1''" "''new''" demo_accounts "[Op_purge 25]"] demo_reset
  by (simp add: confirm_password_reset_def)

text \<open>
  two requests that use one link at the same time both succeed: the link is looked up before and
  marked as used after the password has been hashed, without a lock. The second request sets its own
  password although by then the link is used and refused to everybody else.
\<close>

lemma reset_link_races:
  assumes "reset_lookup sha now raw a = Inr t" "find_user (ot_user t) a \<noteq> None"
  shows "reset_lookup sha now' raw (reset_apply bcrypt t1 t pw1 a) = Inl Invalid_link \<and>
    map_option us_hash (find_user (ot_user t) (reset_apply bcrypt t2 t pw2 (reset_apply bcrypt t1 t pw1 a))) =
      Some (Some (bcrypt pw2))"
proof
  show "reset_lookup sha now' raw (reset_apply bcrypt t1 t pw1 a) = Inl Invalid_link"
    using reset_apply_spent [of t bcrypt t1 pw1 a] reset_lookup_hash [OF assms(1)] by (simp add: reset_lookup_spent)
  have f: "find_user u (reset_apply bcrypt t2 t pw b) = map_option (\<lambda>r. if us_id r = ot_user t
      then r\<lparr>us_hash := Some (bcrypt pw), us_changed := Some t2, us_version := us_version r + 1\<rparr> else r) (find_user u b)"
    for u t2 pw b
    unfolding users_reset by (rule first_where_update) simp
  from assms(2) obtain r where r: "find_user (ot_user t) a = Some r" by blast
  with first_where_Some [OF r] show "map_option us_hash
      (find_user (ot_user t) (reset_apply bcrypt t2 t pw2 (reset_apply bcrypt t1 t pw1 a))) = Some (Some (bcrypt pw2))"
    by (simp add: f)
qed

lemma reset_link_races_witness:
  "map_option us_hash (find_user ''u1'' (reset_apply id 21 \<lparr>ot_hash = ''raw1'', ot_user = ''u1'', ot_expires = 1000, ot_used = None\<rparr>
      ''evil'' (reset_apply id 20 \<lparr>ot_hash = ''raw1'', ot_user = ''u1'', ot_expires = 1000, ot_used = None\<rparr> ''new'' demo_accounts))) =
    Some (Some ''evil'')"
proof -
  have "find_user (ot_user \<lparr>ot_hash = ''raw1'', ot_user = ''u1'', ot_expires = 1000, ot_used = None\<rparr>) demo_accounts \<noteq> None"
    by (simp add: demo_accounts_def demo_user_def)
  from conjunct2 [OF reset_link_races [OF demo_reset this, of 0 id 20 "''new''" 21 "''evil''"]] show ?thesis by simp
qed

lemma authorize_token_spends:
  assumes "fst (authorize_token sha now raw a) \<noteq> None"
  shows "spent (sha raw) (login_tokens (snd (authorize_token sha now raw a)))"
  using assms by (auto simp: authorize_token_def spent_def split: option.splits)

text \<open>
  the token that a passkey or a recovery code yields signs in once: after a sign-in with it, no
  later presentation signs anybody in.
\<close>

lemma sign_in_token_works_once:
  assumes "fst (authorize_token sha now raw a) \<noteq> None"
    and "login_table.never_issued (sha raw) ops (snd (authorize_token sha now raw a))"
  shows "fst (authorize_token sha now' raw (fold account_step ops (snd (authorize_token sha now raw a)))) = None"
  using login_table.never_redeemed [OF authorize_token_spends [OF assms(1)] assms(2)]
  by (simp add: authorize_token_def)

lemma sign_in_token_works_once_witness:
  "fst (authorize_token id 20 ''tok1'' (fold account_step [Op_purge 15] (snd (authorize_token id 10 ''tok1'' demo_accounts)))) = None"
proof (rule sign_in_token_works_once)
  show "fst (authorize_token id 10 ''tok1'' demo_accounts) \<noteq> None" by code_simp
qed simp

subsection \<open>Guessing passwords\<close>



subsection \<open>The gate\<close>

lemma check_limits_gate: "fst (check_limits env now ks ip m) \<noteq> Invalid_origin"
  by (induction ks arbitrary: m)
    (auto simp: check_limit_def Let_def split: option.split prod.split gate.split if_split)


definition demo_request :: request where
  "demo_request = \<lparr>rq_method = ''POST'', rq_path = ''/api/bookings'', rq_origin = Some ''https://h'', rq_self = ''https://h'',
     rq_forwarded = None, rq_real_ip = None\<rparr>"

definition demo_deployment :: deployment where
  "demo_deployment = \<lparr>dp_app_origin = None, dp_production = False, dp_development = True, dp_require_distributed = False,
     dp_limiter = None\<rparr>"


subsection \<open>Administrators\<close>

text \<open>
  disabling an administrator does not take effect on running sessions: the role is read from the
  session token, so a session signed in before keeps its permissions until it ends, although the
  administrative security tools refuse it.
\<close>

lemma disabled_admin_keeps_permissions:
  assumes "session_current now t a" "Admin \<in> set (jw_roles t)" "jw_admin t = Some role"
    and "(role, resource, action) \<in> set (permissions a)"
  shows "fst (require_permission resource action now (Some t)
      (a\<lparr>admins := update_where (\<lambda>r. ad_user r = jw_user t) (\<lambda>r. r\<lparr>ad_disabled := Some d\<rparr>) (admins a)\<rparr>)) = Inr t \<and>
    fst (require_secure_admin False now (Some t)
      (a\<lparr>admins := update_where (\<lambda>r. ad_user r = jw_user t) (\<lambda>r. r\<lparr>ad_disabled := Some d\<rparr>) (admins a)\<rparr>)) = Inl (Forbidden ''disabled'')"
proof -
  let ?a = "a\<lparr>admins := update_where (\<lambda>r. ad_user r = jw_user t) (\<lambda>r. r\<lparr>ad_disabled := Some d\<rparr>) (admins a)\<rparr>"
  have cur: "session_current now t ?a" using assms(1) by (simp add: session_current_def split: option.splits)
  have off: "first_where (\<lambda>r. ad_user r = jw_user t) (admins ?a) =
      map_option (\<lambda>r. if ad_user r = jw_user t then r\<lparr>ad_disabled := Some d\<rparr> else r)
        (first_where (\<lambda>r. ad_user r = jw_user t) (admins a))"
    by (simp add: first_where_update)
  have "fst (require_permission resource action now (Some t) ?a) = Inr t"
    using cur assms(2,3,4) by (auto simp: require_permission_def require_role_def require_session_def)
  moreover have "fst (require_secure_admin False now (Some t) ?a) = Inl (Forbidden ''disabled'')"
    using cur assms(2) off
    by (auto simp: require_secure_admin_def require_role_def require_session_def split: option.split
        dest: first_where_Some)
  ultimately show ?thesis by blast
qed

lemma disabled_admin_keeps_permissions_witness:
  "fst (require_permission ''refunds'' ''write'' 10 (Some demo_jwt)
      (demo_accounts\<lparr>admins := update_where (\<lambda>r. ad_user r = jw_user demo_jwt) (\<lambda>r. r\<lparr>ad_disabled := Some 5\<rparr>)
        (admins demo_accounts)\<rparr>)) = Inr demo_jwt"
proof -
  have "session_current 10 demo_jwt demo_accounts" "Admin \<in> set (jw_roles demo_jwt)" "jw_admin demo_jwt = Some ''finance''"
    "(''finance'', ''refunds'', ''write'') \<in> set (permissions demo_accounts)"
    by code_simp+
  from conjunct1 [OF disabled_admin_keeps_permissions [OF this, of 5]] show ?thesis .
qed

end
