(* ===== verification/Night_Ledger.thy ===== *)
theory Night_Ledger
  imports Scenario
begin

text \<open>
  The abstract contract of the booking side: a ledger that says which booking, if any, owns each
  night of each property. Two events change it: a stay whose nights all are free is reserved under
  an identity no night carries, or all nights of some bookings are given up. A night never passes
  from one booking to another directly. \<open>night_owner\<close> reads this ledger off the store; the lemmas show
  that every operation of \<open>System\<close> maps to one event of the ledger.
\<close>

type_synonym night_ledger = "uuid \<Rightarrow> day \<Rightarrow> uuid option"

definition owns_night :: "uuid \<Rightarrow> day \<Rightarrow> booking \<Rightarrow> bool" where
  "owns_night q d b \<longleftrightarrow> active b \<and> b_property b = q \<and> b_check_in b \<le> d \<and> d < b_check_out b"

definition night_owner :: "store \<Rightarrow> night_ledger" where
  "night_owner s q d = map_option b_id (first_where (owns_night q d) (bookings s))"

definition reserve_nights :: "uuid \<Rightarrow> day \<Rightarrow> day \<Rightarrow> uuid \<Rightarrow> night_ledger \<Rightarrow> night_ledger" where
  "reserve_nights p a b i m = (\<lambda>q d. if q = p \<and> a \<le> d \<and> d < b then Some i else m q d)"

definition give_up :: "uuid set \<Rightarrow> night_ledger \<Rightarrow> night_ledger" where
  "give_up ids m = (\<lambda>q d. case m q d of None \<Rightarrow> None | Some i \<Rightarrow> if i \<in> ids then None else Some i)"

inductive ledger_step :: "night_ledger \<Rightarrow> night_ledger \<Rightarrow> bool" where
  reserve: "a < b \<Longrightarrow> \<forall>d. a \<le> d \<and> d < b \<longrightarrow> m p d = None \<Longrightarrow> \<forall>q d. m q d \<noteq> Some i \<Longrightarrow>
    ledger_step m (reserve_nights p a b i m)"
| release: "ledger_step m (give_up ids m)"

lemma give_up_none [simp]: "give_up {} m = m"
  by (simp add: give_up_def fun_eq_iff split: option.split)

lemma ledger_stutter: "ledger_step m m"
  using ledger_step.release [of m "{}"] by simp

lemma night_owner_Some:
  assumes "bookings_ok s"
  shows "night_owner s q d = Some i \<longleftrightarrow> (\<exists>b \<in> set (bookings s). owns_night q d b \<and> b_id b = i)"
proof
  assume "night_owner s q d = Some i"
  then show "\<exists>b \<in> set (bookings s). owns_night q d b \<and> b_id b = i"
    by (auto simp: night_owner_def dest!: first_where_Some)
next
  assume "\<exists>b \<in> set (bookings s). owns_night q d b \<and> b_id b = i"
  then obtain b where b: "b \<in> set (bookings s)" "owns_night q d b" "b_id b = i" by blast
  then obtain c where c: "first_where (owns_night q d) (bookings s) = Some c"
    using first_where_None [of "owns_night q d" "bookings s"] by (cases "first_where (owns_night q d) (bookings s)") auto
  note cs = first_where_Some [OF c]
  have "b_id c = b_id b"
  proof (rule ccontr)
    assume "b_id c \<noteq> b_id b"
    with bookings_okD(5) [OF assms, of c b] cs b have "nights_disjoint c b" by (simp add: owns_night_def)
    moreover have "d \<in> {b_check_in c..<b_check_out c} \<inter> {b_check_in b..<b_check_out b}"
      using cs b by (simp add: owns_night_def)
    ultimately show False using cs b by (auto simp: nights_disjoint_iff owns_night_def)
  qed
  with c b show "night_owner s q d = Some i" by (simp add: night_owner_def)
qed

lemma ledger_eqI:
  assumes "\<And>q d i. m q d = Some i \<longleftrightarrow> m' q d = Some i"
  shows "m = (m' :: night_ledger)"
proof (intro ext)
  fix q d
  show "m q d = m' q d" by (metis assms option.exhaust)
qed

subsection \<open>Operations that end bookings\<close>

definition only_ends :: "store \<Rightarrow> store \<Rightarrow> bool" where
  "only_ends s t \<longleftrightarrow> (\<exists>g. shrinks g \<and> bookings t = map g (bookings s))"

lemma only_ends_frame: "bookings t = bookings s \<Longrightarrow> only_ends s t"
  unfolding only_ends_def by (rule exI [of _ "\<lambda>b. b"]) simp

lemma only_ends_update:
  assumes "bookings t = update_where P f (bookings s)" "shrinks f"
  shows "only_ends s t"
  unfolding only_ends_def using assms shrinks_if [of f P] by (auto simp: update_where_def)

lemma only_ends_confirm:
  assumes "bookings t = update_where (pending_status bk) (\<lambda>b. b\<lparr>b_status := st\<rparr>) (bookings s)"
  shows "only_ends s t"
  unfolding only_ends_def
  by (rule exI [of _ "\<lambda>b. if pending_status bk b then b\<lparr>b_status := st\<rparr> else b"])
    (simp add: assms update_where_def shrinks_def pending_status_def active_def)

lemma only_ends_step:
  assumes ok: "bookings_ok s" "bookings_ok t" and "only_ends s t"
  shows "ledger_step (night_owner s) (night_owner t)"
proof -
  from assms(3) obtain g where g: "shrinks g" "bookings t = map g (bookings s)"
    by (auto simp: only_ends_def)
  let ?ids = "{b_id b | b. b \<in> set (bookings s) \<and> \<not> active (g b)}"
  have kept: "owns_night q d (g b) \<longleftrightarrow> owns_night q d b \<and> active (g b)" for q d b
    using g(1) by (auto simp: owns_night_def shrinks_def)
  have same: "active (g b) \<longleftrightarrow> b_id b \<notin> ?ids" if "b \<in> set (bookings s)" for b
  proof
    assume act: "active (g b)"
    show "b_id b \<notin> ?ids"
    proof
      assume "b_id b \<in> ?ids"
      then obtain c where c: "c \<in> set (bookings s)" "\<not> active (g c)" "b_id c = b_id b" by auto
      with that bookings_okD(1) [OF ok(1)] have "c = b" by (auto simp: distinct_map inj_on_def)
      with act c show False by simp
    qed
  qed (use that in blast)
  have gid: "b_id (g b) = b_id b" for b using g(1) by (simp add: shrinks_def)
  have "night_owner t = give_up ?ids (night_owner s)"
  proof (rule ledger_eqI)
    fix q d i
    have "night_owner t q d = Some i \<longleftrightarrow> (\<exists>b \<in> set (bookings s). owns_night q d b \<and> active (g b) \<and> b_id b = i)"
      by (auto simp: night_owner_Some [OF ok(2)] g(2) kept gid)
    also have "\<dots> \<longleftrightarrow> night_owner s q d = Some i \<and> i \<notin> ?ids"
      unfolding night_owner_Some [OF ok(1)] using same by blast
    also have "\<dots> \<longleftrightarrow> give_up ?ids (night_owner s) q d = Some i"
      by (auto simp: give_up_def split: option.splits)
    finally show "night_owner t q d = Some i \<longleftrightarrow> give_up ?ids (night_owner s) q d = Some i" .
  qed
  then show ?thesis by (simp add: ledger_step.release)
qed

subsection \<open>Creation reserves\<close>

lemma create_step:
  assumes ok: "bookings_ok s" "bookings_ok t" and "create_booking delayed now new_id i s = (Inr r, t)"
  shows "ledger_step (night_owner s) (night_owner t)"
  using create_booking_cases(4) [OF assms(3)]
proof (cases rule: create_booking_tx_cases)
  case replay
  then show ?thesis by (simp add: ledger_stutter)
next
  case (created p bd)
  let ?b = "new_booking delayed now new_id i p (policy_rules (booked_store i s) p)"
  have bs: "set (bookings t) = insert ?b (set (bookings s))" by (simp add: created(8) insert_row_def)
  have act: "active ?b" by (simp add: active_def)
  have no: "night_owner s q d \<noteq> Some new_id" for q d
    unfolding night_owner_Some [OF ok(1)] using created(6) by blast
  have free: "night_owner s (bi_property i) d = None" if d: "bi_check_in i \<le> d" "d < bi_check_out i" for d
  proof (rule ccontr)
    assume "night_owner s (bi_property i) d \<noteq> None"
    then obtain c where c: "c \<in> set (bookings s)" "owns_night (bi_property i) d c"
      by (auto simp: night_owner_Some [OF ok(1)])
    have "nights_disjoint ?b c"
      by (rule free_nights_disjoint(1) [OF ok(1) c(1)]) (use c(2) created(4) in \<open>simp_all add: owns_night_def\<close>)
    with c(2) d show False by (auto simp: nights_disjoint_iff owns_night_def)
  qed
  have "night_owner t = reserve_nights (bi_property i) (bi_check_in i) (bi_check_out i) new_id (night_owner s)"
  proof (rule ledger_eqI)
    fix q d j
    have own: "owns_night q d ?b \<longleftrightarrow> q = bi_property i \<and> bi_check_in i \<le> d \<and> d < bi_check_out i"
      using act by (auto simp: owns_night_def)
    have "night_owner t q d = Some j \<longleftrightarrow> owns_night q d ?b \<and> j = new_id \<or> night_owner s q d = Some j"
      unfolding night_owner_Some [OF ok(2)] night_owner_Some [OF ok(1)] bs by auto
    then show "night_owner t q d = Some j \<longleftrightarrow>
        reserve_nights (bi_property i) (bi_check_in i) (bi_check_out i) new_id (night_owner s) q d = Some j"
      unfolding own reserve_nights_def using free by auto
  qed
  then show ?thesis
    using nights_positive [OF create_booking_cases(1) [OF assms(3)]] free no
    by (auto intro!: ledger_step.reserve)
qed


subsection \<open>The other operations\<close>

lemma only_ends_paid:
  assumes "on_payment_succeeded now pid intent bk s = Inr (r, t)"
  shows "only_ends s t"
  using assms
proof (cases rule: on_payment_succeeded_cases)
  case (confirmed b pc)
  then show ?thesis by (intro only_ends_confirm [of _ bk Confirmed]) (simp add: confirm_store_def Let_def)
qed (auto intro: only_ends_frame)

lemma only_ends_dispute: "only_ends s (on_dispute_created ev s)"
proof (cases "de_intent ev")
  case (Some i)
  show ?thesis
  proof (cases "first_where (\<lambda>p. pay_intent p = Some i) (payments s)")
    case None
    with Some show ?thesis by (intro only_ends_frame) (simp add: on_dispute_created_def)
  next
    case p: (Some p)
    show ?thesis
      by (rule only_ends_update [of _ "\<lambda>b. b_id b = pay_booking p", OF _ shrinks_disputed])
        (simp add: on_dispute_created_def Let_def Some p)
  qed
qed (simp add: on_dispute_created_def only_ends_frame)

lemma mark_attempt_bookings: "bookings (mark_attempt_succeeded aid intent s) = bookings s"
  by (simp add: mark_attempt_succeeded_def split: option.split)

lemma only_ends_new_flow: "only_ends s (on_new_flow_payment_succeeded sha now i bk aid intent s)"
proof -
  have "bookings (confirm_pending bk (mark_attempt_succeeded aid intent s)) =
      update_where (pending_status bk) (\<lambda>b. b\<lparr>b_status := Confirmed\<rparr>) (bookings s)"
    by (simp add: confirm_pending_def mark_attempt_bookings)
  moreover have "bookings (on_new_flow_payment_succeeded sha now i bk aid intent s) = bookings s \<or>
      bookings (on_new_flow_payment_succeeded sha now i bk aid intent s) =
        bookings (confirm_pending bk (mark_attempt_succeeded aid intent s))"
    by (cases rule: on_new_flow_cases [of sha now i bk aid intent s]) simp_all
  ultimately show ?thesis
    using only_ends_frame only_ends_confirm by metis
qed

lemma only_ends_trans: "only_ends s t \<Longrightarrow> only_ends t u \<Longrightarrow> only_ends s u"
  unfolding only_ends_def
proof (elim exE conjE)
  fix g h
  assume g: "shrinks g" "bookings t = map g (bookings s)" and h: "shrinks h" "bookings u = map h (bookings t)"
  have "shrinks (h \<circ> g)" using g(1) h(1) unfolding shrinks_def comp_def by metis
  moreover have "bookings u = map (h \<circ> g) (bookings s)" by (simp add: g(2) h(2))
  ultimately show "\<exists>k. shrinks k \<and> bookings u = map k (bookings s)" by blast
qed

lemma only_ends_outcome:
  assumes "record_charge_outcome now bk aid token c info s = Inr (r, t)"
  shows "only_ends s t"
proof -
  let ?s1 = "s\<lparr>attempts := update_where (outcome_matches aid token) (apply_outcome c info) (attempts s)\<rparr>"
  let ?s2 = "?s1\<lparr>bookings := update_where (pending_status bk) (start_grace now) (bookings s)\<rparr>"
  let ?s3 = "?s2\<lparr>bookings := update_where (pending_status bk) (schedule_retry now)
      (update_where (pending_status bk) (start_grace now) (bookings s))\<rparr>"
  have s1: "only_ends s ?s1" by (rule only_ends_frame) simp
  have s2: "only_ends s ?s2"
    by (rule only_ends_update [of _ "pending_status bk" "start_grace now"]) (simp_all add: shrinks_charge)
  have "only_ends ?s2 ?s3"
    by (rule only_ends_update [of _ "pending_status bk" "schedule_retry now"]) (simp_all add: shrinks_charge)
  note s3 = only_ends_trans [OF s2 this]
  have "t = s \<or> t = ?s1 \<or> t = ?s2 \<or> t = ?s3"
    using assms by (cases c) (auto simp: record_charge_outcome_def Let_def split: if_splits)
  then show ?thesis using s1 s2 s3 only_ends_frame [of s s] by (elim disjE) (simp_all only:)
qed


lemma only_ends_ended:
  assumes "bookings t = update_where (\<lambda>b. b_id b = bk) f (bookings s)" "shrinks f"
  shows "only_ends s t"
  using assms by (rule only_ends_update)

lemma sys_body_ends:
  assumes op: "sys_body sha op s = Inr (x, t)" and new: "\<And>dl now i inp. op \<noteq> Op_create dl now i inp"
  shows "only_ends s t"
proof (cases op)
  case (Op_release now bk)
  with op obtain r where "release_expired_hold now bk s = Inr (r, t)"
    by (auto simp: committed_Inr with_transaction_ok)
  then show ?thesis
    by (cases rule: release_expired_hold_cases)
      (auto intro: only_ends_frame only_ends_ended [OF _ shrinks_cancel(1)])
next
  case (Op_cancel now bk who)
  with op obtain r where "cancel_booking_tx now bk who s = Inr (r, t)"
    by (auto simp: committed_Inr cancel_booking_def with_transaction_ok)
  then show ?thesis
    by (cases rule: cancel_booking_cases) (auto intro: only_ends_ended [OF _ shrinks_cancel(1)])
next
  case (Op_discard now bk guest)
  with op obtain r where "discard_unpaid_booking_tx now bk guest s = Inr (r, t)"
    by (auto simp: committed_Inr with_transaction_ok)
  then show ?thesis
    by (cases rule: discard_cases) (auto intro: only_ends_ended [OF _ shrinks_cancel(2)])
next
  case (Op_archive now bk guest)
  with op obtain r where "archive_booking now bk guest s = Inr (r, t)"
    by (auto simp: committed_Inr with_transaction_ok)
  then have "bookings t = update_where (\<lambda>b. b_id b = bk \<and> b_guest b = guest \<and>
      b_status b \<in> set archivable_statuses \<and> b_archived b = None) (\<lambda>b. b\<lparr>b_archived := Some now\<rparr>) (bookings s)"
    by (auto simp: archive_booking_def Let_def split: if_splits option.splits)
  then show ?thesis by (rule only_ends_update [OF _ shrinks_cancel(3)])
next
  case (Op_availability now p ci co act)
  with op obtain r where "mutate_availability now p ci co act s = Inr (r, t)"
    by (auto simp: committed_Inr with_transaction_ok)
  from mutate_availability_frame(1) [OF this] show ?thesis by (rule only_ends_frame)
next
  case (Op_paid now pid intent bk)
  with op show ?thesis by (auto simp: committed_Inr with_transaction_ok intro: only_ends_paid)
next
  case (Op_dispute ev)
  with op only_ends_dispute show ?thesis by auto
next
  case (Op_decide now token i bk amount currency)
  with op obtain d where "decide_charge sha now token i bk amount currency s = Inr (d, t)"
    by (auto simp: committed_Inr with_transaction_ok)
  from decide_frame [OF this] show ?thesis by (auto intro: only_ends_frame)
next
  case (Op_outcome now bk aid token c info)
  with op show ?thesis by (auto simp: committed_Inr with_transaction_ok intro: only_ends_outcome)
next
  case (Op_new_flow_paid now i bk aid intent)
  with op only_ends_new_flow show ?thesis by auto
next
  case (Op_save_method bk pm)
  with op obtain r where r: "save_payment_method bk pm s = Inr (r, t)"
    by (auto simp: committed_Inr with_transaction_ok)
  then have "t = set_booking bk (with_method pm) s"
    by (cases "find_booking bk s") (simp add: save_payment_method_def,
      simp only: save_payment_method_def option.case sum.inject prod.inject)
  then show ?thesis by (intro only_ends_ended [OF _ shrinks_method]) simp
next
  case (Op_clear_hold bk)
  with op have "bookings t = update_where (pending_status bk) (\<lambda>b. b\<lparr>b_hold := None\<rparr>) (bookings s)"
    by (auto simp: clear_hold_def)
  then show ?thesis by (rule only_ends_update [OF _ shrinks_charge(3)])
next
  case (Op_complete_stays now)
  with op have "bookings t = update_where (stay_over now) (\<lambda>b. b\<lparr>b_status := Completed\<rparr>) (bookings s)"
    by (auto simp: complete_stays_def)
  then show ?thesis by (rule only_ends_update [OF _ shrinks_completed])
qed (use op new in \<open>auto intro!: only_ends_frame
  simp: release_due_payouts_def Let_def fold_release_frame on_payment_failed_def on_refund_failed_def\<close>)

lemma sys_body_step:
  assumes ok: "bookings_ok s" and op: "sys_body sha op s = Inr (x, t)"
  shows "ledger_step (night_owner s) (night_owner t)"
proof (cases "\<exists>dl now i inp. op = Op_create dl now i inp")
  case True
  with op show ?thesis
    by (auto simp: committed_Inr intro: create_step [OF ok sys_body_keeps [OF ok op]])
next
  case False
  with sys_body_ends [OF op] only_ends_step [OF ok sys_body_keeps [OF ok op]] show ?thesis by blast
qed

lemma sys_run_Nil [simp]: "sys_run sha [] s = s"
  by (simp add: sys_run_def)

lemma sys_run_Cons [simp]:
  "sys_run sha (op # ops) s = sys_run sha ops (snd (with_transaction (sys_body sha op) s))"
  by (simp add: sys_run_def)

lemma sys_op_cases:
  obtains "snd (with_transaction (sys_body sha op) s) = s"
  | t where "sys_body sha op s = Inr ((), t)" "snd (with_transaction (sys_body sha op) s) = t"
  by (cases "sys_body sha op s") (auto simp: with_transaction_def)


lemma owned_nights_booked:
  assumes "bookings_ok s" "night_owner s q d = Some i"
  shows "avail s q d = Some booked_row"
  using assms bookings_okD(4) [OF assms(1)]
  by (auto simp: night_owner_Some owns_night_def nights_held_iff)

lemma run_steps:
  assumes "bookings_ok s"
  shows "ledger_step\<^sup>*\<^sup>* (night_owner s) (night_owner (sys_run sha ops s))"
  using assms
proof (induction ops arbitrary: s)
  case (Cons op ops)
  show ?case
  proof (cases rule: sys_op_cases [of sha op s])
    case 1
    with Cons show ?thesis by simp
  next
    case (2 t)
    with Cons.IH [of t] sys_body_keeps [OF Cons.prems 2(1)] sys_body_step [OF Cons.prems 2(1)] show ?thesis
      by (simp add: converse_rtranclp_into_rtranclp)
  qed
qed simp


definition one_stay :: "sys_op list" where
  "one_stay = [Op_create False 0 ''b1'' (demo_input ''k1'' 20 22)]"

lemma sys_run_create:
  "sys_run sha [Op_create dl now i inp] s = snd (create_booking dl now i inp s)"
proof (cases "create_booking dl now i inp s")
  case (Pair r t)
  then show ?thesis
    using create_booking_error [of dl now i inp s]
    by (cases r) (simp_all add: with_transaction_def committed_def)
qed

lemma one_stay_owner:
  "night_owner open_store ''villa'' 21 = None"
  "night_owner (sys_run id one_stay open_store) ''villa'' 21 = Some ''b1''"
proof -
  show "night_owner open_store ''villa'' 21 = None" by (simp add: night_owner_def open_store_def empty_store_def)
  let ?i = "demo_input ''k1'' 20 22"
  note made = created_row_eq [OF open_store_books]
  from create_booking_cases(4) [OF made]
  have "first_where (owns_night ''villa'' 21) (bookings (snd (create_booking False 0 ''b1'' ?i open_store))) =
      Some (new_row (create_booking False 0 ''b1'' ?i open_store)) \<and>
      b_id (new_row (create_booking False 0 ''b1'' ?i open_store)) = ''b1''"
  proof (cases rule: create_booking_tx_cases)
    case (created p bd)
    have "bookings open_store = []" by (simp add: open_store_def empty_store_def)
    with created show ?thesis
      by (simp add: insert_row_def owns_night_def active_def demo_input_def)
  qed simp
  then show "night_owner (sys_run id one_stay open_store) ''villa'' 21 = Some ''b1''"
    unfolding one_stay_def sys_run_create by (simp add: night_owner_def)
qed

lemma open_store_ok: "bookings_ok open_store"
  by (simp add: bookings_ok_def open_store_def empty_store_def)


end
