(* ===== verification/Listing.thy ===== *)
theory Listing
  imports Store Js_String
begin

text \<open>
  A host's listings: lib/hosts/hostProperties.ts (creating and editing), lib/hosts/listingReadiness.ts
  (the checks before publication and HOST's review) and lib/compliance/propertyCompliance.ts (the owner's
  declarations and their review), with the triggers of migrations 026 and 028 that act on the same
  rows. The columns the trigger of 028 compares are grouped in one record, \<open>listing_content\<close>. PostGIS's
  grid function is an argument \<open>snap\<close>; random suffixes and identifiers are arguments.
\<close>

subsection \<open>Rows\<close>

type_synonym point = "rat \<times> rat"

record listing_content =
  lc_name :: js_string
  lc_type :: "js_string option"
  lc_description :: "js_string option"
  lc_city :: js_string
  lc_district :: "js_string option"
  lc_country :: "js_string option"
  lc_max_guests :: int
  lc_bedrooms :: int
  lc_bathrooms :: int
  lc_nightly :: "minor option"
  lc_cleaning :: minor
  lc_currency :: js_string
  lc_min_stay :: int
  lc_max_stay :: int
  lc_policy :: "uuid option"
  lc_check_in :: js_string
  lc_check_out :: js_string
  lc_rules :: "js_string option"
  lc_address1 :: "js_string option"
  lc_address2 :: "js_string option"
  lc_town :: "js_string option"
  lc_county :: "js_string option"
  lc_postcode :: "js_string option"
  lc_private :: "point option"

text \<open>\<open>lc_bathrooms\<close> is a \<open>NUMERIC(4,1)\<close> in tenths, \<open>lc_nightly\<close> and \<open>lc_cleaning\<close> are in hundredths.\<close>

record listing_row =
  ls_id :: uuid
  ls_host :: uuid
  ls_slug :: js_string
  ls_status :: property_status
  ls_content :: listing_content
  ls_public :: "point option"
  ls_acc_vat :: "rat option"
  ls_clean_vat :: "rat option"
  ls_rating :: "rat option"
  ls_review_count :: int
  ls_compliance :: compliance_status
  ls_submitted :: "millis option"
  ls_approved :: "millis option"
  ls_approved_by :: "uuid option"
  ls_note :: "js_string option"
  ls_pilot :: pilot_status
  ls_pilot_at :: "millis option"
  ls_pilot_by :: "uuid option"
  ls_pilot_note :: "js_string option"

record evidence_row = compliance_item +
  ev_note :: "js_string option"
  ev_confirmed :: "millis option"
  ev_reviewed :: "millis option"
  ev_reviewer :: "uuid option"
  ev_reviewer_note :: "js_string option"

record profile_row = host_row +
  hp_version :: "js_string option"
  hp_agreed :: "millis option"
  hp_policies :: "millis option"

record image_row =
  im_id :: uuid
  im_property :: uuid
  im_url :: js_string
  im_pathname :: js_string
  im_type :: js_string
  im_size :: int
  im_alt :: "js_string option"
  im_order :: int
  im_cover :: bool
  im_by :: uuid

record catalog =
  listings :: "listing_row list"
  evidence :: "evidence_row list"
  profiles :: "profile_row list"
  images :: "image_row list"
  amenities :: "(uuid \<times> uuid) list"
  catalog_audit :: "audit_entry list"

abbreviation find_listing :: "uuid \<Rightarrow> catalog \<Rightarrow> listing_row option" where
  "find_listing i c \<equiv> first_where (\<lambda>r. ls_id r = i) (listings c)"

definition log_catalog :: "uuid \<Rightarrow> uuid \<Rightarrow> audit_detail \<Rightarrow> catalog \<Rightarrow> catalog" where
  "log_catalog who what d c =
     c\<lparr>catalog_audit := insert_row \<lparr>au_actor = Some who, au_object = what, au_detail = d\<rparr> (catalog_audit c)\<rparr>"

text \<open>The columns booking reads, and the tables as the booking side sees them.\<close>

definition property_of :: "listing_row \<Rightarrow> property_row" where
  "property_of r =
     (let c = ls_content r in
      \<lparr>p_id = ls_id r, p_name = lc_name c, p_host = ls_host r, p_status = ls_status r,
       p_compliance = ls_compliance r, p_currency = lc_currency c, p_nightly = lc_nightly c,
       p_cleaning = lc_cleaning c, p_acc_vat = ls_acc_vat r, p_clean_vat = ls_clean_vat r,
       p_max_guests = lc_max_guests c, p_min_stay = lc_min_stay c, p_max_stay = lc_max_stay c,
       p_policy = lc_policy c\<rparr>)"

definition with_catalog :: "catalog \<Rightarrow> store \<Rightarrow> store" where
  "with_catalog c s = s\<lparr>properties := map property_of (listings c),
     compliance := map compliance_item.truncate (evidence c), hosts := map host_row.truncate (profiles c)\<rparr>"

subsection \<open>Triggers\<close>

text \<open>
  \<open>invalidate_property_pilot_review\<close>: an update of an approved listing that changes its content or its
  compliance status withdraws the approval, and a listing that was published becomes a draft.
\<close>

definition withdraw_approval :: "listing_row \<Rightarrow> listing_row" where
  "withdraw_approval r =
     r\<lparr>ls_pilot := Pilot_pending, ls_pilot_at := None, ls_pilot_by := None, ls_pilot_note := None\<rparr>"

definition on_listing_update :: "listing_row \<Rightarrow> listing_row \<Rightarrow> listing_row" where
  "on_listing_update old new =
     (if ls_pilot old = Pilot_approved \<and>
         (ls_content old \<noteq> ls_content new \<or> ls_compliance old \<noteq> ls_compliance new)
      then (if ls_status old = Prop_published then (withdraw_approval new)\<lparr>ls_status := Prop_draft\<rparr>
            else withdraw_approval new)
      else new)"

definition update_listing :: "uuid \<Rightarrow> (listing_row \<Rightarrow> listing_row) \<Rightarrow> catalog \<Rightarrow> catalog" where
  "update_listing i f c =
     c\<lparr>listings := update_where (\<lambda>r. ls_id r = i) (\<lambda>r. on_listing_update r (f r)) (listings c)\<rparr>"

text \<open>\<open>invalidate_property_image_pilot_review\<close>: the same for every row of \<open>property_images\<close> written.\<close>

definition on_image_change :: "uuid \<Rightarrow> catalog \<Rightarrow> catalog" where
  "on_image_change i c =
     c\<lparr>listings := update_where (\<lambda>r. ls_id r = i \<and> ls_pilot r = Pilot_approved)
        (\<lambda>r. (withdraw_approval r)\<lparr>ls_status := (if ls_status r = Prop_published then Prop_draft else ls_status r)\<rparr>)
        (listings c)\<rparr>"

subsection \<open>Readiness\<close>

definition host_agreement_version :: js_string where
  "host_agreement_version = ''pilot-2026-09''"

definition minimum_image_count :: nat where
  "minimum_image_count = 3"

datatype readiness_key =
  Basic_details | Guest_capacity | Pricing_set | Stay_policy | Private_location | Images_set
  | Host_agreement | Payout_account | Compliance_done | Pilot_review

record readiness_check =
  rc_key :: readiness_key
  rc_ready :: bool

record readiness_report =
  rr_property :: uuid
  rr_ready :: bool
  rr_checks :: "readiness_check list"
  rr_missing :: "readiness_check list"

definition has_text :: "js_string option \<Rightarrow> bool" where
  "has_text v = (case v of None \<Rightarrow> False | Some t \<Rightarrow> js_trim t \<noteq> [])"

text \<open>The three counts over \<open>property_compliance_items\<close>; \<open>ref_length\<close> is \<open>LENGTH(COALESCE(..., ''))\<close>.\<close>

definition ref_length :: "js_string option \<Rightarrow> nat" where
  "ref_length v = (case v of None \<Rightarrow> 0 | Some t \<Rightarrow> length t)"

definition incomplete_item :: "evidence_row \<Rightarrow> bool" where
  "incomplete_item e \<longleftrightarrow> ci_review e \<noteq> Review_approved \<or>
     ci_applicability e = Required \<and> (\<not> ci_declared e \<or> ci_evidence_url e = None) \<or>
     ci_applicability e = Not_applicable \<and> ref_length (ci_evidence_ref e) < 8"

definition expired_item :: "day \<Rightarrow> evidence_row \<Rightarrow> bool" where
  "expired_item today e \<longleftrightarrow> ci_applicability e = Required \<and>
     (case ci_valid_until e of None \<Rightarrow> False | Some d \<Rightarrow> d < today)"

definition items_of :: "uuid \<Rightarrow> catalog \<Rightarrow> evidence_row list" where
  "items_of i c = select_where (\<lambda>e. ci_property e = i) (evidence c)"

definition images_of :: "uuid \<Rightarrow> catalog \<Rightarrow> image_row list" where
  "images_of i c = select_where (\<lambda>m. im_property m = i) (images c)"

definition build_checks :: "day \<Rightarrow> catalog \<Rightarrow> listing_row \<Rightarrow> profile_row \<Rightarrow> readiness_check list" where
  "build_checks today c r h =
     (let k = ls_content r; items = items_of (ls_id r) c; pics = images_of (ls_id r) c in
      [\<lparr>rc_key = Basic_details, rc_ready = has_text (Some (lc_name k)) \<and> has_text (lc_type k) \<and>
          has_text (lc_description k) \<and> has_text (Some (lc_city k)) \<and> lc_country k = Some ''GB''\<rparr>,
       \<lparr>rc_key = Guest_capacity, rc_ready = 1 \<le> lc_max_guests k \<and> 0 \<le> lc_bedrooms k \<and> 0 \<le> lc_bathrooms k\<rparr>,
       \<lparr>rc_key = Pricing_set, rc_ready = (case lc_nightly k of None \<Rightarrow> False | Some n \<Rightarrow> 1 \<le> n) \<and> lc_currency k = ''GBP''\<rparr>,
       \<lparr>rc_key = Stay_policy, rc_ready = 1 \<le> lc_min_stay k \<and> lc_max_stay k \<le> 365 \<and> lc_min_stay k \<le> lc_max_stay k \<and>
          lc_policy k \<noteq> None \<and> lc_check_in k \<noteq> [] \<and> lc_check_out k \<noteq> []\<rparr>,
       \<lparr>rc_key = Private_location, rc_ready = has_text (lc_address1 k) \<and> has_text (lc_town k) \<and> has_text (lc_postcode k) \<and>
          lc_private k \<noteq> None \<and> ls_public r \<noteq> None\<rparr>,
       \<lparr>rc_key = Images_set, rc_ready = minimum_image_count \<le> length pics \<and> row_count im_cover pics = 1\<rparr>,
       \<lparr>rc_key = Host_agreement, rc_ready = hp_version h = Some host_agreement_version \<and> hp_agreed h \<noteq> None \<and>
          hp_policies h \<noteq> None\<rparr>,
       \<lparr>rc_key = Payout_account, rc_ready = h_payout_status h = Account_active\<rparr>,
       \<lparr>rc_key = Compliance_done, rc_ready = ls_compliance r = Comp_approved \<and> 0 < length items \<and>
          row_count incomplete_item items = 0 \<and> row_count (expired_item today) items = 0\<rparr>,
       \<lparr>rc_key = Pilot_review, rc_ready = ls_pilot r = Pilot_approved\<rparr>])"

definition listing_readiness :: "day \<Rightarrow> uuid \<Rightarrow> catalog \<Rightarrow> readiness_report option" where
  "listing_readiness today i c =
     (case find_listing i c of
        None \<Rightarrow> None
      | Some r \<Rightarrow>
          (case first_where (\<lambda>h. h_id h = ls_host r) (profiles c) of
             None \<Rightarrow> None
           | Some h \<Rightarrow>
               let checks = build_checks today c r h; missing = filter (\<lambda>k. \<not> rc_ready k) checks
               in Some \<lparr>rr_property = ls_id r, rr_ready = (missing = []), rr_checks = checks, rr_missing = missing\<rparr>))"

datatype listing_error =
  Listing_not_found | Listing_not_ready "readiness_check list" | Constraint_violation
  | Items_incomplete "js_string list" | Not_submitted | Own_submission | Record_incomplete

definition assert_listing_ready :: "day \<Rightarrow> uuid \<Rightarrow> catalog \<Rightarrow> listing_error + readiness_report" where
  "assert_listing_ready today i c =
     (case listing_readiness today i c of
        None \<Rightarrow> Inl Listing_not_found
      | Some rep \<Rightarrow> if rr_ready rep then Inr rep else Inl (Listing_not_ready (rr_missing rep)))"

subsection \<open>The pilot review\<close>

definition null_if_empty :: "js_string \<Rightarrow> js_string option" where
  "null_if_empty t = (if t = [] then None else Some t)"

definition pilot_status_of :: "review_decision \<Rightarrow> pilot_status" where
  "pilot_status_of d = (case d of Approve \<Rightarrow> Pilot_approved | Request_changes \<Rightarrow> Pilot_changes_required)"

definition review_pilot_listing ::
  "millis \<Rightarrow> uuid \<Rightarrow> uuid \<Rightarrow> review_decision \<Rightarrow> js_string \<Rightarrow> (catalog, listing_error, readiness_report) tx" where
  "review_pilot_listing now i reviewer d note c =
     (case find_listing i c of
        None \<Rightarrow> Inl Listing_not_found
      | Some _ \<Rightarrow>
          (case listing_readiness (day_of_ms now) i c of
             None \<Rightarrow> Inl Listing_not_found
           | Some rep \<Rightarrow>
               let blockers = filter (\<lambda>k. rc_key k \<noteq> Pilot_review) (rr_missing rep);
                   n = null_if_empty (js_trim note);
                   c1 = update_listing i (\<lambda>r. r\<lparr>ls_pilot := pilot_status_of d, ls_pilot_at := Some now,
                          ls_pilot_by := Some reviewer, ls_pilot_note := n\<rparr>) c;
                   c2 = log_catalog reviewer i (Pilot_reviewed d n) c1
               in if d = Approve \<and> blockers \<noteq> [] then Inl (Listing_not_ready blockers)
                  else (case listing_readiness (day_of_ms now) i c2 of
                          None \<Rightarrow> Inl Listing_not_found
                        | Some rep2 \<Rightarrow> Inr (rep2, c2))))"

end
