(* ===== verification/Listing_Edit.thy ===== *)
theory Listing_Edit
  imports Listing "HOL-Library.Char_ord" "HOL-Library.List_Lexorder"
begin

text \<open>
  What a host does with a listing: slugs, creation and editing (lib/hosts/hostProperties.ts), and the
  compliance record with its review (lib/compliance/propertyCompliance.ts). Editing is not one
  transaction: the readiness check and the update are separate statements, so \<open>update_property\<close> has an
  argument \<open>meanwhile\<close> for what others do in between.
\<close>

subsection \<open>Slugs\<close>

definition slug_char :: "char \<Rightarrow> bool" where
  "slug_char c \<longleftrightarrow> is_digit c \<or> (97 \<le> code c \<and> code c \<le> 122)"

text \<open>\<open>.replace(/[^a-z0-9]+/g, "-")\<close>: the flag says that the last character was replaced.\<close>

fun dash_runs :: "bool \<Rightarrow> js_string \<Rightarrow> js_string" where
  "dash_runs r [] = []"
| "dash_runs r (c # s) =
     (if slug_char c then c # dash_runs False s
      else if r then dash_runs True s else CHR ''-'' # dash_runs True s)"

definition strip_dashes :: "js_string \<Rightarrow> js_string" where
  "strip_dashes s = rev (dropWhile (\<lambda>c. c = CHR ''-'') (rev (dropWhile (\<lambda>c. c = CHR ''-'') s)))"

definition slug_words :: "js_string \<Rightarrow> js_string" where
  "slug_words name = strip_dashes (dash_runs False (js_trim (to_lower name)))"

definition generate_slug :: "js_string \<Rightarrow> js_string \<Rightarrow> js_string" where
  "generate_slug name suffix =
     (let base = take 60 (slug_words name)
      in (if base = [] then ''property'' else base) @ ''-'' @ suffix)"

text \<open>
  \<open>SLUG_PATTERN\<close> of the public property routes, \<open>^[a-z0-9]+(?:-[a-z0-9]+)*$\<close>, as the automaton of the
  expression: the flag says that a character of a word was just read.
\<close>

fun slug_scan :: "bool \<Rightarrow> js_string \<Rightarrow> bool" where
  "slug_scan word [] = word"
| "slug_scan word (c # s) =
     (if slug_char c then slug_scan True s else c = CHR ''-'' \<and> word \<and> slug_scan False s)"

definition slug_pattern :: "js_string \<Rightarrow> bool" where
  "slug_pattern s = slug_scan False s"

subsection \<open>Creating and editing\<close>

record property_input =
  pi_name :: "js_string option"
  pi_type :: "js_string option"
  pi_description :: "js_string option"
  pi_city :: "js_string option"
  pi_district :: "js_string option"
  pi_country :: "js_string option"
  pi_max_guests :: "int option"
  pi_bedrooms :: "int option"
  pi_bathrooms :: "rat option"
  pi_nightly :: "rat option"
  pi_cleaning :: "rat option"
  pi_currency :: "js_string option"
  pi_min_stay :: "int option"
  pi_max_stay :: "int option"
  pi_policy :: "uuid option option"
  pi_address1 :: "js_string option"
  pi_address2 :: "js_string option"
  pi_town :: "js_string option"
  pi_county :: "js_string option"
  pi_postcode :: "js_string option"
  pi_latitude :: "rat option option"
  pi_longitude :: "rat option option"
  pi_check_in :: "js_string option"
  pi_check_out :: "js_string option"
  pi_rules :: "js_string option"
  pi_status :: "property_status option"
  pi_amenities :: "uuid list option"

text \<open>
  \<open>None\<close> is an absent field; the outer option of the nullable ones tells absent from null. A number is
  stored in a \<open>NUMERIC\<close> column rounded half away from zero.
\<close>

definition to_numeric :: "rat \<Rightarrow> rat \<Rightarrow> int" where
  "to_numeric scale x = (if 0 \<le> x then \<lfloor>x * scale + 1 / 2\<rfloor> else - \<lfloor>- x * scale + 1 / 2\<rfloor>)"

definition given :: "'a option \<Rightarrow> 'a \<Rightarrow> 'a" where
  "given v old = (case v of None \<Rightarrow> old | Some x \<Rightarrow> x)"

abbreviation flat :: "'a option option \<Rightarrow> 'a option" where
  "flat v \<equiv> (case v of None \<Rightarrow> None | Some x \<Rightarrow> x)"

definition location_of :: "property_input \<Rightarrow> point option" where
  "location_of inp = (case (flat (pi_latitude inp), flat (pi_longitude inp)) of
     (Some la, Some lo) \<Rightarrow> Some (lo, la) | _ \<Rightarrow> None)"

definition set_amenities :: "uuid \<Rightarrow> uuid list \<Rightarrow> catalog \<Rightarrow> catalog" where
  "set_amenities i ids c =
     c\<lparr>amenities := fold (\<lambda>a t. if row_exists (\<lambda>x. x = (i, a)) t then t else insert_row (i, a) t) ids
        (delete_where (\<lambda>x. fst x = i) (amenities c))\<rparr>"

definition new_content :: "property_input \<Rightarrow> js_string \<Rightarrow> js_string \<Rightarrow> int \<Rightarrow> int \<Rightarrow> rat \<Rightarrow> listing_content" where
  "new_content inp name city guests bedrooms bathrooms =
     \<lparr>lc_name = name, lc_type = pi_type inp, lc_description = pi_description inp, lc_city = city,
      lc_district = pi_district inp, lc_country = map_option to_upper (pi_country inp),
      lc_max_guests = guests, lc_bedrooms = bedrooms, lc_bathrooms = to_numeric 10 bathrooms,
      lc_nightly = map_option (to_numeric 100) (pi_nightly inp),
      lc_cleaning = given (map_option (to_numeric 100) (pi_cleaning inp)) 0,
      lc_currency = given (map_option to_upper (pi_currency inp)) ''GBP'',
      lc_min_stay = given (pi_min_stay inp) 1, lc_max_stay = given (pi_max_stay inp) 365,
      lc_policy = flat (pi_policy inp), lc_check_in = given (pi_check_in inp) ''15:00'',
      lc_check_out = given (pi_check_out inp) ''11:00'', lc_rules = pi_rules inp,
      lc_address1 = pi_address1 inp, lc_address2 = pi_address2 inp, lc_town = pi_town inp,
      lc_county = pi_county inp, lc_postcode = map_option to_upper (pi_postcode inp),
      lc_private = location_of inp\<rparr>"

definition new_listing :: "(point \<Rightarrow> point) \<Rightarrow> uuid \<Rightarrow> uuid \<Rightarrow> js_string \<Rightarrow> property_status \<Rightarrow> listing_content \<Rightarrow> listing_row" where
  "new_listing snap i host slug st k =
     \<lparr>ls_id = i, ls_host = host, ls_slug = slug, ls_status = st, ls_content = k,
      ls_public = map_option snap (lc_private k), ls_acc_vat = None, ls_clean_vat = None, ls_rating = None,
      ls_review_count = 0, ls_compliance = Comp_not_started, ls_submitted = None, ls_approved = None,
      ls_approved_by = None, ls_note = None, ls_pilot = Pilot_pending, ls_pilot_at = None, ls_pilot_by = None,
      ls_pilot_note = None\<rparr>"

definition create_property ::
  "(point \<Rightarrow> point) \<Rightarrow> uuid \<Rightarrow> js_string \<Rightarrow> uuid \<Rightarrow> property_input \<Rightarrow> catalog \<Rightarrow> (listing_error + uuid) \<times> catalog" where
  "create_property snap new_id suffix host inp c =
     (if pi_status inp = Some Prop_published then (Inl (Listing_not_ready []), c)
      else
        let slug = generate_slug (given (pi_name inp) ''property'') suffix
        in case (pi_name inp, pi_city inp, pi_max_guests inp, pi_bedrooms inp, pi_bathrooms inp) of
             (Some name, Some city, Some guests, Some bedrooms, Some bathrooms) \<Rightarrow>
               if row_exists (\<lambda>r. ls_slug r = slug \<or> ls_id r = new_id) (listings c) \<or>
                  \<not> row_exists (\<lambda>h. h_id h = host) (profiles c) then (Inl Constraint_violation, c)
               else
                 let c1 = c\<lparr>listings := insert_row (new_listing snap new_id host slug
                        (given (pi_status inp) Prop_draft)
                        (new_content inp name city guests bedrooms bathrooms)) (listings c)\<rparr>
                 in (Inr new_id, case pi_amenities inp of None \<Rightarrow> c1
                       | Some ids \<Rightarrow> if ids = [] then c1 else set_amenities new_id ids c1)
           | _ \<Rightarrow> (Inl Constraint_violation, c))"

definition edit_content :: "property_input \<Rightarrow> listing_content \<Rightarrow> listing_content" where
  "edit_content inp k =
     k\<lparr>lc_name := given (pi_name inp) (lc_name k),
       lc_type := given (map_option Some (pi_type inp)) (lc_type k),
       lc_description := given (map_option Some (pi_description inp)) (lc_description k),
       lc_city := given (pi_city inp) (lc_city k),
       lc_district := given (map_option Some (pi_district inp)) (lc_district k),
       lc_country := given (map_option (Some \<circ> to_upper) (pi_country inp)) (lc_country k),
       lc_max_guests := given (pi_max_guests inp) (lc_max_guests k),
       lc_bedrooms := given (pi_bedrooms inp) (lc_bedrooms k),
       lc_bathrooms := given (map_option (to_numeric 10) (pi_bathrooms inp)) (lc_bathrooms k),
       lc_nightly := given (map_option (Some \<circ> to_numeric 100) (pi_nightly inp)) (lc_nightly k),
       lc_cleaning := given (map_option (to_numeric 100) (pi_cleaning inp)) (lc_cleaning k),
       lc_currency := given (map_option to_upper (pi_currency inp)) (lc_currency k),
       lc_min_stay := given (pi_min_stay inp) (lc_min_stay k),
       lc_max_stay := given (pi_max_stay inp) (lc_max_stay k),
       lc_policy := given (pi_policy inp) (lc_policy k),
       lc_check_in := given (pi_check_in inp) (lc_check_in k),
       lc_check_out := given (pi_check_out inp) (lc_check_out k),
       lc_rules := given (map_option Some (pi_rules inp)) (lc_rules k),
       lc_address1 := given (map_option Some (pi_address1 inp)) (lc_address1 k),
       lc_address2 := given (map_option Some (pi_address2 inp)) (lc_address2 k),
       lc_town := given (map_option Some (pi_town inp)) (lc_town k),
       lc_county := given (map_option Some (pi_county inp)) (lc_county k),
       lc_postcode := given (map_option (Some \<circ> to_upper) (pi_postcode inp)) (lc_postcode k),
       lc_private := (if pi_latitude inp \<noteq> None \<or> pi_longitude inp \<noteq> None then location_of inp else lc_private k)\<rparr>"

definition edit_listing :: "(point \<Rightarrow> point) \<Rightarrow> property_input \<Rightarrow> listing_row \<Rightarrow> listing_row" where
  "edit_listing snap inp r =
     (let k = edit_content inp (ls_content r) in
      r\<lparr>ls_content := k, ls_status := given (pi_status inp) (ls_status r),
        ls_public := (if pi_latitude inp \<noteq> None \<or> pi_longitude inp \<noteq> None then map_option snap (lc_private k)
                      else ls_public r)\<rparr>)"

definition write_property :: "(point \<Rightarrow> point) \<Rightarrow> uuid \<Rightarrow> property_input \<Rightarrow> catalog \<Rightarrow> catalog" where
  "write_property snap i inp c =
     (let c1 = update_listing i (edit_listing snap inp) c
      in case pi_amenities inp of None \<Rightarrow> c1 | Some ids \<Rightarrow> set_amenities i ids c1)"

text \<open>The check before an edit that publishes a listing not published yet.\<close>

definition publish_check :: "day \<Rightarrow> uuid \<Rightarrow> property_input \<Rightarrow> catalog \<Rightarrow> listing_error option" where
  "publish_check today i inp c =
     (if pi_status inp = Some Prop_published \<and>
         (case find_listing i c of None \<Rightarrow> True | Some r \<Rightarrow> ls_status r \<noteq> Prop_published)
      then (case assert_listing_ready today i c of Inl e \<Rightarrow> Some e | Inr _ \<Rightarrow> None)
      else None)"

definition update_property ::
  "(point \<Rightarrow> point) \<Rightarrow> day \<Rightarrow> (catalog \<Rightarrow> catalog) \<Rightarrow> uuid \<Rightarrow> property_input \<Rightarrow> catalog \<Rightarrow> (listing_error + unit) \<times> catalog" where
  "update_property snap today meanwhile i inp c =
     (case publish_check today i inp c of
        Some e \<Rightarrow> (Inl e, c)
      | None \<Rightarrow> (Inr (), write_property snap i inp (meanwhile c)))"

subsection \<open>The compliance record\<close>

definition compliance_categories :: "js_string list" where
  "compliance_categories =
     [''authority_to_list'', ''fire_safety'', ''gas_safety'', ''electrical_safety'', ''smoke_co_alarms'',
      ''public_liability_insurance'', ''licences_permissions'']"

record owner_item =
  oi_category :: js_string
  oi_applicability :: applicability
  oi_declared :: bool
  oi_url :: "js_string option"
  oi_ref :: "js_string option"
  oi_until :: "day option"
  oi_note :: "js_string option"

abbreviation non_empty :: "js_string option \<Rightarrow> js_string option" where
  "non_empty v \<equiv> (case v of None \<Rightarrow> None | Some t \<Rightarrow> null_if_empty t)"

definition item_row :: "millis \<Rightarrow> uuid \<Rightarrow> owner_item \<Rightarrow> evidence_row" where
  "item_row now i it =
     (let req = (oi_applicability it = Required); declared = (req \<and> oi_declared it) in
      \<lparr>ci_property = i, ci_category = oi_category it, ci_applicability = oi_applicability it, ci_declared = declared,
       ci_evidence_url = (if req then non_empty (oi_url it) else None),
       ci_evidence_ref = non_empty (oi_ref it),
       ci_valid_until = (if req then oi_until it else None), ci_review = Not_reviewed,
       ev_note = non_empty (oi_note it), ev_confirmed = (if declared then Some now else None),
       ev_reviewed = None, ev_reviewer = None, ev_reviewer_note = None\<rparr>)"

text \<open>\<open>INSERT ... ON CONFLICT (property_id, category) DO UPDATE\<close> and the table's \<open>CHECK\<close>s.\<close>

definition item_allowed :: "evidence_row \<Rightarrow> bool" where
  "item_allowed e \<longleftrightarrow> ci_category e \<in> set compliance_categories \<and>
     (case ci_evidence_url e of None \<Rightarrow> True | Some u \<Rightarrow> starts_with ''https://'' u)"

definition upsert_item :: "evidence_row \<Rightarrow> evidence_row list \<Rightarrow> evidence_row list" where
  "upsert_item e t =
     (let same = (\<lambda>x. ci_property x = ci_property e \<and> ci_category x = ci_category e)
      in if row_exists same t then update_where same (\<lambda>_. e) t else insert_row e t)"

definition complete_item :: "day \<Rightarrow> evidence_row \<Rightarrow> bool" where
  "complete_item today e \<longleftrightarrow>
     ci_applicability e = Not_applicable \<and> 8 \<le> ref_length (ci_evidence_ref e) \<or>
     ci_applicability e = Required \<and> ci_declared e \<and> ci_evidence_url e \<noteq> None \<and>
       (case ci_valid_until e of None \<Rightarrow> True | Some d \<Rightarrow> today \<le> d)"

definition save_owner_compliance ::
  "millis \<Rightarrow> uuid \<Rightarrow> uuid \<Rightarrow> owner_item list \<Rightarrow> bool \<Rightarrow> (catalog, listing_error, compliance_status) tx" where
  "save_owner_compliance now i actor items submit c =
     (let rows = map (item_row now i) items;
          c1 = c\<lparr>evidence := fold upsert_item rows (evidence c)\<rparr>;
          missing = select_where (\<lambda>e. \<not> complete_item (day_of_ms now) e) (items_of i c1);
          st = (if submit then Comp_submitted else Comp_in_progress);
          c2 = update_listing i (\<lambda>r. r\<lparr>ls_compliance := st,
                 ls_submitted := (if submit then Some now else ls_submitted r),
                 ls_approved := None, ls_approved_by := None\<rparr>) c1
      in if \<not> list_all item_allowed rows \<or> rows \<noteq> [] \<and> find_listing i c = None then Inl Constraint_violation
         else if submit \<and> missing \<noteq> [] then Inl (Items_incomplete (sort (map ci_category missing)))
         else Inr (st, log_catalog actor i
                (if submit then Compliance_submitted (length items) else Compliance_saved (length items)) c2))"

definition compliance_of :: "review_decision \<Rightarrow> compliance_status" where
  "compliance_of d = (case d of Approve \<Rightarrow> Comp_approved | Request_changes \<Rightarrow> Comp_changes_required)"

definition item_review_of :: "review_decision \<Rightarrow> review_status" where
  "item_review_of d = (case d of Approve \<Rightarrow> Review_approved | Request_changes \<Rightarrow> Review_changes_required)"

definition reviewed_row :: "millis \<Rightarrow> uuid \<Rightarrow> review_decision \<Rightarrow> js_string \<Rightarrow> evidence_row \<Rightarrow> evidence_row" where
  "reviewed_row now reviewer d note e =
     e\<lparr>ci_review := item_review_of d, ev_reviewed := Some now, ev_reviewer := Some reviewer, ev_reviewer_note := Some note\<rparr>"

definition review_property_compliance ::
  "millis \<Rightarrow> uuid \<Rightarrow> uuid \<Rightarrow> review_decision \<Rightarrow> js_string \<Rightarrow> (catalog, listing_error, compliance_status) tx" where
  "review_property_compliance now i reviewer d note c =
     (case find_listing i c of
        None \<Rightarrow> Inl Listing_not_found
      | Some r \<Rightarrow>
     (case first_where (\<lambda>h. h_id h = ls_host r) (profiles c) of
        None \<Rightarrow> Inl Listing_not_found
      | Some h \<Rightarrow>
        if ls_compliance r \<noteq> Comp_submitted then Inl Not_submitted
        else if h_user h = reviewer then Inl Own_submission
        else if d = Approve \<and> row_count (complete_item (day_of_ms now)) (items_of i c) \<noteq> length compliance_categories
        then Inl Record_incomplete
        else
          let c1 = c\<lparr>evidence := update_where (\<lambda>e. ci_property e = i) (reviewed_row now reviewer d note) (evidence c)\<rparr>;
              c2 = update_listing i (\<lambda>r. r\<lparr>ls_compliance := compliance_of d,
                     ls_approved := (if d = Approve then Some now else None),
                     ls_approved_by := (if d = Approve then Some reviewer else None), ls_note := Some note\<rparr>) c1
          in Inr (compliance_of d, log_catalog reviewer i (Compliance_reviewed d note) c2)))"

subsection \<open>Host profiles\<close>

definition record_agreement :: "millis \<Rightarrow> uuid \<Rightarrow> (catalog, listing_error, unit) tx" where
  "record_agreement now h c =
     (if \<not> row_exists (\<lambda>p. h_id p = h) (profiles c) then Inl Listing_not_found
      else Inr ((), c\<lparr>profiles := update_where (\<lambda>p. h_id p = h)
             (\<lambda>p. p\<lparr>hp_version := Some host_agreement_version, hp_agreed := Some now, hp_policies := Some now\<rparr>)
             (profiles c)\<rparr>))"

text \<open>\<open>ensureHostProfile\<close>; \<open>user_id\<close> is unique.\<close>

definition ensure_host_profile :: "uuid \<Rightarrow> uuid \<Rightarrow> (catalog, listing_error, uuid) tx" where
  "ensure_host_profile new_id u c =
     (case first_where (\<lambda>p. h_user p = u) (profiles c) of
        Some p \<Rightarrow> Inr (h_id p, c)
      | None \<Rightarrow>
          if row_exists (\<lambda>p. h_id p = new_id) (profiles c) then Inl Constraint_violation
          else Inr (new_id, c\<lparr>profiles := insert_row
            \<lparr>h_id = new_id, h_user = u, h_account = None, h_payout_status = Not_connected, hp_version = None,
             hp_agreed = None, hp_policies = None\<rparr> (profiles c)\<rparr>))"

text \<open>The account the payment provider opened, and the status it reports (lib/hosts/onboarding.ts).\<close>

definition connect_account :: "uuid \<Rightarrow> js_string \<Rightarrow> catalog \<Rightarrow> catalog" where
  "connect_account h acct c =
     c\<lparr>profiles := update_where (\<lambda>p. h_id p = h)
        (\<lambda>p. p\<lparr>h_account := Some acct, h_payout_status := Account_pending\<rparr>) (profiles c)\<rparr>"

definition start_onboarding ::
  "(unit \<Rightarrow> js_string) \<Rightarrow> uuid \<Rightarrow> catalog \<Rightarrow> (listing_error + js_string) \<times> catalog" where
  "start_onboarding open_account h c =
     (case first_where (\<lambda>p. h_id p = h) (profiles c) of
        None \<Rightarrow> (Inl Listing_not_found, c)
      | Some p \<Rightarrow>
          (case non_empty (h_account p) of
             Some acct \<Rightarrow> (Inr acct, c)
           | None \<Rightarrow> let acct = open_account () in (Inr acct, connect_account h acct c)))"

definition onboarding_status ::
  "(js_string \<Rightarrow> payout_account) \<Rightarrow> uuid \<Rightarrow> catalog \<Rightarrow> (listing_error + payout_account) \<times> catalog" where
  "onboarding_status report h c =
     (case first_where (\<lambda>p. h_id p = h) (profiles c) of
        None \<Rightarrow> (Inl Listing_not_found, c)
      | Some p \<Rightarrow>
          (case non_empty (h_account p) of
             None \<Rightarrow> (Inr Not_connected, c)
           | Some acct \<Rightarrow>
               let st = report acct
               in (Inr st, if st = h_payout_status p then c
                   else c\<lparr>profiles := update_where (\<lambda>p. h_id p = h) (\<lambda>p. p\<lparr>h_payout_status := st\<rparr>) (profiles c)\<rparr>)))"

end
