(* ===== verification/Images.thy ===== *)
theory Images
  imports Listing
begin

text \<open>
  The images of a listing (lib/hosts/propertyImages.ts): registration after an upload, cover, alternative
  text, order, deletion, each under a lock on the property's row, so each is one step. The trigger of
  migration 028 withdraws the listing's approval whenever a row changes. Shown here: every property
  keeps exactly one cover and distinct positions, and a new order is what the host asked for.
\<close>

datatype image_error =
  Not_owner | Image_missing | Image_conflict | Image_limit | Bad_order | Image_rejected

record blob =
  bl_url :: js_string
  bl_pathname :: js_string
  bl_type :: js_string
  bl_size :: int

definition max_property_images :: nat where
  "max_property_images = 30"

definition owns_property :: "uuid \<Rightarrow> uuid \<Rightarrow> catalog \<Rightarrow> bool" where
  "owns_property i u c =
     row_exists (\<lambda>r. ls_id r = i \<and> row_exists (\<lambda>h. h_id h = ls_host r \<and> h_user h = u) (profiles c)) (listings c)"

text \<open>\<open>ORDER BY sort_order, created_at, id\<close>: rows are kept in the order of \<open>created_at\<close>.\<close>

definition in_order :: "image_row list \<Rightarrow> image_row list" where
  "in_order pics = sort_key im_order pics"

definition owned_image :: "uuid \<Rightarrow> uuid \<Rightarrow> uuid \<Rightarrow> catalog \<Rightarrow> image_error + image_row" where
  "owned_image i x u c =
     (if \<not> owns_property i u c then Inl Not_owner
      else case first_where (\<lambda>m. im_id m = x \<and> im_property m = i) (images c) of
             None \<Rightarrow> Inl Image_missing | Some m \<Rightarrow> Inr m)"

definition list_property_images :: "uuid \<Rightarrow> uuid \<Rightarrow> catalog \<Rightarrow> image_error + image_row list" where
  "list_property_images i u c =
     (if \<not> owns_property i u c then Inl Not_owner else Inr (in_order (images_of i c)))"

text \<open>\<open>COALESCE(MAX(sort_order), -1) + 1\<close>; positions are never negative.\<close>

definition next_order :: "image_row list \<Rightarrow> int" where
  "next_order pics = fold max (map im_order pics) (- 1) + 1"

text \<open>The \<open>CHECK\<close>s of the table and its unique keys.\<close>

definition blob_allowed :: "blob \<Rightarrow> bool" where
  "blob_allowed b \<longleftrightarrow> bl_type b \<in> {''image/jpeg'', ''image/png'', ''image/webp''} \<and>
     0 < bl_size b \<and> bl_size b \<le> 10485760"

definition register_image ::
  "uuid \<Rightarrow> uuid \<Rightarrow> uuid \<Rightarrow> blob \<Rightarrow> (catalog, image_error, image_row) tx" where
  "register_image new_id i u b c =
     (if \<not> owns_property i u c then Inl Not_owner
      else
        (case first_where (\<lambda>m. im_url m = bl_url b) (images c) of
           Some m \<Rightarrow> if im_property m \<noteq> i then Inl Image_conflict else Inr (m, c)
         | None \<Rightarrow>
             let pics = images_of i c;
                 m = \<lparr>im_id = new_id, im_property = i, im_url = bl_url b, im_pathname = bl_pathname b,
                      im_type = bl_type b, im_size = bl_size b, im_alt = None, im_order = next_order pics,
                      im_cover = (length pics = 0), im_by = u\<rparr>
             in if max_property_images \<le> length pics then Inl Image_limit
                else if \<not> blob_allowed b \<or> row_exists (\<lambda>x. im_id x = new_id \<or> im_pathname x = bl_pathname b) (images c)
                then Inl Image_rejected
                else Inr (m, on_image_change i (c\<lparr>images := insert_row m (images c)\<rparr>))))"

definition set_image_cover :: "uuid \<Rightarrow> uuid \<Rightarrow> uuid \<Rightarrow> (catalog, image_error, uuid) tx" where
  "set_image_cover i x u c =
     (case owned_image i x u c of
        Inl e \<Rightarrow> Inl e
      | Inr _ \<Rightarrow>
          let cleared = update_where (\<lambda>m. im_property m = i \<and> im_cover m) (\<lambda>m. m\<lparr>im_cover := False\<rparr>) (images c)
          in Inr (x, on_image_change i (c\<lparr>images :=
               update_where (\<lambda>m. im_id m = x \<and> im_property m = i) (\<lambda>m. m\<lparr>im_cover := True\<rparr>) cleared\<rparr>)))"

definition update_image_alt :: "uuid \<Rightarrow> uuid \<Rightarrow> uuid \<Rightarrow> js_string option \<Rightarrow> (catalog, image_error, uuid) tx" where
  "update_image_alt i x u alt c =
     (case owned_image i x u c of
        Inl e \<Rightarrow> Inl e
      | Inr _ \<Rightarrow> Inr (x, on_image_change i (c\<lparr>images :=
          update_where (\<lambda>m. im_id m = x \<and> im_property m = i) (\<lambda>m. m\<lparr>im_alt := alt\<rparr>) (images c)\<rparr>)))"

fun write_orders :: "uuid \<Rightarrow> int \<Rightarrow> uuid list \<Rightarrow> image_row list \<Rightarrow> image_row list" where
  "write_orders i k [] t = t"
| "write_orders i k (x # xs) t =
     write_orders i (k + 1) xs
       (update_where (\<lambda>m. im_id m = x \<and> im_property m = i) (\<lambda>m. m\<lparr>im_order := k\<rparr>) t)"

definition reorder_images ::
  "uuid \<Rightarrow> uuid list \<Rightarrow> uuid \<Rightarrow> (catalog, image_error, image_row list) tx" where
  "reorder_images i ids u c =
     (if \<not> owns_property i u c then Inl Not_owner
      else
        let existing = map im_id (in_order (images_of i c))
        in if length ids \<noteq> length existing \<or> length (remdups ids) \<noteq> length ids \<or>
              list_ex (\<lambda>x. x \<notin> set ids) existing
           then Inl Bad_order
           else
             let c1 = c\<lparr>images := write_orders i 0 ids (images c)\<rparr>;
                 c2 = (if ids = [] then c1 else on_image_change i c1)
             in Inr (in_order (images_of i c2), c2))"

definition delete_image :: "uuid \<Rightarrow> uuid \<Rightarrow> uuid \<Rightarrow> (catalog, image_error, js_string) tx" where
  "delete_image i x u c =
     (case owned_image i x u c of
        Inl e \<Rightarrow> Inl e
      | Inr m \<Rightarrow>
          let c1 = on_image_change i (c\<lparr>images := delete_where (\<lambda>y. im_id y = x \<and> im_property y = i) (images c)\<rparr>)
          in Inr (im_url m,
               if \<not> im_cover m then c1
               else (case in_order (images_of i c1) of
                       [] \<Rightarrow> c1
                     | n # _ \<Rightarrow> on_image_change i (c1\<lparr>images :=
                         update_where (\<lambda>y. im_id y = im_id n) (\<lambda>y. y\<lparr>im_cover := True\<rparr>) (images c1)\<rparr>))))"

subsection \<open>One cover, distinct positions\<close>

definition gallery_ok :: "image_row list \<Rightarrow> bool" where
  "gallery_ok pics \<longleftrightarrow> length pics \<le> max_property_images \<and> distinct (map im_order pics) \<and>
     list_all (\<lambda>m. 0 \<le> im_order m) pics \<and> (pics \<noteq> [] \<longrightarrow> row_count im_cover pics = 1)"

definition images_ok :: "catalog \<Rightarrow> bool" where
  "images_ok c \<longleftrightarrow> distinct (map im_id (images c)) \<and> distinct (map im_url (images c)) \<and>
     distinct (map im_pathname (images c)) \<and>
     list_all (\<lambda>m. gallery_ok (images_of (im_property m) c)) (images c)"

lemma images_frame [simp]:
  "images (update_listing i f c) = images c" "images (on_image_change i c) = images c"
  "images (log_catalog w i d c) = images c"
  by (simp_all add: update_listing_def on_image_change_def log_catalog_def)

lemma in_order_Nil [simp]: "in_order pics = [] \<longleftrightarrow> pics = []"
  unfolding in_order_def by (metis set_sort set_empty)

lemma in_order_empty [simp]: "in_order [] = []"
  by (simp add: in_order_def)

lemma set_in_order [simp]: "set (in_order pics) = set pics"
  by (simp add: in_order_def)

lemma images_of_cong: "images c = images d \<Longrightarrow> images_of i c = images_of i d"
  by (simp add: images_of_def)

lemma images_ok_cong: "images c = images d \<Longrightarrow> images_ok c = images_ok d"
  by (simp add: images_ok_def images_of_def)

lemma gallery_ok_Nil [simp]: "gallery_ok []"
  by (simp add: gallery_ok_def)

lemma images_ok_iff:
  "images_ok c \<longleftrightarrow> distinct (map im_id (images c)) \<and> distinct (map im_url (images c)) \<and>
     distinct (map im_pathname (images c)) \<and> (\<forall>i. gallery_ok (images_of i c))"
proof -
  have "gallery_ok (images_of i c)" if "\<forall>m \<in> set (images c). gallery_ok (images_of (im_property m) c)" for i
  proof (cases "images_of i c")
    case (Cons m ms)
    then have "m \<in> set (images_of i c)" by simp
    then have "m \<in> set (images c)" "im_property m = i" by (simp_all add: images_of_def)
    with that show ?thesis by blast
  qed simp
  then show ?thesis by (auto simp: images_ok_def list_all_iff)
qed

text \<open>An update confined to one property leaves the galleries of the others alone.\<close>

lemma select_update:
  assumes "\<And>m. im_property (f m) = im_property m"
  shows "select_where (\<lambda>m. im_property m = j) (update_where P f t) =
    update_where P f (select_where (\<lambda>m. im_property m = j) t)"
  using assms by (induction t) (auto simp: select_where_def)

lemma images_of_update:
  assumes "images d = update_where P f (images c)" "\<And>m. im_property (f m) = im_property m"
  shows "images_of j d = update_where P f (images_of j c)"
  by (simp add: images_of_def assms(1) select_update [of f, OF assms(2)])

lemma images_of_insert:
  "images d = insert_row m (images c) \<Longrightarrow>
    images_of j d = images_of j c @ (if im_property m = j then [m] else [])"
  by (simp add: images_of_def select_where_def insert_row_def)

lemma images_of_delete:
  "images d = delete_where P (images c) \<Longrightarrow> images_of j d = delete_where P (images_of j c)"
  by (simp add: images_of_def select_where_def delete_where_def filter_filter conj_commute)

lemma in_images_of: "m \<in> set (images_of j c) \<longleftrightarrow> m \<in> set (images c) \<and> im_property m = j"
  by (simp add: images_of_def)

lemma next_order_above:
  "m \<in> set pics \<Longrightarrow> im_order m < next_order pics" "0 \<le> next_order pics"
proof -
  have "next_order pics = Max (insert (- 1) (im_order ` set pics)) + 1"
    by (simp add: next_order_def Max.set_eq_fold [symmetric])
  moreover have "- 1 \<le> Max (insert (- 1) (im_order ` set pics))" by (intro Max_ge) auto
  moreover have "m \<in> set pics \<Longrightarrow> im_order m \<le> Max (insert (- 1) (im_order ` set pics))" by (intro Max_ge) auto
  ultimately show "m \<in> set pics \<Longrightarrow> im_order m < next_order pics" "0 \<le> next_order pics" by linarith+
qed


lemma row_count_append [simp]: "row_count P (t @ u) = row_count P t + row_count P u"
  by (simp add: row_count_def)

lemma row_count_exactly_one:
  assumes "distinct (map k t)" "x \<in> set t" "\<And>r. r \<in> set t \<Longrightarrow> P r \<longleftrightarrow> k r = k x"
  shows "row_count P t = 1"
  using assms
proof (induction t)
  case (Cons r t)
  show ?case
  proof (cases "k r = k x")
    case True
    have "\<forall>y \<in> set t. k y \<noteq> k r" using Cons.prems(1) by (metis distinct.simps(2) image_eqI list.set_map list.simps(9))
    with Cons.prems(3) True have "row_count P t = 0" by (auto simp: row_count_zero_iff)
    with True Cons.prems(3) show ?thesis by simp
  next
    case False
    with Cons show ?thesis by auto
  qed
qed simp

lemma distinct_images_of:
  "distinct (map k (images c)) \<Longrightarrow> distinct (map k (images_of i c))"
  by (simp add: images_of_def select_where_def distinct_map_filter)

lemma gallery_okD:
  assumes "gallery_ok pics"
  shows "length pics \<le> max_property_images" "distinct (map im_order pics)"
    "m \<in> set pics \<Longrightarrow> 0 \<le> im_order m" "pics \<noteq> [] \<Longrightarrow> row_count im_cover pics = 1"
  using assms by (auto simp: gallery_ok_def list_all_iff)

lemma gallery_ok_same:
  assumes "gallery_ok pics" "map im_order qs = map im_order pics" "row_count im_cover qs = row_count im_cover pics"
  shows "gallery_ok qs"
proof -
  have "length qs = length pics" "qs = [] \<longleftrightarrow> pics = []" using assms(2) by (metis length_map, metis map_is_Nil_conv)
  moreover have "list_all (\<lambda>m. 0 \<le> im_order m) qs \<longleftrightarrow> list_all (\<lambda>m. 0 \<le> im_order m) pics"
    using arg_cong [OF assms(2), of "list_all (\<lambda>x. 0 \<le> x)"] by (simp add: list.pred_map comp_def)
  ultimately show ?thesis using assms by (simp add: gallery_ok_def)
qed

lemma update_keys:
  assumes "\<And>m. im_id (f m) = im_id m" "\<And>m. im_url (f m) = im_url m" "\<And>m. im_pathname (f m) = im_pathname m"
  shows "map im_id (update_where P f t) = map im_id t" "map im_url (update_where P f t) = map im_url t"
    "map im_pathname (update_where P f t) = map im_pathname t"
  using assms by (simp_all add: map_update_where)

lemma register_keeps:
  assumes ok: "images_ok c" and r: "register_image new_id i u b c = Inr (m, d)"
  shows "images_ok d"
proof (cases "first_where (\<lambda>m. im_url m = bl_url b) (images c)")
  case (Some x)
  with r ok show ?thesis by (auto simp: register_image_def split: if_splits)
next
  case None
  let ?pics = "images_of i c"
  from r None have i: "images d = insert_row m (images c)" "length ?pics < max_property_images"
    "im_property m = i" "im_order m = next_order ?pics" "im_cover m = (?pics = [])" "im_id m = new_id"
    "im_pathname m = bl_pathname b" "im_url m = bl_url b"
    "\<forall>x \<in> set (images c). im_id x \<noteq> new_id \<and> im_pathname x \<noteq> bl_pathname b"
    by (auto simp: register_image_def Let_def split: if_splits)
  have "gallery_ok (images_of j d)" for j
  proof (cases "j = i")
    case True
    have old: "gallery_ok ?pics" using ok by (simp add: images_ok_iff)
    have "im_order m \<notin> im_order ` set ?pics" using next_order_above(1) [of _ ?pics] i(4) by fastforce
    then show ?thesis
      using gallery_okD [OF old] i next_order_above(2) [of ?pics]
      by (auto simp: True images_of_insert [OF i(1)] gallery_ok_def list_all_iff)
  next
    case False
    with ok show ?thesis by (simp add: images_of_insert [OF i(1)] i(3) images_ok_iff)
  qed
  with ok None i show ?thesis by (auto simp: images_ok_iff insert_row_def first_where_None)
qed

lemma alt_keeps:
  assumes "images_ok c" "update_image_alt i x u alt c = Inr (y, d)"
  shows "images_ok d"
proof -
  from assms(2) have d: "images d = update_where (\<lambda>m. im_id m = x \<and> im_property m = i) (\<lambda>m. m\<lparr>im_alt := alt\<rparr>) (images c)"
    by (auto simp: update_image_alt_def Let_def split: sum.splits)
  have "gallery_ok (images_of j d)" for j
  proof -
    have old: "gallery_ok (images_of j c)" using assms(1) by (simp add: images_ok_iff)
    have j: "images_of j d = update_where (\<lambda>m. im_id m = x \<and> im_property m = i) (\<lambda>m. m\<lparr>im_alt := alt\<rparr>) (images_of j c)"
      by (rule images_of_update [OF d]) simp
    show ?thesis
      by (rule gallery_ok_same [OF old]) (simp_all add: j map_update_where row_count_update_same)
  qed
  with assms(1) show ?thesis by (simp add: images_ok_iff d update_keys)
qed

lemma owned_image_Inr:
  assumes "owned_image i x u c = Inr m"
  shows "m \<in> set (images_of i c)" "im_id m = x" "im_property m = i" "m \<in> set (images c)"
  using assms first_where_Some [of "\<lambda>m. im_id m = x \<and> im_property m = i" "images c" m]
  by (auto simp: owned_image_def images_of_def split: if_splits option.splits)

lemma cover_keeps:
  assumes ok: "images_ok c" and "set_image_cover i x u c = Inr (y, d)"
  shows "images_ok d"
proof -
  let ?clear = "\<lambda>m. im_property m = i \<and> im_cover m" and ?set = "\<lambda>m. im_id m = x \<and> im_property m = i"
  let ?off = "\<lambda>m. m\<lparr>im_cover := False\<rparr>" and ?on = "\<lambda>m. m\<lparr>im_cover := True\<rparr>"
  from assms(2) obtain m where m: "owned_image i x u c = Inr m"
    and d: "images d = update_where ?set ?on (update_where ?clear ?off (images c))"
    by (auto simp: set_image_cover_def Let_def split: sum.splits)
  have "gallery_ok (images_of j d)" for j
  proof -
    have j: "images_of j d = update_where ?set ?on (update_where ?clear ?off (images_of j c))"
      by (simp add: images_of_def d select_update)
    have old: "gallery_ok (images_of j c)" using ok by (simp add: images_ok_iff)
    have "row_count im_cover (images_of j d) = row_count im_cover (images_of j c)"
    proof (cases "j = i")
      case True
      have "distinct (map im_id (images_of j d))"
        using ok by (simp add: j update_keys images_ok_iff distinct_images_of)
      moreover have "?on (if im_cover m then ?off m else m) \<in> set (images_of j d)"
      proof -
        have mine: "m \<in> set (images_of j c)" using owned_image_Inr(1) [OF m] True by simp
        have "(if im_cover m then ?off m else m) \<in> set (update_where ?clear ?off (images_of j c))"
          using in_update_where_hit [OF mine, of ?clear ?off] in_update_where_miss [OF mine, of ?clear ?off]
            owned_image_Inr(3) [OF m] by (cases "im_cover m") simp_all
        then show ?thesis
          using owned_image_Inr(2,3) [OF m] unfolding j by (intro in_update_where_hit) simp_all
      qed
      moreover have "im_cover r \<longleftrightarrow> im_id r = im_id (?on (if im_cover m then ?off m else m))"
        if r: "r \<in> set (images_of j d)" for r
      proof -
        from r obtain p where p: "p \<in> set (images_of j c)"
          "r = (let q = (if ?clear p then ?off p else p) in if ?set q then ?on q else q)"
          unfolding j update_where_def Let_def by auto
        then have "im_property p = i" using True by (simp add: in_images_of)
        with p(2) owned_image_Inr(2) [OF m] show ?thesis
          by (cases "im_id p = x"; cases "im_cover p") (simp_all add: Let_def)
      qed
      ultimately have "row_count im_cover (images_of j d) = 1" by (rule row_count_exactly_one)
      with gallery_okD(4) [OF old] owned_image_Inr(1) [OF m] True show ?thesis by fastforce
    next
      case False
      then have "images_of j d = images_of j c"
        unfolding j by (subst (1 2) update_where_none) (auto simp: in_images_of)
      then show ?thesis by simp
    qed
    then show ?thesis
      by (intro gallery_ok_same [OF old]) (simp_all add: j map_update_where)
  qed
  with ok show ?thesis by (simp add: images_ok_iff d update_keys)
qed


subsection \<open>Deletion\<close>

lemma row_count_delete_one:
  assumes "distinct t" "m \<in> set t"
  shows "row_count P (delete_where (\<lambda>y. y = m) t) + (if P m then 1 else 0) = row_count P t"
  using assms
proof (induction t)
  case (Cons a t)
  show ?case
  proof (cases "a = m")
    case True
    with Cons.prems have "delete_where (\<lambda>y. y = m) (a # t) = t"
      by (auto simp: delete_where_def filter_id_conv)
    with True show ?thesis by simp
  next
    case False
    then have "delete_where (\<lambda>y. y = m) (a # t) = a # delete_where (\<lambda>y. y = m) t" by (simp add: delete_where_def)
    with False Cons show ?thesis by simp
  qed
qed simp

lemma delete_keeps:
  assumes ok: "images_ok c" and del: "delete_image i x u c = Inr (url, d)"
  shows "images_ok d"
proof -
  from del obtain m where m: "owned_image i x u c = Inr m"
    by (auto simp: delete_image_def split: sum.splits)
  let ?rest = "delete_where (\<lambda>y. im_id y = x \<and> im_property y = i) (images c)"
  let ?c1 = "on_image_change i (c\<lparr>images := ?rest\<rparr>)"
  have keys: "distinct (map im_id ?rest)" "distinct (map im_url ?rest)" "distinct (map im_pathname ?rest)"
    using ok by (simp_all add: images_ok_iff delete_where_def distinct_map_filter)
  have im: "images ?c1 = ?rest" by simp
  have pics: "images_of j ?c1 = delete_where (\<lambda>y. im_id y = x \<and> im_property y = i) (images_of j c)" for j
    by (rule images_of_delete) simp
  have old: "gallery_ok (images_of j c)" for j using ok by (simp add: images_ok_iff)
  have other: "images_of j ?c1 = images_of j c" if "j \<noteq> i" for j
    unfolding pics using that by (auto simp: delete_where_def images_of_def select_where_def intro!: filter_cong)
  have orders: "distinct (map im_order (images_of j ?c1))" "list_all (\<lambda>m. 0 \<le> im_order m) (images_of j ?c1)"
    "length (images_of j ?c1) \<le> max_property_images" for j
    using gallery_okD [OF old [of j]] unfolding pics
    by (auto simp: delete_where_def distinct_map_filter list_all_iff intro: le_trans [OF length_filter_le])
  have covers: "row_count im_cover (images_of i ?c1) = (if im_cover m then 0 else 1)"
  proof -
    have "im_id y = x \<and> im_property y = i \<longleftrightarrow> y = m" if "y \<in> set (images_of i c)" for y
    proof -
      have "inj_on im_id (set (images c))" using ok by (simp add: images_ok_iff distinct_map)
      with that owned_image_Inr [OF m] show ?thesis by (auto simp: inj_on_def in_images_of)
    qed
    then have "delete_where (\<lambda>y. im_id y = x \<and> im_property y = i) (images_of i c) =
        delete_where (\<lambda>y. y = m) (images_of i c)"
      unfolding delete_where_def by (intro filter_cong) auto
    then have "images_of i ?c1 = delete_where (\<lambda>y. y = m) (images_of i c)" unfolding pics .
    moreover have "distinct (images_of i c)"
      using ok by (auto simp: images_ok_iff images_of_def select_where_def distinct_map)
    ultimately show ?thesis
      using row_count_delete_one [OF _ owned_image_Inr(1) [OF m], of im_cover]
        gallery_okD(4) [OF old [of i]] owned_image_Inr(1) [OF m] by fastforce
  qed
  show ?thesis
  proof (cases "im_cover m \<and> in_order (images_of i ?c1) \<noteq> []")
    case False
    then have d: "d = ?c1"
      using del m by (auto simp: delete_image_def Let_def split: list.splits if_splits)
    have "gallery_ok (images_of j ?c1)" for j
    proof (cases "j = i")
      case True
      with False covers have "images_of j ?c1 = [] \<or> row_count im_cover (images_of j ?c1) = 1" by (auto split: if_splits)
      then show ?thesis using orders [of j] unfolding gallery_ok_def by blast
    next
      case False
      with old [of j] other [of j] show ?thesis by simp
    qed
    with keys show ?thesis by (simp add: d images_ok_iff)
  next
    case True
    then obtain n ns where n: "in_order (images_of i ?c1) = n # ns" by (cases "in_order (images_of i ?c1)") auto
    let ?on = "\<lambda>y. y\<lparr>im_cover := True\<rparr>"
    from True n del m have d: "d = on_image_change i (?c1\<lparr>images := update_where (\<lambda>y. im_id y = im_id n) ?on (images ?c1)\<rparr>)"
      by (simp add: delete_image_def Let_def)
    then have dj: "images_of j d = update_where (\<lambda>y. im_id y = im_id n) ?on (images_of j ?c1)" for j
      by (intro images_of_update) simp_all
    have "n \<in> set (in_order (images_of i ?c1))" by (simp add: n)
    then have nin: "n \<in> set (images_of i ?c1)" by (simp add: in_order_def)
    have inj: "inj_on im_id (set ?rest)" using keys(1) by (simp add: distinct_map)
    have "gallery_ok (images_of j d)" for j
    proof (cases "j = i")
      case True
      have none: "\<forall>y \<in> set (images_of i ?c1). \<not> im_cover y"
        using covers \<open>im_cover m \<and> _\<close> by (simp add: row_count_zero_iff)
      have "row_count im_cover (images_of j d) = 1"
      proof (rule row_count_exactly_one)
        show "distinct (map im_id (images_of j d))"
          unfolding dj using keys(1) by (simp add: update_keys distinct_images_of)
        show "?on n \<in> set (images_of j d)" unfolding dj True by (rule in_update_where_hit) (use nin in simp_all)
        show "im_cover r \<longleftrightarrow> im_id r = im_id (?on n)" if "r \<in> set (images_of j d)" for r
          using that none unfolding dj True by auto
      qed
      then show ?thesis
        using orders [of j] unfolding gallery_ok_def by (simp add: dj map_update_where list_all_iff)
    next
      case False
      have "images_of j d = images_of j ?c1"
        unfolding dj
      proof (rule update_where_none)
        fix y assume "y \<in> set (images_of j ?c1)"
        then show "im_id y \<noteq> im_id n"
          using inj nin False by (auto simp: in_images_of inj_on_def)
      qed
      with other [OF False] old [of j] show ?thesis by simp
    qed
    with keys show ?thesis by (simp add: images_ok_iff d update_keys)
  qed
qed


subsection \<open>Order\<close>

text \<open>The position of an identifier in a list without repetitions.\<close>

definition position :: "'a list \<Rightarrow> 'a \<Rightarrow> nat" where
  "position xs x = length (takeWhile (\<lambda>y. y \<noteq> x) xs)"

lemma position_Cons [simp]: "position (y # ys) x = (if x = y then 0 else Suc (position ys x))"
  by (auto simp: position_def)

lemma position_nth: "distinct xs \<Longrightarrow> k < length xs \<Longrightarrow> position xs (xs ! k) = k"
  by (induction xs arbitrary: k) (auto simp: nth_Cons' in_set_conv_nth)

lemma map_position: "distinct xs \<Longrightarrow> map (position xs) xs = [0..<length xs]"
  by (rule nth_equalityI) (simp_all add: position_nth)

lemma write_orders_eq:
  assumes "distinct xs"
  shows "write_orders i k xs t = map (\<lambda>m. if im_property m = i \<and> im_id m \<in> set xs
    then m\<lparr>im_order := k + int (position xs (im_id m))\<rparr> else m) t"
  using assms
proof (induction xs arbitrary: k t)
  case (Cons x xs)
  show ?case
    using Cons.prems
    by (simp add: Cons.IH update_where_def) (auto intro!: map_cong)
qed simp

lemma reorder_cases:
  assumes "reorder_images i ids u c = Inr (r, d)" and ok: "images_ok c"
  shows "owns_property i u c" "distinct ids" "set ids = im_id ` set (images_of i c)"
    "length ids = length (images_of i c)" "images d = write_orders i 0 ids (images c)" "r = in_order (images_of i d)"
proof -
  let ?ex = "map im_id (in_order (images_of i c))"
  from assms(1) have *: "owns_property i u c" "length ids = length ?ex" "length (remdups ids) = length ids"
    "set ?ex \<subseteq> set ids" "images d = write_orders i 0 ids (images c)" "r = in_order (images_of i d)"
    by (auto simp: reorder_images_def Let_def list_ex_iff split: if_splits)
  then show "owns_property i u c" "images d = write_orders i 0 ids (images c)" "r = in_order (images_of i d)"
    "length ids = length (images_of i c)" by (simp_all add: in_order_def)
  from *(3) show d: "distinct ids" by (metis distinct_card length_remdups_card_conv card_distinct)
  from *(4) have sub: "im_id ` set (images_of i c) \<subseteq> set ids" by simp
  have "card (im_id ` set (images_of i c)) = length (images_of i c)"
    using ok distinct_card [of "map im_id (images_of i c)"] by (simp add: images_ok_iff distinct_images_of)
  with *(2) d have "card (set ids) = card (im_id ` set (images_of i c))"
    by (simp add: distinct_card in_order_def)
  with sub show "set ids = im_id ` set (images_of i c)" by (metis card_subset_eq finite_set)
qed

lemma reordered_images:
  assumes "reorder_images i ids u c = Inr (r, d)" "images_ok c"
  shows "images_of j d = (if j = i then map (\<lambda>m. m\<lparr>im_order := int (position ids (im_id m))\<rparr>) (images_of j c)
    else images_of j c)"
proof -
  note cs = reorder_cases [OF assms]
  have ids: "im_id m \<in> set ids" if "m \<in> set (images c)" "im_property m = i" for m
    using that cs(3) by (auto simp: in_images_of)
  have "images d = map (\<lambda>m. if im_property m = i then m\<lparr>im_order := int (position ids (im_id m))\<rparr> else m) (images c)"
    unfolding cs(5) write_orders_eq [OF cs(2)] using ids by (intro map_cong) auto
  then have d: "images d = update_where (\<lambda>m. im_property m = i) (\<lambda>m. m\<lparr>im_order := int (position ids (im_id m))\<rparr>) (images c)"
    by (simp add: update_where_def)
  have "images_of j d = update_where (\<lambda>m. im_property m = i) (\<lambda>m. m\<lparr>im_order := int (position ids (im_id m))\<rparr>) (images_of j c)"
    by (rule images_of_update [OF d]) simp
  then show ?thesis
    by (auto simp: update_where_def in_images_of intro!: map_cong map_idI)
qed

lemma reordered_keys:
  assumes "reorder_images i ids u c = Inr (r, d)" "images_ok c"
  shows "map im_id (images d) = map im_id (images c)" "map im_url (images d) = map im_url (images c)"
    "map im_pathname (images d) = map im_pathname (images c)"
  unfolding reorder_cases(5) [OF assms] write_orders_eq [OF reorder_cases(2) [OF assms]] by simp_all

lemma position_inj: "x \<in> set xs \<Longrightarrow> y \<in> set xs \<Longrightarrow> position xs x = position xs y \<Longrightarrow> x = y"
  by (induction xs) (auto split: if_splits)

lemma reorder_keeps:
  assumes r: "reorder_images i ids u c = Inr (r, d)" and ok: "images_ok c"
  shows "images_ok d"
proof -
  note cs = reorder_cases [OF r ok]
  have "gallery_ok (images_of j d)" for j
  proof -
    have old: "gallery_ok (images_of j c)" using ok by (simp add: images_ok_iff)
    show ?thesis
    proof (cases "j = i")
      case True
      have "inj_on (position ids) (im_id ` set (images_of j c))"
        using cs(3) position_inj [of _ ids] by (auto simp: inj_on_def True)
      moreover have "distinct (map im_id (images_of j c))"
        using ok by (simp add: images_ok_iff distinct_images_of)
      ultimately have "distinct (map (\<lambda>m. int (position ids (im_id m))) (images_of j c))"
        by (auto simp: distinct_map inj_on_def)
      then show ?thesis
        using gallery_okD [OF old] unfolding reordered_images [OF r ok] True
        by (simp add: gallery_ok_def comp_def list_all_iff row_count_def filter_map)
    next
      case False
      with old show ?thesis by (simp add: reordered_images [OF r ok])
    qed
  qed
  with ok show ?thesis by (simp add: images_ok_iff reordered_keys [OF r ok])
qed

text \<open>The host reads back the order that was sent.\<close>

lemma reorder_result:
  assumes r: "reorder_images i ids u c = Inr (r, d)" and ok: "images_ok c"
  shows "map im_id (in_order (images_of i d)) = ids"
proof (rule map_sorted_distinct_set_unique [where f = "position ids"])
  note cs = reorder_cases [OF r ok] and d = reordered_images [OF r ok, of i, simplified]
  have set_eq: "set (map im_id (in_order (images_of i d))) = set ids" by (simp add: d cs(3) image_image)
  show "inj_on (position ids) (set (map im_id (in_order (images_of i d))) \<union> set ids)"
    unfolding set_eq using position_inj [of _ ids] by (auto simp: inj_on_def)
  show "sorted (map (position ids) ids)" "distinct (map (position ids) ids)"
    by (simp_all add: map_position cs(2))
  have pos: "im_order m = int (position ids (im_id m))" if "m \<in> set (images_of i d)" for m
    using that by (auto simp: d)
  have "map (int \<circ> position ids \<circ> im_id) (in_order (images_of i d)) = map im_order (in_order (images_of i d))"
    using pos by (intro map_cong) auto
  then have "map int (map (position ids) (map im_id (in_order (images_of i d)))) = map im_order (in_order (images_of i d))"
    by (simp add: comp_assoc)
  moreover have "sorted (map im_order (in_order (images_of i d)))" by (simp add: in_order_def)
  moreover have "distinct (map im_order (in_order (images_of i d)))"
    using reorder_keeps [OF r ok] by (simp add: images_ok_iff gallery_ok_def in_order_def distinct_map)
  ultimately show "sorted (map (position ids) (map im_id (in_order (images_of i d))))"
    "distinct (map (position ids) (map im_id (in_order (images_of i d))))"
    by (metis (no_types, lifting) sorted_map of_nat_le_iff sorted_wrt_map sorted_wrt_mono_rel, metis distinct_map)
  show "set (map im_id (in_order (images_of i d))) = set ids" by (fact set_eq)
qed

end
