(* ===== verification/Listing_Safety.thy ===== *)
theory Listing_Safety
  imports Listing_Edit Images
begin

text \<open>
  What every operation on listings keeps: \<open>catalog_ok\<close>. An approved compliance record is complete, every
  item of it approved by somebody who is not the owner; a listing whose review stands has complete
  content, pictures with one cover, and an approved compliance record. The edits of hosts enter without
  the check that precedes them, so the invariant holds however the check and the edit interleave.
\<close>

subsection \<open>The invariant\<close>

definition content_ready :: "listing_content \<Rightarrow> bool" where
  "content_ready k \<longleftrightarrow>
     has_text (Some (lc_name k)) \<and> has_text (lc_type k) \<and> has_text (lc_description k) \<and>
     has_text (Some (lc_city k)) \<and> lc_country k = Some ''GB'' \<and>
     1 \<le> lc_max_guests k \<and> 0 \<le> lc_bedrooms k \<and> 0 \<le> lc_bathrooms k \<and>
     (case lc_nightly k of None \<Rightarrow> False | Some n \<Rightarrow> 1 \<le> n) \<and> lc_currency k = ''GBP'' \<and>
     1 \<le> lc_min_stay k \<and> lc_max_stay k \<le> 365 \<and> lc_min_stay k \<le> lc_max_stay k \<and> lc_policy k \<noteq> None \<and>
     lc_check_in k \<noteq> [] \<and> lc_check_out k \<noteq> [] \<and>
     has_text (lc_address1 k) \<and> has_text (lc_town k) \<and> has_text (lc_postcode k) \<and> lc_private k \<noteq> None"

definition gallery_ready :: "image_row list \<Rightarrow> bool" where
  "gallery_ready pics \<longleftrightarrow> minimum_image_count \<le> length pics \<and> row_count im_cover pics = 1"

definition record_complete :: "evidence_row list \<Rightarrow> bool" where
  "record_complete items \<longleftrightarrow> length items = length compliance_categories \<and> row_count incomplete_item items = 0"

definition others_approved :: "catalog \<Rightarrow> listing_row \<Rightarrow> bool" where
  "others_approved c r \<longleftrightarrow> (case ls_approved_by r of None \<Rightarrow> False
     | Some u \<Rightarrow> list_all (\<lambda>h. h_id h = ls_host r \<longrightarrow> h_user h \<noteq> u) (profiles c))"

definition listing_ok :: "catalog \<Rightarrow> listing_row \<Rightarrow> bool" where
  "listing_ok c r \<longleftrightarrow>
     (ls_compliance r = Comp_approved \<longrightarrow> record_complete (items_of (ls_id r) c) \<and> others_approved c r) \<and>
     (ls_pilot r = Pilot_approved \<longrightarrow> ls_compliance r = Comp_approved \<and> content_ready (ls_content r) \<and>
        gallery_ready (images_of (ls_id r) c)) \<and>
     (ls_public r = None \<longleftrightarrow> lc_private (ls_content r) = None)"

definition evidence_ok :: "catalog \<Rightarrow> bool" where
  "evidence_ok c \<longleftrightarrow> distinct (map (\<lambda>e. (ci_property e, ci_category e)) (evidence c)) \<and>
     list_all (\<lambda>e. ci_category e \<in> set compliance_categories) (evidence c)"

definition owners_ok :: "catalog \<Rightarrow> bool" where
  "owners_ok c \<longleftrightarrow> distinct (map ls_id (listings c)) \<and> distinct (map h_id (profiles c)) \<and>
     distinct (map h_user (profiles c)) \<and>
     list_all (\<lambda>r. row_exists (\<lambda>h. h_id h = ls_host r) (profiles c)) (listings c)"

definition catalog_ok :: "catalog \<Rightarrow> bool" where
  "catalog_ok c \<longleftrightarrow> owners_ok c \<and> evidence_ok c \<and> images_ok c \<and> list_all (listing_ok c) (listings c)"

lemma catalog_okD:
  assumes "catalog_ok c"
  shows "owners_ok c" "evidence_ok c" "images_ok c" "r \<in> set (listings c) \<Longrightarrow> listing_ok c r"
  using assms by (auto simp: catalog_ok_def list_all_iff)

text \<open>The invariant of a row reads the items and pictures of its own property, and who owns which profile.\<close>

abbreviation owner_pairs :: "catalog \<Rightarrow> (uuid \<times> uuid) list" where
  "owner_pairs c \<equiv> map (\<lambda>h. (h_id h, h_user h)) (profiles c)"

lemma list_all_pairs:
  assumes "map (\<lambda>h. (f h, g h)) t = map (\<lambda>h. (f h, g h)) u"
  shows "list_all (\<lambda>h. P (f h) (g h)) t = list_all (\<lambda>h. P (f h) (g h)) u"
  using arg_cong [OF assms, of "list_all (\<lambda>x. P (fst x) (snd x))"] by (simp add: list.pred_map comp_def)

lemma listing_ok_cong:
  assumes "items_of (ls_id r) d = items_of (ls_id r) c" "images_of (ls_id r) d = images_of (ls_id r) c"
    "owner_pairs d = owner_pairs c"
  shows "listing_ok d r = listing_ok c r"
proof -
  have "others_approved d r = others_approved c r"
    using list_all_pairs [OF assms(3), of "\<lambda>i u. i = ls_host r \<longrightarrow> u \<noteq> the (ls_approved_by r)"]
    by (auto simp: others_approved_def split: option.splits)
  then show ?thesis by (simp add: listing_ok_def assms(1,2))
qed

lemma owners_ok_cong:
  assumes "map ls_id (listings d) = map ls_id (listings c)" "map ls_host (listings d) = map ls_host (listings c)"
    "owner_pairs d = owner_pairs c"
  shows "owners_ok d = owners_ok c"
proof -
  have "map h_id (profiles d) = map h_id (profiles c)" "map h_user (profiles d) = map h_user (profiles c)"
    using arg_cong [OF assms(3), of "map fst"] arg_cong [OF assms(3), of "map snd"] by (simp_all add: comp_def)
  note pr = this
  have ids: "h_id ` set (profiles d) = h_id ` set (profiles c)" using arg_cong [OF pr(1), of set] by simp
  have hs: "ls_host ` set (listings d) = ls_host ` set (listings c)" using arg_cong [OF assms(2), of set] by simp
  have eq: "list_all (\<lambda>r. row_exists (\<lambda>h. h_id h = ls_host r) (profiles x)) (listings x) \<longleftrightarrow>
      ls_host ` set (listings x) \<subseteq> h_id ` set (profiles x)" for x
    unfolding list_all_iff row_exists_iff image_subset_iff image_iff by metis
  show ?thesis unfolding owners_ok_def eq assms(1) pr ids hs by (rule refl)
qed

lemma evidence_ok_cong: "evidence d = evidence c \<Longrightarrow> evidence_ok d = evidence_ok c"
  by (simp add: evidence_ok_def)

lemma items_of_cong: "evidence d = evidence c \<Longrightarrow> items_of i d = items_of i c"
  by (simp add: items_of_def)

lemma listing_frame [simp]:
  "evidence (update_listing i f c) = evidence c" "profiles (update_listing i f c) = profiles c"
  "evidence (on_image_change i c) = evidence c" "profiles (on_image_change i c) = profiles c"
  "evidence (log_catalog w i d c) = evidence c" "profiles (log_catalog w i d c) = profiles c"
  "listings (log_catalog w i d c) = listings c" "listings (set_amenities i a c) = listings c"
  "evidence (set_amenities i a c) = evidence c" "profiles (set_amenities i a c) = profiles c"
  "images (set_amenities i a c) = images c"
  by (simp_all add: update_listing_def on_image_change_def log_catalog_def set_amenities_def)

text \<open>Two catalogs that agree on what the invariant reads.\<close>

lemma catalog_ok_cong:
  assumes "listings d = listings c" "evidence d = evidence c" "profiles d = profiles c" "images d = images c"
  shows "catalog_ok d = catalog_ok c"
  using assms
  by (simp add: catalog_ok_def owners_ok_def evidence_ok_def images_ok_cong [of d c] list_all_iff
      listing_ok_cong [of _ d c] items_of_def images_of_def)

lemma listing_unique:
  assumes "owners_ok c" "r \<in> set (listings c)" "ls_id r = i"
  shows "find_listing i c = Some r"
  using assms first_where_unique [of ls_id "listings c" r] by (simp add: owners_ok_def)

lemma on_listing_update_keys [simp]:
  "ls_id (on_listing_update r n) = ls_id n" "ls_host (on_listing_update r n) = ls_host n"
  "ls_content (on_listing_update r n) = ls_content n" "ls_compliance (on_listing_update r n) = ls_compliance n"
  "ls_approved_by (on_listing_update r n) = ls_approved_by n" "ls_public (on_listing_update r n) = ls_public n"
  "ls_slug (on_listing_update r n) = ls_slug n"
  by (simp_all add: on_listing_update_def withdraw_approval_def)

lemma others_approved_same:
  assumes "ls_host n = ls_host r" "ls_approved_by n = ls_approved_by r" "profiles d = profiles c"
  shows "others_approved d n = others_approved c r"
  unfolding others_approved_def assms by (rule refl)

lemmas others_approved_cong = others_approved_same [OF _ _ refl]

lemma listings_update_listing:
  "listings (update_listing i f c) = update_where (\<lambda>r. ls_id r = i) (\<lambda>r. on_listing_update r (f r)) (listings c)"
  by (simp add: update_listing_def)

lemma update_listing_keeps:
  assumes ok: "catalog_ok c" and f: "\<And>r. ls_id (f r) = ls_id r" "\<And>r. ls_host (f r) = ls_host r"
    and row: "\<And>r. r \<in> set (listings c) \<Longrightarrow> ls_id r = i \<Longrightarrow> listing_ok c (on_listing_update r (f r))"
  shows "catalog_ok (update_listing i f c)"
proof -
  let ?d = "update_listing i f c"
  have same: "listing_ok ?d r = listing_ok c r" for r
    by (rule listing_ok_cong) (simp_all add: items_of_cong [of ?d c] images_of_cong [of ?d c])
  have "owners_ok ?d = owners_ok c"
    by (rule owners_ok_cong) (simp_all add: listings_update_listing map_update_where f)
  moreover have "images_ok ?d = images_ok c" by (rule images_ok_cong) simp
  moreover have "\<forall>r \<in> set (listings ?d). listing_ok ?d r"
    unfolding same listings_update_listing using row catalog_okD(4) [OF ok] by simp
  ultimately show ?thesis
    using ok by (simp add: catalog_ok_def evidence_ok_def list_all_iff)
qed


subsection \<open>Edits\<close>

lemma write_keeps:
  assumes "catalog_ok c"
  shows "catalog_ok (write_property snap i inp c)"
proof -
  have "listing_ok c (on_listing_update r (edit_listing snap inp r))" if r: "r \<in> set (listings c)" for r
  proof -
    note old = catalog_okD(4) [OF assms r]
    have keys: "ls_id (edit_listing snap inp r) = ls_id r" "ls_host (edit_listing snap inp r) = ls_host r"
      "ls_compliance (edit_listing snap inp r) = ls_compliance r" "ls_pilot (edit_listing snap inp r) = ls_pilot r"
      "ls_approved_by (edit_listing snap inp r) = ls_approved_by r"
      by (simp_all add: edit_listing_def Let_def)
    have places: "ls_public (edit_listing snap inp r) = None \<longleftrightarrow> lc_private (ls_content (edit_listing snap inp r)) = None"
      using old by (simp add: listing_ok_def edit_listing_def edit_content_def Let_def)
    show ?thesis
    proof (cases "ls_pilot r = Pilot_approved \<and> ls_content r \<noteq> ls_content (edit_listing snap inp r)")
      case True
      then have "ls_pilot (on_listing_update r (edit_listing snap inp r)) = Pilot_pending"
        by (simp add: on_listing_update_def withdraw_approval_def)
      with old places keys others_approved_cong [of "on_listing_update r (edit_listing snap inp r)" r c]
      show ?thesis by (simp add: listing_ok_def)
    next
      case False
      then have "on_listing_update r (edit_listing snap inp r) = edit_listing snap inp r"
        by (auto simp: on_listing_update_def keys)
      with old places keys others_approved_cong [of "edit_listing snap inp r" r c] False
      show ?thesis by (auto simp: listing_ok_def)
    qed
  qed
  then have "catalog_ok (update_listing i (edit_listing snap inp) c)"
    by (intro update_listing_keeps [OF assms]) (simp_all add: edit_listing_def Let_def)
  moreover have "catalog_ok (set_amenities i ids d) = catalog_ok d" for ids d
    by (rule catalog_ok_cong) simp_all
  ultimately show ?thesis by (auto simp: write_property_def Let_def split: option.split)
qed

lemma create_keeps:
  assumes ok: "catalog_ok c" and r: "create_property snap j suffix host inp c = (Inr x, d)"
  shows "catalog_ok d"
proof -
  have am: "catalog_ok (set_amenities i ids e) = catalog_ok e" for i ids e
    by (rule catalog_ok_cong) simp_all
  from r obtain k slug st where fresh: "\<forall>l \<in> set (listings c). ls_id l \<noteq> j" "\<exists>h \<in> set (profiles c). h_id h = host"
    and d: "catalog_ok d = catalog_ok (c\<lparr>listings := insert_row (new_listing snap j host slug st k) (listings c)\<rparr>)"
    by (auto simp: create_property_def Let_def am split: if_splits option.splits)
  let ?n = "new_listing snap j host slug st k" and ?e = "c\<lparr>listings := insert_row (new_listing snap j host slug st k) (listings c)\<rparr>"
  have same: "listing_ok ?e l = listing_ok c l" for l
    by (rule listing_ok_cong) (simp_all add: items_of_def images_of_def)
  have "listing_ok c ?n" by (simp add: listing_ok_def new_listing_def)
  moreover have "owners_ok ?e"
    using catalog_okD(1) [OF ok] fresh by (auto simp: owners_ok_def insert_row_def new_listing_def list_all_iff)
  moreover have "images_ok ?e = images_ok c" by (rule images_ok_cong) simp
  ultimately have "catalog_ok ?e"
    using ok by (simp add: catalog_ok_def list_all_iff same evidence_ok_def)
  with d show ?thesis by simp
qed

subsection \<open>The compliance record\<close>

lemma upsert_item_keys:
  assumes "distinct (map (\<lambda>e. (ci_property e, ci_category e)) t)"
  shows "distinct (map (\<lambda>e. (ci_property e, ci_category e)) (upsert_item e t))"
proof (cases "row_exists (\<lambda>x. ci_property x = ci_property e \<and> ci_category x = ci_category e) t")
  case True
  then have "upsert_item e t = update_where (\<lambda>x. ci_property x = ci_property e \<and> ci_category x = ci_category e) (\<lambda>_. e) t"
    unfolding upsert_item_def Let_def by simp
  with assms show ?thesis by (simp only:) (subst map_update_where, simp_all)
next
  case False
  then show ?thesis
    using assms by (auto simp: upsert_item_def Let_def insert_row_def)
qed

lemma in_upsert_item: "x \<in> set (upsert_item e t) \<Longrightarrow> x = e \<or> x \<in> set t"
  by (auto simp: upsert_item_def Let_def split: if_splits)

lemma upsert_other:
  "ci_property e \<noteq> j \<Longrightarrow> select_where (\<lambda>x. ci_property x = j) (upsert_item e t) = select_where (\<lambda>x. ci_property x = j) t"
proof -
  assume j: "ci_property e \<noteq> j"
  have "select_where (\<lambda>x. ci_property x = j)
      (update_where (\<lambda>x. ci_property x = ci_property e \<and> ci_category x = ci_category e) (\<lambda>_. e) t) =
    select_where (\<lambda>x. ci_property x = j) t"
    using j by (induction t) (auto simp: select_where_def)
  with j show ?thesis by (auto simp: upsert_item_def Let_def select_where_def insert_row_def)
qed

lemma upsert_all_keys:
  "distinct (map (\<lambda>e. (ci_property e, ci_category e)) t) \<Longrightarrow>
    distinct (map (\<lambda>e. (ci_property e, ci_category e)) (fold upsert_item rows t))"
  by (induction rows arbitrary: t) (simp_all add: upsert_item_keys)

lemma in_upsert_all: "x \<in> set (fold upsert_item rows t) \<Longrightarrow> x \<in> set rows \<or> x \<in> set t"
  by (induction rows arbitrary: t) (auto dest: in_upsert_item)

lemma upsert_all_other:
  "\<forall>e \<in> set rows. ci_property e \<noteq> j \<Longrightarrow>
    select_where (\<lambda>x. ci_property x = j) (fold upsert_item rows t) = select_where (\<lambda>x. ci_property x = j) t"
  by (induction rows arbitrary: t) (simp_all add: upsert_other)

text \<open>The rows of one property change and its listing is updated.\<close>

lemma record_change_keeps:
  assumes ok: "catalog_ok c" and ev: "evidence_ok (c\<lparr>evidence := ev\<rparr>)"
    and elsewhere: "\<And>j. j \<noteq> i \<Longrightarrow> items_of j (c\<lparr>evidence := ev\<rparr>) = items_of j c"
    and f: "\<And>r. ls_id (f r) = ls_id r" "\<And>r. ls_host (f r) = ls_host r"
    and row: "\<And>r. r \<in> set (listings c) \<Longrightarrow> ls_id r = i \<Longrightarrow> listing_ok (c\<lparr>evidence := ev\<rparr>) (on_listing_update r (f r))"
  shows "catalog_ok (log_catalog w o_id det (update_listing i f (c\<lparr>evidence := ev\<rparr>)))"
proof -
  let ?c1 = "c\<lparr>evidence := ev\<rparr>" let ?d = "update_listing i f ?c1"
  have same: "listing_ok ?d r = listing_ok ?c1 r" for r
    by (rule listing_ok_cong) (simp_all add: items_of_cong [of ?d ?c1] images_of_cong [of ?d ?c1])
  have other: "listing_ok ?c1 r = listing_ok c r" if "ls_id r \<noteq> i" for r
    by (rule listing_ok_cong) (simp_all add: elsewhere that images_of_def)
  have "owners_ok ?d = owners_ok c"
    by (rule owners_ok_cong) (simp_all add: listings_update_listing map_update_where f)
  moreover have "images_ok ?d = images_ok c" by (rule images_ok_cong) simp
  moreover have "\<forall>r \<in> set (listings ?d). listing_ok ?d r"
    unfolding same listings_update_listing using row catalog_okD(4) [OF ok] other by simp
  moreover have "evidence_ok ?d" using ev by (simp add: evidence_ok_def)
  ultimately have "catalog_ok ?d"
    using ok by (simp add: catalog_ok_def list_all_iff)
  then show ?thesis by (subst catalog_ok_cong [of _ ?d]) simp_all
qed

lemma save_keeps:
  assumes ok: "catalog_ok c" and s: "save_owner_compliance now i actor its submit c = Inr (st, d)"
  shows "catalog_ok d"
proof -
  let ?rows = "map (item_row now i) its" let ?ev = "fold upsert_item ?rows (evidence c)"
  let ?f = "\<lambda>r. r\<lparr>ls_compliance := (if submit then Comp_submitted else Comp_in_progress),
     ls_submitted := (if submit then Some now else ls_submitted r), ls_approved := None, ls_approved_by := None\<rparr>"
  from s obtain det where allowed: "list_all item_allowed ?rows"
    and d: "d = log_catalog actor i det (update_listing i ?f (c\<lparr>evidence := ?ev\<rparr>))"
    by (auto simp: save_owner_compliance_def Let_def split: if_splits)
  have mine: "ci_property e = i" if "e \<in> set ?rows" for e
    using that by (auto simp: item_row_def Let_def)
  show ?thesis
    unfolding d
  proof (rule record_change_keeps [OF ok])
    have "\<forall>e \<in> set ?rows. ci_category e \<in> set compliance_categories"
      using allowed unfolding list_all_iff item_allowed_def by blast
    moreover have "\<forall>e \<in> set (evidence c). ci_category e \<in> set compliance_categories"
      using catalog_okD(2) [OF ok] unfolding list_all_iff evidence_ok_def by blast
    ultimately have "\<forall>e \<in> set ?ev. ci_category e \<in> set compliance_categories"
      using in_upsert_all [of _ ?rows "evidence c"] by blast
    then show "evidence_ok (c\<lparr>evidence := ?ev\<rparr>)"
      using upsert_all_keys catalog_okD(2) [OF ok] by (simp add: evidence_ok_def list_all_iff)
    show "items_of j (c\<lparr>evidence := ?ev\<rparr>) = items_of j c" if "j \<noteq> i" for j
    proof -
      have "\<forall>e \<in> set ?rows. ci_property e \<noteq> j" using mine that by blast
      from upsert_all_other [OF this, of "evidence c"] show ?thesis unfolding items_of_def by simp
    qed
    show "listing_ok (c\<lparr>evidence := ?ev\<rparr>) (on_listing_update r (?f r))" if r: "r \<in> set (listings c)" for r
    proof -
      have "ls_compliance r = Comp_approved" if "ls_pilot r = Pilot_approved"
        using catalog_okD(4) [OF ok r] that by (simp add: listing_ok_def)
      moreover have "ls_public r = None \<longleftrightarrow> lc_private (ls_content r) = None"
        using catalog_okD(4) [OF ok r] by (simp add: listing_ok_def)
      ultimately show ?thesis
        by (cases "ls_pilot r = Pilot_approved") (simp_all add: listing_ok_def on_listing_update_def withdraw_approval_def)
    qed
  qed simp_all
qed

lemma reviewed_select:
  assumes "\<And>e. ci_property (g e) = ci_property e"
  shows "select_where (\<lambda>e. ci_property e = j) (update_where (\<lambda>e. ci_property e = i) g t) =
    (if j = i then map g (select_where (\<lambda>e. ci_property e = i) t) else select_where (\<lambda>e. ci_property e = j) t)"
  using assms by (induction t) (auto simp: select_where_def)

text \<open>A property has at most one item of each category.\<close>

lemma items_bounded:
  assumes "evidence_ok c"
  shows "length (items_of i c) \<le> length compliance_categories"
proof -
  have "distinct (map (\<lambda>e. (ci_property e, ci_category e)) (items_of i c))"
    using assms by (simp add: evidence_ok_def items_of_def select_where_def distinct_map_filter)
  then have "distinct (map ci_category (items_of i c))"
    by (auto simp: distinct_map inj_on_def items_of_def)
  moreover have "set (map ci_category (items_of i c)) \<subseteq> set compliance_categories"
    using assms by (auto simp: evidence_ok_def list_all_iff items_of_def)
  ultimately show ?thesis by (metis card_length card_mono distinct_card finite_set le_trans length_map)
qed

lemma row_count_full: "row_count P t = length t \<longleftrightarrow> (\<forall>x \<in> set t. P x)"
proof -
  have le: "row_count P t \<le> length t" for t by (simp add: row_count_def)
  show ?thesis
  proof (induction t)
    case (Cons x t)
    with le [of t] show ?case by auto
  qed simp
qed

lemma approved_item_complete:
  "complete_item today e \<Longrightarrow> \<not> incomplete_item (reviewed_row now u Approve n e)"
  by (auto simp: complete_item_def incomplete_item_def reviewed_row_def item_review_of_def)

lemma review_keeps:
  assumes ok: "catalog_ok c" and s: "review_property_compliance now i u dec n c = Inr (st, d)"
  shows "catalog_ok d"
proof -
  let ?g = "reviewed_row now u dec n" let ?ev = "update_where (\<lambda>e. ci_property e = i) ?g (evidence c)"
  let ?f = "\<lambda>r. r\<lparr>ls_compliance := compliance_of dec, ls_approved := (if dec = Approve then Some now else None),
     ls_approved_by := (if dec = Approve then Some u else None), ls_note := Some n\<rparr>"
  from s obtain r h where r: "find_listing i c = Some r" and sub: "ls_compliance r = Comp_submitted"
    and h: "first_where (\<lambda>h. h_id h = ls_host r) (profiles c) = Some h" "h_user h \<noteq> u"
    and full: "dec = Approve \<longrightarrow> row_count (complete_item (day_of_ms now)) (items_of i c) = length compliance_categories"
    and d: "d = log_catalog u i (Compliance_reviewed dec n) (update_listing i ?f (c\<lparr>evidence := ?ev\<rparr>))"
    by (auto simp: review_property_compliance_def Let_def split: if_splits option.splits)
  have g: "ci_property (?g e) = ci_property e" "ci_category (?g e) = ci_category e" for e
    by (simp_all add: reviewed_row_def)
  have items: "items_of j (c\<lparr>evidence := ?ev\<rparr>) = (if j = i then map ?g (items_of i c) else items_of j c)" for j
    by (simp add: items_of_def reviewed_select g)
  have "record_complete (items_of i (c\<lparr>evidence := ?ev\<rparr>))" if a: "dec = Approve"
  proof -
    have "length (items_of i c) = length compliance_categories"
      using full a items_bounded [OF catalog_okD(2) [OF ok], of i]
      by (metis le_antisym length_filter_le row_count_def)
    moreover from this have "\<forall>e \<in> set (items_of i c). complete_item (day_of_ms now) e"
      using full a row_count_full [of "complete_item (day_of_ms now)" "items_of i c"] by simp
    moreover have "items_of i (c\<lparr>evidence := ?ev\<rparr>) = map ?g (items_of i c)" by (simp add: items)
    ultimately show ?thesis
      using approved_item_complete a unfolding record_complete_def row_count_zero_iff by auto
  qed
  moreover have "list_all (\<lambda>p. h_id p = ls_host r \<longrightarrow> h_user p \<noteq> u) (profiles c)"
  proof -
    have "first_where (\<lambda>x. h_id x = h_id p) (profiles c) = Some p" if "p \<in> set (profiles c)" for p
      using first_where_unique [of h_id "profiles c" p] that catalog_okD(1) [OF ok] by (simp add: owners_ok_def)
    with h show ?thesis unfolding list_all_iff by (metis option.inject)
  qed
  ultimately have new: "listing_ok (c\<lparr>evidence := ?ev\<rparr>) (on_listing_update x (?f x))"
    if x: "x \<in> set (listings c)" "ls_id x = i" for x
  proof -
    have xr: "x = r" using listing_unique [OF catalog_okD(1) [OF ok] x] r by simp
    show ?thesis
      using \<open>dec = Approve \<Longrightarrow> _\<close> \<open>list_all _ _\<close> catalog_okD(4) [OF ok x(1)] sub x(2)
      unfolding xr by (cases dec) (auto simp: listing_ok_def on_listing_update_def compliance_of_def others_approved_def)
  qed
  show ?thesis
    unfolding d
  proof (rule record_change_keeps [OF ok])
    show "evidence_ok (c\<lparr>evidence := ?ev\<rparr>)"
      using catalog_okD(2) [OF ok] by (simp add: evidence_ok_def map_update_where g list_all_iff)
    show "items_of j (c\<lparr>evidence := ?ev\<rparr>) = items_of j c" if "j \<noteq> i" for j by (simp add: items that)
    show "listing_ok (c\<lparr>evidence := ?ev\<rparr>) (on_listing_update x (?f x))" if "x \<in> set (listings c)" "ls_id x = i" for x
      by (rule new [OF that])
  qed simp_all
qed


subsection \<open>HOST's review of a listing\<close>

lemma listing_readiness_Some:
  assumes "listing_readiness today i c = Some rep"
  obtains r h where "find_listing i c = Some r" "rr_checks rep = build_checks today c r h"
    "rr_missing rep = filter (\<lambda>k. \<not> rc_ready k) (rr_checks rep)" "rr_ready rep \<longleftrightarrow> rr_missing rep = []"
    "first_where (\<lambda>h. h_id h = ls_host r) (profiles c) = Some h" "rr_property rep = i"
  using assms first_where_Some [of "\<lambda>r. ls_id r = i" "listings c"]
  by (auto simp: listing_readiness_def Let_def split: option.splits)

lemma ready_listing:
  assumes "\<forall>k \<in> set (build_checks today c r h). rc_key k \<noteq> Pilot_review \<longrightarrow> rc_ready k"
  shows "content_ready (ls_content r)" "gallery_ready (images_of (ls_id r) c)" "ls_compliance r = Comp_approved"
  using assms by (simp_all add: build_checks_def Let_def content_ready_def gallery_ready_def)

lemma pilot_keeps:
  assumes ok: "catalog_ok c" and s: "review_pilot_listing now i u dec n c = Inr (rep, d)"
  shows "catalog_ok d"
proof -
  let ?f = "\<lambda>r. r\<lparr>ls_pilot := pilot_status_of dec, ls_pilot_at := Some now, ls_pilot_by := Some u,
     ls_pilot_note := null_if_empty (js_trim n)\<rparr>"
  from s obtain first where first: "listing_readiness (day_of_ms now) i c = Some first"
    and no: "dec = Approve \<longrightarrow> filter (\<lambda>k. rc_key k \<noteq> Pilot_review) (rr_missing first) = []"
    and d: "d = log_catalog u i (Pilot_reviewed dec (null_if_empty (js_trim n))) (update_listing i ?f c)"
    by (auto simp: review_pilot_listing_def Let_def split: if_splits option.splits)
  obtain r h where r: "find_listing i c = Some r" "rr_checks first = build_checks (day_of_ms now) c r h"
    "rr_missing first = filter (\<lambda>k. \<not> rc_ready k) (rr_checks first)"
    using listing_readiness_Some [OF first] by blast
  have ready: "\<forall>k \<in> set (build_checks (day_of_ms now) c r h). rc_key k \<noteq> Pilot_review \<longrightarrow> rc_ready k" if "dec = Approve"
    using no r that by (auto simp: filter_empty_conv)
  have "listing_ok c (on_listing_update x (?f x))" if x: "x \<in> set (listings c)" "ls_id x = i" for x
  proof -
    have xr: "x = r" using listing_unique [OF catalog_okD(1) [OF ok] x] r(1) by simp
    have "on_listing_update x (?f x) = ?f x" by (simp add: on_listing_update_def)
    moreover have "listing_ok c (?f r)"
      using ready_listing [OF ready] catalog_okD(4) [OF ok x(1)] others_approved_cong [of "?f r" r c]
      unfolding xr by (cases dec) (auto simp: listing_ok_def pilot_status_of_def)
    ultimately show ?thesis by (simp add: xr)
  qed
  then have "catalog_ok (update_listing i ?f c)"
    by (intro update_listing_keeps [OF ok]) simp_all
  then show ?thesis unfolding d by (subst catalog_ok_cong [of _ "update_listing i ?f c"]) simp_all
qed

subsection \<open>Pictures\<close>

lemma listing_ok_unapproved:
  assumes "listing_ok c r" "ls_id n = ls_id r" "ls_host n = ls_host r" "ls_compliance n = ls_compliance r"
    "ls_approved_by n = ls_approved_by r" "ls_content n = ls_content r" "ls_public n = ls_public r"
    "ls_pilot n \<noteq> Pilot_approved" "evidence d = evidence c" "profiles d = profiles c"
  shows "listing_ok d n"
  using assms(1,8) others_approved_same [OF assms(3,5,10)] items_of_cong [OF assms(9)]
  by (simp add: listing_ok_def assms(2,4,6,7))

lemma image_change_keeps:
  assumes ok: "catalog_ok c" and im: "images_ok d"
    and same: "evidence d = evidence c" "profiles d = profiles c" "listings d = listings (on_image_change i c)"
    and elsewhere: "\<And>j. j \<noteq> i \<Longrightarrow> images_of j d = images_of j c"
  shows "catalog_ok d"
proof -
  let ?w = "\<lambda>r. (withdraw_approval r)\<lparr>ls_status := (if ls_status r = Prop_published then Prop_draft else ls_status r)\<rparr>"
  have rows: "listings d = update_where (\<lambda>r. ls_id r = i \<and> ls_pilot r = Pilot_approved) ?w (listings c)"
    by (simp add: same(3) on_image_change_def)
  have "owners_ok d = owners_ok c"
    by (rule owners_ok_cong) (simp_all add: rows map_update_where withdraw_approval_def same(2))
  moreover have "if ls_id r = i \<and> ls_pilot r = Pilot_approved then listing_ok d (?w r) else listing_ok d r"
    if r: "r \<in> set (listings c)" for r
  proof (cases "ls_id r = i")
    case True
    have "listing_ok d n" if "n = ?w r \<or> n = r \<and> ls_pilot r \<noteq> Pilot_approved" for n
      using that by (intro listing_ok_unapproved [OF catalog_okD(4) [OF ok r]]) (auto simp: withdraw_approval_def same)
    with True show ?thesis by (cases "ls_pilot r = Pilot_approved") simp_all
  next
    case False
    then have "listing_ok d r = listing_ok c r"
      by (intro listing_ok_cong) (simp_all add: same items_of_cong [OF same(1)] elsewhere)
    with False catalog_okD(4) [OF ok r] show ?thesis by simp
  qed
  then have "\<forall>r \<in> set (listings d). listing_ok d r" unfolding rows ball_update_where by blast
  ultimately show ?thesis using ok im by (simp add: catalog_ok_def list_all_iff evidence_ok_def same(1))
qed

lemma listings_on_image_change:
  "listings (on_image_change i (c\<lparr>images := t\<rparr>)) = listings (on_image_change i c)"
  "listings (on_image_change i (on_image_change i c)) = listings (on_image_change i c)"
  by (auto simp: on_image_change_def update_where_def withdraw_approval_def)

lemma images_elsewhere:
  fixes t :: "image_row list"
  assumes "j \<noteq> i" "\<And>m. im_property (f m) = im_property m"
  shows "select_where (\<lambda>m. im_property m = j) (update_where (\<lambda>m. P m \<and> im_property m = i) f t) =
      select_where (\<lambda>m. im_property m = j) t"
    "select_where (\<lambda>m. im_property m = j) (update_where (\<lambda>m. im_property m = i \<and> P m) f t) =
      select_where (\<lambda>m. im_property m = j) t"
  using assms by (induction t) (auto simp: select_where_def)

text \<open>What a change of pictures touches: the pictures of its property and, by the trigger, its listing.\<close>

definition pictures_changed :: "uuid \<Rightarrow> catalog \<Rightarrow> catalog \<Rightarrow> bool" where
  "pictures_changed i c d \<longleftrightarrow> evidence d = evidence c \<and> profiles d = profiles c \<and>
     listings d = listings (on_image_change i c) \<and> (\<forall>j. j \<noteq> i \<longrightarrow> images_of j d = images_of j c)"

lemma pictures_changed_keeps:
  assumes "d = c \<or> pictures_changed i c d" "catalog_ok c" "images_ok d"
  shows "catalog_ok d"
  using assms image_change_keeps [of c d i] by (auto simp: pictures_changed_def)

lemma register_changed:
  assumes r: "register_image x i u b c = Inr (m, d)"
  shows "d = c \<or> pictures_changed i c d"
proof (cases "first_where (\<lambda>m. im_url m = bl_url b) (images c)")
  case (Some y)
  with r show ?thesis by (auto simp: register_image_def split: if_splits)
next
  case None
  with r have d: "d = on_image_change i (c\<lparr>images := insert_row m (images c)\<rparr>)" "im_property m = i"
    by (auto simp: register_image_def Let_def split: if_splits)
  then have "pictures_changed i c d"
    by (auto simp: pictures_changed_def listings_on_image_change images_of_def select_where_def insert_row_def)
  then show ?thesis ..
qed

lemma cover_changed:
  assumes r: "set_image_cover i x u c = Inr (y, d)"
  shows "pictures_changed i c d"
proof -
  from r obtain t where d: "d = on_image_change i (c\<lparr>images := t\<rparr>)" and
    t: "t = update_where (\<lambda>m. im_id m = x \<and> im_property m = i) (\<lambda>m. m\<lparr>im_cover := True\<rparr>)
        (update_where (\<lambda>m. im_property m = i \<and> im_cover m) (\<lambda>m. m\<lparr>im_cover := False\<rparr>) (images c))"
    by (auto simp: set_image_cover_def Let_def split: sum.splits)
  have "images_of j d = images_of j c" if "j \<noteq> i" for j
    using images_elsewhere(1) [OF that, of "\<lambda>m. m\<lparr>im_cover := True\<rparr>" "\<lambda>m. im_id m = x"]
      images_elsewhere(2) [OF that, of "\<lambda>m. m\<lparr>im_cover := False\<rparr>" im_cover "images c"]
    by (simp add: d t images_of_def)
  then show ?thesis by (simp add: pictures_changed_def d listings_on_image_change)
qed

lemma alt_changed:
  assumes r: "update_image_alt i x u alt c = Inr (y, d)"
  shows "pictures_changed i c d"
proof -
  from r obtain t where d: "d = on_image_change i (c\<lparr>images := t\<rparr>)" and
    t: "t = update_where (\<lambda>m. im_id m = x \<and> im_property m = i) (\<lambda>m. m\<lparr>im_alt := alt\<rparr>) (images c)"
    by (auto simp: update_image_alt_def split: sum.splits)
  have "images_of j d = images_of j c" if "j \<noteq> i" for j
    using images_elsewhere(1) [OF that, of "\<lambda>m. m\<lparr>im_alt := alt\<rparr>" "\<lambda>m. im_id m = x" "images c"]
    by (simp add: d t images_of_def)
  then show ?thesis by (simp add: pictures_changed_def d listings_on_image_change)
qed

lemma reorder_changed:
  assumes r: "reorder_images i ids u c = Inr (l, d)" and ok: "images_ok c"
  shows "d = c \<or> pictures_changed i c d"
proof (cases "ids = []")
  case True
  with r show ?thesis by (auto simp: reorder_images_def Let_def split: if_splits)
next
  case False
  have "evidence d = evidence c" "profiles d = profiles c" "listings d = listings (on_image_change i c)"
    using r False by (auto simp: reorder_images_def Let_def listings_on_image_change split: if_splits)
  then show ?thesis by (simp add: pictures_changed_def reordered_images [OF r ok])
qed

lemma delete_changed:
  assumes r: "delete_image i x u c = Inr (url, d)" and ok: "images_ok c"
  shows "pictures_changed i c d"
proof -
  let ?t = "delete_where (\<lambda>y. im_id y = x \<and> im_property y = i) (images c)"
  let ?c1 = "on_image_change i (c\<lparr>images := ?t\<rparr>)"
  have t: "images_of j ?c1 = images_of j c" if "j \<noteq> i" for j
    using that by (auto simp: images_of_def select_where_def delete_where_def intro!: filter_cong)
  from r consider "d = ?c1"
    | n where "n \<in> set (images_of i ?c1)" "d = on_image_change i (?c1\<lparr>images :=
        update_where (\<lambda>y. im_id y = im_id n) (\<lambda>y. y\<lparr>im_cover := True\<rparr>) (images ?c1)\<rparr>)"
  proof (cases "owned_image i x u c")
    case (Inr m)
    show ?thesis
    proof (cases "in_order (images_of i ?c1)")
      case Nil
      with Inr r have "d = ?c1" by (simp add: delete_image_def Let_def split: if_splits)
      then show ?thesis by (rule that)
    next
      case (Cons n ns)
      then have n: "n \<in> set (images_of i ?c1)" by (metis list.set_intros(1) set_in_order)
      have "d = (if \<not> im_cover m then ?c1 else on_image_change i (?c1\<lparr>images :=
          update_where (\<lambda>y. im_id y = im_id n) (\<lambda>y. y\<lparr>im_cover := True\<rparr>) (images ?c1)\<rparr>))"
        using r unfolding delete_image_def Let_def Inr sum.case Cons list.case by simp
      then show ?thesis
        by (cases "im_cover m") (simp only: if_False if_True not_False_eq_True not_True_eq_False, erule that(2) [OF n] that(1))+
    qed
  qed (use r in \<open>simp add: delete_image_def\<close>)
  then show ?thesis
  proof cases
    case 1
    then show ?thesis using t by (simp add: pictures_changed_def listings_on_image_change)
  next
    case 2
    have ids: "inj_on im_id (set (images c))" using ok by (simp add: images_ok_iff distinct_map)
    have "images_of j d = images_of j ?c1" if "j \<noteq> i" for j
    proof -
      have "images_of j d = update_where (\<lambda>y. im_id y = im_id n) (\<lambda>y. y\<lparr>im_cover := True\<rparr>) (images_of j ?c1)"
        by (rule images_of_update) (simp_all add: 2(2))
      also have "\<dots> = images_of j ?c1"
        using that 2(1) ids by (intro update_where_none) (auto simp: in_images_of inj_on_def)
      finally show ?thesis .
    qed
    then show ?thesis using t 2(2) by (simp add: pictures_changed_def listings_on_image_change)
  qed
qed

lemma pictures_keep:
  assumes ok: "catalog_ok c"
  shows "register_image x i u b c = Inr (m, d) \<Longrightarrow> catalog_ok d"
    "set_image_cover i x u c = Inr (y, d) \<Longrightarrow> catalog_ok d"
    "update_image_alt i x u alt c = Inr (y, d) \<Longrightarrow> catalog_ok d"
    "reorder_images i ids u c = Inr (l, d) \<Longrightarrow> catalog_ok d"
    "delete_image i x u c = Inr (url, d) \<Longrightarrow> catalog_ok d"
proof -
  note im = catalog_okD(3) [OF ok]
  show "register_image x i u b c = Inr (m, d) \<Longrightarrow> catalog_ok d"
    by (rule pictures_changed_keeps [OF register_changed ok register_keeps [OF im]])
  show "set_image_cover i x u c = Inr (y, d) \<Longrightarrow> catalog_ok d"
    by (rule pictures_changed_keeps [OF disjI2 [OF cover_changed] ok cover_keeps [OF im]])
  show "update_image_alt i x u alt c = Inr (y, d) \<Longrightarrow> catalog_ok d"
    by (rule pictures_changed_keeps [OF disjI2 [OF alt_changed] ok alt_keeps [OF im]])
  show "reorder_images i ids u c = Inr (l, d) \<Longrightarrow> catalog_ok d"
    by (rule pictures_changed_keeps [OF reorder_changed [OF _ im] ok reorder_keeps [OF _ im]])
  show "delete_image i x u c = Inr (url, d) \<Longrightarrow> catalog_ok d"
    by (rule pictures_changed_keeps [OF disjI2 [OF delete_changed [OF _ im]] ok delete_keeps [OF im]])
qed


subsection \<open>Host profiles\<close>

lemma profile_change_keeps:
  assumes ok: "catalog_ok c" and f: "\<And>p. h_id (f p) = h_id p" "\<And>p. h_user (f p) = h_user p"
  shows "catalog_ok (c\<lparr>profiles := update_where P f (profiles c)\<rparr>)" (is "catalog_ok ?d")
proof -
  have owners: "owner_pairs ?d = owner_pairs c" by (simp add: map_update_where f)
  have "listing_ok ?d r = listing_ok c r" for r
    by (rule listing_ok_cong) (simp_all add: items_of_def images_of_def map_update_where f)
  moreover have "owners_ok ?d = owners_ok c" by (rule owners_ok_cong) (simp_all add: map_update_where f)
  moreover have "images_ok ?d = images_ok c" by (rule images_ok_cong) simp
  ultimately show ?thesis using ok by (simp add: catalog_ok_def evidence_ok_def list_all_iff)
qed

lemma agreement_keeps: "catalog_ok c \<Longrightarrow> record_agreement now h c = Inr (x, d) \<Longrightarrow> catalog_ok d"
  by (auto simp: record_agreement_def profile_change_keeps split: if_splits)

lemma connect_keeps: "catalog_ok c \<Longrightarrow> catalog_ok (connect_account h acct c)"
  by (simp add: connect_account_def profile_change_keeps)

lemma start_keeps: "catalog_ok c \<Longrightarrow> catalog_ok (snd (start_onboarding acct h c))"
  by (simp add: start_onboarding_def connect_keeps Let_def split: option.split)

lemma status_keeps: "catalog_ok c \<Longrightarrow> catalog_ok (snd (onboarding_status report h c))"
  by (auto simp: onboarding_status_def Let_def profile_change_keeps split: option.splits)

text \<open>A new profile has no listing yet, and its owner had none.\<close>

lemma profile_keeps:
  assumes ok: "catalog_ok c" and p: "ensure_host_profile x u c = Inr (h, d)"
  shows "catalog_ok d"
proof (cases "first_where (\<lambda>p. h_user p = u) (profiles c)")
  case (Some q)
  with p ok show ?thesis by (simp add: ensure_host_profile_def)
next
  case None
  with p obtain q where d: "d = c\<lparr>profiles := insert_row q (profiles c)\<rparr>" "h_user q = u" "h_id q = x"
    and fresh: "\<forall>p \<in> set (profiles c). h_id p \<noteq> x" "\<forall>p \<in> set (profiles c). h_user p \<noteq> u"
    by (auto simp: ensure_host_profile_def first_where_None split: if_splits)
  have "owners_ok d"
    using catalog_okD(1) [OF ok] fresh d(2,3) by (auto simp: owners_ok_def d(1) insert_row_def list_all_iff)
  moreover have "listing_ok d r" if r: "r \<in> set (listings c)" for r
  proof -
    have "ls_host r \<noteq> x" using catalog_okD(1) [OF ok] r fresh(1) unfolding owners_ok_def list_all_iff row_exists_iff by metis
    then have "others_approved d r = others_approved c r"
      by (cases "ls_approved_by r") (simp_all add: others_approved_def d insert_row_def)
    with catalog_okD(4) [OF ok r] show ?thesis
      by (simp add: listing_ok_def d(1) items_of_def images_of_def)
  qed
  moreover have "images_ok d = images_ok c" by (rule images_ok_cong) (simp add: d(1))
  ultimately show ?thesis using ok by (simp add: catalog_ok_def d(1) evidence_ok_def list_all_iff)
qed

subsection \<open>Every operation\<close>

datatype listing_op =
  Create_listing uuid js_string uuid property_input
| Write_listing uuid property_input
| Save_compliance millis uuid uuid "owner_item list" bool
| Review_compliance millis uuid uuid review_decision js_string
| Review_pilot millis uuid uuid review_decision js_string
| Register_image uuid uuid uuid blob
| Cover_image uuid uuid uuid
| Alt_image uuid uuid uuid "js_string option"
| Reorder_images uuid "uuid list" uuid
| Delete_image uuid uuid uuid
| Agree millis uuid
| Ensure_profile uuid uuid
| Start_onboarding js_string uuid
| Read_status payout_account uuid

definition forget :: "('s, 'e, 'a) tx \<Rightarrow> ('s, unit, unit) tx" where
  "forget f s = (case f s of Inl _ \<Rightarrow> Inl () | Inr (_, t) \<Rightarrow> Inr ((), t))"

lemma forget_Inr: "forget f s = Inr (x, t) \<longleftrightarrow> (\<exists>y. f s = Inr (y, t))"
  by (auto simp: forget_def split: sum.split)

fun listing_body :: "(point \<Rightarrow> point) \<Rightarrow> listing_op \<Rightarrow> (catalog, unit, unit) tx" where
  "listing_body snap (Create_listing i suffix host inp) c =
     (case create_property snap i suffix host inp c of (Inl _, _) \<Rightarrow> Inl () | (Inr _, d) \<Rightarrow> Inr ((), d))"
| "listing_body snap (Write_listing i inp) c = Inr ((), write_property snap i inp c)"
| "listing_body snap (Save_compliance now i u its submit) c = forget (save_owner_compliance now i u its submit) c"
| "listing_body snap (Review_compliance now i u dec n) c = forget (review_property_compliance now i u dec n) c"
| "listing_body snap (Review_pilot now i u dec n) c = forget (review_pilot_listing now i u dec n) c"
| "listing_body snap (Register_image x i u b) c = forget (register_image x i u b) c"
| "listing_body snap (Cover_image i x u) c = forget (set_image_cover i x u) c"
| "listing_body snap (Alt_image i x u alt) c = forget (update_image_alt i x u alt) c"
| "listing_body snap (Reorder_images i ids u) c = forget (reorder_images i ids u) c"
| "listing_body snap (Delete_image i x u) c = forget (delete_image i x u) c"
| "listing_body snap (Agree now h) c = forget (record_agreement now h) c"
| "listing_body snap (Ensure_profile x u) c = forget (ensure_host_profile x u) c"
| "listing_body snap (Start_onboarding acct h) c = Inr ((), snd (start_onboarding (\<lambda>_. acct) h c))"
| "listing_body snap (Read_status st h) c = Inr ((), snd (onboarding_status (\<lambda>_. st) h c))"

lemma listing_body_keeps:
  assumes "catalog_ok c" "listing_body snap op c = Inr (x, d)"
  shows "catalog_ok d"
proof (cases op)
  case (Create_listing i suffix host inp)
  with assms(2) obtain y where "create_property snap i suffix host inp c = (Inr y, d)"
    by (auto split: prod.splits sum.splits)
  then show ?thesis by (rule create_keeps [OF assms(1)])
qed (use assms in \<open>auto simp: forget_Inr intro: write_keeps save_keeps review_keeps pilot_keeps pictures_keep
    agreement_keeps profile_keeps start_keeps status_keeps\<close>)

interpretation listing: guarded_steps "listing_body snap" catalog_ok for snap
  by unfold_locales (rule listing_body_keeps)

definition empty_catalog :: catalog where
  "empty_catalog = \<lparr>listings = [], evidence = [], profiles = [], images = [], amenities = [], catalog_audit = []\<rparr>"

lemma empty_catalog_ok: "catalog_ok empty_catalog"
  by (simp add: catalog_ok_def owners_ok_def evidence_ok_def images_ok_def empty_catalog_def)

definition run_listing :: "(point \<Rightarrow> point) \<Rightarrow> listing_op list \<Rightarrow> catalog \<Rightarrow> catalog" where
  "run_listing snap ops c = fold (\<lambda>op c. snd (with_transaction (listing_body snap op) c)) ops c"

lemma run_listing_keeps: "catalog_ok c \<Longrightarrow> catalog_ok (run_listing snap ops c)"
  using listing.run_keeps [of c snap ops] by (simp add: run_listing_def listing.exec_def [abs_def])

end
