(* ===== verification/Listing_Properties.thy ===== *)
theory Listing_Properties
  imports Listing_Safety Booking
begin

text \<open>
  The properties of listings, over the runs of every operation of \<open>Listing_Safety\<close>, with one run that
  takes a listing from an empty database to HOST's approval.
\<close>

subsection \<open>A run\<close>

definition demo_details :: property_input where
  "demo_details =
     \<lparr>pi_name = Some ''Villa'', pi_type = Some ''house'', pi_description = Some ''Sea view'', pi_city = Some ''York'',
      pi_district = None, pi_country = Some ''GB'', pi_max_guests = Some 4, pi_bedrooms = Some 2,
      pi_bathrooms = Some 1, pi_nightly = Some 100, pi_cleaning = None, pi_currency = None, pi_min_stay = None,
      pi_max_stay = None, pi_policy = Some (Some ''flex''), pi_address1 = Some ''1 High St'', pi_address2 = None,
      pi_town = Some ''York'', pi_county = None, pi_postcode = Some ''YO1'', pi_latitude = Some (Some 54),
      pi_longitude = Some (Some (- 1)), pi_check_in = None, pi_check_out = None, pi_rules = None,
      pi_status = None, pi_amenities = None\<rparr>"

definition no_changes :: property_input where
  "no_changes =
     \<lparr>pi_name = None, pi_type = None, pi_description = None, pi_city = None, pi_district = None, pi_country = None,
      pi_max_guests = None, pi_bedrooms = None, pi_bathrooms = None, pi_nightly = None, pi_cleaning = None,
      pi_currency = None, pi_min_stay = None, pi_max_stay = None, pi_policy = None, pi_address1 = None,
      pi_address2 = None, pi_town = None, pi_county = None, pi_postcode = None, pi_latitude = None,
      pi_longitude = None, pi_check_in = None, pi_check_out = None, pi_rules = None, pi_status = None,
      pi_amenities = None\<rparr>"

definition demo_items :: "owner_item list" where
  "demo_items = map (\<lambda>k. \<lparr>oi_category = k, oi_applicability = Required, oi_declared = True,
     oi_url = Some ''https://e'', oi_ref = None, oi_until = None, oi_note = None\<rparr>) compliance_categories"

definition demo_blob :: "js_string \<Rightarrow> blob" where
  "demo_blob u = \<lparr>bl_url = u, bl_pathname = u, bl_type = ''image/png'', bl_size = 1\<rparr>"

definition demo_ops :: "listing_op list" where
  "demo_ops =
     [Ensure_profile ''host'' ''u1'', Create_listing ''villa'' ''x1'' ''host'' demo_details,
      Start_onboarding ''acct_1'' ''host'', Read_status Account_active ''host'', Agree 0 ''host'',
      Save_compliance 0 ''villa'' ''u1'' demo_items True, Review_compliance 0 ''villa'' ''rev'' Approve ''ok'',
      Register_image ''i1'' ''villa'' ''u1'' (demo_blob ''a''), Register_image ''i2'' ''villa'' ''u1'' (demo_blob ''b''),
      Register_image ''i3'' ''villa'' ''u1'' (demo_blob ''c''), Review_pilot 0 ''villa'' ''rev'' Approve ''ok'']"

definition demo_catalog :: catalog where
  "demo_catalog = run_listing id demo_ops empty_catalog"

lemma demo_catalog_ok: "catalog_ok demo_catalog"
  unfolding demo_catalog_def by (rule run_listing_keeps [OF empty_catalog_ok])

definition demo_listing :: listing_row where
  "demo_listing = hd (listings demo_catalog)"

definition ready_draft :: "catalog \<Rightarrow> bool" where
  "ready_draft c \<longleftrightarrow>
     (let r = hd (listings c) in
      map ls_id (listings c) = [''villa''] \<and> ls_pilot r = Pilot_approved \<and>
      ls_status r = Prop_draft \<and> lc_name (ls_content r) = ''Villa'' \<and> ls_host r = ''host'' \<and>
      ls_rating r = None \<and> ls_review_count r = 0 \<and>
      lc_min_stay (ls_content r) = 1 \<and> lc_max_stay (ls_content r) = 365 \<and>
      map im_id (images_of ''villa'' c) = [''i1'', ''i2'', ''i3''] \<and>
      map_option rr_ready (listing_readiness 0 ''villa'' c) = Some True)"

lemma demo_ready_draft: "ready_draft demo_catalog"
  by code_simp

lemma demo_listing_facts:
  "listings demo_catalog = [demo_listing]" "ls_id demo_listing = ''villa''" "ls_pilot demo_listing = Pilot_approved"
  "ls_status demo_listing = Prop_draft" "lc_name (ls_content demo_listing) = ''Villa''"
  "map im_id (images_of ''villa'' demo_catalog) = [''i1'', ''i2'', ''i3'']"
  "map_option rr_ready (listing_readiness 0 ''villa'' demo_catalog) = Some True"
  "lc_min_stay (ls_content demo_listing) = 1" "lc_max_stay (ls_content demo_listing) = 365"
  "ls_host demo_listing = ''host''" "ls_rating demo_listing = None" "ls_review_count demo_listing = 0"
  using demo_ready_draft by (auto simp: ready_draft_def Let_def demo_listing_def Cons_eq_map_conv)


lemma find_demo_listing: "find_listing ''villa'' demo_catalog = Some demo_listing"
  using demo_listing_facts by simp

lemma demo_ready: "\<exists>rep. listing_readiness 0 ''villa'' demo_catalog = Some rep \<and> rr_ready rep"
  using demo_listing_facts(7) by auto

subsection \<open>What HOST's approval means\<close>

text \<open>
  C16: Whatever hosts and reviewers do, in any order and with edits that skip their check, a listing whose
  review stands has complete details, at least three pictures with one cover, both locations, and an
  approved compliance record with all seven categories evidenced or explained.
\<close>

theorem approved_listing_complete:
  assumes "r \<in> set (listings (run_listing snap ops empty_catalog))" "ls_pilot r = Pilot_approved"
  shows "content_ready (ls_content r) \<and> ls_public r \<noteq> None \<and>
    gallery_ready (images_of (ls_id r) (run_listing snap ops empty_catalog)) \<and> ls_compliance r = Comp_approved \<and>
    record_complete (items_of (ls_id r) (run_listing snap ops empty_catalog))"
proof -
  have "listing_ok (run_listing snap ops empty_catalog) r"
    by (rule catalog_okD(4) [OF run_listing_keeps [OF empty_catalog_ok] assms(1)])
  with assms(2) show ?thesis by (simp add: listing_ok_def content_ready_def)
qed

theorem approved_listing_complete_witness:
  "content_ready (ls_content demo_listing) \<and> ls_public demo_listing \<noteq> None \<and>
    gallery_ready (images_of (ls_id demo_listing) (run_listing id demo_ops empty_catalog)) \<and>
    ls_compliance demo_listing = Comp_approved \<and>
    record_complete (items_of (ls_id demo_listing) (run_listing id demo_ops empty_catalog))"
  by (rule approved_listing_complete) (use demo_listing_facts in \<open>simp_all add: demo_catalog_def\<close>)



subsection \<open>Publication\<close>

lemma find_write_property:
  assumes "find_listing i c = Some r"
  shows "find_listing i (write_property snap i inp c) = Some (on_listing_update r (edit_listing snap inp r))"
proof -
  have "ls_id r = i" using first_where_Some [OF assms] by simp
  moreover have "ls_id (on_listing_update x (edit_listing snap inp x)) = ls_id x" for x
    by (simp add: edit_listing_def Let_def)
  ultimately have "find_listing i (update_listing i (edit_listing snap inp) c) =
      Some (on_listing_update r (edit_listing snap inp r))"
    using assms unfolding listings_update_listing by (subst first_where_update) simp_all
  then show ?thesis by (simp add: write_property_def Let_def split: option.split)
qed

lemma write_property_frame [simp]:
  "evidence (write_property snap i inp c) = evidence c" "images (write_property snap i inp c) = images c"
  "profiles (write_property snap i inp c) = profiles c"
  by (simp_all add: write_property_def Let_def split: option.split)

lemma readiness_ready_iff:
  "(\<exists>rep. listing_readiness today i c = Some rep \<and> rr_ready rep) \<longleftrightarrow>
    (\<exists>r h. find_listing i c = Some r \<and> first_where (\<lambda>h. h_id h = ls_host r) (profiles c) = Some h \<and>
      (\<forall>k \<in> set (build_checks today c r h). rc_ready k))"
  by (auto simp: listing_readiness_def Let_def filter_empty_conv split: option.splits)

lemma publish_check_iff:
  assumes "pi_status inp = Some Prop_published" "find_listing i c = Some r" "ls_status r \<noteq> Prop_published"
  shows "publish_check today i inp c = None \<longleftrightarrow> (\<exists>rep. listing_readiness today i c = Some rep \<and> rr_ready rep)"
  using assms by (auto simp: publish_check_def assert_listing_ready_def split: option.splits if_splits)

text \<open>
  C18: A request that only publishes succeeds exactly when the ten checks pass at that moment, leaves the
  catalog as it was otherwise, and the listing it publishes is approved and still passes every check.
\<close>

theorem publishing_requires_readiness:
  assumes "catalog_ok c" "find_listing i c = Some r" "ls_status r \<noteq> Prop_published"
    "pi_status inp = Some Prop_published" "edit_content inp (ls_content r) = ls_content r"
  shows "(fst (update_property snap today id i inp c) = Inr () \<longleftrightarrow>
      (\<exists>rep. listing_readiness today i c = Some rep \<and> rr_ready rep)) \<and>
    (case update_property snap today id i inp c of
       (Inl _, d) \<Rightarrow> d = c
     | (Inr _, d) \<Rightarrow> \<exists>n rep. find_listing i d = Some n \<and> ls_status n = Prop_published \<and> ls_pilot n = Pilot_approved \<and>
         ls_content n = ls_content r \<and> listing_readiness today i d = Some rep \<and> rr_ready rep)"
proof (cases "\<exists>rep. listing_readiness today i c = Some rep \<and> rr_ready rep")
  case False
  with assms publish_check_iff [OF assms(4,2,3), of today] show ?thesis
    by (auto simp: update_property_def split: option.split)
next
  case True
  then obtain h where h: "first_where (\<lambda>h. h_id h = ls_host r) (profiles c) = Some h"
    "\<forall>k \<in> set (build_checks today c r h). rc_ready k"
    using readiness_ready_iff [of today i c] assms(2) by auto
  let ?d = "write_property snap i inp c" and ?n = "edit_listing snap inp r"
  have content: "ls_content ?n = ls_content r" by (simp add: edit_listing_def Let_def assms(5))
  have keys: "ls_id ?n = ls_id r" "ls_host ?n = ls_host r" "ls_pilot ?n = ls_pilot r" "ls_status ?n = Prop_published"
    "ls_compliance ?n = ls_compliance r"
    by (simp_all add: edit_listing_def Let_def assms(4) given_def)
  have pub: "ls_public ?n \<noteq> None"
    using h(2) by (auto simp: edit_listing_def Let_def assms(5) build_checks_def)
  have n: "find_listing i ?d = Some ?n"
    unfolding find_write_property [OF assms(2)] by (simp add: on_listing_update_def content keys)
  have "\<forall>k \<in> set (build_checks today ?d ?n h). rc_ready k"
    using h(2) pub by (simp add: build_checks_def Let_def content keys items_of_def images_of_def)
  with n h(1) have "\<exists>rep. listing_readiness today i ?d = Some rep \<and> rr_ready rep"
    unfolding readiness_ready_iff by (simp add: keys)
  moreover have "ls_pilot r = Pilot_approved" using h(2) by (simp add: build_checks_def Let_def)
  moreover have "update_property snap today id i inp c = (Inr (), ?d)"
    using True publish_check_iff [OF assms(4,2,3), of today] by (simp add: update_property_def)
  ultimately show ?thesis using True n keys content by auto
qed

lemma no_changes_edit: "edit_content (no_changes\<lparr>pi_status := st\<rparr>) k = k"
  by (simp add: edit_content_def no_changes_def given_def)

theorem publishing_requires_readiness_witness:
  "fst (update_property id 0 id ''villa'' (no_changes\<lparr>pi_status := Some Prop_published\<rparr>) demo_catalog) = Inr ()"
  using publishing_requires_readiness [OF demo_catalog_ok find_demo_listing, of "no_changes\<lparr>pi_status := Some Prop_published\<rparr>" id 0]
    demo_ready by (simp add: demo_listing_facts no_changes_edit)

text \<open>
  A request that publishes an approved draft and edits it at the same time passes the check on the old
  content and leaves the new content published without a review: the trigger withdraws the approval but
  makes only listings that were published before into drafts. Guests can book the listing: the property
  the booking side reads is published, approved for compliance and has no expired evidence.
\<close>

lemma publish_with_edit_skips_review:
  assumes "catalog_ok c" "find_listing i c = Some r" "ls_status r \<noteq> Prop_published"
    "pi_status inp = Some Prop_published" "edit_content inp (ls_content r) \<noteq> ls_content r"
    "listing_readiness today i c = Some rep" "rr_ready rep"
  shows "\<exists>n. update_property snap today id i inp c = (Inr (), write_property snap i inp c) \<and>
    find_listing i (write_property snap i inp c) = Some n \<and>
    ls_status n = Prop_published \<and> ls_pilot n = Pilot_pending \<and> ls_content n = edit_content inp (ls_content r) \<and>
    find_property i (with_catalog (write_property snap i inp c) s) = Some (property_of n) \<and>
    stay_guard today (with_catalog (write_property snap i inp c) s) (property_of n) guests nights \<noteq> Some Property_not_available"
proof -
  obtain h where h: "\<forall>k \<in> set (build_checks today c r h). rc_ready k"
    using readiness_ready_iff [of today i c] assms(2,6,7) by auto
  let ?d = "write_property snap i inp c" and ?n = "edit_listing snap inp r"
  let ?w = "withdraw_approval ?n"
  have i: "ls_id r = i" using first_where_Some [OF assms(2)] by simp
  have keys: "ls_id ?n = i" "ls_status ?n = Prop_published" "ls_content ?n = edit_content inp (ls_content r)"
    "ls_compliance ?n = ls_compliance r"
    by (simp_all add: edit_listing_def Let_def assms(4) given_def i)
  have ready: "ls_pilot r = Pilot_approved" "ls_compliance r = Comp_approved"
    "row_count (expired_item today) (items_of i c) = 0"
    using h by (simp_all add: build_checks_def Let_def i)
  have n: "find_listing i ?d = Some ?w"
    unfolding find_write_property [OF assms(2)] using ready assms(3,5) by (simp add: on_listing_update_def keys)
  have w: "ls_status ?w = Prop_published" "ls_pilot ?w = Pilot_pending" "ls_content ?w = edit_content inp (ls_content r)"
    "ls_compliance ?w = Comp_approved" "ls_id ?w = i"
    by (simp_all add: withdraw_approval_def keys ready)
  have "first_where (\<lambda>p. p_id p = i) (map property_of t) = map_option property_of (first_where (\<lambda>r. ls_id r = i) t)" for t
    by (induction t) (simp_all add: property_of_def Let_def)
  with n have p: "find_property i (with_catalog ?d s) = Some (property_of ?w)"
    by (simp add: with_catalog_def)
  have "\<not> has_expired_evidence today (compliance (with_catalog ?d s)) i"
    using ready(3) by (auto simp: has_expired_evidence_def with_catalog_def row_count_zero_iff items_of_def expired_item_def
        compliance_item.defs)
  with w have "stay_guard today (with_catalog ?d s) (property_of ?w) guests nights \<noteq> Some Property_not_available"
    by (simp add: stay_guard_def property_of_def Let_def)
  moreover have "update_property snap today id i inp c = (Inr (), ?d)"
    using assms publish_check_iff [OF assms(4,2,3), of today] by (auto simp: update_property_def)
  ultimately show ?thesis using n w p by blast
qed

lemma publish_with_edit_skips_review_witness:
  "\<exists>n. find_listing ''villa'' (write_property id ''villa''
        (no_changes\<lparr>pi_status := Some Prop_published, pi_name := Some ''Casino''\<rparr>) demo_catalog) = Some n \<and>
    ls_status n = Prop_published \<and> ls_pilot n = Pilot_pending"
proof -
  let ?inp = "no_changes\<lparr>pi_status := Some Prop_published, pi_name := Some ''Casino''\<rparr>"
  obtain rep where rep: "listing_readiness 0 ''villa'' demo_catalog = Some rep" "rr_ready rep" using demo_ready by blast
  have "lc_name (edit_content ?inp (ls_content demo_listing)) = ''Casino''"
    by (simp add: edit_content_def no_changes_def given_def)
  then have "edit_content ?inp (ls_content demo_listing) \<noteq> ls_content demo_listing"
    using demo_listing_facts(5) by auto
  from publish_with_edit_skips_review [OF demo_catalog_ok find_demo_listing _ _ this rep,
      where snap = id and s = empty_store and guests = 0 and nights = 0]
  show ?thesis by (auto simp: demo_listing_facts)
qed


text \<open>
  Asking for changes does not take a listing down: HOST's review of a published listing with the
  decision to request changes goes through and leaves it published and bookable as before, only its
  review status says that changes are required.
\<close>

lemma changes_required_stays_published:
  assumes "find_listing i c = Some r" "first_where (\<lambda>h. h_id h = ls_host r) (profiles c) = Some h"
  shows "\<exists>rep d n. review_pilot_listing now i u Request_changes note c = Inr (rep, d) \<and> find_listing i d = Some n \<and>
    ls_pilot n = Pilot_changes_required \<and> property_of n = property_of r"
proof -
  let ?f = "\<lambda>r. r\<lparr>ls_pilot := Pilot_changes_required, ls_pilot_at := Some now, ls_pilot_by := Some u,
     ls_pilot_note := null_if_empty (js_trim note)\<rparr>"
  have f: "on_listing_update x (?f x) = ?f x" for x by (simp add: on_listing_update_def)
  have n: "find_listing i (update_listing i ?f c) = Some (?f r)"
    unfolding listings_update_listing f using assms(1) first_where_Some [OF assms(1)] by (subst first_where_update) simp_all
  have "listing_readiness (day_of_ms now) i c \<noteq> None" using assms by (simp add: listing_readiness_def Let_def)
  moreover have "listing_readiness (day_of_ms now) i (log_catalog u i (Pilot_reviewed Request_changes (null_if_empty (js_trim note)))
      (update_listing i ?f c)) \<noteq> None"
    using assms(2) n by (simp add: listing_readiness_def Let_def)
  ultimately have "\<exists>rep. review_pilot_listing now i u Request_changes note c = Inr (rep,
      log_catalog u i (Pilot_reviewed Request_changes (null_if_empty (js_trim note))) (update_listing i ?f c))"
    using assms(1) by (auto simp: review_pilot_listing_def pilot_status_of_def Let_def split: option.split)
  moreover have "property_of (?f r) = property_of r" by (simp add: property_of_def Let_def)
  ultimately show ?thesis using n by force
qed

lemma changes_required_stays_published_witness:
  "\<exists>rep d n. review_pilot_listing 0 ''villa'' ''rev'' Request_changes ''x'' demo_catalog = Inr (rep, d) \<and>
    find_listing ''villa'' d = Some n \<and> ls_pilot n = Pilot_changes_required \<and> property_of n = property_of demo_listing"
proof -
  obtain h where "first_where (\<lambda>h. h_id h = ls_host demo_listing) (profiles demo_catalog) = Some h"
    using demo_ready readiness_ready_iff [of 0 "''villa''" demo_catalog] find_demo_listing by auto
  then show ?thesis by (rule changes_required_stays_published [OF find_demo_listing])
qed

subsection \<open>Pictures\<close>

text \<open>
  Whatever is uploaded, moved, chosen or deleted, a property with pictures has exactly one cover, at
  most thirty pictures, and no two of them at the same position or under the same address.
\<close>

lemma galleries_keep_one_cover:
  "list_all (\<lambda>m. row_count im_cover (images_of (im_property m) (run_listing snap ops empty_catalog)) = 1 \<and>
       length (images_of (im_property m) (run_listing snap ops empty_catalog)) \<le> max_property_images \<and>
       distinct (map im_order (images_of (im_property m) (run_listing snap ops empty_catalog))))
     (images (run_listing snap ops empty_catalog)) \<and>
   distinct (map im_url (images (run_listing snap ops empty_catalog)))"
proof -
  let ?c = "run_listing snap ops empty_catalog"
  have ok: "images_ok ?c" by (rule catalog_okD(3) [OF run_listing_keeps [OF empty_catalog_ok]])
  have "gallery_ok (images_of (im_property m) ?c) \<and> images_of (im_property m) ?c \<noteq> []" if "m \<in> set (images ?c)" for m
  proof
    show "gallery_ok (images_of (im_property m) ?c)" using ok by (simp add: images_ok_iff)
    have "m \<in> set (images_of (im_property m) ?c)" using that by (simp add: in_images_of)
    then show "images_of (im_property m) ?c \<noteq> []" by auto
  qed
  with ok show ?thesis by (simp add: list_all_iff images_ok_iff gallery_ok_def)
qed

text \<open>
  A new order is accepted exactly when it names every picture of the property once, by its owner, and
  then the pictures are listed in that order, first to last, and nothing else about them changes.
\<close>

lemma reorder_is_exact:
  assumes "images_ok c"
  shows "case reorder_images i ids u c of
      Inl _ \<Rightarrow> \<not> (owns_property i u c \<and> distinct ids \<and> set ids = im_id ` set (images_of i c))
    | Inr (l, d) \<Rightarrow> owns_property i u c \<and> distinct ids \<and> set ids = im_id ` set (images_of i c) \<and>
        list_property_images i u d = Inr l \<and> map im_id l = ids \<and>
        (\<forall>j. map (\<lambda>m. m\<lparr>im_order := 0\<rparr>) (images_of j d) = map (\<lambda>m. m\<lparr>im_order := 0\<rparr>) (images_of j c))"
proof (cases "reorder_images i ids u c")
  case (Inl e)
  have "distinct (map im_id (images_of i c))" using assms by (simp add: images_ok_iff distinct_images_of)
  then have "length (images_of i c) = card (im_id ` set (images_of i c))"
    using distinct_card [of "map im_id (images_of i c)"] by simp
  with Inl show ?thesis
    using distinct_card [of ids]
    by (auto simp: reorder_images_def Let_def in_order_def list_ex_iff distinct_remdups_id split: if_splits)
next
  case (Inr p)
  obtain l d where p: "p = (l, d)" by (cases p)
  note r = Inr [unfolded p]
  note cs = reorder_cases [OF r assms]
  have "owns_property i u d = owns_property i u c"
  proof -
    have ls: "profiles d = profiles c" "d = c \<or> listings d = listings (on_image_change i c)"
      using r by (auto simp: reorder_images_def Let_def listings_on_image_change split: if_splits)
    have "owns_property i u c = row_exists (\<lambda>k. fst k = i \<and> row_exists (\<lambda>h. h_id h = snd k \<and> h_user h = u) (profiles c))
        (map (\<lambda>r. (ls_id r, ls_host r)) (listings c))" for c :: catalog
      by (simp add: owns_property_def)
    moreover have "map (\<lambda>r. (ls_id r, ls_host r)) (listings d) = map (\<lambda>r. (ls_id r, ls_host r)) (listings c)"
      using ls(2) by (auto simp: on_image_change_def map_update_where withdraw_approval_def)
    ultimately show ?thesis using ls(1) by (simp only:)
  qed
  then have "list_property_images i u d = Inr l"
    using cs(1,6) by (simp add: list_property_images_def)
  moreover have "map (\<lambda>m. m\<lparr>im_order := 0\<rparr>) (images_of j d) = map (\<lambda>m. m\<lparr>im_order := 0\<rparr>) (images_of j c)" for j
    by (simp add: reordered_images [OF r assms])
  moreover have "map im_id l = ids" unfolding cs(6) by (rule reorder_result [OF r assms])
  ultimately show ?thesis using cs(1-3) by (simp add: r)
qed

lemma reorder_is_exact_witness:
  "case reorder_images ''villa'' [''i3'', ''i1'', ''i2''] ''u1'' demo_catalog of
      Inl _ \<Rightarrow> \<not> (owns_property ''villa'' ''u1'' demo_catalog \<and> distinct [''i3'', ''i1'', ''i2''] \<and>
        set [''i3'', ''i1'', ''i2''] = im_id ` set (images_of ''villa'' demo_catalog))
    | Inr (l, d) \<Rightarrow> map im_id l = [''i3'', ''i1'', ''i2'']"
  using reorder_is_exact [OF catalog_okD(3) [OF demo_catalog_ok],
      where i = "''villa''" and ids = "[''i3'', ''i1'', ''i2'']" and u = "''u1''"]
  by (auto split: sum.splits prod.splits)

subsection \<open>Slugs\<close>

text \<open>Words of letters and digits joined by single dashes: what the automaton accepts, by its ends.\<close>

fun single_dashes :: "bool \<Rightarrow> js_string \<Rightarrow> bool" where
  "single_dashes dash [] = True"
| "single_dashes dash (c # s) =
     (if slug_char c then single_dashes False s else c = CHR ''-'' \<and> \<not> dash \<and> single_dashes True s)"

lemma slug_scan_iff:
  "slug_scan w s \<longleftrightarrow> single_dashes (\<not> w) s \<and> (if s = [] then w else slug_char (last s))"
  by (induction w s rule: slug_scan.induct) auto

lemma slug_char_dash [simp]: "\<not> slug_char (CHR ''-'')"
  by code_simp

lemma single_dashes_append:
  "single_dashes b (s @ t) \<longleftrightarrow> single_dashes b s \<and> single_dashes (if s = [] then b else \<not> slug_char (last s)) t"
  by (induction b s rule: single_dashes.induct) auto

lemma single_dashes_runs: "single_dashes b (dash_runs b s)"
  by (induction b s rule: dash_runs.induct) auto

lemma single_dashes_weaken: "single_dashes True s \<Longrightarrow> single_dashes False s"
  by (cases s) (auto split: if_splits)

lemma single_dashes_strip:
  assumes "single_dashes False s"
  shows "single_dashes True (strip_dashes s)"
proof -
  let ?p = "\<lambda>c. c = CHR ''-''"
  have "single_dashes True (dropWhile ?p s)"
  proof (cases "dropWhile ?p s")
    case (Cons c t)
    then have "c \<noteq> CHR ''-''" using hd_dropWhile [of ?p s] by simp
    moreover have "single_dashes b (c # t) \<Longrightarrow> slug_char c \<or> c = CHR ''-''" for b by (auto split: if_splits)
    moreover have "\<exists>b. single_dashes b (c # t)"
      using assms takeWhile_dropWhile_id [of ?p s] Cons by (metis single_dashes_append)
    ultimately show ?thesis using Cons by auto
  qed (simp only: single_dashes.simps)
  moreover have "\<exists>u. dropWhile ?p s = strip_dashes s @ u"
    unfolding strip_dashes_def
    by (metis rev_append rev_rev_ident takeWhile_dropWhile_id)
  ultimately show ?thesis using single_dashes_append by metis
qed

lemma single_dashes_words: "single_dashes True (slug_words name)"
  unfolding slug_words_def by (intro single_dashes_strip single_dashes_runs)

lemma single_dashes_letters: "list_all slug_char s \<Longrightarrow> single_dashes b s"
  by (induction s arbitrary: b) auto

text \<open>
  The slug made for a listing is one the public page accepts exactly when cutting the name's words to
  sixty characters does not leave a dash at the end; a name whose words break at the sixtieth character
  gets a slug with two dashes, and the listing's public address is refused.
\<close>

lemma slug_accepted_iff:
  assumes "suffix \<noteq> []" "list_all slug_char suffix"
  shows "slug_pattern (generate_slug name suffix) \<longleftrightarrow>
    take 60 (slug_words name) = [] \<or> last (take 60 (slug_words name)) \<noteq> CHR ''-''"
proof -
  define base where "base = (if take 60 (slug_words name) = [] then ''property'' else take 60 (slug_words name))"
  have "single_dashes True (take 60 (slug_words name))"
    using single_dashes_words [of name] append_take_drop_id [of 60 "slug_words name"] by (metis single_dashes_append)
  moreover have "single_dashes True ''property''" "slug_char (last ''property'')" by code_simp+
  ultimately have b: "single_dashes True base" "base \<noteq> []" "take 60 (slug_words name) = [] \<Longrightarrow> slug_char (last base)"
    by (auto simp only: base_def if_True if_False split: if_splits)
  have "slug_char (last suffix)" using assms by (simp add: list_all_iff)
  then have "slug_pattern (base @ ''-'' @ suffix) \<longleftrightarrow> slug_char (last base)"
    using assms b by (simp add: slug_pattern_def slug_scan_iff single_dashes_append single_dashes_letters)
  moreover have "slug_char (last base) \<or> last base = CHR ''-''"
  proof -
    have "single_dashes True (butlast base @ [last base])" using b by simp
    then show ?thesis unfolding single_dashes_append by (auto split: if_splits)
  qed
  moreover have "generate_slug name suffix = base @ ''-'' @ suffix"
    by (simp only: generate_slug_def Let_def base_def)
  moreover have "base = take 60 (slug_words name)" if "take 60 (slug_words name) \<noteq> []"
    using that by (simp only: base_def if_False)
  ultimately show ?thesis
    using b(3) slug_char_dash by (cases "take 60 (slug_words name) = []") (simp only:, metis)+
qed

lemma slug_accepted_iff_witness:
  "slug_pattern (generate_slug ''Villa'' ''x1'') \<longleftrightarrow>
    take 60 (slug_words ''Villa'') = [] \<or> last (take 60 (slug_words ''Villa'')) \<noteq> CHR ''-''"
  by (rule slug_accepted_iff) code_simp+

text \<open>A name on which it happens: fifty-nine letters, a space and one more word.\<close>

lemma long_name_refused: "\<not> slug_pattern (generate_slug (replicate 59 (CHR ''a'') @ '' b'') ''x1'')"
  by code_simp

end
