(* ===== verification/Messages.thy ===== *)
theory Messages
  imports Accounts
begin

text \<open>
  Conversations and notifications: lib/messaging/conversations.ts and systemMessages.ts,
  lib/notifications/templates.ts, sendNotification.ts and the preferences route, and the messages route
  of a booking. A row's identifier, which the database draws at random, is the number of rows inserted
  before it. Delivery of mail is an argument that answers with an error text or not; the
  arrow and the dash of some templates lie outside the range of \<open>js_string\<close> and are an argument too,
  from the code point to its text. Both come in the record \<open>mail_env\<close>.
\<close>

subsection \<open>Templates\<close>

datatype notification_type =
  Booking_confirmed | Payment_failed_notice | Booking_cancelled_notice | Refund_issued | New_message
  | Checkin_reminder | Checkin_info_available | Review_request | Host_new_booking | Host_booking_cancelled

record template_context =
  tc_host :: "js_string option"
  tc_property :: "js_string option"
  tc_check_in :: "js_string option"
  tc_check_out :: "js_string option"
  tc_booking :: "js_string option"
  tc_refund :: "js_string option"
  tc_time :: "js_string option"
  tc_instructions :: "js_string option"
  tc_review_url :: "js_string option"

definition empty_context :: template_context where
  "empty_context =
     \<lparr>tc_host = None, tc_property = None, tc_check_in = None, tc_check_out = None, tc_booking = None,
      tc_refund = None, tc_time = None, tc_instructions = None, tc_review_url = None\<rparr>"

text \<open>A value in a template literal: an absent one is written \<open>undefined\<close>. An empty text counts as false.\<close>

definition shown :: "js_string option \<Rightarrow> js_string" where
  "shown v = (case v of None \<Rightarrow> ''undefined'' | Some t \<Rightarrow> t)"

definition when_given :: "js_string option \<Rightarrow> (js_string \<Rightarrow> js_string) \<Rightarrow> js_string" where
  "when_given v f = (case v of None \<Rightarrow> [] | Some t \<Rightarrow> if t = [] then [] else f t)"

record rendered =
  rn_subject :: js_string
  rn_body :: js_string

definition render_notification :: "(nat \<Rightarrow> js_string) \<Rightarrow> notification_type \<Rightarrow> template_context \<Rightarrow> rendered" where
  "render_notification glyph ty x =
     (let p = shown (tc_property x); dates = shown (tc_check_in x) @ '' '' @ glyph 8594 @ '' '' @ shown (tc_check_out x);
          ref = shown (tc_booking x) in
      case ty of
        Booking_confirmed \<Rightarrow>
          \<lparr>rn_subject = ''Your booking at '' @ p @ '' is confirmed'',
           rn_body = ''Your booking is confirmed. '' @ p @ '', '' @ dates @ ''. Reference '' @ ref @ ''.''\<rparr>
      | Payment_failed_notice \<Rightarrow>
          \<lparr>rn_subject = ''We couldn't complete your payment'',
           rn_body = ''Your payment attempt for '' @ p @
             '' didn't go through. Your booking isn't confirmed yet '' @ glyph 8212 @ '' you can retry payment from your trip.''\<rparr>
      | Booking_cancelled_notice \<Rightarrow>
          \<lparr>rn_subject = ''Your booking at '' @ p @ '' has been cancelled'',
           rn_body = ''Your booking ('' @ ref @ '') has been cancelled.'' @
             when_given (tc_refund x) (\<lambda>a. '' A refund of '' @ a @ '' has been initiated.'')\<rparr>
      | Refund_issued \<Rightarrow>
          \<lparr>rn_subject = ''Your refund has been issued'',
           rn_body = ''A refund of '' @ shown (tc_refund x) @ '' for booking '' @ ref @
             '' has been issued to your original payment method.''\<rparr>
      | New_message \<Rightarrow>
          \<lparr>rn_subject = ''New message about '' @ p,
           rn_body = ''You have a new message about the booking at '' @ p @ ''.''\<rparr>
      | Checkin_reminder \<Rightarrow>
          \<lparr>rn_subject = ''Your stay begins tomorrow'',
           rn_body = ''Your stay begins tomorrow. '' @ p @ '', check-in from '' @
             (case tc_time x of None \<Rightarrow> ''the property's usual check-in time'' | Some t \<Rightarrow> t) @ ''.''\<rparr>
      | Checkin_info_available \<Rightarrow>
          \<lparr>rn_subject = ''Check-in information for '' @ p,
           rn_body = ''Check-in information is now available for your upcoming stay.'' @
             when_given (tc_instructions x) (\<lambda>t. '' '' @ t)\<rparr>
      | Review_request \<Rightarrow>
          \<lparr>rn_subject = ''How was your stay at '' @ p @ ''?'',
           rn_body = ''How was your stay? Your feedback helps other guests and the host. Leave a review: '' @
             (case tc_review_url x of None \<Rightarrow> ''(booking '' @ ref @ '')'' | Some u \<Rightarrow> u)\<rparr>
      | Host_new_booking \<Rightarrow>
          \<lparr>rn_subject = ''New booking for '' @ p,
           rn_body = ''You have a new confirmed booking. '' @ p @ '', '' @ dates @ ''. Reference '' @ ref @ ''.''\<rparr>
      | Host_booking_cancelled \<Rightarrow>
          \<lparr>rn_subject = ''Booking cancelled for '' @ p,
           rn_body = ''The booking for '' @ p @ '', '' @ dates @ '', has been cancelled. Reference '' @ ref @ ''.''\<rparr>)"

subsection \<open>Rows\<close>

record conversation =
  cv_id :: nat
  cv_booking :: uuid
  cv_property :: uuid
  cv_guest :: uuid
  cv_host :: uuid
  cv_updated :: millis

datatype sender = From_guest | From_host | From_system

record message =
  ms_id :: nat
  ms_conversation :: nat
  ms_sender :: sender
  ms_user :: "uuid option"
  ms_body :: js_string
  ms_attachment :: "js_string option"
  ms_system :: bool
  ms_read :: "millis option"
  ms_created :: millis

datatype channel = In_app | Email

datatype delivery = Delivery_pending | Delivery_sent | Delivery_failed js_string

record notification =
  nf_id :: nat
  nf_user :: uuid
  nf_type :: notification_type
  nf_channel :: channel
  nf_text :: rendered
  nf_context :: template_context
  nf_status :: delivery

record preference_row =
  pf_user :: uuid
  pf_email :: bool
  pf_push :: bool
  pf_sms :: bool

record mailbox =
  conversations :: "conversation list"
  messages :: "message list"
  notifications :: "notification list"
  preferences :: "preference_row list"

definition empty_mailbox :: mailbox where
  "empty_mailbox = \<lparr>conversations = [], messages = [], notifications = [], preferences = []\<rparr>"

abbreviation conversation_of :: "uuid \<Rightarrow> mailbox \<Rightarrow> conversation option" where
  "conversation_of bk m \<equiv> first_where (\<lambda>c. cv_booking c = bk) (conversations m)"

datatype message_error = No_booking | No_property | Admin_posts | Access_denied auth_error

subsection \<open>Conversations\<close>

definition new_conversation :: "millis \<Rightarrow> booking \<Rightarrow> mailbox \<Rightarrow> conversation" where
  "new_conversation now b m =
     \<lparr>cv_id = length (conversations m), cv_booking = b_id b, cv_property = b_property b, cv_guest = b_guest b,
      cv_host = b_host b, cv_updated = now\<rparr>"

definition open_conversation :: "millis \<Rightarrow> store \<Rightarrow> uuid \<Rightarrow> (mailbox, message_error, conversation) tx" where
  "open_conversation now s bk m =
     (case conversation_of bk m of
        Some c \<Rightarrow> Inr (c, m)
      | None \<Rightarrow>
          (case find_booking bk s of
             None \<Rightarrow> Inl No_booking
           | Some b \<Rightarrow>
               let c = new_conversation now b m
               in Inr (c, m\<lparr>conversations := insert_row c (conversations m)\<rparr>)))"

definition send_message ::
  "millis \<Rightarrow> store \<Rightarrow> uuid \<Rightarrow> sender \<Rightarrow> uuid option \<Rightarrow> js_string \<Rightarrow> js_string option \<Rightarrow>
    (mailbox, message_error, message) tx" where
  "send_message now s bk who u body att m =
     (case open_conversation now s bk m of
        Inl e \<Rightarrow> Inl e
      | Inr (c, m1) \<Rightarrow>
          let msg = \<lparr>ms_id = length (messages m1), ms_conversation = cv_id c, ms_sender = who, ms_user = u,
                ms_body = body, ms_attachment = att, ms_system = (who = From_system), ms_read = None, ms_created = now\<rparr>
          in Inr (msg, m1\<lparr>messages := insert_row msg (messages m1),
               conversations := update_where (\<lambda>x. cv_id x = cv_id c) (\<lambda>x. x\<lparr>cv_updated := now\<rparr>) (conversations m1)\<rparr>))"

definition list_messages :: "uuid \<Rightarrow> mailbox \<Rightarrow> message list" where
  "list_messages bk m =
     (case conversation_of bk m of
        None \<Rightarrow> []
      | Some c \<Rightarrow> sort_key ms_created (select_where (\<lambda>x. ms_conversation x = cv_id c) (messages m)))"

definition mark_conversation_read :: "millis \<Rightarrow> uuid \<Rightarrow> uuid \<Rightarrow> mailbox \<Rightarrow> nat \<times> mailbox" where
  "mark_conversation_read now bk u m =
     (case conversation_of bk m of
        None \<Rightarrow> (0, m)
      | Some c \<Rightarrow>
          let hit = (\<lambda>x. ms_conversation x = cv_id c \<and> ms_read x = None \<and> ms_user x \<noteq> Some u)
          in (row_count hit (messages m), m\<lparr>messages := update_where hit (\<lambda>x. x\<lparr>ms_read := Some now\<rparr>) (messages m)\<rparr>))"

definition takes_part :: "uuid \<Rightarrow> store \<Rightarrow> conversation \<Rightarrow> bool" where
  "takes_part u s c \<longleftrightarrow> u = cv_guest c \<or> row_exists (\<lambda>h. h_id h = cv_host c \<and> h_user h = u) (hosts s)"

definition unread_for :: "uuid \<Rightarrow> store \<Rightarrow> mailbox \<Rightarrow> message \<Rightarrow> bool" where
  "unread_for u s m x \<longleftrightarrow> ms_read x = None \<and> ms_user x \<noteq> Some u \<and>
     row_exists (\<lambda>c. cv_id c = ms_conversation x \<and> takes_part u s c) (conversations m)"

definition get_unread_count :: "uuid \<Rightarrow> store \<Rightarrow> mailbox \<Rightarrow> nat" where
  "get_unread_count u s m = row_count (unread_for u s m) (messages m)"

subsection \<open>Notifications\<close>

text \<open>
  What the environment supplies: delivery of mail (to, subject, body), characters beyond \<open>js_string\<close>,
  the text of a date, a host's display name, the address of the site, and the accounts table.
\<close>

record mail_env =
  me_deliver :: "js_string \<Rightarrow> js_string \<Rightarrow> js_string \<Rightarrow> js_string option"
  me_glyph :: "nat \<Rightarrow> js_string"
  me_date :: "day \<Rightarrow> js_string"
  me_host_name :: "uuid \<Rightarrow> js_string option"
  me_site :: js_string
  me_accounts :: accounts

definition preference_of :: "uuid \<Rightarrow> mailbox \<Rightarrow> preference_row" where
  "preference_of u m = (case first_where (\<lambda>p. pf_user p = u) (preferences m) of
     None \<Rightarrow> \<lparr>pf_user = u, pf_email = True, pf_push = True, pf_sms = False\<rparr> | Some p \<Rightarrow> p)"

definition set_preferences ::
  "uuid \<Rightarrow> bool option \<Rightarrow> bool option \<Rightarrow> bool option \<Rightarrow> mailbox \<Rightarrow> mailbox" where
  "set_preferences u email push sms m =
     (let pick = (\<lambda>v old. case v of None \<Rightarrow> old | Some x \<Rightarrow> x) in
      if row_exists (\<lambda>p. pf_user p = u) (preferences m)
      then m\<lparr>preferences := update_where (\<lambda>p. pf_user p = u)
             (\<lambda>p. p\<lparr>pf_email := pick email (pf_email p), pf_push := pick push (pf_push p), pf_sms := pick sms (pf_sms p)\<rparr>)
             (preferences m)\<rparr>
      else m\<lparr>preferences := insert_row
             \<lparr>pf_user = u, pf_email = pick email True, pf_push = pick push True, pf_sms = pick sms False\<rparr> (preferences m)\<rparr>)"

definition insert_notification ::
  "uuid \<Rightarrow> notification_type \<Rightarrow> channel \<Rightarrow> rendered \<Rightarrow> template_context \<Rightarrow> delivery \<Rightarrow> mailbox \<Rightarrow> mailbox" where
  "insert_notification u ty ch txt x st m =
     m\<lparr>notifications := insert_row \<lparr>nf_id = length (notifications m), nf_user = u, nf_type = ty, nf_channel = ch,
        nf_text = txt, nf_context = x, nf_status = st\<rparr> (notifications m)\<rparr>"

definition notify_user ::
  "mail_env \<Rightarrow> uuid \<Rightarrow> notification_type \<Rightarrow>
    template_context \<Rightarrow> mailbox \<Rightarrow> mailbox" where
  "notify_user env u ty x m =
     (let txt = render_notification (me_glyph env) ty x;
          m1 = insert_notification u ty In_app txt x Delivery_sent m
      in if \<not> pf_email (preference_of u m) then m1
         else
           let i = length (notifications m1);
               m2 = insert_notification u ty Email txt x Delivery_pending m1;
               st = (case find_user u (me_accounts env) of
                       None \<Rightarrow> Delivery_failed ''User has no email on file''
                     | Some r \<Rightarrow> (case me_deliver env (us_email r) (rn_subject txt) (rn_body txt) of
                                   None \<Rightarrow> Delivery_sent | Some e \<Rightarrow> Delivery_failed e))
           in m2\<lparr>notifications := update_where (\<lambda>n. nf_id n = i) (\<lambda>n. n\<lparr>nf_status := st\<rparr>) (notifications m2)\<rparr>)"

definition send_system_message ::
  "mail_env \<Rightarrow> millis \<Rightarrow> store \<Rightarrow> uuid \<Rightarrow>
    notification_type \<Rightarrow> template_context \<Rightarrow> uuid \<Rightarrow> mailbox \<Rightarrow> message_error option \<times> mailbox" where
  "send_system_message env now s bk ty x u m =
     (case send_message now s bk From_system None (rn_body (render_notification (me_glyph env) ty x)) None m of
        Inl e \<Rightarrow> (Some e, m)
      | Inr (_, m1) \<Rightarrow> (None, notify_user env u ty x m1))"

subsection \<open>The messages route\<close>

definition post_message ::
  "mail_env \<Rightarrow> millis \<Rightarrow> store \<Rightarrow> jwt \<Rightarrow> uuid \<Rightarrow>
    js_string \<Rightarrow> js_string option \<Rightarrow> (mailbox, message_error, message) tx" where
  "post_message env now s t bk body att m =
     (case resolve_booking_access t bk s of
        Inl e \<Rightarrow> Inl (Access_denied e)
      | Inr acc \<Rightarrow>
          if ac_role acc = Admin then Inl Admin_posts
          else
            (case find_property (ac_property acc) s of
               None \<Rightarrow> Inl No_property
             | Some p \<Rightarrow>
                 let x = empty_context\<lparr>tc_booking := Some bk, tc_property := Some (p_name p)\<rparr>;
                     who = (if ac_role acc = Guest then From_guest else From_host)
                 in (case send_message now s bk who (Some (jw_user t)) body att m of
                       Inl e \<Rightarrow> Inl e
                     | Inr (msg, m1) \<Rightarrow>
                         Inr (msg,
                           if ac_role acc = Guest
                           then (case first_where (\<lambda>h. h_id h = ac_host acc) (hosts s) of
                                   None \<Rightarrow> m1 | Some h \<Rightarrow> notify_user env (h_user h) New_message x m1)
                           else notify_user env (ac_guest acc) New_message x m1))))"

definition read_conversation :: "millis \<Rightarrow> store \<Rightarrow> jwt \<Rightarrow> uuid \<Rightarrow> mailbox \<Rightarrow> (auth_error + nat) \<times> mailbox" where
  "read_conversation now s t bk m =
     (case resolve_booking_access t bk s of
        Inl e \<Rightarrow> (Inl e, m)
      | Inr _ \<Rightarrow> let (n, m1) = mark_conversation_read now bk (jw_user t) m in (Inr n, m1))"


subsection \<open>What holds of every mailbox\<close>

definition parties_match :: "store \<Rightarrow> conversation \<Rightarrow> bool" where
  "parties_match s c \<longleftrightarrow> (case find_booking (cv_booking c) s of None \<Rightarrow> False
     | Some b \<Rightarrow> cv_property c = b_property b \<and> cv_guest c = b_guest b \<and> cv_host c = b_host b)"

definition mailbox_ok :: "store \<Rightarrow> mailbox \<Rightarrow> bool" where
  "mailbox_ok s m \<longleftrightarrow>
     distinct (map cv_id (conversations m)) \<and> distinct (map cv_booking (conversations m)) \<and>
     list_all (\<lambda>c. cv_id c < length (conversations m) \<and> parties_match s c) (conversations m) \<and>
     list_all (\<lambda>x. row_exists (\<lambda>c. cv_id c = ms_conversation x) (conversations m)) (messages m)"

lemma mailbox_okD:
  assumes "mailbox_ok s m"
  shows "distinct (map cv_id (conversations m))" "distinct (map cv_booking (conversations m))"
    "c \<in> set (conversations m) \<Longrightarrow> cv_id c < length (conversations m)"
    "c \<in> set (conversations m) \<Longrightarrow> \<exists>b. find_booking (cv_booking c) s = Some b \<and> cv_property c = b_property b \<and>
      cv_guest c = b_guest b \<and> cv_host c = b_host b"
    "x \<in> set (messages m) \<Longrightarrow> \<exists>c \<in> set (conversations m). cv_id c = ms_conversation x"
  using assms by (auto simp: mailbox_ok_def list_all_iff parties_match_def split: option.splits)

lemma mailbox_ok_cong:
  assumes "conversations n = conversations m" "map ms_conversation (messages n) = map ms_conversation (messages m)"
  shows "mailbox_ok s n = mailbox_ok s m"
proof -
  have "list_all P (map ms_conversation (messages n)) = list_all P (map ms_conversation (messages m))" for P
    by (simp only: assms(2))
  from this [of "\<lambda>i. row_exists (\<lambda>c. cv_id c = i) (conversations m)"] show ?thesis
    unfolding mailbox_ok_def assms(1) list.pred_map comp_def by (simp only:)
qed

lemma open_conversation_cases:
  assumes "open_conversation now s bk m = Inr (c, n)"
  obtains (old) "n = m" "c \<in> set (conversations m)" "cv_booking c = bk"
  | (new) b where "find_booking bk s = Some b" "c = new_conversation now b m" "\<forall>c \<in> set (conversations m). cv_booking c \<noteq> bk"
      "n = m\<lparr>conversations := insert_row c (conversations m)\<rparr>"
proof (cases "conversation_of bk m")
  case None
  with assms that(2) show ?thesis
    by (auto simp: open_conversation_def Let_def first_where_None split: option.splits)
next
  case (Some c')
  with assms that(1) first_where_Some [OF Some] show ?thesis by (simp add: open_conversation_def)
qed

lemma open_conversation_ok:
  assumes ok: "mailbox_ok s m" and "open_conversation now s bk m = Inr (c, n)"
  shows "mailbox_ok s n" "c \<in> set (conversations n)" "cv_booking c = bk" "messages n = messages m"
proof -
  from assms(2) have "mailbox_ok s n \<and> c \<in> set (conversations n) \<and> cv_booking c = bk \<and> messages n = messages m"
  proof (cases rule: open_conversation_cases)
    case old
    with ok show ?thesis by simp
  next
    case (new b)
    have "b_id b = bk" using first_where_Some [OF new(1)] by simp
    moreover have "\<forall>x \<in> set (conversations m). cv_id x < length (conversations m)" using mailbox_okD(3) [OF ok] by blast
    ultimately show ?thesis
      using ok new by (auto simp: mailbox_ok_def insert_row_def new_conversation_def list_all_iff less_Suc_eq parties_match_def)
  qed
  then show "mailbox_ok s n" "c \<in> set (conversations n)" "cv_booking c = bk" "messages n = messages m" by simp_all
qed

lemma touched_conversations:
  fixes f :: "conversation \<Rightarrow> conversation"
  assumes "\<And>c. cv_id (f c) = cv_id c" "\<And>c. cv_booking (f c) = cv_booking c" "\<And>c. cv_property (f c) = cv_property c"
    "\<And>c. cv_guest (f c) = cv_guest c" "\<And>c. cv_host (f c) = cv_host c"
  shows "mailbox_ok s (m\<lparr>conversations := update_where P f (conversations m)\<rparr>) = mailbox_ok s m"
proof -
  have "parties_match s (f c) = parties_match s c" for c unfolding parties_match_def assms ..
  then show ?thesis by (simp add: mailbox_ok_def map_update_where assms list_all_iff)
qed

lemma send_message_ok:
  assumes ok: "mailbox_ok s m" and r: "send_message now s bk who u body att m = Inr (msg, n)"
  shows "mailbox_ok s n" "msg \<in> set (messages n)" "\<exists>c \<in> set (conversations n). cv_id c = ms_conversation msg \<and> cv_booking c = bk"
    "messages n = insert_row msg (messages m)" "ms_user msg = u" "ms_sender msg = who" "ms_body msg = body"
    "ms_read msg = None"
proof -
  from r obtain c m1 where c: "open_conversation now s bk m = Inr (c, m1)"
    by (auto simp: send_message_def split: sum.splits)
  note o = open_conversation_ok [OF ok c]
  let ?touch = "\<lambda>x. x\<lparr>cv_updated := now\<rparr>" let ?hit = "\<lambda>x. cv_id x = cv_id c"
  from r c have msg: "ms_conversation msg = cv_id c" "ms_user msg = u" "ms_sender msg = who" "ms_body msg = body" "ms_read msg = None"
    and n: "n = m1\<lparr>messages := insert_row msg (messages m), conversations := update_where ?hit ?touch (conversations m1)\<rparr>"
    using o(4) by (auto simp: send_message_def Let_def)
  have "mailbox_ok s (m1\<lparr>messages := insert_row msg (messages m)\<rparr>)"
    using o msg by (auto simp: mailbox_ok_def list_all_iff)
  then show "mailbox_ok s n"
    using touched_conversations [of ?touch, where s = s and m = "m1\<lparr>messages := insert_row msg (messages m)\<rparr>" and P = ?hit] by (simp add: n)
  show "\<exists>c \<in> set (conversations n). cv_id c = ms_conversation msg \<and> cv_booking c = bk"
    using o(2,3) by (auto simp: n msg intro!: bexI [of _ c])
qed (use r in \<open>auto simp: send_message_def Let_def split: sum.splits dest: open_conversation_ok [OF ok]\<close>)

lemma notify_frame [simp]:
  "conversations (notify_user env u ty x m) = conversations m"
  "messages (notify_user env u ty x m) = messages m"
  by (simp_all add: notify_user_def insert_notification_def Let_def)

lemma notify_ok: "mailbox_ok s m \<Longrightarrow> mailbox_ok s (notify_user env u ty x m)"
  by (subst mailbox_ok_cong [of _ m]) simp_all

lemma mark_read_ok: "mailbox_ok s m \<Longrightarrow> mailbox_ok s (snd (mark_conversation_read now bk u m))"
  by (subst mailbox_ok_cong [of _ m]) (simp_all add: mark_conversation_read_def Let_def map_update_where split: option.split)

lemma preferences_ok: "mailbox_ok s m \<Longrightarrow> mailbox_ok s (set_preferences u e p q m)"
  by (subst mailbox_ok_cong [of _ m]) (simp_all add: set_preferences_def Let_def)

lemma system_message_ok: "mailbox_ok s m \<Longrightarrow> mailbox_ok s (snd (send_system_message env now s bk ty x u m))"
  by (auto simp: send_system_message_def notify_ok send_message_ok(1) split: sum.split)

lemma post_message_cases:
  assumes "post_message env now s t bk body att m = Inr (msg, n)"
  obtains acc p m1 where "resolve_booking_access t bk s = Inr acc" "ac_role acc \<noteq> Admin"
    "find_property (ac_property acc) s = Some p"
    "send_message now s bk (if ac_role acc = Guest then From_guest else From_host) (Some (jw_user t)) body att m = Inr (msg, m1)"
    "n = (if ac_role acc = Guest
       then (case first_where (\<lambda>h. h_id h = ac_host acc) (hosts s) of None \<Rightarrow> m1
         | Some h \<Rightarrow> notify_user env (h_user h) New_message
             (empty_context\<lparr>tc_booking := Some bk, tc_property := Some (p_name p)\<rparr>) m1)
       else notify_user env (ac_guest acc) New_message
             (empty_context\<lparr>tc_booking := Some bk, tc_property := Some (p_name p)\<rparr>) m1)"
  using assms by (auto simp: post_message_def Let_def split: sum.splits option.splits if_splits)

lemma post_message_ok:
  assumes "mailbox_ok s m" "post_message env now s t bk body att m = Inr (msg, n)"
  shows "mailbox_ok s n"
  using assms(2)
proof (cases rule: post_message_cases)
  case (1 acc p m1)
  then show ?thesis
    using send_message_ok(1) [OF assms(1) 1(4)] by (auto intro: notify_ok split: option.split)
qed


text \<open>The operations on a mailbox, over one set of bookings.\<close>

datatype mail_op =
  Mail_post millis jwt uuid js_string "js_string option"
| Mail_system millis uuid notification_type template_context uuid
| Mail_read millis jwt uuid
| Mail_notify uuid notification_type template_context
| Mail_preferences uuid "bool option" "bool option" "bool option"

fun mail_body ::
  "mail_env \<Rightarrow> store \<Rightarrow> mail_op \<Rightarrow>
    (mailbox, unit, unit) tx" where
  "mail_body env s (Mail_post now t bk body att) m =
     (case post_message env now s t bk body att m of Inl _ \<Rightarrow> Inl () | Inr (_, n) \<Rightarrow> Inr ((), n))"
| "mail_body env s (Mail_system now bk ty x u) m =
     Inr ((), snd (send_system_message env now s bk ty x u m))"
| "mail_body env s (Mail_read now t bk) m = Inr ((), snd (read_conversation now s t bk m))"
| "mail_body env s (Mail_notify u ty x) m = Inr ((), notify_user env u ty x m)"
| "mail_body env s (Mail_preferences u e p q) m = Inr ((), set_preferences u e p q m)"

lemma read_conversation_ok: "mailbox_ok s m \<Longrightarrow> mailbox_ok s (snd (read_conversation now s t bk m))"
  using mark_read_ok [of s m] by (auto simp: read_conversation_def split: sum.split prod.split)
    (metis snd_conv)

lemma mail_body_keeps:
  assumes "mailbox_ok s m" "mail_body env s op m = Inr (x, n)"
  shows "mailbox_ok s n"
  using assms
  by (cases op) (auto split: sum.splits intro: post_message_ok system_message_ok read_conversation_ok notify_ok preferences_ok)

interpretation mail: guarded_steps "mail_body env s" "mailbox_ok s" for env s
  by unfold_locales (rule mail_body_keeps)

definition run_mail ::
  "mail_env \<Rightarrow> store \<Rightarrow> mail_op list \<Rightarrow>
    mailbox \<Rightarrow> mailbox" where
  "run_mail env s ops m = fold (\<lambda>op m. snd (with_transaction (mail_body env s op) m)) ops m"

lemma run_mail_keeps: "mailbox_ok s m \<Longrightarrow> mailbox_ok s (run_mail env s ops m)"
  using mail.run_keeps [of s m env ops] by (simp add: run_mail_def mail.exec_def [abs_def])

lemma empty_mailbox_ok: "mailbox_ok s empty_mailbox"
  by (simp add: mailbox_ok_def empty_mailbox_def)

subsection \<open>Counting what is unread\<close>

lemma unread_for_iff:
  assumes "mailbox_ok s m" "c \<in> set (conversations m)" "cv_id c = ms_conversation x"
  shows "unread_for v s m x \<longleftrightarrow> ms_read x = None \<and> ms_user x \<noteq> Some v \<and> takes_part v s c"
proof -
  have "inj_on cv_id (set (conversations m))" using mailbox_okD(1) [OF assms(1)] by (simp add: distinct_map)
  then have "d = c" if "d \<in> set (conversations m)" "cv_id d = ms_conversation x" for d
    using that assms(2,3) by (metis inj_onD)
  then have "row_exists (\<lambda>d. cv_id d = ms_conversation x \<and> takes_part v s d) (conversations m) \<longleftrightarrow> takes_part v s c"
    using assms(2,3) unfolding row_exists_iff by metis
  then show ?thesis by (simp only: unread_for_def)
qed

lemma send_keeps_conversations:
  assumes "send_message now s bk who u body att m = Inr (msg, n)" "c \<in> set (conversations m)"
  shows "\<exists>d \<in> set (conversations n). cv_id d = cv_id c \<and> cv_guest d = cv_guest c \<and> cv_host d = cv_host c"
proof -
  from assms(1) obtain k m1 where k: "open_conversation now s bk m = Inr (k, m1)"
    by (auto simp: send_message_def split: sum.splits)
  have n: "conversations n = update_where (\<lambda>x. cv_id x = cv_id k) (\<lambda>x. x\<lparr>cv_updated := now\<rparr>) (conversations m1)"
    using assms(1) k by (auto simp: send_message_def Let_def)
  have c: "c \<in> set (conversations m1)" using k assms(2) by (cases rule: open_conversation_cases) simp_all
  let ?hit = "\<lambda>x. cv_id x = cv_id k" and ?touch = "\<lambda>x. x\<lparr>cv_updated := now\<rparr>"
  show ?thesis
  proof (cases "cv_id c = cv_id k")
    case True
    show ?thesis unfolding n by (rule bexI [OF _ in_update_where_hit [OF c, of ?hit ?touch, OF True]]) simp
  next
    case False
    show ?thesis unfolding n by (rule bexI [OF _ in_update_where_miss [OF c, of ?hit ?touch, OF False]]) simp
  qed
qed

lemma row_count_cong: "(\<And>x. x \<in> set t \<Longrightarrow> P x = Q x) \<Longrightarrow> row_count P t = row_count Q t"
  by (simp add: row_count_def cong: filter_cong)

lemma unread_after_send:
  assumes ok: "mailbox_ok s m" and r: "send_message now s bk who (Some u) body att m = Inr (msg, n)"
    and b: "find_booking bk s = Some b"
  shows "get_unread_count v s n = get_unread_count v s m +
    (if v \<noteq> u \<and> (v = b_guest b \<or> row_exists (\<lambda>h. h_id h = b_host b \<and> h_user h = v) (hosts s)) then 1 else 0)"
proof -
  note sent = send_message_ok [OF ok r]
  have old: "unread_for v s n x = unread_for v s m x" if x: "x \<in> set (messages m)" for x
  proof -
    obtain c where c: "c \<in> set (conversations m)" "cv_id c = ms_conversation x" using mailbox_okD(5) [OF ok x] by blast
    obtain d where d: "d \<in> set (conversations n)" "cv_id d = cv_id c" "cv_guest d = cv_guest c" "cv_host d = cv_host c"
      using send_keeps_conversations [OF r c(1)] by blast
    have "takes_part v s d = takes_part v s c" by (simp add: takes_part_def d)
    then show ?thesis
      using unread_for_iff [OF ok c, of v] unread_for_iff [OF sent(1) d(1), of x v] d(2) c(2) by simp
  qed
  obtain c where c: "c \<in> set (conversations n)" "cv_id c = ms_conversation msg" "cv_booking c = bk" using sent(3) by blast
  have "takes_part v s c \<longleftrightarrow> v = b_guest b \<or> row_exists (\<lambda>h. h_id h = b_host b \<and> h_user h = v) (hosts s)"
    using mailbox_okD(4) [OF sent(1) c(1)] b c(3) by (auto simp: takes_part_def)
  then have "unread_for v s n msg \<longleftrightarrow> v \<noteq> u \<and> (v = b_guest b \<or> row_exists (\<lambda>h. h_id h = b_host b \<and> h_user h = v) (hosts s))"
    using unread_for_iff [OF sent(1) c(1,2), of v] sent(5,8) by auto
  then show ?thesis
    unfolding get_unread_count_def sent(4) row_count_insert using row_count_cong [of "messages m", OF old] by simp
qed

text \<open>Reading clears a conversation's messages, whoever reads and for everybody.\<close>

lemma mark_read_messages:
  assumes "mailbox_ok s m" "conversation_of bk m = Some c"
  shows "messages (snd (mark_conversation_read now bk u m)) =
      map (\<lambda>x. if ms_conversation x = cv_id c \<and> ms_read x = None \<and> ms_user x \<noteq> Some u then x\<lparr>ms_read := Some now\<rparr> else x) (messages m)"
  by (simp add: mark_conversation_read_def assms(2) Let_def update_where_def)

end
