(* ===== verification/Trips.thy ===== *)
theory Trips
  imports Messages Charge_Timing Stays Listing Iso_Date
begin

text \<open>
  What guests and hosts see of a booking, and what they are told: the trip list and the booking pages
  (lib/booking/tripHistory.ts, hostBookings.ts), the cancellation quote, the messages that follow a
  confirmation or a cancellation (lib/messaging/systemMessages.ts, cancelBookingAndRefund) and the two
  scheduled jobs (lib/notifications/scheduledNotifications.ts). They read the bookings of a \<open>store\<close> and
  the listings of a \<open>catalog\<close>.
\<close>

subsection \<open>The payment status on the pages\<close>

text \<open>
  \<open>mapTripRow\<close> and \<open>mapDetailRow\<close> each build the input of \<open>deriveGuestPaymentStatus\<close> on their own, from the
  status of the latest attempt and from the latest attempt itself.
\<close>

definition trip_payment_status :: "booking \<Rightarrow> attempt_status option \<Rightarrow> millis \<Rightarrow> guest_payment_status option" where
  "trip_payment_status b latest now =
     (if b_flow b = Separate_charges_delayed_v1
      then Some (derive_guest_payment_status
        \<lparr>si_has_method = (b_payment_method b \<noteq> None), si_scheduled = b_scheduled b, si_latest = latest,
         si_succeeded = (b_status b = Confirmed),
         si_grace_expires = map_option (\<lambda>t. t + grace_period_hours * 3600 * 1000) (b_grace b),
         si_cancelled = (b_status b = Cancelled \<and> latest = None)\<rparr> now)
      else None)"

record payment_recovery =
  rc_failure_code :: "js_string option"
  rc_failure_message :: "js_string option"
  rc_next_retry :: "millis option"
  rc_grace_expires :: "millis option"

definition detail_payment_status ::
  "booking \<Rightarrow> attempt option \<Rightarrow> millis \<Rightarrow> guest_payment_status option \<times> payment_recovery option" where
  "detail_payment_status b latest now =
     (if b_flow b \<noteq> Separate_charges_delayed_v1 then (None, None)
      else
        let expires = map_option (\<lambda>t. t + grace_period_hours * 3600 * 1000) (b_grace b) in
        (Some (derive_guest_payment_status
           \<lparr>si_has_method = (b_payment_method b \<noteq> None), si_scheduled = b_scheduled b,
            si_latest = map_option pa_status latest, si_succeeded = (b_status b = Confirmed), si_grace_expires = expires,
            si_cancelled = (b_status b = Cancelled \<and> latest = None)\<rparr> now),
         case latest of
           None \<Rightarrow> None
         | Some a1 \<Rightarrow> if pa_status a1 = At_failed \<and> b_grace b \<noteq> None
                       then Some \<lparr>rc_failure_code = pa_failure_code a1, rc_failure_message = pa_failure_message a1,
                                  rc_next_retry = b_next_retry b, rc_grace_expires = expires\<rparr>
                       else None))"

subsection \<open>Lists and pages\<close>

record trip_row =
  tr_booking :: uuid
  tr_property :: uuid
  tr_name :: js_string
  tr_slug :: js_string
  tr_city :: js_string
  tr_district :: "js_string option"
  tr_check_in :: day
  tr_check_out :: day
  tr_guests :: int
  tr_status :: booking_status
  tr_payment :: "payment_status option"
  tr_flow :: payment_flow
  tr_guest_status :: "guest_payment_status option"
  tr_total :: "minor option"
  tr_currency :: "js_string option"
  tr_archived :: bool

abbreviation payment_of :: "uuid \<Rightarrow> store \<Rightarrow> payment option" where
  "payment_of bk s \<equiv> first_where (\<lambda>p. pay_booking p = bk) (payments s)"

definition trip_row_of :: "millis \<Rightarrow> store \<Rightarrow> booking \<Rightarrow> listing_row \<Rightarrow> trip_row" where
  "trip_row_of now s b r =
     \<lparr>tr_booking = b_id b, tr_property = b_property b, tr_name = lc_name (ls_content r), tr_slug = ls_slug r,
      tr_city = lc_city (ls_content r), tr_district = lc_district (ls_content r), tr_check_in = b_check_in b,
      tr_check_out = b_check_out b, tr_guests = b_guests b, tr_status = b_status b,
      tr_payment = map_option pay_status (payment_of (b_id b) s), tr_flow = b_flow b,
      tr_guest_status = trip_payment_status b (map_option pa_status (latest_attempt (b_id b) s)) now,
      tr_total = map_option pc_total (find_price (b_id b) s), tr_currency = map_option pc_currency (find_price (b_id b) s),
      tr_archived = (b_archived b \<noteq> None)\<rparr>"

text \<open>The inner join with \<open>properties\<close>, and \<open>ORDER BY check_in DESC\<close>.\<close>

definition joined :: "catalog \<Rightarrow> (booking \<Rightarrow> listing_row \<Rightarrow> 'a) \<Rightarrow> booking list \<Rightarrow> 'a list" where
  "joined c f bs = concat (map (\<lambda>b. case find_listing (b_property b) c of None \<Rightarrow> [] | Some r \<Rightarrow> [f b r]) bs)"

definition list_bookings_for_guest :: "millis \<Rightarrow> store \<Rightarrow> catalog \<Rightarrow> uuid \<Rightarrow> bool \<Rightarrow> trip_row list" where
  "list_bookings_for_guest now s c u archived =
     joined c (trip_row_of now s)
       (sort_key (\<lambda>b. - b_check_in b) (select_where (\<lambda>b. b_guest b = u \<and> (archived \<or> b_archived b = None)) (bookings s)))"

record refund_view =
  rw_amount :: minor
  rw_currency :: js_string
  rw_reason :: refund_reason
  rw_status :: refund_status

record booking_page =
  bp_row :: booking
  bp_listing :: listing_content
  bp_name :: js_string
  bp_host_name :: "js_string option"
  bp_payment :: "payment_status option"
  bp_guest_status :: "guest_payment_status option"
  bp_recovery :: "payment_recovery option"
  bp_price :: "price_row option"
  bp_refunds :: "refund_view list"

definition get_booking_detail ::
  "mail_env \<Rightarrow> millis \<Rightarrow> store \<Rightarrow> catalog \<Rightarrow> uuid \<Rightarrow> booking_error + booking_page" where
  "get_booking_detail env now s c bk =
     (case find_booking bk s of
        None \<Rightarrow> Inl Booking_not_found
      | Some b \<Rightarrow>
          (case find_listing (b_property b) c of
             None \<Rightarrow> Inl Booking_not_found
           | Some r \<Rightarrow>
               let latest = (if b_flow b = Separate_charges_delayed_v1 then latest_attempt bk s else None);
                   (st, recovery) = detail_payment_status b latest now
               in Inr \<lparr>bp_row = b, bp_listing = ls_content r, bp_name = lc_name (ls_content r),
                       bp_host_name = me_host_name env (b_host b), bp_payment = map_option pay_status (payment_of bk s),
                       bp_guest_status = st, bp_recovery = recovery, bp_price = find_price bk s,
                       bp_refunds = rev (map (\<lambda>f. \<lparr>rw_amount = rf_amount f, rw_currency = rf_currency f,
                         rw_reason = rf_reason f, rw_status = rf_status f\<rparr>)
                         (select_where (\<lambda>f. rf_booking f = bk) (refunds s)))\<rparr>))"

record host_row_view =
  hv_trip :: trip_row
  hv_guest_name :: js_string

definition list_bookings_for_host :: "millis \<Rightarrow> store \<Rightarrow> catalog \<Rightarrow> uuid \<Rightarrow> host_row_view list" where
  "list_bookings_for_host now s c h =
     joined c (\<lambda>b r. \<lparr>hv_trip = (trip_row_of now s b r)\<lparr>tr_guest_status := compute_guest_payment_status b s now\<rparr>,
         hv_guest_name = b_guest_name b\<rparr>)
       (sort_key (\<lambda>b. - b_check_in b) (select_where (\<lambda>b. b_host b = h) (bookings s)))"

record host_page =
  hg_row :: booking
  hg_name :: js_string
  hg_payment :: "payment_status option"
  hg_guest_status :: "guest_payment_status option"
  hg_payout :: "payout_status option"
  hg_entitlement :: "entitlement_status option"
  hg_price :: "price_row option"

definition get_host_booking_detail :: "millis \<Rightarrow> store \<Rightarrow> catalog \<Rightarrow> uuid \<Rightarrow> host_page option" where
  "get_host_booking_detail now s c bk =
     (case find_booking bk s of
        None \<Rightarrow> None
      | Some b \<Rightarrow>
          (case find_listing (b_property b) c of
             None \<Rightarrow> None
           | Some r \<Rightarrow>
               Some \<lparr>hg_row = b, hg_name = lc_name (ls_content r), hg_payment = map_option pay_status (payment_of bk s),
                     hg_guest_status = compute_guest_payment_status b s now,
                     hg_payout = map_option po_status (first_where (\<lambda>p. po_booking p = bk) (payouts s)),
                     hg_entitlement = map_option en_status (first_where (\<lambda>e. en_booking e = bk) (entitlements s)),
                     hg_price = find_price bk s\<rparr>))"

subsection \<open>The cancellation quote\<close>

datatype quote = Not_eligible booking_status js_string | Quote int minor minor js_string "tier list"

definition cancellation_quote :: "millis \<Rightarrow> jwt \<Rightarrow> uuid \<Rightarrow> store \<Rightarrow> (auth_error + booking_error) + quote" where
  "cancellation_quote now t bk s =
     (case resolve_booking_access t bk s of
        Inl e \<Rightarrow> Inl (Inl e)
      | Inr _ \<Rightarrow>
          (case (find_booking bk s, find_price bk s) of
             (Some b, Some pc) \<Rightarrow>
               if b_status b \<noteq> Confirmed \<and> b_status b \<noteq> Pending_payment
               then Inr (Not_eligible (b_status b) (pc_currency pc))
               else
                 let oc = calculate_cancellation (b_policy b) (b_check_in b) (pc_total pc) (pc_payout pc) now
                 in Inr (Quote (oc_percent oc) (oc_refundable oc) (oc_retained oc) (pc_currency pc) (b_policy b))
           | _ \<Rightarrow> Inl (Inr Booking_not_found)))"

subsection \<open>Messages about a booking\<close>

definition booking_context :: "mail_env \<Rightarrow> catalog \<Rightarrow> store \<Rightarrow> uuid \<Rightarrow> (uuid \<times> uuid \<times> template_context) option" where
  "booking_context env c s bk =
     (case find_booking bk s of
        None \<Rightarrow> None
      | Some b \<Rightarrow>
          (case (find_listing (b_property b) c, first_where (\<lambda>h. h_id h = b_host b) (profiles c),
                 find_user (b_guest b) (me_accounts env)) of
             (Some r, Some h, Some _) \<Rightarrow>
               Some (b_guest b, h_user h,
                 empty_context\<lparr>tc_property := Some (lc_name (ls_content r)), tc_check_in := Some (me_date env (b_check_in b)),
                   tc_check_out := Some (me_date env (b_check_out b)), tc_booking := Some bk,
                   tc_time := Some (lc_check_in (ls_content r)), tc_host := me_host_name env (b_host b)\<rparr>)
           | _ \<Rightarrow> None))"

definition send_booking_confirmed :: "mail_env \<Rightarrow> millis \<Rightarrow> catalog \<Rightarrow> store \<Rightarrow> uuid \<Rightarrow> mailbox \<Rightarrow> message_error option \<times> mailbox" where
  "send_booking_confirmed env now c s bk m =
     (case booking_context env c s bk of
        None \<Rightarrow> (None, m)
      | Some (guest, host, x) \<Rightarrow>
          (case send_system_message env now s bk Booking_confirmed x guest m of
             (Some e, m1) \<Rightarrow> (Some e, m1)
           | (None, m1) \<Rightarrow> (None, notify_user env host Host_new_booking x m1)))"

definition send_booking_cancelled ::
  "mail_env \<Rightarrow> millis \<Rightarrow> catalog \<Rightarrow> store \<Rightarrow> uuid \<Rightarrow> js_string option \<Rightarrow> mailbox \<Rightarrow> message_error option \<times> mailbox" where
  "send_booking_cancelled env now c s bk refund m =
     (case booking_context env c s bk of
        None \<Rightarrow> (None, m)
      | Some (guest, host, x) \<Rightarrow>
          (case send_system_message env now s bk Booking_cancelled_notice (x\<lparr>tc_refund := refund\<rparr>) guest m of
             (Some e, m1) \<Rightarrow> (Some e, m1)
           | (None, m1) \<Rightarrow> (None, notify_user env host Host_booking_cancelled x m1)))"

text \<open>\<open>(n / 100).toFixed(2)\<close> of a whole amount, and the text of the refund.\<close>

definition to_fixed2 :: "minor \<Rightarrow> js_string" where
  "to_fixed2 n = (if n < 0 then ''-'' else []) @ dec_text (nat (\<bar>n\<bar> div 100)) @ ''.'' @ pad2 (\<bar>n\<bar> mod 100)"

definition refund_text :: "outcome \<Rightarrow> refund_input option \<Rightarrow> js_string option" where
  "refund_text oc req =
     (if 0 < oc_refundable oc
      then Some (js_trim (to_fixed2 (oc_refundable oc) @ '' '' @ (case req of None \<Rightarrow> [] | Some r \<Rightarrow> ri_currency r)))
      else None)"

datatype cancel_failure = Cancel_refused booking_error | Message_failed message_error

definition cancel_and_notify ::
  "mail_env \<Rightarrow> (string option \<Rightarrow> stripe_refund list) \<Rightarrow> (refund_call \<Rightarrow> string + stripe_refund) \<Rightarrow> uuid \<Rightarrow>
    millis \<Rightarrow> catalog \<Rightarrow> uuid \<Rightarrow> actor \<Rightarrow> store \<Rightarrow> mailbox \<Rightarrow>
    (cancel_failure + (outcome \<times> refund_input option) \<times> string option) \<times> store \<times> mailbox" where
  "cancel_and_notify env listed create refund_id now c bk who s m =
     (case cancel_booking_and_refund listed create refund_id now bk who s of
        (Inl e, s1) \<Rightarrow> (Inl (Cancel_refused e), s1, m)
      | (Inr (r, err), s1) \<Rightarrow>
          (case send_booking_cancelled env now c s1 bk (refund_text (fst r) (snd r)) m of
             (Some e, m1) \<Rightarrow> (Inl (Message_failed e), s1, m1)
           | (None, m1) \<Rightarrow> (Inr (r, err), s1, m1)))"

subsection \<open>Scheduled jobs\<close>

definition reminder_due :: "millis \<Rightarrow> mailbox \<Rightarrow> booking \<Rightarrow> bool" where
  "reminder_due now m b \<longleftrightarrow> b_status b = Confirmed \<and> b_check_in b = day_of_ms now + 1 \<and>
     \<not> row_exists (\<lambda>n. nf_user n = b_guest b \<and> nf_type n = Checkin_reminder \<and> tc_booking (nf_context n) = Some (b_id b))
         (notifications m)"

definition remind :: "mail_env \<Rightarrow> millis \<Rightarrow> store \<Rightarrow> booking \<Rightarrow> listing_row \<Rightarrow> mailbox \<Rightarrow> message_error option \<times> mailbox" where
  "remind env now s b r m =
     (let x = empty_context\<lparr>tc_property := Some (lc_name (ls_content r)), tc_check_in := Some (me_date env (b_check_in b)),
            tc_check_out := Some (me_date env (b_check_out b)), tc_booking := Some (b_id b),
            tc_time := Some (lc_check_in (ls_content r))\<rparr>
      in case send_system_message env now s (b_id b) Checkin_reminder x (b_guest b) m of
           (Some e, m1) \<Rightarrow> (Some e, m1)
         | (None, m1) \<Rightarrow> send_system_message env now s (b_id b) Checkin_info_available
             (x\<lparr>tc_instructions := lc_rules (ls_content r)\<rparr>) (b_guest b) m1)"

text \<open>A loop over rows whose body may throw: what was done before stays, the rest is skipped.\<close>

fun each_row :: "('r \<Rightarrow> 's \<Rightarrow> 'e option \<times> 's) \<Rightarrow> 'r list \<Rightarrow> 's \<Rightarrow> 'e option \<times> 's" where
  "each_row f [] m = (None, m)"
| "each_row f (r # rs) m = (case f r m of (Some e, m1) \<Rightarrow> (Some e, m1) | (None, m1) \<Rightarrow> each_row f rs m1)"

definition send_checkin_reminders ::
  "mail_env \<Rightarrow> millis \<Rightarrow> catalog \<Rightarrow> store \<Rightarrow> mailbox \<Rightarrow> message_error option \<times> mailbox" where
  "send_checkin_reminders env now c s m =
     each_row (\<lambda>(b, r). remind env now s b r) (joined c Pair (select_where (reminder_due now m) (bookings s))) m"

definition ask_for_review :: "mail_env \<Rightarrow> millis \<Rightarrow> catalog \<Rightarrow> store \<Rightarrow> booking \<Rightarrow> mailbox \<Rightarrow> message_error option \<times> mailbox" where
  "ask_for_review env now c s b m =
     send_system_message env now s (b_id b) Review_request
       (empty_context\<lparr>tc_property := map_option (\<lambda>r. lc_name (ls_content r)) (find_listing (b_property b) c),
          tc_booking := Some (b_id b), tc_review_url := Some (me_site env @ ''/trips/'' @ b_id b @ ''/review'')\<rparr>)
       (b_guest b) m"

definition complete_stays_and_request_reviews ::
  "mail_env \<Rightarrow> millis \<Rightarrow> catalog \<Rightarrow> store \<Rightarrow> mailbox \<Rightarrow> message_error option \<times> store \<times> mailbox" where
  "complete_stays_and_request_reviews env now c s m =
     (let (rows, s1) = complete_stays now s; (e, m1) = each_row (ask_for_review env now c s1) rows m in (e, s1, m1))"

text \<open>The first step of the daily sweep (app/api/cron/sweep/route.ts): holds that ran out, one transaction each.\<close>

definition expire_hold :: "mail_env \<Rightarrow> millis \<Rightarrow> uuid \<Rightarrow> store \<times> mailbox \<Rightarrow> store \<times> mailbox" where
  "expire_hold env now bk sm =
     (case with_transaction (release_expired_hold now bk) (fst sm) of
        (Inr (Some b), s1) \<Rightarrow>
          (s1, notify_user env (b_guest b) Booking_cancelled_notice (empty_context\<lparr>tc_booking := Some bk\<rparr>) (snd sm))
      | (_, s1) \<Rightarrow> (s1, snd sm))"

definition sweep_holds :: "mail_env \<Rightarrow> millis \<Rightarrow> store \<times> mailbox \<Rightarrow> store \<times> mailbox" where
  "sweep_holds env now sm = fold (expire_hold env now) (find_expired_hold_booking_ids now (fst sm)) sm"

end
