(* ===== verification/Reviews.thy ===== *)
theory Reviews
  imports Listing_Safety
begin

text \<open>
  Reviews of stays (lib/reviews/createReview.ts): creation by the guest of a completed booking, the host's
  reply, the rating cached on the listing and the lists of reviews. The state is the table of reviews and
  the catalog. Shown here: the cached rating is the average of the published reviews after any
  operation on reviews or listings.
\<close>

datatype review_state = Review_published | Review_flagged | Review_removed

record review_input =
  ri_booking_id :: uuid
  ri_guest :: uuid
  ri_overall :: int
  ri_scores :: "int option list"
  ri_body :: "js_string option"

text \<open>The five optional scores are kept in the order of the columns, cleanliness to comfort.\<close>

record review =
  vw_id :: uuid
  vw_booking :: uuid
  vw_property :: uuid
  vw_guest :: uuid
  vw_overall :: int
  vw_scores :: "int option list"
  vw_body :: "js_string option"
  vw_reply :: "js_string option"
  vw_reply_at :: "millis option"
  vw_state :: review_state

datatype review_error =
  Review_no_booking | Review_not_yours | Stay_not_completed | Already_reviewed | Score_out_of_range
  | Review_missing | Already_replied

type_synonym board = "review list \<times> catalog"

definition published_of :: "uuid \<Rightarrow> review list \<Rightarrow> review list" where
  "published_of p rs = select_where (\<lambda>v. vw_property v = p \<and> vw_state v = Review_published) rs"

text \<open>\<open>AVG(overall)::NUMERIC(3,2)\<close>, null without rows.\<close>

definition average_rating :: "review list \<Rightarrow> rat option" where
  "average_rating rs =
     (if rs = [] then None
      else Some (of_int (to_numeric 100 (of_int (sum_list (map vw_overall rs)) / of_nat (length rs))) / 100))"

definition recalculate_property_rating :: "uuid \<Rightarrow> board \<Rightarrow> board" where
  "recalculate_property_rating p bd =
     (let rs = published_of p (fst bd) in
      (fst bd, update_listing p (\<lambda>r. r\<lparr>ls_rating := average_rating rs, ls_review_count := int (length rs)\<rparr>) (snd bd)))"

definition score_ok :: "int \<Rightarrow> bool" where
  "score_ok n \<longleftrightarrow> 1 \<le> n \<and> n \<le> 5"

definition scores_ok :: "review_input \<Rightarrow> bool" where
  "scores_ok i \<longleftrightarrow> score_ok (ri_overall i) \<and>
     list_all (\<lambda>v. case v of None \<Rightarrow> True | Some n \<Rightarrow> score_ok n) (ri_scores i)"

definition create_review :: "uuid \<Rightarrow> store \<Rightarrow> review_input \<Rightarrow> (board, review_error, review) tx" where
  "create_review new_id s i bd =
     (case find_booking (ri_booking_id i) s of
        None \<Rightarrow> Inl Review_no_booking
      | Some b \<Rightarrow>
          if b_guest b \<noteq> ri_guest i then Inl Review_not_yours
          else if b_status b \<noteq> Completed then Inl Stay_not_completed
          else if row_exists (\<lambda>v. vw_booking v = ri_booking_id i) (fst bd) then Inl Already_reviewed
          else if \<not> scores_ok i then Inl Score_out_of_range
          else
            let v = \<lparr>vw_id = new_id, vw_booking = ri_booking_id i, vw_property = b_property b, vw_guest = ri_guest i,
                  vw_overall = ri_overall i, vw_scores = ri_scores i, vw_body = ri_body i, vw_reply = None,
                  vw_reply_at = None, vw_state = Review_published\<rparr>
            in Inr (v, recalculate_property_rating (b_property b) (insert_row v (fst bd), snd bd)))"

definition reply_to_review :: "millis \<Rightarrow> uuid \<Rightarrow> uuid \<Rightarrow> js_string \<Rightarrow> (board, review_error, review) tx" where
  "reply_to_review now rid host reply bd =
     (case first_where (\<lambda>v. vw_id v = rid \<and> row_exists (\<lambda>r. ls_id r = vw_property v \<and> ls_host r = host) (listings (snd bd)))
             (fst bd) of
        None \<Rightarrow> Inl Review_missing
      | Some v \<Rightarrow>
          if vw_reply v \<noteq> None then Inl Already_replied
          else
            let f = (\<lambda>x. x\<lparr>vw_reply := Some reply, vw_reply_at := Some now\<rparr>)
            in Inr (f v, (update_where (\<lambda>x. vw_id x = rid) f (fst bd), snd bd)))"

definition get_review_for_booking :: "uuid \<Rightarrow> board \<Rightarrow> review option" where
  "get_review_for_booking bk bd = first_where (\<lambda>v. vw_booking v = bk) (fst bd)"

text \<open>\<open>ORDER BY created_at DESC\<close>: rows are kept in the order of their creation.\<close>

definition list_reviews_for_host :: "uuid \<Rightarrow> board \<Rightarrow> (review \<times> js_string) list" where
  "list_reviews_for_host host bd =
     concat (map (\<lambda>v. case find_listing (vw_property v) (snd bd) of
         None \<Rightarrow> [] | Some r \<Rightarrow> if ls_host r = host then [(v, lc_name (ls_content r))] else [])
       (rev (fst bd)))"

definition list_property_reviews :: "uuid \<Rightarrow> board \<Rightarrow> review list" where
  "list_property_reviews p bd =
     (if row_exists (\<lambda>r. ls_id r = p \<and> ls_status r = Prop_published) (listings (snd bd))
      then rev (published_of p (fst bd)) else [])"

subsection \<open>The cached rating\<close>

definition rating_ok :: "review list \<Rightarrow> listing_row \<Rightarrow> bool" where
  "rating_ok rs r \<longleftrightarrow> ls_rating r = average_rating (published_of (ls_id r) rs) \<and>
     ls_review_count r = int (length (published_of (ls_id r) rs))"

definition board_ok :: "board \<Rightarrow> bool" where
  "board_ok bd \<longleftrightarrow> distinct (map vw_booking (fst bd)) \<and> list_all (rating_ok (fst bd)) (listings (snd bd)) \<and>
     list_all (\<lambda>v. row_exists (\<lambda>r. ls_id r = vw_property v) (listings (snd bd))) (fst bd)"

text \<open>What the invariant reads of a listing.\<close>

abbreviation rating_rows :: "catalog \<Rightarrow> (uuid \<times> rat option \<times> int) list" where
  "rating_rows c \<equiv> map (\<lambda>r. (ls_id r, ls_rating r, ls_review_count r)) (listings c)"

lemma rating_rows_ok:
  assumes "rating_rows d = rating_rows c"
  shows "board_ok (rs, d) = board_ok (rs, c)"
proof -
  have "list_all P (map (\<lambda>r. (ls_id r, ls_rating r, ls_review_count r)) (listings d)) =
      list_all P (map (\<lambda>r. (ls_id r, ls_rating r, ls_review_count r)) (listings c))" for P
    by (simp only: assms)
  from this [of "\<lambda>(i, q, n). q = average_rating (published_of i rs) \<and> n = int (length (published_of i rs))"]
  have "list_all (rating_ok rs) (listings d) = list_all (rating_ok rs) (listings c)"
    by (simp add: list.pred_map comp_def rating_ok_def [abs_def])
  moreover have "ls_id ` set (listings d) = ls_id ` set (listings c)"
    using arg_cong [OF assms, of "\<lambda>t. fst ` set t"] by (simp add: image_image)
  then have "row_exists (\<lambda>r. ls_id r = i) (listings d) = row_exists (\<lambda>r. ls_id r = i) (listings c)" for i
    unfolding row_exists_iff by (metis imageE imageI)
  ultimately show ?thesis by (simp only: board_ok_def fst_conv snd_conv)
qed

lemma on_listing_update_rating [simp]:
  "ls_rating (on_listing_update r n) = ls_rating n" "ls_review_count (on_listing_update r n) = ls_review_count n"
  by (simp_all add: on_listing_update_def withdraw_approval_def)

lemma rating_rows_update:
  assumes "\<And>r. ls_id (f r) = ls_id r" "\<And>r. ls_rating (f r) = ls_rating r" "\<And>r. ls_review_count (f r) = ls_review_count r"
  shows "rating_rows (update_listing i f c) = rating_rows c"
  by (simp add: listings_update_listing map_update_where assms)

lemma rating_rows_image [simp]: "rating_rows (on_image_change i c) = rating_rows c"
  by (simp add: on_image_change_def map_update_where withdraw_approval_def)


lemma rating_rows_profiles [simp]:
  "rating_rows (c\<lparr>profiles := t\<rparr>) = rating_rows c" "rating_rows (c\<lparr>images := u\<rparr>) = rating_rows c"
  "rating_rows (c\<lparr>evidence := e\<rparr>) = rating_rows c" "rating_rows (set_amenities i a c) = rating_rows c"
  "rating_rows (log_catalog w k det c) = rating_rows c"
  by (simp_all add: set_amenities_def log_catalog_def)

lemma rating_rows_write: "rating_rows (write_property snap i inp c) = rating_rows c"
proof -
  have "rating_rows (update_listing i (edit_listing snap inp) c) = rating_rows c"
    by (rule rating_rows_update) (simp_all add: edit_listing_def Let_def)
  then show ?thesis by (simp add: write_property_def Let_def set_amenities_def split: option.split)
qed

lemma rating_rows_compliance:
  "save_owner_compliance now i u its submit c = Inr (x, d) \<Longrightarrow> rating_rows d = rating_rows c"
  "review_property_compliance now i u dec n c = Inr (y, d) \<Longrightarrow> rating_rows d = rating_rows c"
  "review_pilot_listing now i u dec n c = Inr (z, d) \<Longrightarrow> rating_rows d = rating_rows c"
  by (auto simp: save_owner_compliance_def review_property_compliance_def review_pilot_listing_def Let_def
      log_catalog_def rating_rows_update split: if_splits option.splits)

lemma rating_rows_pictures:
  "register_image x i u b c = Inr (v1, d) \<Longrightarrow> rating_rows d = rating_rows c"
  "set_image_cover i x u c = Inr (v2, d) \<Longrightarrow> rating_rows d = rating_rows c"
  "update_image_alt i x u alt c = Inr (v3, d) \<Longrightarrow> rating_rows d = rating_rows c"
  "reorder_images i ids u c = Inr (v4, d) \<Longrightarrow> rating_rows d = rating_rows c"
  by (auto simp: register_image_def set_image_cover_def update_image_alt_def reorder_images_def Let_def
      simp del: images_frame split: if_splits option.splits sum.splits)

lemma rating_rows_delete:
  assumes "delete_image i x u c = Inr (v, d)"
  shows "rating_rows d = rating_rows c"
proof (cases "owned_image i x u c")
  case (Inr m)
  let ?c1 = "on_image_change i (c\<lparr>images := delete_where (\<lambda>y. im_id y = x \<and> im_property y = i) (images c)\<rparr>)"
  have "d = ?c1 \<or> (\<exists>t. d = on_image_change i (?c1\<lparr>images := t\<rparr>))"
    using assms unfolding delete_image_def Inr Let_def sum.case by (cases "im_cover m"; cases "in_order (images_of i ?c1)") auto
  then show ?thesis by auto
qed (use assms in \<open>simp add: delete_image_def\<close>)

lemma rating_rows_hosts:
  "record_agreement now h c = Inr (x, d) \<Longrightarrow> rating_rows d = rating_rows c"
  "ensure_host_profile k u c = Inr (y, d) \<Longrightarrow> rating_rows d = rating_rows c"
  "rating_rows (snd (start_onboarding acct h c)) = rating_rows c"
  "rating_rows (snd (onboarding_status report h c)) = rating_rows c"
  by (auto simp: record_agreement_def ensure_host_profile_def start_onboarding_def connect_account_def onboarding_status_def
      Let_def split: if_splits option.splits)

lemma rating_rows_create:
  assumes "create_property snap i suffix host inp c = (Inr x, d)"
  shows "rating_rows d = rating_rows c @ [(i, None, 0)]" "\<forall>r \<in> set (listings c). ls_id r \<noteq> i"
  using assms
  by (auto simp: create_property_def Let_def set_amenities_def insert_row_def new_listing_def split: if_splits option.splits)


lemma listing_op_ratings:
  assumes "listing_body snap op c = Inr (x, d)"
  shows "rating_rows d = rating_rows c \<or>
    (\<exists>i. rating_rows d = rating_rows c @ [(i, None, 0)] \<and> (\<forall>r \<in> set (listings c). ls_id r \<noteq> i))"
proof (cases op)
  case (Create_listing i suffix host inp)
  with assms obtain y where "create_property snap i suffix host inp c = (Inr y, d)"
    by (auto split: prod.splits sum.splits)
  from rating_rows_create [OF this] show ?thesis by blast
next
  case (Write_listing i inp)
  with assms rating_rows_write [of snap i inp c] show ?thesis by simp
qed (use assms in \<open>auto simp: forget_Inr rating_rows_hosts intro: rating_rows_compliance rating_rows_pictures
    rating_rows_delete rating_rows_hosts\<close>)

lemma published_of_insert:
  "published_of p (insert_row v rs) = published_of p rs @ (if vw_property v = p \<and> vw_state v = Review_published then [v] else [])"
  by (simp add: published_of_def select_where_def insert_row_def)

text \<open>A new listing has no reviews, so its empty cache is right.\<close>

lemma new_listing_board:
  assumes ok: "board_ok (rs, c)" and d: "rating_rows d = rating_rows c @ [(i, None, 0)]" "\<forall>r \<in> set (listings c). ls_id r \<noteq> i"
  shows "board_ok (rs, d)"
proof -
  have none: "published_of i rs = []"
    using ok d(2) by (fastforce simp: board_ok_def list_all_iff published_of_def select_where_def filter_empty_conv)
  have "rating_ok rs r" if r: "r \<in> set (listings d)" for r
  proof -
    have "(ls_id r, ls_rating r, ls_review_count r) \<in> set (rating_rows d)" using r by simp
    then consider "(ls_id r, ls_rating r, ls_review_count r) = (i, None, 0)"
      | k where "k \<in> set (listings c)" "ls_id r = ls_id k" "ls_rating r = ls_rating k" "ls_review_count r = ls_review_count k"
      unfolding d(1) by auto
    then show ?thesis
    proof cases
      case 1
      with none show ?thesis by (simp add: rating_ok_def average_rating_def)
    next
      case 2
      with ok show ?thesis by (simp add: board_ok_def list_all_iff rating_ok_def)
    qed
  qed
  moreover have "ls_id ` set (listings d) = insert i (ls_id ` set (listings c))"
    using arg_cong [OF d(1), of "\<lambda>t. fst ` set t"] by (simp add: image_image)
  then have "row_exists (\<lambda>r. ls_id r = k) (listings c) \<Longrightarrow> row_exists (\<lambda>r. ls_id r = k) (listings d)" for k
    unfolding row_exists_iff by (metis imageE imageI insertI2)
  ultimately show ?thesis using ok by (simp only: board_ok_def list_all_iff fst_conv snd_conv) blast
qed

lemma recalculate_ok:
  assumes ok: "board_ok (rs, c)" and v: "vw_property v = p" "vw_state v = Review_published"
    and fresh: "\<forall>w \<in> set rs. vw_booking w \<noteq> vw_booking v" and p: "row_exists (\<lambda>r. ls_id r = p) (listings c)"
  shows "board_ok (recalculate_property_rating p (insert_row v rs, c))"
proof -
  let ?rs = "insert_row v rs"
  obtain d where d: "recalculate_property_rating p (?rs, c) = (?rs, d)"
    and ls: "listings d = update_where (\<lambda>r. ls_id r = p) (\<lambda>r. on_listing_update r (r\<lparr>ls_rating :=
      average_rating (published_of p ?rs), ls_review_count := int (length (published_of p ?rs))\<rparr>)) (listings c)"
    by (simp add: recalculate_property_rating_def Let_def listings_update_listing)
  have "rating_ok ?rs r" if "r \<in> set (listings d)" for r
    using that ok v by (auto simp: ls rating_ok_def published_of_insert board_ok_def list_all_iff)
  moreover have "row_exists (\<lambda>r. ls_id r = k) (listings d) = row_exists (\<lambda>r. ls_id r = k) (listings c)" for k
    unfolding row_exists_iff ls by (auto split: if_splits)
  moreover have "distinct (map vw_booking ?rs)" using ok fresh by (auto simp: board_ok_def insert_row_def)
  ultimately show ?thesis
    using ok p v(1) unfolding d board_ok_def list_all_iff fst_conv snd_conv by auto
qed

text \<open>
  The operations on reviews and listings together. A review is posted against the bookings as they are at
  that moment, any set of bookings whose properties are listed.
\<close>

datatype board_op =
  Post_review uuid store review_input
| Post_reply millis uuid uuid js_string
| On_listing listing_op

definition bookings_listed :: "store \<Rightarrow> catalog \<Rightarrow> bool" where
  "bookings_listed s c \<longleftrightarrow> list_all (\<lambda>b. row_exists (\<lambda>r. ls_id r = b_property b) (listings c)) (bookings s)"

fun board_body :: "(point \<Rightarrow> point) \<Rightarrow> board_op \<Rightarrow> (board, unit, unit) tx" where
  "board_body snap (Post_review x s i) bd =
     (if bookings_listed s (snd bd) then forget (create_review x s i) bd else Inl ())"
| "board_body snap (Post_reply now rid host reply) bd = forget (reply_to_review now rid host reply) bd"
| "board_body snap (On_listing op) bd =
     (case listing_body snap op (snd bd) of Inl _ \<Rightarrow> Inl () | Inr (_, d) \<Rightarrow> Inr ((), (fst bd, d)))"

lemma create_review_cases:
  assumes "create_review new_id s i bd = Inr (v, d)"
  obtains b where "find_booking (ri_booking_id i) s = Some b" "b_guest b = ri_guest i" "b_status b = Completed"
    "\<forall>w \<in> set (fst bd). vw_booking w \<noteq> ri_booking_id i" "scores_ok i" "vw_booking v = ri_booking_id i"
    "vw_property v = b_property b" "vw_guest v = ri_guest i" "vw_overall v = ri_overall i" "vw_state v = Review_published"
    "vw_reply v = None" "d = recalculate_property_rating (b_property b) (insert_row v (fst bd), snd bd)"
  using assms by (auto simp: create_review_def Let_def split: option.splits if_splits)

lemma board_body_keeps:
  assumes ok: "board_ok bd" and r: "board_body snap op bd = Inr (x, d)"
  shows "board_ok d"
proof (cases op)
  case (Post_review k s i)
  with r have listed: "bookings_listed s (snd bd)" and "\<exists>v. create_review k s i bd = Inr (v, d)"
    by (auto simp: forget_Inr split: if_splits)
  then obtain v where v: "create_review k s i bd = Inr (v, d)" by blast
  then show ?thesis
  proof (cases rule: create_review_cases)
    case (1 b)
    have "row_exists (\<lambda>r. ls_id r = b_property b) (listings (snd bd))"
      using listed first_where_Some [OF 1(1)] by (simp add: bookings_listed_def list_all_iff)
    with recalculate_ok [of "fst bd" "snd bd" v "b_property b"] ok 1 show ?thesis by simp
  qed
next
  case (Post_reply now rid host reply)
  with r have d: "d = bd \<or> d = (update_where (\<lambda>x. vw_id x = rid) (\<lambda>x. x\<lparr>vw_reply := Some reply, vw_reply_at := Some now\<rparr>) (fst bd), snd bd)"
    by (auto simp: forget_Inr reply_to_review_def Let_def split: option.splits if_splits)
  have "published_of p (update_where (\<lambda>x. vw_id x = rid) (\<lambda>x. x\<lparr>vw_reply := Some reply, vw_reply_at := Some now\<rparr>) rs) =
      update_where (\<lambda>x. vw_id x = rid) (\<lambda>x. x\<lparr>vw_reply := Some reply, vw_reply_at := Some now\<rparr>) (published_of p rs)" for p rs
    by (induction rs) (auto simp: published_of_def select_where_def)
  moreover have "average_rating (update_where P (\<lambda>x. x\<lparr>vw_reply := Some reply, vw_reply_at := Some now\<rparr>) rs) = average_rating rs" for P rs
    by (cases rs) (simp_all add: average_rating_def map_update_where)
  ultimately show ?thesis
    using d ok by (auto simp: board_ok_def rating_ok_def [abs_def] map_update_where list_all_iff)
next
  case (On_listing lop)
  with r obtain c y where d: "d = (fst bd, c)" "listing_body snap lop (snd bd) = Inr (y, c)"
    by (auto split: sum.splits)
  from listing_op_ratings [OF d(2)] show ?thesis
    using ok rating_rows_ok [of c "snd bd" "fst bd"] new_listing_board [of "fst bd" "snd bd" c] by (auto simp: d(1))
qed

interpretation board: guarded_steps "board_body snap" board_ok for snap
  by unfold_locales (rule board_body_keeps)

definition run_board :: "(point \<Rightarrow> point) \<Rightarrow> board_op list \<Rightarrow> board \<Rightarrow> board" where
  "run_board snap ops bd = fold (\<lambda>op bd. snd (with_transaction (board_body snap op) bd)) ops bd"

lemma run_board_keeps: "board_ok bd \<Longrightarrow> board_ok (run_board snap ops bd)"
  using board.run_keeps [of bd snap ops] by (simp add: run_board_def board.exec_def [abs_def])

lemma empty_board_ok: "board_ok ([], empty_catalog)"
  by (simp add: board_ok_def empty_catalog_def)

end
