(* ===== verification/Public_View.thy ===== *)
theory Public_View
  imports Reviews Booking Rate_Limit Listing_Edit
begin

text \<open>
  What everybody may see: the search (app/api/properties/route.ts), the page of a property
  (app/api/properties/[id]/route.ts), its availability (app/api/properties/[id]/availability/route.ts) and
  saved properties (lib/favourites/savedProperties.ts). Each has its own copy of the rule that says when
  a listing is public. The catalog is read beside the calendars of the \<open>store\<close>.
\<close>

subsection \<open>When a listing is public\<close>

definition has_expired_items :: "day \<Rightarrow> uuid \<Rightarrow> catalog \<Rightarrow> bool" where
  "has_expired_items today i c = row_exists (\<lambda>e. ci_property e = i \<and> expired_item today e) (evidence c)"

definition publicly_visible :: "day \<Rightarrow> catalog \<Rightarrow> listing_row \<Rightarrow> bool" where
  "publicly_visible today c r \<longleftrightarrow>
     ls_status r = Prop_published \<and> ls_compliance r = Comp_approved \<and> \<not> has_expired_items today (ls_id r) c"

subsection \<open>Search\<close>

text \<open>
  \<open>ILIKE\<close>: percent matches any text, underscore one character, a backslash takes the next literally; letters
  are compared without case. (A pattern that ends in a backslash is an error in PostgreSQL; it matches nothing here.)
\<close>

fun like :: "js_string \<Rightarrow> js_string \<Rightarrow> bool" where
  "like [] t = (t = [])"
| "like (p # ps) [] = (p = CHR ''%'' \<and> like ps [])"
| "like (p # ps) (c # t) =
     (if p = CHR ''%'' then like ps (c # t) \<or> like (p # ps) t
      else if p = CHR 0x5C then (case ps of [] \<Rightarrow> False | q # qs \<Rightarrow> q = c \<and> like qs t)
      else (p = CHR ''_'' \<or> p = c) \<and> like ps t)"

definition ilike :: "js_string \<Rightarrow> js_string \<Rightarrow> bool" where
  "ilike t pattern = like (to_lower pattern) (to_lower t)"

record search_query =
  sq_city :: "js_string option"
  sq_district :: "js_string option"
  sq_guests :: "int option"
  sq_dates :: "(day \<times> day) option"

definition search_matches :: "day \<Rightarrow> search_query \<Rightarrow> catalog \<Rightarrow> store \<Rightarrow> listing_row \<Rightarrow> bool" where
  "search_matches today q c s r \<longleftrightarrow>
     ls_status r = Prop_published \<and> ls_compliance r = Comp_approved \<and> \<not> has_expired_items today (ls_id r) c \<and>
     (case sq_city q of None \<Rightarrow> True | Some t \<Rightarrow> ilike (lc_city (ls_content r)) t) \<and>
     (case sq_district q of None \<Rightarrow> True
      | Some t \<Rightarrow> (case lc_district (ls_content r) of None \<Rightarrow> False | Some d \<Rightarrow> ilike d t)) \<and>
     (case sq_guests q of None \<Rightarrow> True | Some g \<Rightarrow> g \<le> lc_max_guests (ls_content r)) \<and>
     (case sq_dates q of
        None \<Rightarrow> True
      | Some (a, b) \<Rightarrow>
          let nights = js_round (js_div (of_int (day_ms b - day_ms a)) 86400000) in
          \<not> nights_taken (avail s (ls_id r)) a b \<and>
          lc_min_stay (ls_content r) \<le> nights \<and> nights \<le> lc_max_stay (ls_content r))"

text \<open>\<open>ORDER BY rating DESC NULLS LAST, review_count DESC LIMIT 50\<close>.\<close>

definition rating_key :: "listing_row \<Rightarrow> rat" where
  "rating_key r = (case ls_rating r of None \<Rightarrow> 1 | Some q \<Rightarrow> - q)"

definition search_properties :: "day \<Rightarrow> search_query \<Rightarrow> catalog \<Rightarrow> store \<Rightarrow> listing_row list" where
  "search_properties today q c s =
     take 50 (sort_key rating_key (sort_key (\<lambda>r. - ls_review_count r) (select_where (search_matches today q c s) (listings c))))"

subsection \<open>The page of a property\<close>

definition uuid_text :: "js_string \<Rightarrow> bool" where
  "uuid_text t =
     (let parts = split_on CHR ''-'' (to_lower t) in
      map length parts = [8, 4, 4, 4, 12] \<and> list_all (list_all hex_digit) parts)"

definition find_by_key :: "js_string \<Rightarrow> catalog \<Rightarrow> listing_row option" where
  "find_by_key k c =
     (if uuid_text k then first_where (\<lambda>r. ls_id r = to_lower k) (listings c) else first_where (\<lambda>r. ls_slug r = k) (listings c))"

datatype 'a page = Invalid_id | Not_shown | Shown 'a

record property_page =
  pp_listing :: listing_row
  pp_reviewed :: bool
  pp_reviewed_at :: "millis option"
  pp_review_checks :: nat
  pp_images :: "image_row list"

definition owned_by :: "uuid option \<Rightarrow> listing_row \<Rightarrow> bool" where
  "owned_by host r \<longleftrightarrow> host \<noteq> None \<and> host \<noteq> Some [] \<and> host = Some (ls_host r)"

definition property_page_of :: "day \<Rightarrow> catalog \<Rightarrow> listing_row \<Rightarrow> property_page" where
  "property_page_of today c r =
     (let n = row_count (\<lambda>e. ci_review e = Review_approved \<and> ci_applicability e = Required \<and> \<not> expired_item today e)
            (items_of (ls_id r) c);
          ok = (ls_compliance r = Comp_approved \<and> \<not> has_expired_items today (ls_id r) c)
      in \<lparr>pp_listing = r, pp_reviewed = (ok \<and> 0 < n), pp_reviewed_at = (if ok then ls_approved r else None),
          pp_review_checks = (if ok then n else 0), pp_images = sort_key im_order (images_of (ls_id r) c)\<rparr>)"

definition get_property_page :: "day \<Rightarrow> uuid option \<Rightarrow> js_string \<Rightarrow> catalog \<Rightarrow> property_page page" where
  "get_property_page today host k c =
     (if \<not> uuid_text k \<and> \<not> slug_pattern k then Invalid_id
      else
        (case find_by_key k c of
           None \<Rightarrow> Not_shown
         | Some r \<Rightarrow>
             if \<not> publicly_visible today c r \<and> \<not> owned_by host r then Not_shown
             else Shown (property_page_of today c r)))"

definition get_public_availability :: "day \<Rightarrow> uuid option \<Rightarrow> js_string \<Rightarrow> catalog \<Rightarrow> store \<Rightarrow> (day \<Rightarrow> bool) page" where
  "get_public_availability today host k c s =
     (if \<not> uuid_text k \<and> \<not> slug_pattern k then Invalid_id
      else
        (case find_by_key k c of
           None \<Rightarrow> Not_shown
         | Some r \<Rightarrow>
             if ls_status r \<noteq> Prop_published \<and> \<not> owned_by host r then Not_shown
             else Shown (\<lambda>d. today \<le> d \<and> (case avail s (ls_id r) d of None \<Rightarrow> False | Some a \<Rightarrow> av_status a \<noteq> Available))))"

subsection \<open>Saved properties\<close>

text \<open>The table's key is the pair of user and property; rows are in the order they were saved.\<close>

type_synonym saved = "(uuid \<times> uuid) list"

definition save_property :: "day \<Rightarrow> uuid \<Rightarrow> uuid \<Rightarrow> catalog \<Rightarrow> saved \<Rightarrow> unit + saved" where
  "save_property today u p c sv =
     (if row_exists (\<lambda>r. ls_id r = p \<and> publicly_visible today c r) (listings c)
      then Inr (if row_exists (\<lambda>x. x = (u, p)) sv then sv else insert_row (u, p) sv)
      else Inl ())"

definition unsave_property :: "uuid \<Rightarrow> uuid \<Rightarrow> saved \<Rightarrow> saved" where
  "unsave_property u p sv = delete_where (\<lambda>x. x = (u, p)) sv"

definition list_saved_properties :: "day \<Rightarrow> uuid \<Rightarrow> catalog \<Rightarrow> saved \<Rightarrow> listing_row list" where
  "list_saved_properties today u c sv =
     concat (map (\<lambda>x. case find_listing (snd x) c of
         None \<Rightarrow> [] | Some r \<Rightarrow> if publicly_visible today c r then [r] else [])
       (rev (select_where (\<lambda>x. fst x = u) sv)))"

end
