(* ===== verification/Stay_Properties.thy ===== *)
theory Stay_Properties
  imports Trips Public_View Booking_Properties Listing_Properties
begin

text \<open>
  The properties of what guests and hosts see and are told: search and pages against the rules of booking,
  quotes against cancellation, payment status, reminders, messages and reviews.
\<close>

subsection \<open>Search\<close>

lemma expired_evidence_view:
  "has_expired_evidence today (map compliance_item.truncate (evidence c)) i = has_expired_items today i c"
  by (auto simp: has_expired_evidence_def has_expired_items_def expired_item_def compliance_item.defs)

text \<open>
  C19: The search shows a listing for a party and dates exactly when creating that booking would pass every
  check on the listing and its calendar: published, approved, evidence current, party and length of stay
  within its limits, no night taken.
\<close>

theorem search_agrees_with_booking:
  "search_matches today \<lparr>sq_city = None, sq_district = None, sq_guests = Some g, sq_dates = Some (a, b)\<rparr> c s r \<longleftrightarrow>
    stay_guard today (with_catalog c s) (property_of r) (of_int g) (nights_between a b) = None \<and>
    \<not> nights_taken (avail (with_catalog c s) (ls_id r)) a b"
proof -
  have "p_id (property_of r) = ls_id r" by (simp add: property_of_def Let_def)
  then show ?thesis
    by (auto simp: search_matches_def stay_guard_def expired_evidence_view nights_between_def property_of_def Let_def
        with_catalog_def)
qed


lemma find_listed_property:
  assumes "catalog_ok c" "r \<in> set (listings c)"
  shows "find_property (ls_id r) (with_catalog c s) = Some (property_of r)"
proof -
  have "first_where (\<lambda>p. p_id p = i) (map property_of t) = map_option property_of (first_where (\<lambda>r. ls_id r = i) t)" for i t
    by (induction t) (simp_all add: property_of_def Let_def)
  then show ?thesis
    using listing_unique [OF catalog_okD(1) [OF assms(1)] assms(2)] by (simp add: with_catalog_def)
qed

lemma nights_free:
  "\<not> nights_taken m a b \<Longrightarrow> \<forall>d. a \<le> d \<and> d < b \<longrightarrow> night_free m d"
  by (auto simp: nights_taken_iff)


definition open_catalog :: catalog where
  "open_catalog = write_property id ''villa'' (no_changes\<lparr>pi_status := Some Prop_published\<rparr>) demo_catalog"

definition open_listing :: listing_row where
  "open_listing = edit_listing id (no_changes\<lparr>pi_status := Some Prop_published\<rparr>) demo_listing"

definition open_query :: search_query where
  "open_query = \<lparr>sq_city = None, sq_district = None, sq_guests = Some 1, sq_dates = Some (20, 22)\<rparr>"

definition open_request :: booking_input where
  "open_request = (demo_input ''k1'' 20 22)\<lparr>bi_guests := 1\<rparr>"

definition fee_store :: store where
  "fee_store = empty_store\<lparr>fee_configs := [demo_fees\<lparr>fc_version := ''2026''\<rparr>]\<rparr>"

lemma open_catalog_facts:
  "catalog_ok open_catalog" "listings open_catalog = [open_listing]" "ls_id open_listing = ''villa''"
  "search_matches 0 open_query open_catalog fee_store open_listing"
proof -
  let ?inp = "no_changes\<lparr>pi_status := Some Prop_published\<rparr>"
  show "catalog_ok open_catalog" unfolding open_catalog_def by (rule write_keeps [OF demo_catalog_ok])
  have k: "ls_content open_listing = ls_content demo_listing" "ls_id open_listing = ''villa''"
    "ls_status open_listing = Prop_published" "ls_compliance open_listing = ls_compliance demo_listing"
    by (simp_all add: open_listing_def edit_listing_def Let_def no_changes_edit demo_listing_facts)
      (simp add: no_changes_def given_def)
  have "pi_amenities ?inp = None" by (simp add: no_changes_def)
  then have "listings open_catalog = [on_listing_update demo_listing open_listing]"
    by (simp add: open_catalog_def write_property_def listings_update_listing demo_listing_facts Let_def
        open_listing_def [symmetric])
  with k show "listings open_catalog = [open_listing]" by (simp add: on_listing_update_def)
  show "ls_id open_listing = ''villa''" by (fact k)
  obtain h where h: "\<forall>x \<in> set (build_checks 0 demo_catalog demo_listing h). rc_ready x"
    using demo_ready readiness_ready_iff [of 0 "''villa''" demo_catalog] find_demo_listing by auto
  then have "ls_compliance demo_listing = Comp_approved" "1 \<le> lc_max_guests (ls_content demo_listing)"
    "row_count (expired_item 0) (items_of ''villa'' demo_catalog) = 0"
    by (simp_all add: build_checks_def Let_def demo_listing_facts)
  moreover have "nights_between 20 22 = 2" by (subst nights_between_eq) (simp_all add: max_safe_def)
  ultimately show "search_matches 0 open_query open_catalog fee_store open_listing"
    using k by (simp add: search_matches_def open_query_def has_expired_items_def open_catalog_def row_count_zero_iff
        items_of_def demo_listing_facts nights_taken_iff night_free_def fee_store_def empty_store_def nights_between_def Let_def)
qed


subsection \<open>Pages\<close>

text \<open>
  The page of a published listing whose evidence has expired, or whose compliance is not approved, is
  refused to the public as if it did not exist, but its calendar is still served: the availability
  endpoint looks at the publication status alone.
\<close>

lemma hidden_listing_shows_calendar:
  assumes "uuid_text k \<or> slug_pattern k" "find_by_key k c = Some r" "ls_status r = Prop_published"
    "\<not> publicly_visible today c r"
  shows "get_property_page today None k c = Not_shown \<and>
    get_public_availability today None k c s =
      Shown (\<lambda>d. today \<le> d \<and> (case avail s (ls_id r) d of None \<Rightarrow> False | Some a \<Rightarrow> av_status a \<noteq> Available))"
  using assms by (auto simp: get_property_page_def get_public_availability_def owned_by_def)

definition lapsed_listing :: listing_row where
  "lapsed_listing =
     (new_listing id ''villa'' ''host'' ''villa-x1'' Prop_published
       (new_content \<lparr>pi_name = None, pi_type = None, pi_description = None, pi_city = None, pi_district = None,
          pi_country = None, pi_max_guests = None, pi_bedrooms = None, pi_bathrooms = None, pi_nightly = None,
          pi_cleaning = None, pi_currency = None, pi_min_stay = None, pi_max_stay = None, pi_policy = None,
          pi_address1 = None, pi_address2 = None, pi_town = None, pi_county = None, pi_postcode = None,
          pi_latitude = None, pi_longitude = None, pi_check_in = None, pi_check_out = None, pi_rules = None,
          pi_status = None, pi_amenities = None\<rparr> ''Villa'' ''York'' 4 2 1))\<lparr>ls_compliance := Comp_approved\<rparr>"

definition lapsed_catalog :: catalog where
  "lapsed_catalog = empty_catalog\<lparr>listings := [lapsed_listing],
     evidence := [(item_row 0 ''villa'' \<lparr>oi_category = ''fire_safety'', oi_applicability = Required, oi_declared = True,
       oi_url = Some ''https://e'', oi_ref = None, oi_until = Some 5, oi_note = None\<rparr>)\<lparr>ci_review := Review_approved\<rparr>]\<rparr>"

lemma hidden_listing_shows_calendar_witness:
  "get_property_page 10 None ''villa-x1'' lapsed_catalog = Not_shown \<and>
    get_public_availability 10 None ''villa-x1'' lapsed_catalog empty_store =
      Shown (\<lambda>d. 10 \<le> d \<and> (case avail empty_store (ls_id lapsed_listing) d of None \<Rightarrow> False | Some a \<Rightarrow> av_status a \<noteq> Available))"
proof (rule hidden_listing_shows_calendar)
  show "uuid_text ''villa-x1'' \<or> slug_pattern ''villa-x1''" by code_simp
  have "\<not> uuid_text ''villa-x1''" by code_simp
  then show "find_by_key ''villa-x1'' lapsed_catalog = Some lapsed_listing"
    by (simp add: find_by_key_def lapsed_catalog_def lapsed_listing_def new_listing_def)
  show "ls_status lapsed_listing = Prop_published" by (simp add: lapsed_listing_def new_listing_def)
  show "\<not> publicly_visible 10 lapsed_catalog lapsed_listing"
    by (simp add: publicly_visible_def has_expired_items_def lapsed_catalog_def lapsed_listing_def new_listing_def item_row_def
        expired_item_def)
qed

end
