(* ===== verification/Guest_Properties.thy ===== *)
theory Guest_Properties
  imports Trips Reviews Scenario
begin

text \<open>
  The properties of what guests and hosts are told: quotes against cancellation, the payment status on the
  pages, reminders, messages and reviews.
\<close>

subsection \<open>Quotes and cancellation\<close>


lemma to_fixed2_trim: "0 \<le> n \<Longrightarrow> js_trim (to_fixed2 n @ '' '') = to_fixed2 n"
proof -
  assume n: "0 \<le> n"
  let ?d = "dec_text (nat (n div 100))" and ?p = "pad2 (n mod 100)"
  have digits: "list_all is_digit ?d" "?d \<noteq> []" "list_all is_digit ?p" "?p \<noteq> []"
    using dec_text_digits dec_text.simps [of "nat (n div 100)"] by (auto simp: pad2_def digit_char_props)
  have written: "to_fixed2 n = ?d @ ''.'' @ ?p" using n by (simp add: to_fixed2_def)
  have "\<not> js_space (hd ?d)" "\<not> js_space (last ?p)"
    using digits by (auto simp: list_all_iff digit_not_dash)
  then have "\<not> js_space (hd (to_fixed2 n))" "\<not> js_space (last (to_fixed2 n))" using digits by (auto simp: written)
  moreover have "trim_end (to_fixed2 n @ '' '') = trim_end (to_fixed2 n)" by (simp add: trim_end_def js_space_def)
  ultimately show ?thesis by (simp add: js_trim_def trim_end_id trim_start_id)
qed

subsection \<open>People and a listing for the instances\<close>

definition some_content :: listing_content where
  "some_content =
     \<lparr>lc_name = ''Villa'', lc_type = None, lc_description = None, lc_city = ''York'', lc_district = None,
      lc_country = None, lc_max_guests = 4, lc_bedrooms = 1, lc_bathrooms = 10, lc_nightly = None, lc_cleaning = 0,
      lc_currency = ''GBP'', lc_min_stay = 1, lc_max_stay = 30, lc_policy = None, lc_check_in = ''15:00'',
      lc_check_out = ''11:00'', lc_rules = None, lc_address1 = None, lc_address2 = None, lc_town = None,
      lc_county = None, lc_postcode = None, lc_private = None\<rparr>"

definition talk_catalog :: catalog where
  "talk_catalog = empty_catalog
     \<lparr>listings := [new_listing id ''villa'' ''host'' ''villa-1'' Prop_published some_content],
      profiles := [\<lparr>h_id = ''host'', h_user = ''u1'', h_account = None, h_payout_status = Account_active,
        hp_version = None, hp_agreed = None, hp_policies = None\<rparr>]\<rparr>"

definition some_user :: "uuid \<Rightarrow> user_row" where
  "some_user i =
     \<lparr>us_id = i, us_email = i, us_hash = None, us_status = ''active'', us_verified = None, us_version = 1, us_fails = 0,
      us_window = None, us_locked = None, us_changed = None\<rparr>"

definition talk_env :: mail_env where
  "talk_env =
     \<lparr>me_deliver = (\<lambda>_ _ _. None), me_glyph = (\<lambda>_. ''-''), me_date = (\<lambda>_. ''day''), me_host_name = (\<lambda>_. None),
      me_site = ''https://h'', me_accounts = \<lparr>users = [some_user ''guest'', some_user ''u1''], owners = [], sessions = [],
        reset_tokens = [], verify_tokens = [], login_tokens = [], recovery_codes = [], challenges = [], credentials = [],
        admins = [], permissions = [], security_log = [], admin_actions = []\<rparr>\<rparr>"

definition person :: "uuid \<Rightarrow> uuid option \<Rightarrow> jwt" where
  "person u h = \<lparr>jw_user = u, jw_roles = [], jw_host = h, jw_admin = None, jw_version = 1, jw_session = ''s''\<rparr>"

text \<open>A stay of the delayed flow, charged and confirmed: the money is in its attempt, there is no payment row.\<close>

definition charged_store :: store where
  "charged_store = (booked_with Confirmed Paid)
     \<lparr>payments := [],
      bookings := [(demo_booking ''b1'' Confirmed)\<lparr>b_flow := Separate_charges_delayed_v1, b_payment_method := Some ''pm'',
        b_scheduled := Some 0\<rparr>],
      attempts := [\<lparr>pa_id = ''a1'', pa_booking = ''b1'', pa_number = 1, pa_status = At_succeeded, pa_amount = 30000,
        pa_currency = ''GBP'', pa_key = ''k'', pa_intent = Some ''pi_1'', pa_failure_code = None, pa_failure_message = None,
        pa_token = None, pa_lease = None\<rparr>]\<rparr>"

subsection \<open>Cancelling a stay of the delayed flow\<close>

lemma system_message_sent:
  assumes "find_booking bk s = Some b"
  shows "\<exists>m1. send_system_message env now s bk ty x u m = (None, notify_user env u ty x m1) \<and>
    (\<exists>g \<in> set (messages m1). ms_body g = rn_body (render_notification (me_glyph env) ty x) \<and> ms_sender g = From_system)"
proof -
  obtain c m1 where "open_conversation now s bk m = Inr (c, m1)"
    using assms by (cases "conversation_of bk m") (auto simp: open_conversation_def Let_def)
  then show ?thesis by (auto simp: send_system_message_def send_message_def Let_def)
qed

lemma cancel_unpaid_row:
  assumes "find_booking bk s = Some b" "b_status b = Confirmed" "find_price bk s = Some pc" "payment_of bk s = None"
  shows "\<exists>s1. cancel_booking_and_refund listed create fresh now bk who s =
      (Inr ((calculate_cancellation (b_policy b) (b_check_in b) (pc_total pc) (pc_payout pc) now, None), None), s1) \<and>
    refunds s1 = refunds s \<and> find_booking bk s1 = Some (b\<lparr>b_status := Cancelled\<rparr>)"
proof -
  have "b_id b = bk" using first_where_Some [OF assms(1)] by simp
  with assms show ?thesis
    by (simp add: cancel_booking_and_refund_def cancel_booking_def with_transaction_def cancel_booking_tx_def Let_def
        refund_request_for_def first_where_update)
qed

text \<open>
  C23: Cancelling a confirmed booking that has no payment row, as every booking of the delayed flow, whose
  charge is kept in its attempts: the cancellation succeeds with the refund that was quoted, no refund
  is requested or recorded, and the guest is told that it has been initiated.
\<close>

theorem delayed_cancellation_refunds_nothing:
  assumes quote: "cancellation_quote now t bk s = Inr (Quote pct refund retained cur tiers)" and "0 < refund"
    and b: "find_booking bk s = Some b" "b_status b = Confirmed" and "payment_of bk s = None"
    and "booking_context env c s bk = Some (guest, host, x)"
  shows "\<exists>oc s1 m1. cancel_and_notify env listed create fresh now c bk who s m = (Inr ((oc, None), None), s1, m1) \<and>
    oc_refundable oc = refund \<and> refunds s1 = refunds s \<and>
    (\<exists>g \<in> set (messages m1). ms_sender g = From_system \<and> ms_body g =
       ''Your booking ('' @ bk @ '') has been cancelled. A refund of '' @ to_fixed2 refund @ '' has been initiated.'')"
proof -
  from quote b obtain pc where pc: "find_price bk s = Some pc"
    "refund = oc_refundable (calculate_cancellation (b_policy b) (b_check_in b) (pc_total pc) (pc_payout pc) now)"
    by (auto simp: cancellation_quote_def Let_def split: sum.splits option.splits if_splits)
  let ?oc = "calculate_cancellation (b_policy b) (b_check_in b) (pc_total pc) (pc_payout pc) now"
  let ?x = "x\<lparr>tc_refund := Some (to_fixed2 refund)\<rparr>"
  obtain s1 where s1: "cancel_booking_and_refund listed create fresh now bk who s = (Inr ((?oc, None), None), s1)"
    "refunds s1 = refunds s" "find_booking bk s1 = Some (b\<lparr>b_status := Cancelled\<rparr>)"
    using cancel_unpaid_row [OF b pc(1) assms(5)] by blast
  obtain m1 where m1: "send_system_message env now s1 bk Booking_cancelled_notice ?x guest m =
      (None, notify_user env guest Booking_cancelled_notice ?x m1)"
    "\<exists>g \<in> set (messages m1). ms_body g = rn_body (render_notification (me_glyph env) Booking_cancelled_notice ?x) \<and> ms_sender g = From_system"
    using system_message_sent [OF s1(3)] by blast
  have written: "refund_text ?oc None = Some (to_fixed2 refund)"
    using \<open>0 < refund\<close> pc(2) by (simp add: refund_text_def to_fixed2_trim)
  have nonempty: "to_fixed2 refund \<noteq> []" by (simp add: to_fixed2_def)
  have "booking_context env c s1 bk = Some (guest, host, x)" "tc_booking x = Some bk"
    using assms(6) b(1) s1(3) by (auto simp: booking_context_def split: option.splits)
  then have "send_booking_cancelled env now c s1 bk (refund_text ?oc None) m =
      (None, notify_user env host Host_booking_cancelled x (notify_user env guest Booking_cancelled_notice ?x m1))"
    unfolding send_booking_cancelled_def written by (simp add: m1(1))
  then show ?thesis
    using m1(2) nonempty \<open>tc_booking x = Some bk\<close> s1 pc(2)
    by (auto simp: cancel_and_notify_def render_notification_def Let_def shown_def when_given_def)
qed

theorem delayed_cancellation_refunds_nothing_witness:
  "\<exists>oc s1 m1. cancel_and_notify talk_env (\<lambda>_. []) (\<lambda>_. Inl ''unused'') ''rf'' 0 talk_catalog ''b1'' By_guest charged_store empty_mailbox =
      (Inr ((oc, None), None), s1, m1) \<and> oc_refundable oc = 30000 \<and> refunds s1 = refunds charged_store \<and>
    (\<exists>g \<in> set (messages m1). ms_sender g = From_system \<and> ms_body g =
       ''Your booking ('' @ ''b1'' @ '') has been cancelled. A refund of '' @ to_fixed2 30000 @ '' has been initiated.'')"
proof (rule delayed_cancellation_refunds_nothing)
  show "cancellation_quote 0 (person ''guest'' None) ''b1'' charged_store =
      Inr (Quote 100 30000 0 ''GBP'' (b_policy (demo_booking ''b1'' Confirmed)))" by code_simp
  show "find_booking ''b1'' charged_store = Some (hd (bookings charged_store))" by code_simp
  show "b_status (hd (bookings charged_store)) = Confirmed" by code_simp
  show "payment_of ''b1'' charged_store = None" by code_simp
  show "booking_context talk_env talk_catalog charged_store ''b1'' = Some (''guest'', ''u1'',
      empty_context\<lparr>tc_property := Some ''Villa'', tc_check_in := Some ''day'', tc_check_out := Some ''day'',
        tc_booking := Some ''b1'', tc_time := Some ''15:00'', tc_host := None\<rparr>)" by code_simp
qed simp

subsection \<open>The payment status\<close>

text \<open>
  The three places that compute a booking's payment status on their own agree: the rows of the trip list,
  the guest's booking page and the host's booking page show what computeGuestPaymentStatus gives.
\<close>

lemma pages_agree:
  "tr_guest_status (trip_row_of now s b r) = compute_guest_payment_status b s now \<and>
   (case (get_booking_detail env now s c bk, get_host_booking_detail now s c bk) of
      (Inr g, Some h) \<Rightarrow> bp_row g = hg_row h \<and> bp_guest_status g = hg_guest_status h \<and>
        bp_guest_status g = compute_guest_payment_status (bp_row g) s now \<and> bp_payment g = hg_payment h
    | (Inl e, None) \<Rightarrow> e = Booking_not_found
    | _ \<Rightarrow> False)"
proof -
  have status: "fst (detail_payment_status b (if b_flow b = Separate_charges_delayed_v1 then latest_attempt (b_id b) s else None) now) =
      compute_guest_payment_status b s now" for b
    by (simp add: detail_payment_status_def compute_guest_payment_status_def booking_status_input_def Let_def)
  have "tr_guest_status (trip_row_of now s b r) = compute_guest_payment_status b s now"
    by (simp add: trip_row_of_def trip_payment_status_def compute_guest_payment_status_def booking_status_input_def)
  moreover have "fst (detail_payment_status x (if b_flow x = Separate_charges_delayed_v1 then latest_attempt bk s else None) now) =
      compute_guest_payment_status x s now" if "find_booking bk s = Some x" for x
    using status [of x] first_where_Some [OF that] by (auto split: if_splits)
  ultimately show ?thesis
    by (auto simp: get_booking_detail_def get_host_booking_detail_def Let_def split: option.split prod.split)
qed

text \<open>
  A stay of the delayed flow that was charged is shown as paid while it is confirmed, and once the nightly job
  has completed it, as still to be charged: the status reads success from the booking being confirmed.
\<close>

lemma completed_stay_looks_unpaid:
  assumes b: "find_booking bk s = Some b" "b_flow b = Separate_charges_delayed_v1" "stay_over now b"
    and charged: "latest_attempt bk s = Some a" "pa_status a = At_succeeded" "b_payment_method b \<noteq> None"
    and due: "\<not> before now (b_scheduled b)"
  shows "compute_guest_payment_status b s now = Some Payment_done \<and>
    (\<exists>b'. find_booking bk (snd (complete_stays now s)) = Some b' \<and> b_status b' = Completed \<and>
       compute_guest_payment_status b' (snd (complete_stays now s)) now = Some Payment_method_saved)"
proof -
  let ?b = "b\<lparr>b_status := Completed\<rparr>"
  have id: "b_id b = bk" using first_where_Some [OF b(1)] by simp
  have "find_booking bk (snd (complete_stays now s)) = Some ?b"
    using b by (simp add: complete_stays_def first_where_update)
  moreover have "latest_attempt bk (snd (complete_stays now s)) = Some a"
    using charged(1) by (simp add: complete_stays_def latest_attempt_def)
  ultimately show ?thesis
    using assms id by (simp add: compute_guest_payment_status_def booking_status_input_def derive_guest_payment_status_def stay_over_def)
qed

lemma completed_stay_looks_unpaid_witness:
  "compute_guest_payment_status (hd (bookings charged_store)) charged_store (day_ms 22) = Some Payment_done \<and>
    (\<exists>b'. find_booking ''b1'' (snd (complete_stays (day_ms 22) charged_store)) = Some b' \<and> b_status b' = Completed \<and>
       compute_guest_payment_status b' (snd (complete_stays (day_ms 22) charged_store)) (day_ms 22) = Some Payment_method_saved)"
proof (rule completed_stay_looks_unpaid)
  show "find_booking ''b1'' charged_store = Some (hd (bookings charged_store))" by code_simp
  show "b_flow (hd (bookings charged_store)) = Separate_charges_delayed_v1" by code_simp
  show "stay_over (day_ms 22) (hd (bookings charged_store))" by code_simp
  show "latest_attempt ''b1'' charged_store = Some (hd (attempts charged_store))" by code_simp
  show "pa_status (hd (attempts charged_store)) = At_succeeded" by code_simp
  show "b_payment_method (hd (bookings charged_store)) \<noteq> None" by code_simp
  show "\<not> before (day_ms 22) (b_scheduled (hd (bookings charged_store)))" by code_simp
qed

subsection \<open>Reminders\<close>

text \<open>What a notification says to whom, without its identifier and the fate of its delivery.\<close>

definition notice :: "notification \<Rightarrow> uuid \<times> notification_type \<times> template_context" where
  "notice n = (nf_user n, nf_type n, nf_context n)"

definition told :: "booking \<Rightarrow> mailbox \<Rightarrow> bool" where
  "told b m \<longleftrightarrow> (\<exists>x. (b_guest b, Checkin_reminder, x) \<in> notice ` set (notifications m) \<and> tc_booking x = Some (b_id b))"

lemma reminder_due_told:
  "reminder_due now m b \<longleftrightarrow> b_status b = Confirmed \<and> b_check_in b = day_of_ms now + 1 \<and> \<not> told b m"
proof -
  have "told b m \<longleftrightarrow> row_exists (\<lambda>n. nf_user n = b_guest b \<and> nf_type n = Checkin_reminder \<and>
      tc_booking (nf_context n) = Some (b_id b)) (notifications m)"
    unfolding told_def row_exists_iff notice_def image_iff Bex_def by (metis prod.inject)
  then show ?thesis by (simp only: reminder_due_def)
qed

lemma notify_notices:
  "map notice (notifications (notify_user env u ty x m)) =
     map notice (notifications m) @ (u, ty, x) # (if pf_email (preference_of u m) then [(u, ty, x)] else [])"
proof -
  have "map notice (update_where P (\<lambda>n. n\<lparr>nf_status := st\<rparr>) ns) = map notice ns" for P st ns
    by (rule map_update_where) (simp add: notice_def)
  then show ?thesis
    by (cases "pf_email (preference_of u m)")
      (simp_all add: notify_user_def insert_notification_def Let_def insert_row_def notice_def)
qed

lemma told_notify: "told b m \<Longrightarrow> told b (notify_user env u ty x m)"
  using arg_cong [OF notify_notices [of env u ty x m], of set] by (auto simp: told_def)

lemma told_reminded: "tc_booking x = Some (b_id b) \<Longrightarrow> told b (notify_user env (b_guest b) Checkin_reminder x m)"
  using arg_cong [OF notify_notices [of env "b_guest b" Checkin_reminder x m], of set] by (auto simp: told_def)

lemma send_message_notifications:
  "send_message now s bk who u body att m = Inr (msg, n) \<Longrightarrow> notifications n = notifications m"
  by (auto simp: send_message_def open_conversation_def Let_def split: sum.splits option.splits)

lemma system_message_told:
  assumes "find_booking bk s = Some k"
  obtains m1 where "send_system_message env now s bk ty x u m = (None, notify_user env u ty x m1)"
    "notifications m1 = notifications m"
  using system_message_sent [OF assms, of env now ty x u m] that
  by (auto simp: send_system_message_def split: sum.splits dest: send_message_notifications)

lemma told_same: "notifications n = notifications m \<Longrightarrow> told b n = told b m"
  by (simp add: told_def)

lemma remind_tells:
  assumes "b \<in> set (bookings s)"
  shows "\<exists>m1. remind env now s b r m = (None, m1) \<and> told b m1 \<and> (\<forall>b'. told b' m \<longrightarrow> told b' m1)"
proof -
  obtain k where k: "find_booking (b_id b) s = Some k"
    using assms by (cases "find_booking (b_id b) s") (auto simp: first_where_None)
  let ?x = "empty_context\<lparr>tc_property := Some (lc_name (ls_content r)), tc_check_in := Some (me_date env (b_check_in b)),
            tc_check_out := Some (me_date env (b_check_out b)), tc_booking := Some (b_id b),
            tc_time := Some (lc_check_in (ls_content r))\<rparr>"
  let ?y = "?x\<lparr>tc_instructions := lc_rules (ls_content r)\<rparr>"
  obtain m1 where m1: "send_system_message env now s (b_id b) Checkin_reminder ?x (b_guest b) m =
      (None, notify_user env (b_guest b) Checkin_reminder ?x m1)" "notifications m1 = notifications m"
    using system_message_told [OF k] by blast
  let ?m2 = "notify_user env (b_guest b) Checkin_reminder ?x m1"
  obtain m3 where m3: "send_system_message env now s (b_id b) Checkin_info_available ?y (b_guest b) ?m2 =
      (None, notify_user env (b_guest b) Checkin_info_available ?y m3)" "notifications m3 = notifications ?m2"
    using system_message_told [OF k] by blast
  have "remind env now s b r m = (None, notify_user env (b_guest b) Checkin_info_available ?y m3)"
    using m1(1) m3(1) by (simp add: remind_def Let_def)
  moreover have "told b ?m2" by (rule told_reminded) simp
  ultimately show ?thesis
    using told_same [OF m1(2)] told_same [OF m3(2)] by (auto intro: told_notify)
qed

lemma each_row_tells:
  assumes "\<forall>(b, r) \<in> set rows. b \<in> set (bookings s)"
  shows "\<exists>m1. each_row (\<lambda>(b, r). remind env now s b r) rows m = (None, m1) \<and>
    (\<forall>b. told b m \<or> b \<in> fst ` set rows \<longrightarrow> told b m1)"
  using assms
proof (induction rows arbitrary: m)
  case (Cons x rows)
  obtain b r where x: "x = (b, r)" by (cases x)
  with Cons.prems obtain m1 where m1: "remind env now s b r m = (None, m1)" "told b m1" "\<forall>b'. told b' m \<longrightarrow> told b' m1"
    using remind_tells [of b s env now r m] by auto
  from Cons.IH [of m1] Cons.prems obtain m2 where
    "each_row (\<lambda>(b, r). remind env now s b r) rows m1 = (None, m2)" "\<forall>b. told b m1 \<or> b \<in> fst ` set rows \<longrightarrow> told b m2"
    by auto
  with x m1 show ?case by (auto simp: image_iff)
qed simp

lemma joined_Pair: "set (joined c Pair bs) = {(b, r). b \<in> set bs \<and> find_listing (b_property b) c = Some r}"
  by (auto simp: joined_def split: option.splits)


subsection \<open>Holds that ran out\<close>

text \<open>
  The sweep on one hold: a booking it lets go of is cancelled and its guest is notified under a subject that
  names no property, "Your booking at undefined has been cancelled"; any other booking is left alone.
\<close>

lemma expired_hold_notice:
  "case release_expired_hold now bk s of
     Inr (Some b, s1) \<Rightarrow> \<exists>m1. expire_hold env now bk (s, m) = (s1, m1) \<and>
       (\<exists>n \<in> set (notifications m1). nf_user n = b_guest b \<and> nf_channel n = In_app \<and>
          rn_subject (nf_text n) = ''Your booking at undefined has been cancelled'')
   | _ \<Rightarrow> expire_hold env now bk (s, m) = (s, m)"
proof -
  let ?x = "empty_context\<lparr>tc_booking := Some bk\<rparr>"
  have told: "\<exists>n \<in> set (notifications (notify_user env u Booking_cancelled_notice ?x m)). nf_user n = u \<and> nf_channel n = In_app \<and>
      rn_subject (nf_text n) = ''Your booking at undefined has been cancelled''" for u
  proof -
    let ?n = "\<lparr>nf_id = length (notifications m), nf_user = u, nf_type = Booking_cancelled_notice, nf_channel = In_app,
      nf_text = render_notification (me_glyph env) Booking_cancelled_notice ?x, nf_context = ?x, nf_status = Delivery_sent\<rparr>"
    have "?n \<in> set (notifications (notify_user env u Booking_cancelled_notice ?x m))"
      by (simp add: notify_user_def insert_notification_def Let_def in_update_where_miss)
    then show ?thesis by (rule rev_bexI) (simp add: render_notification_def shown_def empty_context_def Let_def)
  qed
  have "(\<exists>b s1. release_expired_hold now bk s = Inr (Some b, s1)) \<or> release_expired_hold now bk s = Inr (None, s)"
    by (auto simp: release_expired_hold_def Let_def split: option.split)
  then consider (freed) b s1 where "release_expired_hold now bk s = Inr (Some b, s1)"
    | (kept) "release_expired_hold now bk s = Inr (None, s)" by blast
  then show ?thesis
  proof cases
    case freed
    then show ?thesis using told by (simp add: expire_hold_def with_transaction_def)
  next
    case kept
    then show ?thesis by (simp add: expire_hold_def with_transaction_def)
  qed
qed

subsection \<open>Messages\<close>

text \<open>
  After any run of the operations on messages, a message a guest or host posts is the last in the
  conversation of its booking, under the poster's role; the other side's unread count goes up by one, and
  nobody else's, the poster's included.
\<close>

lemma post_reaches_other_side:
  assumes "post_message env now s t bk body att (run_mail env s ops empty_mailbox) = Inr (msg, n)"
  shows "\<exists>b. find_booking bk s = Some b \<and>
    msg \<in> set (list_messages bk n) \<and> ms_body msg = body \<and> ms_user msg = Some (jw_user t) \<and>
    ms_sender msg = (if jw_user t = b_guest b then From_guest else From_host) \<and>
    (\<forall>v. get_unread_count v s n = get_unread_count v s (run_mail env s ops empty_mailbox) +
       (if v \<noteq> jw_user t \<and> (v = b_guest b \<or> row_exists (\<lambda>h. h_id h = b_host b \<and> h_user h = v) (hosts s)) then 1 else 0))"
proof -
  let ?m = "run_mail env s ops empty_mailbox"
  have ok: "mailbox_ok s ?m" by (rule run_mail_keeps [OF empty_mailbox_ok])
  from assms show ?thesis
  proof (cases rule: post_message_cases)
    case (1 acc p m1)
    obtain b where b: "find_booking bk s = Some b" "ac_role acc = Guest \<longleftrightarrow> jw_user t = b_guest b"
      using 1(1) by (auto simp: resolve_booking_access_def Let_def split: option.splits if_splits)
    note sent = send_message_ok [OF ok 1(4)] and ok1 = send_message_ok(1) [OF ok 1(4)]
    have same: "messages n = messages m1" "conversations n = conversations m1"
      unfolding 1(5) by (simp_all split: option.split)
    obtain c where c: "c \<in> set (conversations m1)" "cv_id c = ms_conversation msg" "cv_booking c = bk" using sent(3) by blast
    have "conversation_of bk m1 = Some c"
      using first_where_unique [of cv_booking "conversations m1" c] mailbox_okD(2) [OF ok1] c by simp
    then have "msg \<in> set (list_messages bk n)"
      using sent(2) c(2) by (simp add: list_messages_def same select_where_def)
    moreover have "get_unread_count v s n = get_unread_count v s m1" for v
      by (simp add: get_unread_count_def unread_for_def [abs_def] same)
    ultimately show ?thesis
      using unread_after_send [OF ok 1(4) b(1)] sent(5,6,7) b by auto
  qed
qed

text \<open>The guest writes first; the host, user \<open>u1\<close>, has one message to read.\<close>

lemma post_reaches_other_side_witness:
  "\<exists>msg n b. post_message talk_env 0 (booked_with Confirmed Paid) (person ''guest'' None) ''b1'' ''hello'' None
      (run_mail talk_env (booked_with Confirmed Paid) [] empty_mailbox) = Inr (msg, n) \<and>
    find_booking ''b1'' (booked_with Confirmed Paid) = Some b \<and> msg \<in> set (list_messages ''b1'' n) \<and>
    ms_body msg = ''hello'' \<and> ms_user msg = Some ''guest''"
proof -
  let ?r = "post_message talk_env 0 (booked_with Confirmed Paid) (person ''guest'' None) ''b1'' ''hello'' None
      (run_mail talk_env (booked_with Confirmed Paid) [] empty_mailbox)"
  have "\<not> isl ?r" by code_simp
  then obtain msg n where r: "?r = Inr (msg, n)" by (metis isl_def obj_sumE surj_pair)
  have "jw_user (person ''guest'' None) = ''guest''" by (simp add: person_def)
  with post_reaches_other_side [OF r] obtain b where
    b: "find_booking ''b1'' (booked_with Confirmed Paid) = Some b" "msg \<in> set (list_messages ''b1'' n)"
      "ms_body msg = ''hello''" "ms_user msg = Some ''guest''" by auto
  show ?thesis by (intro exI conjI) (rule r, rule b(1), rule b(2), rule b(3), rule b(4))
qed

subsection \<open>Reviews\<close>

text \<open>
  After any run of reviews, replies and operations on listings from an empty database, the rating and the number of
  reviews cached on each listing are the rounded average and the number of its published reviews, and
  no booking has two reviews.
\<close>

lemma rating_is_average:
  "distinct (map vw_booking (fst (run_board snap ops ([], empty_catalog)))) \<and>
   list_all (\<lambda>r. let rs = published_of (ls_id r) (fst (run_board snap ops ([], empty_catalog)))
       in ls_rating r = average_rating rs \<and> ls_review_count r = int (length rs))
     (listings (snd (run_board snap ops ([], empty_catalog))))"
proof -
  have "board_ok (run_board snap ops ([], empty_catalog))" by (rule run_board_keeps [OF empty_board_ok])
  then show ?thesis unfolding board_ok_def rating_ok_def [abs_def] Let_def by blast
qed

text \<open>
  A review is accepted exactly when its booking exists, belongs to the reviewer, is completed and has no
  review yet, and every score is from one to five; then it is the booking's review, published without a
  reply, and the listing of the booking carries the new average at once.
\<close>

lemma create_review_exact:
  "case create_review i s inp bd of
     Inl _ \<Rightarrow> \<not> ((\<exists>b. find_booking (ri_booking_id inp) s = Some b \<and> b_guest b = ri_guest inp \<and> b_status b = Completed) \<and>
       get_review_for_booking (ri_booking_id inp) bd = None \<and> scores_ok inp)
   | Inr (v, d) \<Rightarrow> \<exists>b. find_booking (ri_booking_id inp) s = Some b \<and> b_guest b = ri_guest inp \<and> b_status b = Completed \<and>
       get_review_for_booking (ri_booking_id inp) bd = None \<and> get_review_for_booking (ri_booking_id inp) d = Some v \<and>
       vw_state v = Review_published \<and> vw_reply v = None \<and> vw_overall v = ri_overall inp \<and> scores_ok inp \<and>
       (case find_listing (b_property b) (snd d) of
          None \<Rightarrow> find_listing (b_property b) (snd bd) = None
        | Some r \<Rightarrow> ls_rating r = average_rating (published_of (b_property b) (fst bd) @ [v]))"
proof (cases "create_review i s inp bd")
  case (Inl e)
  moreover have "get_review_for_booking (ri_booking_id inp) bd = None \<longleftrightarrow> \<not> row_exists (\<lambda>v. vw_booking v = ri_booking_id inp) (fst bd)"
    by (simp add: get_review_for_booking_def first_where_None)
  ultimately show ?thesis by (auto simp: create_review_def Let_def split: option.splits if_splits)
next
  case (Inr vd)
  then obtain v d where r: "create_review i s inp bd = Inr (v, d)" by (cases vd) simp
  then show ?thesis
  proof (cases rule: create_review_cases)
    case (1 b)
    have none: "get_review_for_booking (ri_booking_id inp) bd = None"
      using 1(4) by (simp add: get_review_for_booking_def first_where_None)
    have "get_review_for_booking (ri_booking_id inp) d = Some v"
      using none 1(6) by (simp add: 1(12) get_review_for_booking_def recalculate_property_rating_def Let_def first_where_insert)
    moreover have "find_listing (b_property b) (snd d) = map_option (\<lambda>r. on_listing_update r (r\<lparr>ls_rating :=
        average_rating (published_of (b_property b) (fst bd) @ [v]),
        ls_review_count := int (length (published_of (b_property b) (fst bd) @ [v]))\<rparr>))
        (find_listing (b_property b) (snd bd))"
      using 1(7,10) by (simp add: 1(12) recalculate_property_rating_def Let_def listings_update_listing first_where_update
          published_of_insert)
        (cases "find_listing (b_property b) (snd bd)"; auto dest: first_where_Some)
    ultimately show ?thesis
      using r none 1 by (auto split: option.split)
  qed
qed

end
