(* ===== verification/Host_View.thy ===== *)
theory Host_View
  imports Listing_Edit
begin

text \<open>
  What a host reads of the own listings (the queries of lib/hosts/hostProperties.ts and
  getPropertyCompliance in lib/compliance/propertyCompliance.ts): the list with the number of upcoming bookings,
  one listing with its amenities and policy, the amenities and the standard policies to choose from, and
  the compliance record. Names are ordered by character codes.
\<close>

record amenity_row =
  am_id :: uuid
  am_name :: js_string
  am_slug :: js_string

record policy_text = policy_row +
  cp_name :: js_string
  cp_description :: "js_string option"
  cp_created :: millis

definition list_all_amenities :: "amenity_row list \<Rightarrow> amenity_row list" where
  "list_all_amenities am = sort_key am_name am"

definition get_amenities_for_property :: "uuid \<Rightarrow> amenity_row list \<Rightarrow> catalog \<Rightarrow> amenity_row list" where
  "get_amenities_for_property i am c =
     sort_key am_name (select_where (\<lambda>a. row_exists (\<lambda>l. l = (i, am_id a)) (amenities c)) am)"

text \<open>
  \<open>ROW_NUMBER() OVER (PARTITION BY LOWER(name) ORDER BY created_at, id)\<close> is one: the oldest policy of a
  name, and among those of one instant the one with the least identifier.
\<close>

definition first_of_its_name :: "policy_text list \<Rightarrow> policy_text \<Rightarrow> bool" where
  "first_of_its_name ps p \<longleftrightarrow>
     list_all (\<lambda>q. to_lower (cp_name q) = to_lower (cp_name p) \<longrightarrow>
       cp_created p < cp_created q \<or> cp_created p = cp_created q \<and> cp_id p \<le> cp_id q) ps"

definition policy_rank :: "policy_text \<Rightarrow> nat" where
  "policy_rank p =
     (if to_lower (cp_name p) = ''flexible'' then 1 else if to_lower (cp_name p) = ''moderate'' then 2 else 3)"

definition list_standard_cancellation_policies :: "policy_text list \<Rightarrow> policy_text list" where
  "list_standard_cancellation_policies ps =
     (let standard = select_where (\<lambda>p. to_lower (cp_name p) \<in> {''flexible'', ''moderate'', ''strict''}) ps
      in sort_key policy_rank (select_where (first_of_its_name standard) standard))"

definition upcoming_bookings :: "day \<Rightarrow> uuid \<Rightarrow> store \<Rightarrow> nat" where
  "upcoming_bookings today i s =
     row_count (\<lambda>b. b_property b = i \<and> b_status b \<in> {Confirmed, Pending_payment} \<and> today \<le> b_check_in b) (bookings s)"

text \<open>\<open>ORDER BY created_at DESC\<close>: rows are kept in the order of their creation.\<close>

definition list_properties_for_host :: "day \<Rightarrow> uuid \<Rightarrow> store \<Rightarrow> catalog \<Rightarrow> (listing_row \<times> nat) list" where
  "list_properties_for_host today host s c =
     rev (map (\<lambda>r. (r, upcoming_bookings today (ls_id r) s)) (select_where (\<lambda>r. ls_host r = host) (listings c)))"

definition get_host_property_detail ::
  "uuid \<Rightarrow> amenity_row list \<Rightarrow> policy_text list \<Rightarrow> catalog \<Rightarrow> (listing_row \<times> amenity_row list \<times> policy_text option) option" where
  "get_host_property_detail i am ps c =
     (case find_listing i c of
        None \<Rightarrow> None
      | Some r \<Rightarrow>
          Some (r, get_amenities_for_property i am c,
            (case lc_policy (ls_content r) of None \<Rightarrow> None
             | Some p \<Rightarrow> (case first_where (\<lambda>x. cp_id x = p) ps of
                 None \<Rightarrow> None | Some x \<Rightarrow> if cp_name x = [] then None else Some x))))"

definition get_property_compliance :: "uuid \<Rightarrow> catalog \<Rightarrow> (listing_row \<times> evidence_row list) option" where
  "get_property_compliance i c =
     (case find_listing i c of None \<Rightarrow> None | Some r \<Rightarrow> Some (r, sort_key ci_category (items_of i c)))"

subsection \<open>The standard policies\<close>

lemma first_of_its_name_unique:
  assumes "first_of_its_name ps p" "first_of_its_name ps q" "p \<in> set ps" "q \<in> set ps"
    "to_lower (cp_name p) = to_lower (cp_name q)" "distinct (map cp_id ps)"
  shows "p = q"
proof -
  have "cp_id p = cp_id q"
    using assms(1-5) by (force simp: first_of_its_name_def list_all_iff)
  with assms show ?thesis by (auto simp: distinct_map dest: inj_onD)
qed

text \<open>Whatever is stored, a host is offered each of the three standard policies at most once.\<close>

lemma standard_policies_once:
  assumes "distinct (map cp_id ps)"
  shows "distinct (map (\<lambda>p. to_lower (cp_name p)) (list_standard_cancellation_policies ps))"
proof -
  let ?st = "select_where (\<lambda>p. to_lower (cp_name p) \<in> {''flexible'', ''moderate'', ''strict''}) ps"
  have ids: "distinct (map cp_id ?st)" using assms by (simp add: select_where_def distinct_map_filter)
  have "inj_on (\<lambda>p. to_lower (cp_name p)) (set (select_where (first_of_its_name ?st) ?st))"
    by (rule inj_onI) (use first_of_its_name_unique [OF _ _ _ _ _ ids] in \<open>simp add: select_where_def\<close>)
  moreover have "distinct (select_where (first_of_its_name ?st) ?st)"
  proof -
    have "distinct ?st" using ids by (simp only: distinct_map)
    then show ?thesis by (simp only: select_where_def distinct_filter)
  qed
  ultimately show ?thesis
    by (simp add: list_standard_cancellation_policies_def Let_def distinct_map)
qed

end
