(* ===== verification/Booking_Routes.thy ===== *)
theory Booking_Routes
  imports Trips Reviews Public_View Webhook New_Flow Privacy
begin

text \<open>
  The routes a guest calls (src/app/api/bookings, reviews, favourites, payments) and the administrator's refund,
  each from the session to the answer. The state is everything the server keeps, the record \<open>site\<close>; a
  request's body comes as what its schema let through, or nothing. An answer is the status with the code of
  the refusal or the value sent.
\<close>

subsection \<open>The state and the answers\<close>

record site =
  si_accounts :: accounts
  si_store :: store
  si_catalog :: catalog
  si_mail :: mailbox
  si_reviews :: "review list"
  si_saved :: saved

text \<open>Properties, compliance and hosts are read from the catalog.\<close>

abbreviation tables :: "site \<Rightarrow> store" where
  "tables w \<equiv> with_catalog (si_catalog w) (si_store w)"

datatype 'a answer = Refused int js_string | Answered int 'a

type_synonym 'a handler = "site \<Rightarrow> 'a answer \<times> site"

type_synonym guard = "accounts \<Rightarrow> (auth_error + jwt) \<times> accounts"

text \<open>The \<open>try\<close> and \<open>catch\<close> all routes share: a guard that throws ends the request.\<close>

definition guarded :: "guard \<Rightarrow> (jwt \<Rightarrow> 'a handler) \<Rightarrow> 'a handler" where
  "guarded g k w =
     (case g (si_accounts w) of
        (Inl e, a) \<Rightarrow> (Refused (auth_status e) ''UNAUTHORIZED'', w\<lparr>si_accounts := a\<rparr>)
      | (Inr t, a) \<Rightarrow> k t (w\<lparr>si_accounts := a\<rparr>))"

definition with_access :: "uuid \<Rightarrow> jwt \<Rightarrow> (access \<Rightarrow> 'a handler) \<Rightarrow> 'a handler" where
  "with_access bk t k w =
     (case resolve_booking_access t bk (tables w) of
        Inl e \<Rightarrow> (Refused (auth_status e) ''UNAUTHORIZED'', w)
      | Inr acc \<Rightarrow> k acc w)"

definition with_body :: "'b option \<Rightarrow> ('b \<Rightarrow> 'a handler) \<Rightarrow> 'a handler" where
  "with_body parsed k w = (case parsed of None \<Rightarrow> (Refused 400 ''INVALID_INPUT'', w) | Some x \<Rightarrow> k x w)"

text \<open>What the server is started with and what a request finds: the clock, an identifier, the outside services.\<close>

record server =
  sv_now :: millis
  sv_id :: uuid
  sv_delayed :: bool
  sv_mail :: mail_env
  sv_listed :: "string option \<Rightarrow> stripe_refund list"
  sv_refund :: "refund_call \<Rightarrow> string + stripe_refund"
  sv_intent :: "string \<Rightarrow> string \<times> string"
  sv_new_intent :: "intent_request \<Rightarrow> string \<times> string"
  sv_customer :: "string \<Rightarrow> string"
  sv_setup :: "string \<Rightarrow> string \<times> string"
  sv_new_setup :: "string \<Rightarrow> string \<Rightarrow> string \<times> string"

definition mail_of :: "server \<Rightarrow> site \<Rightarrow> mail_env" where
  "mail_of sv w = (sv_mail sv)\<lparr>me_accounts := si_accounts w\<rparr>"

definition booking_error_code :: "booking_error \<Rightarrow> js_string" where
  "booking_error_code e =
     (case e of
        Invalid_date_range \<Rightarrow> ''INVALID_DATE_RANGE'' | Invalid_guests \<Rightarrow> ''INVALID_GUESTS''
      | Property_not_found \<Rightarrow> ''PROPERTY_NOT_FOUND'' | Property_not_available \<Rightarrow> ''PROPERTY_NOT_AVAILABLE''
      | Too_many_guests \<Rightarrow> ''TOO_MANY_GUESTS'' | Below_min_stay \<Rightarrow> ''BELOW_MIN_STAY'' | Above_max_stay \<Rightarrow> ''ABOVE_MAX_STAY''
      | Dates_unavailable \<Rightarrow> ''DATES_UNAVAILABLE'' | Pricing_failed _ \<Rightarrow> ''BOOKING_FAILED'' | Key_violation \<Rightarrow> ''BOOKING_FAILED''
      | Booking_not_found \<Rightarrow> ''BOOKING_NOT_FOUND'' | Not_cancellable _ \<Rightarrow> ''NOT_CANCELLABLE''
      | Already_archived \<Rightarrow> ''ALREADY_ARCHIVED'' | Not_discardable \<Rightarrow> ''NOT_DISCARDABLE''
      | Payment_exists \<Rightarrow> ''PAYMENT_EXISTS'' | Not_archivable _ \<Rightarrow> ''NOT_ARCHIVABLE'')"

subsection \<open>Bookings\<close>

definition get_trips :: "server \<Rightarrow> jwt option \<Rightarrow> bool \<Rightarrow> trip_row list handler" where
  "get_trips sv tok archived =
     guarded (require_session (sv_now sv) tok) (\<lambda>t w.
       (Answered 200 (list_bookings_for_guest (sv_now sv) (si_store w) (si_catalog w) (jw_user t) archived), w))"

definition creation_status :: "booking_error \<Rightarrow> int" where
  "creation_status e = (case e of Dates_unavailable \<Rightarrow> 409 | Pricing_failed _ \<Rightarrow> 500 | Key_violation \<Rightarrow> 500 | _ \<Rightarrow> 400)"

definition post_booking :: "server \<Rightarrow> jwt option \<Rightarrow> js_string option \<Rightarrow> booking_input option \<Rightarrow> booking handler" where
  "post_booking sv tok key parsed =
     guarded (require_session (sv_now sv) tok) (\<lambda>t w.
       case key of
         None \<Rightarrow> (Refused 400 ''MISSING_IDEMPOTENCY_KEY'', w)
       | Some k \<Rightarrow>
           if k = [] then (Refused 400 ''MISSING_IDEMPOTENCY_KEY'', w)
           else with_body parsed (\<lambda>i w.
             case create_booking (sv_delayed sv) (sv_now sv) (sv_id sv) (i\<lparr>bi_guest := jw_user t, bi_key := k\<rparr>) (tables w) of
               (Inl e, s) \<Rightarrow> (Refused (creation_status e) (booking_error_code e), w\<lparr>si_store := s\<rparr>)
             | (Inr (b, _), s) \<Rightarrow> (Answered 200 b, w\<lparr>si_store := s\<rparr>)) w)"

definition get_booking :: "server \<Rightarrow> jwt option \<Rightarrow> uuid \<Rightarrow> booking_page handler" where
  "get_booking sv tok bk =
     guarded (require_session (sv_now sv) tok) (\<lambda>t. with_access bk t (\<lambda>_ w.
       case get_booking_detail (mail_of sv w) (sv_now sv) (si_store w) (si_catalog w) bk of
         Inl e \<Rightarrow> (Refused 404 (booking_error_code e), w)
       | Inr d \<Rightarrow> (Answered 200 d, w)))"

definition actor_of :: "user_role \<Rightarrow> actor" where
  "actor_of r = (case r of Guest \<Rightarrow> By_guest | Host \<Rightarrow> By_host | Admin \<Rightarrow> By_admin)"

definition post_cancel :: "server \<Rightarrow> jwt option \<Rightarrow> uuid \<Rightarrow> unit option \<Rightarrow> (outcome \<times> string option) handler" where
  "post_cancel sv tok bk parsed =
     guarded (require_session (sv_now sv) tok) (\<lambda>t. with_body parsed (\<lambda>_. with_access bk t (\<lambda>acc w.
       case cancel_and_notify (mail_of sv w) (sv_listed sv) (sv_refund sv) (sv_id sv) (sv_now sv) (si_catalog w) bk
              (actor_of (ac_role acc)) (tables w) (si_mail w) of
         (Inl (Cancel_refused e), s, m) \<Rightarrow>
           (Refused (if e = Booking_not_found then 404 else 400) (booking_error_code e), w\<lparr>si_store := s, si_mail := m\<rparr>)
       | (Inl (Message_failed _), s, m) \<Rightarrow> (Refused 500 ''CANCELLATION_FAILED'', w\<lparr>si_store := s, si_mail := m\<rparr>)
       | (Inr (r, err), s, m) \<Rightarrow> (Answered 200 (fst r, err), w\<lparr>si_store := s, si_mail := m\<rparr>))))"

definition get_cancellation_quote :: "server \<Rightarrow> jwt option \<Rightarrow> uuid \<Rightarrow> quote handler" where
  "get_cancellation_quote sv tok bk =
     guarded (require_session (sv_now sv) tok) (\<lambda>t w.
       case cancellation_quote (sv_now sv) t bk (tables w) of
         Inl (Inl e) \<Rightarrow> (Refused (auth_status e) ''UNAUTHORIZED'', w)
       | Inl (Inr e) \<Rightarrow> (Refused 404 (booking_error_code e), w)
       | Inr q \<Rightarrow> (Answered 200 q, w))"

definition post_discard :: "server \<Rightarrow> jwt option \<Rightarrow> uuid \<Rightarrow> uuid handler" where
  "post_discard sv tok bk =
     guarded (require_session (sv_now sv) tok) (\<lambda>t w.
       case with_transaction (discard_unpaid_booking_tx (sv_now sv) bk (jw_user t)) (tables w) of
         (Inl e, s) \<Rightarrow>
           (Refused (case e of Booking_not_found \<Rightarrow> 404 | Payment_exists \<Rightarrow> 409 | _ \<Rightarrow> 400) (booking_error_code e), w\<lparr>si_store := s\<rparr>)
       | (Inr i, s) \<Rightarrow> (Answered 200 i, w\<lparr>si_store := s\<rparr>))"

definition post_archive :: "server \<Rightarrow> jwt option \<Rightarrow> uuid \<Rightarrow> uuid handler" where
  "post_archive sv tok bk =
     guarded (require_session (sv_now sv) tok) (\<lambda>t w.
       case with_transaction (archive_booking (sv_now sv) bk (jw_user t)) (tables w) of
         (Inl e, s) \<Rightarrow> (Refused (if e = Booking_not_found then 404 else 400) (booking_error_code e), w\<lparr>si_store := s\<rparr>)
       | (Inr i, s) \<Rightarrow> (Answered 200 i, w\<lparr>si_store := s\<rparr>))"

subsection \<open>Messages and reviews\<close>

definition get_messages :: "server \<Rightarrow> jwt option \<Rightarrow> uuid \<Rightarrow> message list handler" where
  "get_messages sv tok bk =
     guarded (require_session (sv_now sv) tok) (\<lambda>t. with_access bk t (\<lambda>_ w.
       (Answered 200 (list_messages bk (si_mail w)), w)))"

text \<open>The administrator is turned away before the body is read.\<close>

definition post_booking_message ::
  "server \<Rightarrow> jwt option \<Rightarrow> uuid \<Rightarrow> (js_string \<times> js_string option) option \<Rightarrow> message handler" where
  "post_booking_message sv tok bk parsed =
     guarded (require_session (sv_now sv) tok) (\<lambda>t. with_access bk t (\<lambda>acc w.
       if ac_role acc = Admin then (Refused 403 ''FORBIDDEN'', w)
       else with_body parsed (\<lambda>(body, att) w.
         case post_message (mail_of sv w) (sv_now sv) (tables w) t bk body att (si_mail w) of
           Inl _ \<Rightarrow> (Refused 500 ''SEND_FAILED'', w)
         | Inr (msg, m) \<Rightarrow> (Answered 200 msg, w\<lparr>si_mail := m\<rparr>)) w))"

definition post_read :: "server \<Rightarrow> jwt option \<Rightarrow> uuid \<Rightarrow> nat handler" where
  "post_read sv tok bk =
     guarded (require_session (sv_now sv) tok) (\<lambda>t w.
       case read_conversation (sv_now sv) (tables w) t bk (si_mail w) of
         (Inl e, m) \<Rightarrow> (Refused (auth_status e) ''UNAUTHORIZED'', w\<lparr>si_mail := m\<rparr>)
       | (Inr n, m) \<Rightarrow> (Answered 200 n, w\<lparr>si_mail := m\<rparr>))"

definition get_unread :: "server \<Rightarrow> jwt option \<Rightarrow> nat handler" where
  "get_unread sv tok =
     guarded (require_session (sv_now sv) tok) (\<lambda>t w. (Answered 200 (get_unread_count (jw_user t) (tables w) (si_mail w)), w))"

definition get_booking_review :: "server \<Rightarrow> jwt option \<Rightarrow> uuid \<Rightarrow> review option handler" where
  "get_booking_review sv tok bk =
     guarded (require_session (sv_now sv) tok) (\<lambda>t. with_access bk t (\<lambda>_ w.
       (Answered 200 (get_review_for_booking bk (si_reviews w, si_catalog w)), w)))"

definition post_review :: "server \<Rightarrow> jwt option \<Rightarrow> uuid option \<Rightarrow> review_input option \<Rightarrow> review handler" where
  "post_review sv tok bk parsed =
     guarded (require_session (sv_now sv) tok) (\<lambda>t. with_body parsed (\<lambda>i. with_body bk (\<lambda>bk w.
       case create_review (sv_id sv) (tables w) (i\<lparr>ri_booking_id := bk, ri_guest := jw_user t\<rparr>) (si_reviews w, si_catalog w) of
         Inl _ \<Rightarrow> (Refused 400 ''REVIEW_FAILED'', w)
       | Inr (v, rs, c) \<Rightarrow> (Answered 200 v, w\<lparr>si_reviews := rs, si_catalog := c\<rparr>))))"

definition post_reply :: "server \<Rightarrow> jwt option \<Rightarrow> uuid \<Rightarrow> js_string option \<Rightarrow> review handler" where
  "post_reply sv tok rid parsed =
     guarded (require_role Host (sv_now sv) tok) (\<lambda>t. with_body parsed (\<lambda>reply w.
       case jw_host t of
         None \<Rightarrow> (Refused 400 ''NO_HOST_PROFILE'', w)
       | Some h \<Rightarrow>
           if h = [] then (Refused 400 ''NO_HOST_PROFILE'', w)
           else (case reply_to_review (sv_now sv) rid h reply (si_reviews w, si_catalog w) of
                   Inl _ \<Rightarrow> (Refused 400 ''REPLY_FAILED'', w)
                 | Inr (v, rs, c) \<Rightarrow> (Answered 200 v, w\<lparr>si_reviews := rs, si_catalog := c\<rparr>))))"

subsection \<open>Saved properties\<close>

definition get_favourites :: "server \<Rightarrow> jwt option \<Rightarrow> listing_row list handler" where
  "get_favourites sv tok =
     guarded (require_session (sv_now sv) tok) (\<lambda>t w.
       (Answered 200 (list_saved_properties (day_of_ms (sv_now sv)) (jw_user t) (si_catalog w) (si_saved w)), w))"

definition post_favourite :: "server \<Rightarrow> jwt option \<Rightarrow> uuid option \<Rightarrow> bool handler" where
  "post_favourite sv tok parsed =
     guarded (require_session (sv_now sv) tok) (\<lambda>t. with_body parsed (\<lambda>p w.
       case save_property (day_of_ms (sv_now sv)) (jw_user t) p (si_catalog w) (si_saved w) of
         Inl _ \<Rightarrow> (Refused 400 ''SAVE_FAILED'', w)
       | Inr v \<Rightarrow> (Answered 200 True, w\<lparr>si_saved := v\<rparr>)))"

definition delete_favourite :: "server \<Rightarrow> jwt option \<Rightarrow> uuid \<Rightarrow> bool handler" where
  "delete_favourite sv tok p =
     guarded (require_session (sv_now sv) tok) (\<lambda>t w.
       (Answered 200 False, w\<lparr>si_saved := unsave_property (jw_user t) p (si_saved w)\<rparr>))"

subsection \<open>Payment\<close>

definition post_intent :: "server \<Rightarrow> jwt option \<Rightarrow> uuid option \<Rightarrow> string handler" where
  "post_intent sv tok parsed =
     guarded (require_session (sv_now sv) tok) (\<lambda>t. with_body parsed (\<lambda>bk. with_access bk t (\<lambda>acc w.
       if ac_role acc \<noteq> Guest then (Refused 403 ''FORBIDDEN'', w)
       else if row_exists (\<lambda>b. b_id b = bk \<and> b_flow b = Separate_charges_delayed_v1) (bookings (si_store w))
       then (Refused 400 ''WRONG_PAYMENT_FLOW'', w)
       else (case create_payment_intent_for_booking (sv_intent sv) (sv_new_intent sv) (sv_id sv) bk (tables w) of
               (Inl _, s) \<Rightarrow> (Refused 400 ''PAYMENT_INTENT_FAILED'', w\<lparr>si_store := s\<rparr>)
             | (Inr secret, s) \<Rightarrow> (Answered 200 secret, w\<lparr>si_store := s\<rparr>)))))"

definition post_setup_intent :: "server \<Rightarrow> jwt option \<Rightarrow> uuid option \<Rightarrow> string handler" where
  "post_setup_intent sv tok parsed =
     guarded (require_session (sv_now sv) tok) (\<lambda>t. with_body parsed (\<lambda>bk. with_access bk t (\<lambda>acc w.
       if ac_role acc \<noteq> Guest then (Refused 403 ''FORBIDDEN'', w)
       else (case find_booking bk (si_store w) of
               None \<Rightarrow> (Refused 404 ''BOOKING_NOT_FOUND'', w)
             | Some b \<Rightarrow>
                 if b_flow b \<noteq> Separate_charges_delayed_v1 then (Refused 400 ''WRONG_PAYMENT_FLOW'', w)
                 else (case create_setup_intent_for_booking (sv_customer sv) (sv_setup sv) (sv_new_setup sv) bk (tables w) of
                         (Inl _, s) \<Rightarrow> (Refused 400 ''SETUP_INTENT_FAILED'', w\<lparr>si_store := s\<rparr>)
                       | (Inr (_, _, secret), s) \<Rightarrow> (Answered 200 secret, w\<lparr>si_store := s\<rparr>))))))"

subsection \<open>Refunds by an administrator\<close>

record refund_request =
  rq_booking :: uuid
  rq_amount :: minor
  rq_reason :: refund_reason

definition reserved_refunds :: "uuid \<Rightarrow> store \<Rightarrow> minor" where
  "reserved_refunds bk s =
     sum_where (\<lambda>r. rf_booking r = bk \<and> rf_status r \<in> {Refund_pending, Refund_succeeded}) rf_amount (refunds s)"

text \<open>The payment to refund and what is left of it, or the code of the refusal.\<close>

definition refundable_payment :: "refund_request \<Rightarrow> store \<Rightarrow> js_string + payment" where
  "refundable_payment q s =
     (case first_where (\<lambda>p. pay_booking p = rq_booking q \<and> pay_status p \<in> {Paid, Pay_partially_refunded}) (payments s) of
        None \<Rightarrow> Inl ''NO_ELIGIBLE_PAYMENT''
      | Some p \<Rightarrow>
          let remaining = pay_amount p - reserved_refunds (rq_booking q) s
          in if remaining \<le> 0 then Inl ''ALREADY_FULLY_REFUNDED''
             else if remaining < rq_amount q then Inl ''AMOUNT_EXCEEDS_REMAINING''
             else Inr p)"

definition post_admin_refund :: "server \<Rightarrow> jwt option \<Rightarrow> refund_request option \<Rightarrow> (string \<times> string) handler" where
  "post_admin_refund sv tok parsed =
     guarded (require_permission ''refunds'' ''write'' (sv_now sv) tok) (\<lambda>t. with_body parsed (\<lambda>q w.
       case refundable_payment q (si_store w) of
         Inl c \<Rightarrow> (Refused 400 c, w)
       | Inr p \<Rightarrow>
           (case initiate_refund (sv_listed sv) (sv_refund sv) (sv_id sv)
                  \<lparr>ri_booking = rq_booking q, ri_payment = pay_id p, ri_intent = pay_intent p, ri_amount = rq_amount q,
                   ri_currency = pay_currency p, ri_reason = rq_reason q, ri_by = By_admin\<rparr> (si_store w) of
              (Inl _, s) \<Rightarrow> (Refused 400 ''REFUND_FAILED'', w\<lparr>si_store := s\<rparr>)
            | (Inr r, s) \<Rightarrow>
                (Answered 200 r, w\<lparr>si_store := log_audit (Some (jw_user t)) (rq_booking q)
                   (Admin_refund_issued (rq_amount q) (rq_reason q) (jw_admin t)) s\<rparr>))))"

end
