(* ===== verification/Host_Routes.thy ===== *)
theory Host_Routes
  imports Booking_Routes Images Host_View
begin

text \<open>
  The routes of a host (src/app/api/host, hosts/onboarding) and of HOST's reviewers (admin/property-compliance,
  admin/listing-readiness), in the manner of \<open>Booking_Routes\<close>. A host acts on the property of a path only
  after \<open>resolve_host_property_access\<close>, which lets administrators through; images ask for the owner again.
\<close>

record desk =
  dk_now :: millis
  dk_id :: uuid
  dk_snap :: "point \<Rightarrow> point"
  dk_suffix :: js_string
  dk_blob :: "js_string \<Rightarrow> blob option"
  dk_deleted :: bool
  dk_account :: "unit \<Rightarrow> js_string"
  dk_report :: "js_string \<Rightarrow> payout_account"
  dk_horizon :: day
  dk_amenities :: "amenity_row list"
  dk_policies :: "policy_text list"

definition with_property :: "uuid \<Rightarrow> jwt \<Rightarrow> 'a handler \<Rightarrow> 'a handler" where
  "with_property i t k w =
     (case resolve_host_property_access t i (tables w) of
        Inl e \<Rightarrow> (Refused (auth_status e) ''UNAUTHORIZED'', w)
      | Inr _ \<Rightarrow> k w)"

text \<open>\<open>if (!session.user.hostProfileId)\<close>\<close>

definition with_profile :: "jwt \<Rightarrow> (uuid \<Rightarrow> 'a handler) \<Rightarrow> 'a handler" where
  "with_profile t k w =
     (case jw_host t of
        None \<Rightarrow> (Refused 400 ''NO_HOST_PROFILE'', w)
      | Some h \<Rightarrow> if h = [] then (Refused 400 ''NO_HOST_PROFILE'', w) else k h w)"

subsection \<open>Properties\<close>

definition get_host_properties :: "desk \<Rightarrow> jwt option \<Rightarrow> (listing_row \<times> nat) list handler" where
  "get_host_properties dk tok =
     guarded (require_role Host (dk_now dk) tok) (\<lambda>t. with_profile t (\<lambda>h w.
       (Answered 200 (list_properties_for_host (day_of_ms (dk_now dk)) h (si_store w) (si_catalog w)), w)))"

definition post_host_property :: "desk \<Rightarrow> jwt option \<Rightarrow> property_input option \<Rightarrow> uuid handler" where
  "post_host_property dk tok parsed =
     guarded (require_role Host (dk_now dk) tok) (\<lambda>t. with_profile t (\<lambda>h. with_body parsed (\<lambda>inp w.
       case create_property (dk_snap dk) (dk_id dk) (dk_suffix dk) h inp (si_catalog w) of
         (Inl (Listing_not_ready _), c) \<Rightarrow> (Refused 409 ''LISTING_NOT_READY'', w\<lparr>si_catalog := c\<rparr>)
       | (Inl _, c) \<Rightarrow> (Refused 500 ''CREATE_FAILED'', w\<lparr>si_catalog := c\<rparr>)
       | (Inr i, c) \<Rightarrow> (Answered 201 i, w\<lparr>si_catalog := c\<rparr>))))"

definition get_host_property ::
  "desk \<Rightarrow> jwt option \<Rightarrow> uuid \<Rightarrow> (listing_row \<times> amenity_row list \<times> policy_text option) handler" where
  "get_host_property dk tok i =
     guarded (require_session (dk_now dk) tok) (\<lambda>t. with_property i t (\<lambda>w.
       case get_host_property_detail i (dk_amenities dk) (dk_policies dk) (si_catalog w) of
         None \<Rightarrow> (Refused 404 ''PROPERTY_NOT_FOUND'', w)
       | Some d \<Rightarrow> (Answered 200 d, w)))"

definition patch_host_property ::
  "desk \<Rightarrow> jwt option \<Rightarrow> uuid \<Rightarrow> property_input option \<Rightarrow>
    (listing_row \<times> amenity_row list \<times> policy_text option) option handler" where
  "patch_host_property dk tok i parsed =
     guarded (require_session (dk_now dk) tok) (\<lambda>t. with_property i t (with_body parsed (\<lambda>inp w.
       case update_property (dk_snap dk) (day_of_ms (dk_now dk)) id i inp (si_catalog w) of
         (Inl (Listing_not_ready _), c) \<Rightarrow> (Refused 409 ''LISTING_NOT_READY'', w\<lparr>si_catalog := c\<rparr>)
       | (Inl _, c) \<Rightarrow> (Refused 500 ''UPDATE_FAILED'', w\<lparr>si_catalog := c\<rparr>)
       | (Inr _, c) \<Rightarrow>
           (Answered 200 (get_host_property_detail i (dk_amenities dk) (dk_policies dk) c), w\<lparr>si_catalog := c\<rparr>))))"

definition get_host_availability :: "desk \<Rightarrow> jwt option \<Rightarrow> uuid \<Rightarrow> (day \<times> avail_row) list handler" where
  "get_host_availability dk tok i =
     guarded (require_session (dk_now dk) tok) (\<lambda>t. with_property i t (\<lambda>w.
       (Answered 200 (list_availability (day_of_ms (dk_now dk)) (dk_horizon dk) (avail (si_store w) i)), w)))"

definition post_host_availability ::
  "desk \<Rightarrow> jwt option \<Rightarrow> uuid \<Rightarrow> (avail_action \<times> day \<times> day) option \<Rightarrow> block_result handler" where
  "post_host_availability dk tok i parsed =
     guarded (require_session (dk_now dk) tok) (\<lambda>t. with_property i t (with_body parsed (\<lambda>(act, a, b) w.
       case (if act = Block then block_dates (dk_now dk) i a b (tables w) else unblock_dates (dk_now dk) i a b (tables w)) of
         (Inl _, s) \<Rightarrow> (Refused 500 ''AVAILABILITY_UPDATE_FAILED'', w\<lparr>si_store := s\<rparr>)
       | (Inr r, s) \<Rightarrow> (Answered 200 r, w\<lparr>si_store := s\<rparr>))))"

definition get_host_bookings :: "desk \<Rightarrow> jwt option \<Rightarrow> host_row_view list handler" where
  "get_host_bookings dk tok =
     guarded (require_role Host (dk_now dk) tok) (\<lambda>t. with_profile t (\<lambda>h w.
       (Answered 200 (list_bookings_for_host (dk_now dk) (si_store w) (si_catalog w) h), w)))"

text \<open>Here the host of the booking comes before its guest, unlike in \<open>resolve_booking_access\<close>.\<close>

definition get_host_booking :: "desk \<Rightarrow> jwt option \<Rightarrow> uuid \<Rightarrow> host_page handler" where
  "get_host_booking dk tok bk =
     guarded (require_session (dk_now dk) tok) (\<lambda>t w.
       case find_booking bk (si_store w) of
         None \<Rightarrow> (Refused 404 ''BOOKING_NOT_FOUND'', w)
       | Some b \<Rightarrow>
           if (jw_host t = None \<or> jw_host t = Some [] \<or> jw_host t \<noteq> Some (b_host b)) \<and> Admin \<notin> set (jw_roles t)
           then (Refused 403 ''UNAUTHORIZED'', w)
           else (case get_host_booking_detail (dk_now dk) (si_store w) (si_catalog w) bk of
                   None \<Rightarrow> (Refused 404 ''BOOKING_NOT_FOUND'', w)
                 | Some d \<Rightarrow> (Answered 200 d, w)))"

definition get_host_reviews :: "desk \<Rightarrow> jwt option \<Rightarrow> (review \<times> js_string) list handler" where
  "get_host_reviews dk tok =
     guarded (require_role Host (dk_now dk) tok) (\<lambda>t. with_profile t (\<lambda>h w.
       (Answered 200 (list_reviews_for_host h (si_reviews w, si_catalog w)), w)))"

definition get_amenities :: "desk \<Rightarrow> jwt option \<Rightarrow> amenity_row list handler" where
  "get_amenities dk tok =
     guarded (require_role Host (dk_now dk) tok) (\<lambda>_ w. (Answered 200 (list_all_amenities (dk_amenities dk)), w))"

definition get_cancellation_policies :: "desk \<Rightarrow> jwt option \<Rightarrow> policy_text list handler" where
  "get_cancellation_policies dk tok =
     guarded (require_role Host (dk_now dk) tok) (\<lambda>_ w.
       (Answered 200 (list_standard_cancellation_policies (dk_policies dk)), w))"

subsection \<open>Compliance and readiness\<close>

definition get_compliance :: "desk \<Rightarrow> jwt option \<Rightarrow> uuid \<Rightarrow> (listing_row \<times> evidence_row list) handler" where
  "get_compliance dk tok i =
     guarded (require_session (dk_now dk) tok) (\<lambda>t. with_property i t (\<lambda>w.
       case get_property_compliance i (si_catalog w) of
         None \<Rightarrow> (Refused 404 ''NOT_FOUND'', w)
       | Some d \<Rightarrow> (Answered 200 d, w)))"

definition put_compliance :: "desk \<Rightarrow> jwt option \<Rightarrow> uuid \<Rightarrow> (owner_item list \<times> bool) option \<Rightarrow> compliance_status handler" where
  "put_compliance dk tok i parsed =
     guarded (require_session (dk_now dk) tok) (\<lambda>t. with_property i t (with_body parsed (\<lambda>(items, submit) w.
       case save_owner_compliance (dk_now dk) i (jw_user t) items submit (si_catalog w) of
         Inl (Items_incomplete _) \<Rightarrow> (Refused 400 ''INCOMPLETE'', w)
       | Inl _ \<Rightarrow> (Refused 500 ''SAVE_FAILED'', w)
       | Inr (st, c) \<Rightarrow> (Answered 200 st, w\<lparr>si_catalog := c\<rparr>))))"

definition get_readiness :: "desk \<Rightarrow> jwt option \<Rightarrow> uuid \<Rightarrow> readiness_report handler" where
  "get_readiness dk tok i =
     guarded (require_session (dk_now dk) tok) (\<lambda>t. with_property i t (\<lambda>w.
       case listing_readiness (day_of_ms (dk_now dk)) i (si_catalog w) of
         None \<Rightarrow> (Refused 404 ''PROPERTY_NOT_FOUND'', w)
       | Some rep \<Rightarrow> (Answered 200 rep, w)))"

definition patch_admin_compliance ::
  "desk \<Rightarrow> jwt option \<Rightarrow> uuid \<Rightarrow> (review_decision \<times> js_string) option \<Rightarrow> compliance_status handler" where
  "patch_admin_compliance dk tok i parsed =
     guarded (require_secure_admin False (dk_now dk) tok) (\<lambda>t w.
       if i = [] then (Refused 400 ''INVALID_PROPERTY'', w)
       else with_body parsed (\<lambda>(d, note) w.
         case review_property_compliance (dk_now dk) i (jw_user t) d note (si_catalog w) of
           Inl Constraint_violation \<Rightarrow> (Refused 500 ''REVIEW_FAILED'', w)
         | Inl _ \<Rightarrow> (Refused 409 ''REVIEW_FAILED'', w)
         | Inr (st, c) \<Rightarrow> (Answered 200 st, w\<lparr>si_catalog := c\<rparr>)) w)"

definition patch_admin_readiness ::
  "desk \<Rightarrow> jwt option \<Rightarrow> (uuid \<times> review_decision \<times> js_string) option \<Rightarrow> readiness_report handler" where
  "patch_admin_readiness dk tok parsed =
     guarded (require_secure_admin False (dk_now dk) tok) (\<lambda>t w.
       case parsed of
         None \<Rightarrow> (Refused 400 ''VALIDATION_ERROR'', w)
       | Some (i, d, note) \<Rightarrow>
           (case review_pilot_listing (dk_now dk) i (jw_user t) d note (si_catalog w) of
              Inl (Listing_not_ready _) \<Rightarrow> (Refused 409 ''LISTING_NOT_READY'', w)
            | Inl Listing_not_found \<Rightarrow> (Refused 404 ''PILOT_REVIEW_FAILED'', w)
            | Inl _ \<Rightarrow> (Refused 500 ''PILOT_REVIEW_FAILED'', w)
            | Inr (rep, c) \<Rightarrow> (Answered 200 rep, w\<lparr>si_catalog := c\<rparr>)))"

text \<open>
  The queues of the reviewers. \<open>updated_at\<close> is not kept; of the listings of one rank the one stored last
  comes first.
\<close>

definition owner_email :: "site \<Rightarrow> listing_row \<Rightarrow> js_string option" where
  "owner_email w r =
     (case first_where (\<lambda>h. h_id h = ls_host r) (profiles (si_catalog w)) of
        None \<Rightarrow> None
      | Some h \<Rightarrow> map_option us_email (find_user (h_user h) (si_accounts w)))"

definition get_admin_readiness_queue ::
  "desk \<Rightarrow> jwt option \<Rightarrow> (listing_row \<times> js_string \<times> readiness_report option) list handler" where
  "get_admin_readiness_queue dk tok =
     guarded (require_secure_admin False (dk_now dk) tok) (\<lambda>_ w.
       (Answered 200 (map (\<lambda>(r, e). (r, e, listing_readiness (day_of_ms (dk_now dk)) (ls_id r) (si_catalog w)))
          (take 100 (concat (map (\<lambda>r. case owner_email w r of None \<Rightarrow> [] | Some e \<Rightarrow> [(r, e)])
             (sort_key (\<lambda>r. if ls_compliance r = Comp_approved then 0 else (1 :: int))
               (rev (select_where (\<lambda>r. ls_pilot r \<in> {Pilot_pending, Pilot_changes_required}) (listings (si_catalog w))))))))), w))"

definition get_admin_readiness :: "desk \<Rightarrow> jwt option \<Rightarrow> uuid \<Rightarrow> readiness_report handler" where
  "get_admin_readiness dk tok i =
     guarded (require_secure_admin False (dk_now dk) tok) (\<lambda>_ w.
       case listing_readiness (day_of_ms (dk_now dk)) i (si_catalog w) of
         None \<Rightarrow> (Refused 404 ''PROPERTY_NOT_FOUND'', w)
       | Some rep \<Rightarrow> (Answered 200 rep, w))"

definition get_admin_compliance_queue :: "desk \<Rightarrow> jwt option \<Rightarrow> (listing_row \<times> js_string) list handler" where
  "get_admin_compliance_queue dk tok =
     guarded (require_secure_admin False (dk_now dk) tok) (\<lambda>_ w.
       (Answered 200 (concat (map (\<lambda>r. case owner_email w r of None \<Rightarrow> [] | Some e \<Rightarrow> [(r, e)])
          (sort_key (\<lambda>r. if ls_compliance r = Comp_submitted then 0 else (1 :: int))
            (rev (select_where (\<lambda>r. ls_compliance r \<in> {Comp_submitted, Comp_changes_required}) (listings (si_catalog w))))))), w))"

subsection \<open>Images\<close>

definition image_refusal :: "js_string \<Rightarrow> image_error \<Rightarrow> 'a answer" where
  "image_refusal failed e =
     (case e of
        Not_owner \<Rightarrow> Refused 404 ''PROPERTY_NOT_FOUND''
      | Image_missing \<Rightarrow> Refused 404 ''PROPERTY_IMAGE_NOT_FOUND''
      | Image_conflict \<Rightarrow> Refused 409 ''PROPERTY_IMAGE_CONFLICT''
      | Image_limit \<Rightarrow> Refused 409 ''PROPERTY_IMAGE_LIMIT_REACHED''
      | Bad_order \<Rightarrow> Refused 400 ''INVALID_PROPERTY_IMAGE_ORDER''
      | Image_rejected \<Rightarrow> Refused 500 failed)"

definition get_images :: "desk \<Rightarrow> jwt option \<Rightarrow> uuid \<Rightarrow> image_row list handler" where
  "get_images dk tok i =
     guarded (require_session (dk_now dk) tok) (\<lambda>t. with_property i t (\<lambda>w.
       case list_property_images i (jw_user t) (si_catalog w) of
         Inl e \<Rightarrow> (image_refusal ''PROPERTY_IMAGES_FAILED'' e, w)
       | Inr pics \<Rightarrow> (Answered 200 pics, w)))"

text \<open>The upload is looked up at the storage service, whose answer is \<open>dk_blob\<close>.\<close>

definition post_image :: "desk \<Rightarrow> jwt option \<Rightarrow> uuid \<Rightarrow> js_string option \<Rightarrow> image_row handler" where
  "post_image dk tok i parsed =
     guarded (require_session (dk_now dk) tok) (\<lambda>t. with_property i t (\<lambda>w.
       case parsed of
         None \<Rightarrow> (Refused 400 ''VALIDATION_ERROR'', w)
       | Some url \<Rightarrow>
           (case dk_blob dk url of
              None \<Rightarrow> (Refused 500 ''PROPERTY_IMAGES_UPDATE_FAILED'', w)
            | Some b \<Rightarrow>
                if \<not> starts_with (''properties/'' @ i) (bl_pathname b) then (Refused 400 ''INVALID_UPLOAD_PATH'', w)
                else (case register_image (dk_id dk) i (jw_user t) b (si_catalog w) of
                        Inl e \<Rightarrow> (image_refusal ''PROPERTY_IMAGES_UPDATE_FAILED'' e, w)
                      | Inr (m, c) \<Rightarrow> (Answered 200 m, w\<lparr>si_catalog := c\<rparr>)))))"

datatype image_action = Set_cover uuid | Update_alt_text uuid "js_string option" | Reorder "uuid list"

definition patch_images :: "desk \<Rightarrow> jwt option \<Rightarrow> uuid \<Rightarrow> image_action option \<Rightarrow> uuid list handler" where
  "patch_images dk tok i parsed =
     guarded (require_session (dk_now dk) tok) (\<lambda>t. with_property i t (\<lambda>w.
       case parsed of
         None \<Rightarrow> (Refused 400 ''VALIDATION_ERROR'', w)
       | Some (Set_cover x) \<Rightarrow>
           (case set_image_cover i x (jw_user t) (si_catalog w) of
              Inl e \<Rightarrow> (image_refusal ''PROPERTY_IMAGES_UPDATE_FAILED'' e, w)
            | Inr (m, c) \<Rightarrow> (Answered 200 [m], w\<lparr>si_catalog := c\<rparr>))
       | Some (Update_alt_text x alt) \<Rightarrow>
           (case update_image_alt i x (jw_user t) (if alt = Some [] then None else alt) (si_catalog w) of
              Inl e \<Rightarrow> (image_refusal ''PROPERTY_IMAGES_UPDATE_FAILED'' e, w)
            | Inr (m, c) \<Rightarrow> (Answered 200 [m], w\<lparr>si_catalog := c\<rparr>))
       | Some (Reorder xs) \<Rightarrow>
           (case reorder_images i xs (jw_user t) (si_catalog w) of
              Inl e \<Rightarrow> (image_refusal ''PROPERTY_IMAGES_UPDATE_FAILED'' e, w)
            | Inr (pics, c) \<Rightarrow> (Answered 200 (map im_id pics), w\<lparr>si_catalog := c\<rparr>))))"

definition remove_image :: "desk \<Rightarrow> jwt option \<Rightarrow> uuid \<Rightarrow> uuid \<Rightarrow> bool handler" where
  "remove_image dk tok i x =
     guarded (require_session (dk_now dk) tok) (\<lambda>t. with_property i t (\<lambda>w.
       case delete_image i x (jw_user t) (si_catalog w) of
         Inl e \<Rightarrow> (image_refusal ''PROPERTY_IMAGE_DELETE_FAILED'' e, w)
       | Inr (_, c) \<Rightarrow> (Answered 200 (dk_deleted dk), w\<lparr>si_catalog := c\<rparr>)))"

subsection \<open>Onboarding\<close>

definition post_onboarding :: "desk \<Rightarrow> jwt option \<Rightarrow> unit option \<Rightarrow> js_string handler" where
  "post_onboarding dk tok parsed =
     guarded (require_session (dk_now dk) tok) (\<lambda>t. with_body parsed (\<lambda>_ w.
       case ensure_host_profile (dk_id dk) (jw_user t) (si_catalog w) of
         Inl _ \<Rightarrow> (Refused 400 ''ONBOARDING_FAILED'', w)
       | Inr (h, c) \<Rightarrow>
           (case record_agreement (dk_now dk) h c of
              Inl _ \<Rightarrow> (Refused 400 ''ONBOARDING_FAILED'', w\<lparr>si_catalog := c\<rparr>)
            | Inr (_, c1) \<Rightarrow>
                (case start_onboarding (dk_account dk) h c1 of
                   (Inl _, c2) \<Rightarrow> (Refused 400 ''ONBOARDING_FAILED'', w\<lparr>si_catalog := c2\<rparr>)
                 | (Inr acct, c2) \<Rightarrow> (Answered 200 acct, w\<lparr>si_catalog := c2\<rparr>)))))"

definition get_onboarding_status :: "desk \<Rightarrow> jwt option \<Rightarrow> payout_account handler" where
  "get_onboarding_status dk tok =
     guarded (require_role Host (dk_now dk) tok) (\<lambda>t w.
       case jw_host t of
         None \<Rightarrow> (Answered 200 Not_connected, w)
       | Some h \<Rightarrow>
           if h = [] then (Answered 200 Not_connected, w)
           else (case onboarding_status (dk_report dk) h (si_catalog w) of
                   (Inl _, c) \<Rightarrow> (Refused 400 ''STATUS_CHECK_FAILED'', w\<lparr>si_catalog := c\<rparr>)
                 | (Inr st, c) \<Rightarrow> (Answered 200 st, w\<lparr>si_catalog := c\<rparr>)))"

end
