(* ===== verification/Calendar_Routes.thy ===== *)
theory Calendar_Routes
  imports Host_Routes Calendar_Sync
begin

text \<open>
  The routes of a property's calendars (src/app/api/host/properties/[id]/calendars, calendar-export) and the
  address under which others read it (src/app/api/calendars/[token]). The first check the session and the
  property like every route of a host; the last is public and knows the property by its token alone.
\<close>

text \<open>What a request finds: the network, the collation, clocks and a fresh identifier; \<open>absolute\<close> is \<open>new URL(path, base)\<close>.\<close>

record calendar_desk =
  cd_now :: millis
  cd_done :: millis
  cd_id :: uuid
  cd_net :: fetch_env
  cd_collates :: "js_string \<Rightarrow> js_string \<Rightarrow> bool"
  cd_absolute :: "js_string \<Rightarrow> js_string"
  cd_horizon :: day

definition with_stored :: "('e \<Rightarrow> 'a answer) \<Rightarrow> int \<Rightarrow> ('e + 'a) \<times> store \<Rightarrow> site \<Rightarrow> 'a answer \<times> site" where
  "with_stored refuse ok res w =
     (case res of
        (Inl e, s) \<Rightarrow> (refuse e, w\<lparr>si_store := s\<rparr>)
      | (Inr x, s) \<Rightarrow> (Answered ok x, w\<lparr>si_store := s\<rparr>))"

definition calendar_request :: "calendar_desk \<Rightarrow> jwt option \<Rightarrow> uuid \<Rightarrow> 'a handler \<Rightarrow> 'a handler" where
  "calendar_request cd tok i k = guarded (require_session (cd_now cd) tok) (\<lambda>t. with_property i t k)"

definition get_calendar_feeds :: "calendar_desk \<Rightarrow> jwt option \<Rightarrow> uuid \<Rightarrow> feed_summary list handler" where
  "get_calendar_feeds cd tok i =
     calendar_request cd tok i (\<lambda>w. (Answered 200 (list_calendar_feeds (fe_parse (cd_net cd)) i (si_store w)), w))"

definition feed_creation_refusal :: "sync_error \<Rightarrow> 'a answer" where
  "feed_creation_refusal e =
     (if e = Too_many_feeds then Refused 409 ''CALENDAR_FEED_LIMIT'' else Refused 500 ''CALENDAR_FEED_CREATE_FAILED'')"

definition post_calendar_feed ::
  "calendar_desk \<Rightarrow> jwt option \<Rightarrow> uuid \<Rightarrow> (js_string \<times> js_string) option \<Rightarrow> feed_summary handler" where
  "post_calendar_feed cd tok i parsed =
     calendar_request cd tok i (with_body parsed (\<lambda>(name, address) w.
       with_stored feed_creation_refusal 201
         (create_calendar_feed (cd_net cd) (cd_now cd) (cd_id cd) i name address (tables w)) w))"

definition feed_refusal :: "js_string \<Rightarrow> sync_error \<Rightarrow> 'a answer" where
  "feed_refusal failed e =
     (if e = Feed_not_found then Refused 404 ''CALENDAR_FEED_NOT_FOUND'' else Refused 500 failed)"

definition patch_calendar_feed ::
  "calendar_desk \<Rightarrow> jwt option \<Rightarrow> uuid \<Rightarrow> uuid option \<Rightarrow> bool option \<Rightarrow> feed_summary handler" where
  "patch_calendar_feed cd tok i feed parsed =
     calendar_request cd tok i (with_body feed (\<lambda>f. with_body parsed (\<lambda>active w.
       with_stored (feed_refusal ''CALENDAR_FEED_UPDATE_FAILED'') 200
         (set_calendar_feed_active (fe_parse (cd_net cd)) (cd_now cd) i f active (tables w)) w)))"

definition remove_calendar_feed :: "calendar_desk \<Rightarrow> jwt option \<Rightarrow> uuid \<Rightarrow> uuid option \<Rightarrow> unit handler" where
  "remove_calendar_feed cd tok i feed =
     calendar_request cd tok i (with_body feed (\<lambda>f w.
       with_stored (feed_refusal ''CALENDAR_FEED_DELETE_FAILED'') 200
         (delete_calendar_feed (cd_now cd) i f (tables w)) w))"

text \<open>Every other error of a synchronisation is rethrown as a \<open>CalendarSyncError\<close>.\<close>

definition sync_refusal :: "sync_error \<Rightarrow> 'a answer" where
  "sync_refusal e =
     (case e of
        Feed_not_found \<Rightarrow> Refused 404 ''CALENDAR_FEED_NOT_FOUND''
      | Feed_disabled \<Rightarrow> Refused 409 ''CALENDAR_FEED_DISABLED''
      | _ \<Rightarrow> Refused 422 ''CALENDAR_SYNC_REJECTED'')"

definition post_calendar_sync :: "calendar_desk \<Rightarrow> jwt option \<Rightarrow> uuid \<Rightarrow> uuid option \<Rightarrow> sync_result handler" where
  "post_calendar_sync cd tok i feed =
     calendar_request cd tok i (with_body feed (\<lambda>f w.
       with_stored sync_refusal 200
         (sync_calendar_feed (cd_net cd) (cd_collates cd) (cd_now cd) (cd_done cd) i f (tables w)) w))"

definition export_url :: "calendar_desk \<Rightarrow> uuid \<Rightarrow> js_string" where
  "export_url cd token = cd_absolute cd (''/api/calendars/'' @ token)"

definition get_calendar_export :: "calendar_desk \<Rightarrow> jwt option \<Rightarrow> uuid \<Rightarrow> js_string handler" where
  "get_calendar_export cd tok i =
     calendar_request cd tok i (\<lambda>w.
       case get_or_create_export_token (cd_id cd) i (tables w) of
         (token, s) \<Rightarrow> (Answered 200 (export_url cd token), w\<lparr>si_store := s\<rparr>))"

definition post_calendar_export :: "calendar_desk \<Rightarrow> jwt option \<Rightarrow> uuid \<Rightarrow> js_string handler" where
  "post_calendar_export cd tok i =
     calendar_request cd tok i (\<lambda>w.
       case rotate_export_token (cd_now cd) (cd_id cd) i (tables w) of
         (token, s) \<Rightarrow> (Answered 200 (export_url cd token), w\<lparr>si_store := s\<rparr>))"

text \<open>The public file, with its name.\<close>

definition get_public_calendar :: "calendar_desk \<Rightarrow> uuid option \<Rightarrow> (js_string \<times> js_string) handler" where
  "get_public_calendar cd token w =
     (case token of
        None \<Rightarrow> (Refused 404 ''CALENDAR_NOT_FOUND'', w)
      | Some tk \<Rightarrow>
          (case generate_calendar_export (cd_now cd) (cd_horizon cd) tk (tables w) of
             None \<Rightarrow> (Refused 404 ''CALENDAR_NOT_FOUND'', w)
           | Some c \<Rightarrow> (Answered 200 (''HOST-'' @ cx_property c @ ''.ics'', cx_body c), w)))"

end
