(* ===== verification/Serve.thy ===== *)
theory Serve
  imports Calendar_Routes Account_Safety System
begin

text \<open>
  The server as one step: a request of any of the modelled routes, answered with its status. What holds
  of the whole server is proved here once per relation between the state before and after a request: the
  locale \<open>answering\<close> carries a relation through the guards all routes share, so that each route owes only
  its own body.
\<close>

subsection \<open>Requests\<close>

datatype guest_request =
  GET_trips bool
| POST_booking "js_string option" "booking_input option"
| GET_booking uuid
| POST_cancel uuid "unit option"
| GET_quote uuid
| POST_discard uuid
| POST_archive uuid
| GET_messages uuid
| POST_message uuid "(js_string \<times> js_string option) option"
| POST_read uuid
| GET_unread
| GET_booking_review uuid
| POST_review "uuid option" "review_input option"
| POST_reply uuid "js_string option"
| GET_favourites
| POST_favourite "uuid option"
| DELETE_favourite uuid
| POST_intent "uuid option"
| POST_setup_intent "uuid option"
| POST_refund "refund_request option"

datatype host_request =
  GET_host_properties
| POST_host_property "property_input option"
| GET_host_property uuid
| PATCH_host_property uuid "property_input option"
| GET_availability uuid
| POST_availability uuid "(avail_action \<times> day \<times> day) option"
| GET_host_bookings
| GET_host_booking uuid
| GET_host_reviews
| GET_amenities
| GET_policies
| GET_compliance uuid
| PUT_compliance uuid "(owner_item list \<times> bool) option"
| GET_readiness uuid
| PATCH_compliance uuid "(review_decision \<times> js_string) option"
| PATCH_readiness "(uuid \<times> review_decision \<times> js_string) option"
| GET_readiness_queue
| GET_admin_readiness uuid
| GET_compliance_queue
| GET_images uuid
| POST_image uuid "js_string option"
| PATCH_images uuid "image_action option"
| DELETE_image uuid uuid
| POST_onboarding "unit option"
| GET_onboarding

datatype feed_request =
  GET_feeds uuid
| POST_feed uuid "(js_string \<times> js_string) option"
| PATCH_feed uuid "uuid option" "bool option"
| DELETE_feed uuid "uuid option"
| POST_sync uuid "uuid option"
| GET_export uuid
| POST_export uuid

datatype site_request = For_guest guest_request | For_host host_request | For_feed feed_request

record site_env =
  se_server :: server
  se_desk :: desk
  se_feeds :: calendar_desk

fun status_of :: "'a answer \<Rightarrow> int" where
  "status_of (Refused n c) = n"
| "status_of (Answered n x) = n"

definition answer_to :: "'a handler \<Rightarrow> site \<Rightarrow> int \<times> site" where
  "answer_to h w = (status_of (fst (h w)), snd (h w))"

primrec serve_guest :: "server \<Rightarrow> jwt option \<Rightarrow> guest_request \<Rightarrow> site \<Rightarrow> int \<times> site" where
  "serve_guest sv t (GET_trips a) = answer_to (get_trips sv t a)"
| "serve_guest sv t (POST_booking k i) = answer_to (post_booking sv t k i)"
| "serve_guest sv t (GET_booking b) = answer_to (get_booking sv t b)"
| "serve_guest sv t (POST_cancel b x) = answer_to (post_cancel sv t b x)"
| "serve_guest sv t (GET_quote b) = answer_to (get_cancellation_quote sv t b)"
| "serve_guest sv t (POST_discard b) = answer_to (post_discard sv t b)"
| "serve_guest sv t (POST_archive b) = answer_to (post_archive sv t b)"
| "serve_guest sv t (GET_messages b) = answer_to (get_messages sv t b)"
| "serve_guest sv t (POST_message b x) = answer_to (post_booking_message sv t b x)"
| "serve_guest sv t (POST_read b) = answer_to (post_read sv t b)"
| "serve_guest sv t GET_unread = answer_to (get_unread sv t)"
| "serve_guest sv t (GET_booking_review b) = answer_to (get_booking_review sv t b)"
| "serve_guest sv t (POST_review b x) = answer_to (post_review sv t b x)"
| "serve_guest sv t (POST_reply v x) = answer_to (post_reply sv t v x)"
| "serve_guest sv t GET_favourites = answer_to (get_favourites sv t)"
| "serve_guest sv t (POST_favourite p) = answer_to (post_favourite sv t p)"
| "serve_guest sv t (DELETE_favourite p) = answer_to (delete_favourite sv t p)"
| "serve_guest sv t (POST_intent b) = answer_to (post_intent sv t b)"
| "serve_guest sv t (POST_setup_intent b) = answer_to (post_setup_intent sv t b)"
| "serve_guest sv t (POST_refund q) = answer_to (post_admin_refund sv t q)"

primrec serve_host :: "desk \<Rightarrow> jwt option \<Rightarrow> host_request \<Rightarrow> site \<Rightarrow> int \<times> site" where
  "serve_host dk t GET_host_properties = answer_to (get_host_properties dk t)"
| "serve_host dk t (POST_host_property x) = answer_to (post_host_property dk t x)"
| "serve_host dk t (GET_host_property i) = answer_to (get_host_property dk t i)"
| "serve_host dk t (PATCH_host_property i x) = answer_to (patch_host_property dk t i x)"
| "serve_host dk t (GET_availability i) = answer_to (get_host_availability dk t i)"
| "serve_host dk t (POST_availability i x) = answer_to (post_host_availability dk t i x)"
| "serve_host dk t GET_host_bookings = answer_to (get_host_bookings dk t)"
| "serve_host dk t (GET_host_booking b) = answer_to (get_host_booking dk t b)"
| "serve_host dk t GET_host_reviews = answer_to (get_host_reviews dk t)"
| "serve_host dk t GET_amenities = answer_to (get_amenities dk t)"
| "serve_host dk t GET_policies = answer_to (get_cancellation_policies dk t)"
| "serve_host dk t (GET_compliance i) = answer_to (get_compliance dk t i)"
| "serve_host dk t (PUT_compliance i x) = answer_to (put_compliance dk t i x)"
| "serve_host dk t (GET_readiness i) = answer_to (get_readiness dk t i)"
| "serve_host dk t (PATCH_compliance i x) = answer_to (patch_admin_compliance dk t i x)"
| "serve_host dk t (PATCH_readiness x) = answer_to (patch_admin_readiness dk t x)"
| "serve_host dk t GET_readiness_queue = answer_to (get_admin_readiness_queue dk t)"
| "serve_host dk t (GET_admin_readiness i) = answer_to (get_admin_readiness dk t i)"
| "serve_host dk t GET_compliance_queue = answer_to (get_admin_compliance_queue dk t)"
| "serve_host dk t (GET_images i) = answer_to (get_images dk t i)"
| "serve_host dk t (POST_image i x) = answer_to (post_image dk t i x)"
| "serve_host dk t (PATCH_images i x) = answer_to (patch_images dk t i x)"
| "serve_host dk t (DELETE_image i x) = answer_to (remove_image dk t i x)"
| "serve_host dk t (POST_onboarding x) = answer_to (post_onboarding dk t x)"
| "serve_host dk t GET_onboarding = answer_to (get_onboarding_status dk t)"

primrec serve_feed :: "calendar_desk \<Rightarrow> jwt option \<Rightarrow> feed_request \<Rightarrow> site \<Rightarrow> int \<times> site" where
  "serve_feed cd t (GET_feeds i) = answer_to (get_calendar_feeds cd t i)"
| "serve_feed cd t (POST_feed i x) = answer_to (post_calendar_feed cd t i x)"
| "serve_feed cd t (PATCH_feed i f x) = answer_to (patch_calendar_feed cd t i f x)"
| "serve_feed cd t (DELETE_feed i f) = answer_to (remove_calendar_feed cd t i f)"
| "serve_feed cd t (POST_sync i f) = answer_to (post_calendar_sync cd t i f)"
| "serve_feed cd t (GET_export i) = answer_to (get_calendar_export cd t i)"
| "serve_feed cd t (POST_export i) = answer_to (post_calendar_export cd t i)"

primrec serve :: "site_env \<Rightarrow> jwt option \<Rightarrow> site_request \<Rightarrow> site \<Rightarrow> int \<times> site" where
  "serve e t (For_guest r) = serve_guest (se_server e) t r"
| "serve e t (For_host r) = serve_host (se_desk e) t r"
| "serve e t (For_feed r) = serve_feed (se_feeds e) t r"

subsection \<open>The guards\<close>

text \<open>A guard that lets a request pass passes on the token it was given, of a current session.\<close>

definition honest :: "jwt option \<Rightarrow> millis \<Rightarrow> guard \<Rightarrow> bool" where
  "honest tok now g \<longleftrightarrow>
     (\<forall>a. (case g a of
        (Inl e, b) \<Rightarrow> True
      | (Inr t, b) \<Rightarrow> tok = Some t \<and> session_current now t a)) \<and>
     (\<forall>a. (\<forall>t. tok = Some t \<longrightarrow> \<not> session_current now t a) \<longrightarrow> (\<exists>e. g a = (Inl e, a) \<and> auth_status e = 401))"

lemma honest_session [simp]: "honest tok now (require_session now tok)"
  by (auto simp: honest_def require_session_def auth_status_def split: option.splits)

text \<open>Every other guard is a session with one more condition.\<close>

lemma honest_then:
  assumes g: "honest tok now g" and k: "\<And>t b. fst (k t b) = Inr t \<or> (\<exists>e. fst (k t b) = Inl e)"
    and h: "h = (\<lambda>a. case g a of (Inl e, b) \<Rightarrow> (Inl e, b) | (Inr t, b) \<Rightarrow> k t b)"
  shows "honest tok now h"
proof -
  have "case h a of (Inl e, b) \<Rightarrow> True | (Inr t, b) \<Rightarrow> tok = Some t \<and> session_current now t a" for a
  proof (cases "g a")
    case (Pair r b)
    show ?thesis
    proof (cases r)
      case (Inl e)
      then show ?thesis by (simp add: h Pair)
    next
      case (Inr t)
      then have "tok = Some t \<and> session_current now t a" using g Pair by (auto simp: honest_def dest: spec [where x = a])
      then show ?thesis using k [of t b] by (cases "k t b") (auto simp: h Pair Inr)
    qed
  qed
  moreover have "\<exists>e. h a = (Inl e, a) \<and> auth_status e = 401"
    if "\<forall>t. tok = Some t \<longrightarrow> \<not> session_current now t a" for a
    using g that by (fastforce simp: honest_def h)
  ultimately show ?thesis by (simp add: honest_def)
qed

lemma honest_role [simp]: "honest tok now (require_role r now tok)"
  by (rule honest_then [OF honest_session, of "\<lambda>t b. if r \<in> set (jw_roles t) then (Inr t, b) else (Inl (Forbidden ''role''), b)"])
    (auto simp: require_role_def fun_eq_iff)

lemma honest_permission [simp]: "honest tok now (require_permission x y now tok)"
  unfolding require_permission_def [abs_def]
  by (rule honest_then [OF honest_role _ refl]) simp

lemma honest_secure [simp]: "honest tok now (require_secure_admin super now tok)"
  unfolding require_secure_admin_def [abs_def]
  by (rule honest_then [OF honest_role _ refl]) (simp split: option.split)

lemma guarded_refused:
  assumes "honest tok now g" "\<forall>t. tok = Some t \<longrightarrow> \<not> session_current now t (si_accounts w)"
  shows "answer_to (guarded g k) w = (401, w)"
  using assms by (auto simp: honest_def answer_to_def guarded_def dest!: spec [where x = "si_accounts w"])

subsection \<open>Relations that requests respect\<close>

locale answering =
  fixes R :: "site \<Rightarrow> site \<Rightarrow> bool"
  assumes same: "R w w"
    and seen: "R (w\<lparr>si_accounts := a\<rparr>) v \<Longrightarrow> R w v"
begin

lemma by_guard:
  assumes "honest tok now g" "\<And>t v. tok = Some t \<Longrightarrow> R v (snd (k t v))"
  shows "R w (snd (guarded g k w))"
proof (cases "g (si_accounts w)")
  case (Pair r b)
  show ?thesis
  proof (cases r)
    case (Inl e)
    have "R w (w\<lparr>si_accounts := b\<rparr>)" by (rule seen [OF same])
    with Inl Pair show ?thesis by (simp add: guarded_def)
  next
    case (Inr t)
    then have "tok = Some t" using assms(1) Pair by (auto simp: honest_def dest: spec [where x = "si_accounts w"])
    from seen [OF assms(2) [OF this]] Inr Pair show ?thesis by (simp add: guarded_def)
  qed
qed

lemma by_access:
  assumes "\<And>acc. resolve_booking_access t bk (tables w) = Inr acc \<Longrightarrow> R w (snd (k acc w))"
  shows "R w (snd (with_access bk t k w))"
  using assms same by (auto simp: with_access_def split: sum.split)

lemma by_body:
  assumes "\<And>x. p = Some x \<Longrightarrow> R w (snd (k x w))"
  shows "R w (snd (with_body p k w))"
  using assms same by (auto simp: with_body_def split: option.split)

lemma by_property:
  assumes "\<And>h. resolve_host_property_access t i (tables w) = Inr h \<Longrightarrow> R w (snd (k w))"
  shows "R w (snd (with_property i t k w))"
  using assms same by (auto simp: with_property_def split: sum.split)

lemma by_profile:
  assumes "\<And>h. jw_host t = Some h \<Longrightarrow> R w (snd (k h w))"
  shows "R w (snd (with_profile t k w))"
  using assms same by (auto simp: with_profile_def split: option.split)

lemma by_calendar:
  assumes "\<And>t v. tok = Some t \<Longrightarrow> resolve_host_property_access t i (tables v) \<in> range Inr \<Longrightarrow> R v (snd (k v))"
  shows "R w (snd (calendar_request cd tok i k w))"
  unfolding calendar_request_def
  by (rule by_guard [OF honest_session], rule by_property) (auto intro: assms)

lemmas through = by_guard [OF honest_session] by_guard [OF honest_role] by_guard [OF honest_permission]
  by_guard [OF honest_secure] by_access by_body by_property by_profile by_calendar

text \<open>Requests that only read.\<close>

lemma guest_reads:
  "R w (snd (serve_guest sv tok (GET_trips a) w))"
  "R w (snd (serve_guest sv tok (GET_booking b) w))"
  "R w (snd (serve_guest sv tok (GET_quote b) w))"
  "R w (snd (serve_guest sv tok (GET_messages b) w))"
  "R w (snd (serve_guest sv tok GET_unread w))"
  "R w (snd (serve_guest sv tok (GET_booking_review b) w))"
  "R w (snd (serve_guest sv tok GET_favourites w))"
  by (simp_all add: answer_to_def get_trips_def get_booking_def get_cancellation_quote_def get_messages_def get_unread_def
      get_booking_review_def get_favourites_def)
    (auto intro!: through simp: same split: sum.splits)

lemma host_reads:
  "R w (snd (serve_host dk tok GET_host_properties w))"
  "R w (snd (serve_host dk tok (GET_host_property i) w))"
  "R w (snd (serve_host dk tok (GET_availability i) w))"
  "R w (snd (serve_host dk tok GET_host_bookings w))"
  "R w (snd (serve_host dk tok (GET_host_booking b) w))"
  "R w (snd (serve_host dk tok GET_host_reviews w))"
  "R w (snd (serve_host dk tok GET_amenities w))"
  "R w (snd (serve_host dk tok GET_policies w))"
  "R w (snd (serve_host dk tok (GET_compliance i) w))"
  "R w (snd (serve_host dk tok (GET_readiness i) w))"
  "R w (snd (serve_host dk tok GET_readiness_queue w))"
  "R w (snd (serve_host dk tok (GET_admin_readiness i) w))"
  "R w (snd (serve_host dk tok GET_compliance_queue w))"
  "R w (snd (serve_host dk tok (GET_images i) w))"
  by (simp_all add: answer_to_def get_host_properties_def get_host_property_def get_host_availability_def
      get_host_bookings_def get_host_booking_def get_host_reviews_def get_amenities_def get_cancellation_policies_def
      get_compliance_def get_readiness_def get_admin_readiness_queue_def get_admin_readiness_def
      get_admin_compliance_queue_def get_images_def)
    (auto intro!: through simp: same split: sum.splits option.splits)

lemma feed_reads: "R w (snd (serve_feed cd tok (GET_feeds i) w))"
  by (auto simp: answer_to_def get_calendar_feeds_def same intro!: through)

end

end
