(* ===== verification/Site_Safety.thy ===== *)
theory Site_Safety
  imports Serve Night_Ledger
begin

text \<open>
  What every request keeps, whoever sends it: \<open>site_ok\<close>, the invariants of the bookings, of the catalog and
  of the reviews together, with every booking on a listed property. It composes the invariants of the
  components: a route owes that the state it writes back comes from an operation of its component.
\<close>

definition site_ok :: "site \<Rightarrow> bool" where
  "site_ok w \<longleftrightarrow> bookings_ok (si_store w) \<and> catalog_ok (si_catalog w) \<and> board_ok (si_reviews w, si_catalog w) \<and>
     bookings_listed (si_store w) (si_catalog w)"

subsection \<open>Changes of the store that sell nothing\<close>

definition keeps_stays :: "store \<Rightarrow> store \<Rightarrow> bool" where
  "keeps_stays s t \<longleftrightarrow> only_ends s t \<and> (bookings_ok s \<longrightarrow> bookings_ok t)"

lemma keeps_stays_same: "bookings t = bookings s \<Longrightarrow> avail t = avail s \<Longrightarrow> keeps_stays s t"
  by (auto simp: keeps_stays_def intro: only_ends_frame bookings_ok_frame)

lemma keeps_stays_trans: "keeps_stays s t \<Longrightarrow> keeps_stays t u \<Longrightarrow> keeps_stays s u"
  by (auto simp: keeps_stays_def intro: only_ends_trans)

lemma keeps_stays_op:
  "sys_body sha op s = Inr (x, t) \<Longrightarrow> (\<And>dl now i inp. op \<noteq> Op_create dl now i inp) \<Longrightarrow> keeps_stays s t"
  unfolding keeps_stays_def using sys_body_ends sys_body_keeps by blast

lemma keeps_stays_tx:
  assumes "\<And>x t. f s = Inr (x, t) \<Longrightarrow> keeps_stays s t"
  shows "keeps_stays s (snd (with_transaction f s))"
  using assms by (cases f s rule: with_transaction_cases) (auto intro: keeps_stays_same)

lemma keeps_stays_imports: "imports_only s t \<Longrightarrow> keeps_stays s t"
  unfolding keeps_stays_def
  using imports_only_bookings [of s t] imports_only_rows [of s t booked_row]
  by (auto intro: only_ends_frame bookings_ok_frame)

lemma keeps_stays_cancel: "keeps_stays s (snd (cancel_booking now bk who s))"
  unfolding cancel_booking_def
  by (rule keeps_stays_tx, rule keeps_stays_op [of _ "Op_cancel now bk who"])
    (simp_all add: cancel_booking_def committed_def with_transaction_Inr)

lemma keeps_stays_discard: "keeps_stays s (snd (with_transaction (discard_unpaid_booking_tx now bk guest) s))"
  by (rule keeps_stays_tx, rule keeps_stays_op [of _ "Op_discard now bk guest"])
    (simp_all add: committed_def with_transaction_Inr)

lemma keeps_stays_archive: "keeps_stays s (snd (with_transaction (archive_booking now bk guest) s))"
  by (rule keeps_stays_tx, rule keeps_stays_op [of _ "Op_archive now bk guest"])
    (simp_all add: committed_def with_transaction_Inr)

lemma keeps_stays_availability: "keeps_stays s (snd (with_transaction (mutate_availability now p ci co act) s))"
  by (rule keeps_stays_tx, rule keeps_stays_op [of _ "Op_availability now p ci co act"])
    (simp_all add: committed_def with_transaction_Inr)

lemma initiate_refund_stays:
  "bookings (snd (initiate_refund listed create i req s)) = bookings s"
  "avail (snd (initiate_refund listed create i req s)) = avail s"
  by (auto simp: initiate_refund_def reserve_refund_def Let_def split: prod.splits sum.splits option.splits)

lemma keeps_stays_refund: "keeps_stays s (snd (initiate_refund listed create i req s))"
  by (rule keeps_stays_same) (simp_all add: initiate_refund_stays)

lemma keeps_stays_cancel_and_refund: "keeps_stays s (snd (cancel_booking_and_refund listed create i now bk who s))"
proof -
  obtain r t where c: "cancel_booking now bk who s = (r, t)" by (rule prod.exhaust)
  then have t: "keeps_stays s t" using keeps_stays_cancel [of s now bk who] by simp
  have u: "keeps_stays t u" if "initiate_refund listed create i req t = (q, u)" for q req u
    using keeps_stays_refund [of t listed create i req] that by simp
  show ?thesis
    using t by (auto simp: cancel_booking_and_refund_def c split: sum.splits option.splits prod.splits
        dest!: u intro: keeps_stays_trans)
qed

lemma keeps_stays_intent: "keeps_stays s (snd (create_payment_intent_for_booking retrieve create i bk s))"
  by (rule keeps_stays_same)
    (auto simp: create_payment_intent_for_booking_def upsert_payment_def Let_def split: option.splits sum.splits prod.splits)

lemma shrinks_customer: "shrinks (\<lambda>b. b\<lparr>b_customer := c, b_setup_intent := i\<rparr>)"
  by (simp add: shrinks_def active_def)

lemma keeps_stays_setup: "keeps_stays s (snd (create_setup_intent_for_booking customer retrieve create bk s))"
proof -
  have "keeps_stays s (set_booking bk (\<lambda>b. b\<lparr>b_customer := c, b_setup_intent := i\<rparr>) s)" for c i
    unfolding keeps_stays_def
    by (auto intro: only_ends_ended [OF _ shrinks_customer] bookings_ok_update [OF _ _ _ shrinks_customer])
  moreover have "snd (create_setup_intent_for_booking customer retrieve create bk s) = s \<or>
      (\<exists>c i. snd (create_setup_intent_for_booking customer retrieve create bk s) =
        set_booking bk (\<lambda>b. b\<lparr>b_customer := c, b_setup_intent := i\<rparr>) s)"
    by (auto simp: create_setup_intent_for_booking_def Let_def split: option.splits prod.splits)
  ultimately show ?thesis using keeps_stays_same [of s s] by (metis (no_types, lifting))
qed

lemma keeps_stays_exports:
  "keeps_stays s (snd (get_or_create_export_token i p s))" "keeps_stays s (snd (rotate_export_token now i p s))"
  by (auto intro!: keeps_stays_same simp: get_or_create_export_token_def rotate_export_token_def split: option.splits)

subsection \<open>Changes of the site\<close>

lemma tables_same [simp]:
  "bookings (tables w) = bookings (si_store w)" "avail (tables w) = avail (si_store w)"
  "payments (tables w) = payments (si_store w)" "refunds (tables w) = refunds (si_store w)"
  "prices (tables w) = prices (si_store w)" "feeds (tables w) = feeds (si_store w)"
  by (simp_all add: with_catalog_def)

lemma bookings_ok_tables [simp]: "bookings_ok (tables w) = bookings_ok (si_store w)"
  using bookings_ok_frame [of "tables w" "si_store w"] bookings_ok_frame [of "si_store w" "tables w"] by auto

lemma bookings_listed_tables [simp]: "bookings_listed (tables w) c = bookings_listed (si_store w) c"
  by (simp add: bookings_listed_def)

lemma seen_ok [simp]:
  "site_ok (w\<lparr>si_accounts := a\<rparr>) = site_ok w" "site_ok (w\<lparr>si_mail := m\<rparr>) = site_ok w" "site_ok (w\<lparr>si_saved := v\<rparr>) = site_ok w"
  by (simp_all add: site_ok_def)

lemma store_kept:
  assumes "keeps_stays (tables w) s" "site_ok w"
  shows "site_ok (w\<lparr>si_store := s\<rparr>)"
proof -
  obtain g where g: "shrinks g" "bookings s = map g (bookings (si_store w))" "bookings_ok s"
    using assms by (auto simp: keeps_stays_def only_ends_def site_ok_def)
  have "b_property (g b) = b_property b" for b using g(1) by (simp add: shrinks_def)
  then have "bookings_listed s c = bookings_listed (si_store w) c" for c
    by (simp add: bookings_listed_def g(2) list.pred_map comp_def)
  with assms(2) g(3) show ?thesis by (simp add: site_ok_def)
qed

lemma store_kept_own: "keeps_stays (si_store w) s \<Longrightarrow> site_ok w \<Longrightarrow> site_ok (w\<lparr>si_store := s\<rparr>)"
  by (rule store_kept) (auto simp: keeps_stays_def only_ends_def)

lemma property_listed: "find_property i (tables w) = Some p \<Longrightarrow> row_exists (\<lambda>r. ls_id r = i) (listings (si_catalog w))"
proof -
  assume "find_property i (tables w) = Some p"
  then obtain r where "r \<in> set (listings (si_catalog w))" "p_id (property_of r) = i"
    by (auto simp: with_catalog_def dest!: first_where_Some)
  moreover have "p_id (property_of r) = ls_id r" for r by (simp add: property_of_def Let_def)
  ultimately show ?thesis unfolding row_exists_iff by metis
qed

lemma created_kept:
  assumes "create_booking dl now i inp (tables w) = (r, s)" "site_ok w"
  shows "site_ok (w\<lparr>si_store := s\<rparr>)"
proof (cases r)
  case (Inl e)
  with create_booking_error assms(1) have "s = tables w" by blast
  with assms(2) keeps_stays_same [of s "tables w"] show ?thesis by (intro store_kept) auto
next
  case (Inr x)
  note made = assms(1) [unfolded Inr]
  have ok: "bookings_ok s" using create_keeps_bookings_ok [OF _ made] assms(2) by (simp add: site_ok_def)
  have "bookings_listed s (si_catalog w)"
    using create_booking_cases(4) [OF made]
  proof (cases rule: create_booking_tx_cases)
    case replay
    with assms(2) show ?thesis by (simp add: site_ok_def)
  next
    case (created p bd)
    with assms(2) property_listed [OF created(2)] show ?thesis
      by (auto simp: site_ok_def bookings_listed_def insert_row_def list_all_iff)
  qed
  with ok assms(2) show ?thesis by (simp add: site_ok_def)
qed

lemma catalog_kept:
  assumes "listing_body snap op (si_catalog w) = Inr (x, d)" "site_ok w"
  shows "site_ok (w\<lparr>si_catalog := d\<rparr>)"
proof -
  have "board_body snap (On_listing op) (si_reviews w, si_catalog w) = Inr ((), (si_reviews w, d))"
    by (simp add: assms(1))
  from board_body_keeps [OF _ this] have board: "board_ok (si_reviews w, d)" using assms(2) by (simp add: site_ok_def)
  have "fst ` set (rating_rows (si_catalog w)) \<subseteq> fst ` set (rating_rows d)"
    using listing_op_ratings [OF assms(1)] by (elim disjE exE conjE) auto
  then have "ls_id ` set (listings (si_catalog w)) \<subseteq> ls_id ` set (listings d)" by (simp add: image_image)
  then have "row_exists (\<lambda>r. ls_id r = i) (listings (si_catalog w)) \<longrightarrow> row_exists (\<lambda>r. ls_id r = i) (listings d)" for i
    unfolding row_exists_iff by (metis imageE imageI subsetD)
  then have "bookings_listed (si_store w) d"
    using assms(2) by (auto simp: site_ok_def bookings_listed_def list_all_iff)
  with board listing_body_keeps [OF _ assms(1)] assms(2) show ?thesis by (simp add: site_ok_def)
qed

lemma rating_keeps_catalog:
  assumes "catalog_ok c"
  shows "catalog_ok (snd (recalculate_property_rating p (rs, c)))"
  unfolding recalculate_property_rating_def Let_def snd_conv fst_conv
proof (rule update_listing_keeps [OF assms])
  fix r assume r: "r \<in> set (listings c)"
  let ?n = "r\<lparr>ls_rating := average_rating (published_of p rs), ls_review_count := int (length (published_of p rs))\<rparr>"
  have "on_listing_update r ?n = ?n" by (simp add: on_listing_update_def)
  moreover have "others_approved c ?n = others_approved c r" by (rule others_approved_cong) simp_all
  ultimately show "listing_ok c (on_listing_update r ?n)"
    using catalog_okD(4) [OF assms r] by (simp add: listing_ok_def)
qed simp_all

lemma review_kept:
  assumes "create_review i (tables w) inp (si_reviews w, si_catalog w) = Inr (v, rs, c)" "site_ok w"
  shows "site_ok (w\<lparr>si_reviews := rs, si_catalog := c\<rparr>)"
proof -
  have "board_body (\<lambda>p. p) (Post_review i (tables w) inp) (si_reviews w, si_catalog w) = Inr ((), rs, c)"
    using assms by (simp add: site_ok_def forget_def)
  from board_body_keeps [OF _ this] have board: "board_ok (rs, c)" using assms(2) by (simp add: site_ok_def)
  obtain p where "(rs, c) = recalculate_property_rating p (insert_row v (si_reviews w), si_catalog w)"
    using assms(1) by (cases rule: create_review_cases) simp
  then have c: "c = snd (recalculate_property_rating p (insert_row v (si_reviews w), si_catalog w))" by (metis snd_conv)
  then have "map ls_id (listings c) = map ls_id (listings (si_catalog w))"
    by (simp add: recalculate_property_rating_def Let_def listings_update_listing map_update_where)
  then have "ls_id ` set (listings c) = ls_id ` set (listings (si_catalog w))" by (metis set_map)
  then have "row_exists (\<lambda>r. ls_id r = k) (listings c) = row_exists (\<lambda>r. ls_id r = k) (listings (si_catalog w))" for k
    unfolding row_exists_iff by (metis imageE imageI)
  then have "bookings_listed (si_store w) c" using assms(2) by (simp add: site_ok_def bookings_listed_def)
  with board rating_keeps_catalog [of "si_catalog w" p] assms(2) c show ?thesis by (simp add: site_ok_def)
qed

lemma reply_kept:
  assumes "reply_to_review now v h t (si_reviews w, si_catalog w) = Inr (x, rs, c)" "site_ok w"
  shows "site_ok (w\<lparr>si_reviews := rs, si_catalog := c\<rparr>)"
proof -
  have "board_body (\<lambda>p. p) (Post_reply now v h t) (si_reviews w, si_catalog w) = Inr ((), rs, c)"
    using assms by (simp add: forget_def)
  from board_body_keeps [OF _ this] have "board_ok (rs, c)" using assms(2) by (simp add: site_ok_def)
  moreover have "c = si_catalog w" using assms(1) by (auto simp: reply_to_review_def Let_def split: option.splits if_splits)
  ultimately show ?thesis using assms(2) by (simp add: site_ok_def)
qed

subsection \<open>Requests\<close>

interpretation keeping: answering "\<lambda>w v. site_ok w \<longrightarrow> site_ok v"
  by unfold_locales simp_all

lemma snd_store_case:
  "snd (case r of (Inl e, s) \<Rightarrow> (f e, w\<lparr>si_store := s\<rparr>) | (Inr x, s) \<Rightarrow> (g x, w\<lparr>si_store := s\<rparr>)) = w\<lparr>si_store := snd r\<rparr>"
  by (auto split: prod.splits sum.splits)

lemma snd_with_stored: "snd (with_stored f n r w) = w\<lparr>si_store := snd r\<rparr>"
  by (auto simp: with_stored_def split: prod.splits sum.splits)

lemma snd_setup_case:
  "snd (case r of (Inl e, s) \<Rightarrow> (f e, w\<lparr>si_store := s\<rparr>) | (Inr (a, b, c), s) \<Rightarrow> (g a b c, w\<lparr>si_store := s\<rparr>)) =
    w\<lparr>si_store := snd r\<rparr>"
  by (auto split: prod.splits sum.splits)

lemma guest_keeps: "site_ok w \<longrightarrow> site_ok (snd (serve_guest sv tok r w))"
proof (cases r)
  case (POST_booking k i)
  show ?thesis
    unfolding POST_booking serve_guest.simps answer_to_def snd_conv post_booking_def
    by (intro keeping.through) (auto simp: with_body_def split: option.splits prod.splits sum.splits dest: created_kept)
next
  case (POST_cancel bk x)
  show ?thesis
    unfolding POST_cancel serve_guest.simps answer_to_def snd_conv post_cancel_def
  proof (intro keeping.through impI)
    fix acc v assume v: "site_ok v"
    let ?c = "cancel_and_notify (mail_of sv v) (sv_listed sv) (sv_refund sv) (sv_id sv) (sv_now sv) (si_catalog v) bk
        (actor_of (ac_role acc)) (tables v) (si_mail v)"
    obtain q s m where c: "?c = (q, s, m)" by (metis prod.exhaust)
    then have "s = snd (cancel_booking_and_refund (sv_listed sv) (sv_refund sv) (sv_id sv) (sv_now sv) bk
        (actor_of (ac_role acc)) (tables v))"
      by (auto simp: cancel_and_notify_def split: prod.splits sum.splits option.splits)
    then have "site_ok (v\<lparr>si_store := s, si_mail := m\<rparr>)"
      using store_kept [OF keeps_stays_cancel_and_refund v] by simp
    then show "site_ok (snd (case ?c of
         (Inl (Cancel_refused e), s, m) \<Rightarrow>
           (Refused (if e = Booking_not_found then 404 else 400) (booking_error_code e), v\<lparr>si_store := s, si_mail := m\<rparr>)
       | (Inl (Message_failed _), s, m) \<Rightarrow> (Refused 500 ''CANCELLATION_FAILED'', v\<lparr>si_store := s, si_mail := m\<rparr>)
       | (Inr (r, err), s, m) \<Rightarrow> (Answered 200 (fst r, err), v\<lparr>si_store := s, si_mail := m\<rparr>)))"
      by (simp add: c split: sum.split prod.split cancel_failure.split)
  qed
next
  case (POST_discard bk)
  show ?thesis
    unfolding POST_discard serve_guest.simps answer_to_def snd_conv post_discard_def
    by (intro keeping.through) (auto simp: snd_store_case intro: store_kept keeps_stays_discard)
next
  case (POST_archive bk)
  show ?thesis
    unfolding POST_archive serve_guest.simps answer_to_def snd_conv post_archive_def
    by (intro keeping.through) (auto simp: snd_store_case intro: store_kept keeps_stays_archive)
next
  case (POST_message bk x)
  show ?thesis
    unfolding POST_message serve_guest.simps answer_to_def snd_conv post_booking_message_def
    by (intro keeping.through) (auto simp: with_body_def split: option.splits sum.splits)
next
  case (POST_read bk)
  show ?thesis
    unfolding POST_read serve_guest.simps answer_to_def snd_conv post_read_def
    by (intro keeping.through) (auto split: prod.splits sum.splits)
next
  case (POST_review bk x)
  show ?thesis
    unfolding POST_review serve_guest.simps answer_to_def snd_conv post_review_def
    by (intro keeping.through) (auto split: prod.splits sum.splits dest: review_kept)
next
  case (POST_reply v x)
  show ?thesis
    unfolding POST_reply serve_guest.simps answer_to_def snd_conv post_reply_def
    by (intro keeping.through) (auto split: option.splits prod.splits sum.splits dest: reply_kept)
next
  case (POST_favourite p)
  show ?thesis
    unfolding POST_favourite serve_guest.simps answer_to_def snd_conv post_favourite_def
    by (intro keeping.through) (auto split: sum.splits)
next
  case (DELETE_favourite p)
  show ?thesis
    unfolding DELETE_favourite serve_guest.simps answer_to_def snd_conv delete_favourite_def
    by (intro keeping.through) simp
next
  case (POST_intent b)
  show ?thesis
    unfolding POST_intent serve_guest.simps answer_to_def snd_conv post_intent_def
    by (intro keeping.through) (auto simp: snd_store_case intro: store_kept keeps_stays_intent)
next
  case (POST_setup_intent b)
  show ?thesis
    unfolding POST_setup_intent serve_guest.simps answer_to_def snd_conv post_setup_intent_def
    by (intro keeping.through) (auto simp: snd_setup_case intro: store_kept keeps_stays_setup split: option.split)
next
  case (POST_refund q)
  show ?thesis
    unfolding POST_refund serve_guest.simps answer_to_def snd_conv post_admin_refund_def
  proof (intro keeping.through impI)
    fix t v x assume v: "site_ok v"
    have "site_ok (v\<lparr>si_store := snd (initiate_refund listed create i req (si_store v))\<rparr>)"
      "site_ok (v\<lparr>si_store := log_audit who what det (snd (initiate_refund listed create i req (si_store v)))\<rparr>)"
      for listed create i req who what det
      using v by (auto intro!: store_kept_own keeps_stays_same simp: initiate_refund_stays)
    note kept = this
    show "site_ok (snd (case refundable_payment x (si_store v) of Inl c \<Rightarrow> (Refused 400 c, v)
       | Inr p \<Rightarrow>
           (case initiate_refund (sv_listed sv) (sv_refund sv) (sv_id sv)
                  \<lparr>ri_booking = rq_booking x, ri_payment = pay_id p, ri_intent = pay_intent p, ri_amount = rq_amount x,
                   ri_currency = pay_currency p, ri_reason = rq_reason x, ri_by = By_admin\<rparr> (si_store v) of
              (Inl _, s) \<Rightarrow> (Refused 400 ''REFUND_FAILED'', v\<lparr>si_store := s\<rparr>)
            | (Inr r, s) \<Rightarrow>
                (Answered 200 r, v\<lparr>si_store := log_audit (Some (jw_user t)) (rq_booking x)
                   (Admin_refund_issued (rq_amount x) (rq_reason x) (jw_admin t)) s\<rparr>))))"
      using v by (auto split: sum.split prod.split) (metis kept snd_conv)+
  qed
qed (hypsubst, rule keeping.guest_reads)+

lemma property_kept:
  assumes "create_property snap i suffix h inp (si_catalog w) = (r, d)" "site_ok w"
  shows "site_ok (w\<lparr>si_catalog := d\<rparr>)"
proof (cases r)
  case (Inl e)
  then have "d = si_catalog w"
    using assms(1) by (auto simp: create_property_def Let_def split: option.splits if_splits)
  with assms(2) show ?thesis by simp
next
  case (Inr x)
  with assms show ?thesis by (intro catalog_kept [of snap "Create_listing i suffix h inp"]) simp_all
qed

lemma written_kept: "site_ok w \<Longrightarrow> site_ok (w\<lparr>si_catalog := write_property snap i inp (si_catalog w)\<rparr>)"
  by (rule catalog_kept [of snap "Write_listing i inp"]) simp_all

lemma body_kept:
  assumes "f (si_catalog w) = Inr (y, d)" "site_ok w" "listing_body id op (si_catalog w) = forget f (si_catalog w)"
  shows "site_ok (w\<lparr>si_catalog := d\<rparr>)"
  by (rule catalog_kept [of id op]) (use assms in \<open>simp_all add: forget_def\<close>)

lemmas compliance_kept =
  body_kept [where op = "Save_compliance now i u its sub" for now i u its sub, OF _ _ listing_body.simps(3)]
  body_kept [where op = "Review_compliance now i u dec n" for now i u dec n, OF _ _ listing_body.simps(4)]
  body_kept [where op = "Review_pilot now i u dec n" for now i u dec n, OF _ _ listing_body.simps(5)]

lemmas image_kept =
  body_kept [where op = "Register_image x i u b" for x i u b, OF _ _ listing_body.simps(6)]
  body_kept [where op = "Cover_image i x u" for i x u, OF _ _ listing_body.simps(7)]
  body_kept [where op = "Alt_image i x u alt" for i x u alt, OF _ _ listing_body.simps(8)]
  body_kept [where op = "Reorder_images i ids u" for i ids u, OF _ _ listing_body.simps(9)]
  body_kept [where op = "Delete_image i x u" for i x u, OF _ _ listing_body.simps(10)]

lemmas profile_kept =
  body_kept [where op = "Agree now h" for now h, OF _ _ listing_body.simps(11)]
  body_kept [where op = "Ensure_profile x u" for x u, OF _ _ listing_body.simps(12)]

text \<open>A profile changes no listing.\<close>

lemma rows_kept:
  assumes "catalog_ok d" "rating_rows d = rating_rows (si_catalog w)" "site_ok w"
  shows "site_ok (w\<lparr>si_catalog := d\<rparr>)"
proof -
  have "ls_id ` set (listings d) = ls_id ` set (listings (si_catalog w))"
    using arg_cong [OF assms(2), of "\<lambda>t. fst ` set t"] by (simp add: image_image)
  then have "row_exists (\<lambda>r. ls_id r = k) (listings d) = row_exists (\<lambda>r. ls_id r = k) (listings (si_catalog w))" for k
    unfolding row_exists_iff by (metis imageE imageI)
  with assms(1,3) rating_rows_ok [OF assms(2)] show ?thesis by (simp add: site_ok_def bookings_listed_def)
qed

lemma onboarding_kept:
  assumes "site_ok w"
  shows "site_ok (w\<lparr>si_catalog := snd (start_onboarding acct h (si_catalog w))\<rparr>)"
    "site_ok (w\<lparr>si_catalog := snd (onboarding_status report h (si_catalog w))\<rparr>)"
proof -
  have c: "catalog_ok (si_catalog w)" using assms by (simp add: site_ok_def)
  show "site_ok (w\<lparr>si_catalog := snd (start_onboarding acct h (si_catalog w))\<rparr>)"
    by (rule rows_kept [OF start_keeps [OF c] rating_rows_hosts(3) assms])
  show "site_ok (w\<lparr>si_catalog := snd (onboarding_status report h (si_catalog w))\<rparr>)"
    by (rule rows_kept [OF status_keeps [OF c] rating_rows_hosts(4) assms])
qed

lemma snd_catalog_case:
  "snd (case r of (Inl e, c) \<Rightarrow> (f e, w\<lparr>si_catalog := c\<rparr>) | (Inr x, c) \<Rightarrow> (g x, w\<lparr>si_catalog := c\<rparr>)) = w\<lparr>si_catalog := snd r\<rparr>"
  by (auto split: prod.splits sum.splits)

lemma host_keeps: "site_ok w \<longrightarrow> site_ok (snd (serve_host dk tok r w))"
proof (cases r)
  case (POST_host_property x)
  show ?thesis
    unfolding POST_host_property serve_host.simps answer_to_def snd_conv post_host_property_def
    by (intro keeping.through) (auto split: prod.split sum.split listing_error.split dest: property_kept)
next
  case (PATCH_host_property i x)
  show ?thesis
    unfolding PATCH_host_property serve_host.simps answer_to_def snd_conv patch_host_property_def
    by (intro keeping.through)
      (auto simp: update_property_def written_kept split: option.split listing_error.split)
next
  case (POST_availability i x)
  show ?thesis
    unfolding POST_availability serve_host.simps answer_to_def snd_conv post_host_availability_def
    by (intro keeping.through)
      (auto simp: snd_store_case block_dates_def unblock_dates_def intro!: store_kept keeps_stays_availability)
next
  case (PUT_compliance i x)
  show ?thesis
    unfolding PUT_compliance serve_host.simps answer_to_def snd_conv put_compliance_def
    by (intro keeping.through) (auto split: prod.split sum.split listing_error.split dest: compliance_kept)
next
  case (PATCH_compliance i x)
  show ?thesis
    unfolding PATCH_compliance serve_host.simps answer_to_def snd_conv patch_admin_compliance_def
    by (intro keeping.through) (auto simp: with_body_def split: option.split prod.split sum.split listing_error.split
        dest: compliance_kept)
next
  case (PATCH_readiness x)
  show ?thesis
    unfolding PATCH_readiness serve_host.simps answer_to_def snd_conv patch_admin_readiness_def
    by (intro keeping.through) (auto split: option.split prod.split sum.split listing_error.split dest: compliance_kept)
next
  case (POST_image i x)
  show ?thesis
    unfolding POST_image serve_host.simps answer_to_def snd_conv post_image_def
    by (intro keeping.through) (auto split: option.split prod.split sum.split dest: image_kept)
next
  case (PATCH_images i x)
  show ?thesis
    unfolding PATCH_images serve_host.simps answer_to_def snd_conv patch_images_def
    by (intro keeping.through) (auto split: option.split prod.split sum.split image_action.split dest: image_kept)
next
  case (DELETE_image i x)
  show ?thesis
    unfolding DELETE_image serve_host.simps answer_to_def snd_conv remove_image_def
    by (intro keeping.through) (auto split: prod.split sum.split dest: image_kept)
next
  case (POST_onboarding x)
  show ?thesis
    unfolding POST_onboarding serve_host.simps answer_to_def snd_conv post_onboarding_def
  proof (intro keeping.through impI)
    fix t v x assume v: "site_ok v"
    show "site_ok (snd (case ensure_host_profile (dk_id dk) (jw_user t) (si_catalog v) of
         Inl _ \<Rightarrow> (Refused 400 ''ONBOARDING_FAILED'', v)
       | Inr (h, c) \<Rightarrow>
           (case record_agreement (dk_now dk) h c of
              Inl _ \<Rightarrow> (Refused 400 ''ONBOARDING_FAILED'', v\<lparr>si_catalog := c\<rparr>)
            | Inr (_, c1) \<Rightarrow>
                (case start_onboarding (dk_account dk) h c1 of
                   (Inl _, c2) \<Rightarrow> (Refused 400 ''ONBOARDING_FAILED'', v\<lparr>si_catalog := c2\<rparr>)
                 | (Inr acct, c2) \<Rightarrow> (Answered 200 acct, v\<lparr>si_catalog := c2\<rparr>)))))"
    proof (cases "ensure_host_profile (dk_id dk) (jw_user t) (si_catalog v)")
      case (Inr hc)
      obtain h c where hc: "hc = (h, c)" by (rule prod.exhaust)
      have c: "site_ok (v\<lparr>si_catalog := c\<rparr>)" by (rule profile_kept(2) [OF Inr [unfolded hc] v])
      show ?thesis
      proof (cases "record_agreement (dk_now dk) h c")
        case (Inr y)
        obtain c1 where y: "y = ((), c1)" by (metis old.unit.exhaust prod.exhaust)
        have "site_ok ((v\<lparr>si_catalog := c\<rparr>)\<lparr>si_catalog := c1\<rparr>)"
          using c Inr y by (intro profile_kept(1) [where w = "v\<lparr>si_catalog := c\<rparr>"]) simp_all
        then have "site_ok (v\<lparr>si_catalog := c1\<rparr>)" by simp
        from onboarding_kept(1) [OF this] \<open>ensure_host_profile _ _ _ = Inr hc\<close> hc Inr y
        show ?thesis by (simp add: snd_catalog_case)
      qed (use c Inr hc in simp)
    qed (use v in simp)
  qed
next
  case GET_onboarding
  show ?thesis
    unfolding GET_onboarding serve_host.simps answer_to_def snd_conv get_onboarding_status_def
    by (intro keeping.through) (auto simp: snd_catalog_case onboarding_kept split: option.split)
qed (hypsubst, rule keeping.host_reads)+

lemma feed_keeps: "site_ok w \<longrightarrow> site_ok (snd (serve_feed cd tok r w))"
proof (cases r)
  case (POST_feed i x)
  show ?thesis
    unfolding POST_feed serve_feed.simps answer_to_def snd_conv post_calendar_feed_def
    by (intro keeping.through) (auto simp: snd_with_stored intro!: store_kept keeps_stays_imports create_imports)
next
  case (PATCH_feed i f x)
  show ?thesis
    unfolding PATCH_feed serve_feed.simps answer_to_def snd_conv patch_calendar_feed_def
    by (intro keeping.through) (auto simp: snd_with_stored intro!: store_kept keeps_stays_imports set_active_imports)
next
  case (DELETE_feed i f)
  show ?thesis
    unfolding DELETE_feed serve_feed.simps answer_to_def snd_conv remove_calendar_feed_def
    by (intro keeping.through) (auto simp: snd_with_stored intro!: store_kept keeps_stays_imports delete_imports)
next
  case (POST_sync i f)
  show ?thesis
    unfolding POST_sync serve_feed.simps answer_to_def snd_conv post_calendar_sync_def
    by (intro keeping.through) (auto simp: snd_with_stored intro!: store_kept keeps_stays_imports sync_imports)
next
  case (GET_export i)
  show ?thesis
    unfolding GET_export serve_feed.simps answer_to_def snd_conv get_calendar_export_def
    by (intro keeping.through) (auto simp: case_prod_beta intro!: store_kept keeps_stays_exports)
next
  case (POST_export i)
  show ?thesis
    unfolding POST_export serve_feed.simps answer_to_def snd_conv post_calendar_export_def
    by (intro keeping.through) (auto simp: case_prod_beta intro!: store_kept keeps_stays_exports)
qed (hypsubst, rule keeping.feed_reads)+

lemma request_keeps: "site_ok w \<Longrightarrow> site_ok (snd (serve e tok r w))"
  using guest_keeps host_keeps feed_keeps by (cases r) simp_all

end
