(* ===== verification/Isolation.thy ===== *)
theory Isolation
  imports Site_Safety
begin

text \<open>
  What belongs to a property and who can change it: the requests of a host reach a property only through
  \<open>resolve_host_property_access\<close>, and every operation behind them stays within the property it names. In the
  same way the requests about a booking reach it only through \<open>resolve_booking_access\<close> or the guest's id.
\<close>

subsection \<open>What belongs to a property\<close>

definition store_view :: "uuid \<Rightarrow> store \<Rightarrow> calendar \<times> feed list \<times> export_row list" where
  "store_view i s = (avail s i, select_where (\<lambda>f. f_property f = i) (feeds s), select_where (\<lambda>x. ex_property x = i) (exports s))"

definition catalog_view ::
  "uuid \<Rightarrow> catalog \<Rightarrow> listing_row option \<times> image_row list \<times> evidence_row list \<times> (uuid \<times> uuid) list" where
  "catalog_view i c = (find_listing i c, images_of i c, items_of i c, select_where (\<lambda>x. fst x = i) (amenities c))"

definition property_view where
  "property_view i w = (catalog_view i (si_catalog w), store_view i (si_store w))"

definition local_to :: "uuid \<Rightarrow> store \<Rightarrow> store \<Rightarrow> bool" where
  "local_to j s t \<longleftrightarrow> (\<forall>i. i \<noteq> j \<longrightarrow> store_view i t = store_view i s)"

lemma local_same: "avail t = avail s \<Longrightarrow> feeds t = feeds s \<Longrightarrow> exports t = exports s \<Longrightarrow> local_to j s t"
  by (simp add: local_to_def store_view_def)

lemma local_trans: "local_to j s t \<Longrightarrow> local_to j t u \<Longrightarrow> local_to j s u"
  by (simp add: local_to_def)

lemma local_reconcile: "local_to j s (snd (reconcile now j s))"
  by (simp add: local_to_def store_view_def avail_reconcile)

lemma select_update_elsewhere:
  assumes "\<And>x. P x \<Longrightarrow> k x \<noteq> i" "\<And>x. k (f x) = k x"
  shows "select_where (\<lambda>x. k x = i) (update_where P f t) = select_where (\<lambda>x. k x = i) t"
  using assms by (induction t) (auto simp: select_where_def)

lemma local_feeds:
  assumes "\<And>f. f_property (g f) = f_property f"
  shows "local_to j s (update_feed j x g s)"
  using select_update_elsewhere [of "is_feed j x" f_property _ g] assms
  by (auto simp: local_to_def store_view_def update_feed_def)

lemma local_tx:
  assumes "\<And>x t. f s = Inr (x, t) \<Longrightarrow> local_to j s t"
  shows "local_to j s (snd (with_transaction f s))"
  using assms by (cases f s rule: with_transaction_cases) (auto intro: local_same)

lemma local_availability: "local_to j s (snd (with_transaction (mutate_availability now j ci co act) s))"
proof (rule local_tx)
  fix x t assume m: "mutate_availability now j ci co act s = Inr (x, t)"
  have "exports t = exports s" using m by (auto simp: mutate_availability_def Let_def split: prod.splits)
  with mutate_availability_avail [OF m] mutate_availability_frame(2) [OF m] show "local_to j s t"
    by (simp add: local_to_def store_view_def)
qed

lemma local_create: "local_to j s (snd (create_calendar_feed env now fresh j name url s))"
proof -
  have "local_to j s (snd (with_transaction (insert_feed p now fresh j nm u) s))" for p nm u
  proof (rule local_tx)
    fix x t assume "insert_feed p now fresh j nm u s = Inr (x, t)"
    then obtain f where "t = s\<lparr>feeds := insert_row f (feeds s)\<rparr>" "f_property f = j"
      by (auto simp: insert_feed_def Let_def split: if_splits)
    then show "local_to j s t" by (simp add: local_to_def store_view_def select_where_def insert_row_def)
  qed
  then show ?thesis
    unfolding create_calendar_feed_def by (auto split: sum.split intro: local_same)
qed

lemma local_set_active: "local_to j s (snd (set_calendar_feed_active parse now j x a s))"
  unfolding set_calendar_feed_active_def
proof (rule local_tx)
  fix r t assume "set_feed_active_body parse now j x a s = Inr (r, t)"
  then have "t = snd (reconcile now j (update_feed j x (\<lambda>f. f\<lparr>f_active := a, f_updated := now\<rparr>) s))"
    by (auto simp: set_feed_active_body_def update_feed_def Let_def split: option.splits)
  then show "local_to j s t" using local_trans [OF local_feeds local_reconcile] by simp
qed

lemma local_delete: "local_to j s (snd (delete_calendar_feed now j x s))"
  unfolding delete_calendar_feed_def
proof (rule local_tx)
  fix r t assume "delete_feed_body now j x s = Inr (r, t)"
  then have t: "t = snd (reconcile now j (s\<lparr>feeds := delete_where (is_feed j x) (feeds s),
      events := delete_where (\<lambda>e. fe_feed e = x) (events s)\<rparr>))"
    by (auto simp: delete_feed_body_def split: if_splits)
  have "local_to j s (s\<lparr>feeds := delete_where (is_feed j x) (feeds s), events := delete_where (\<lambda>e. fe_feed e = x) (events s)\<rparr>)"
    by (auto simp: local_to_def store_view_def select_where_def delete_where_def intro!: filter_cong)
  then show "local_to j s t" unfolding t by (rule local_trans [OF _ local_reconcile])
qed

lemma local_sync: "local_to j s (snd (sync_calendar_feed env c t0 t1 j x s))"
proof -
  have st: "local_to j s (start_sync t0 j x s)" unfolding start_sync_def by (rule local_feeds) simp
  have rp: "local_to j u t" if "replace_feed_events t1 j x es a b u = Inr (n, t)" for es a b n t u
  proof -
    have "local_to j u (with_events x es u)" by (rule local_same) (simp_all add: with_events_def)
    from local_trans [OF local_trans [OF this local_reconcile] local_feeds] show ?thesis
      unfolding replace_feed_events_Inr(2) [OF that] by simp
  qed
  consider "snd (sync_calendar_feed env c t0 t1 j x s) = s"
    | m where "snd (sync_calendar_feed env c t0 t1 j x s) = record_sync_error t1 j x m (start_sync t0 j x s)"
    | a b where "snd (sync_calendar_feed env c t0 t1 j x s) = finish_unchanged t1 j x a b (start_sync t0 j x s)"
    | es a b n where "replace_feed_events t1 j x es a b (start_sync t0 j x s) =
        Inr (n, snd (sync_calendar_feed env c t0 t1 j x s))"
    by (rule sync_calendar_feed_cases)
  then show ?thesis
  proof cases
    case 4
    then show ?thesis by (blast intro: local_trans [OF st] rp)
  qed (auto simp: record_sync_error_def finish_unchanged_def local_same intro!: local_trans [OF st] local_feeds)
qed

lemma local_exports:
  "local_to j s (snd (get_or_create_export_token x j s))" "local_to j s (snd (rotate_export_token now x j s))"
proof -
  show "local_to j s (snd (get_or_create_export_token x j s))"
    by (auto simp: local_to_def store_view_def get_or_create_export_token_def select_where_def insert_row_def split: option.splits)
  have "select_where (\<lambda>x. ex_property x = i) (update_where (\<lambda>x. ex_property x = j) f t) = select_where (\<lambda>x. ex_property x = i) t"
    if "i \<noteq> j" "\<And>x. ex_property (f x) = ex_property x" for i f and t :: "export_row list"
    using that by (intro select_update_elsewhere) auto
  note el = this
  have "select_where (\<lambda>x. ex_property x = i) (insert_row r t) = select_where (\<lambda>x. ex_property x = i) t"
    if "ex_property r \<noteq> i" for i r and t :: "export_row list"
    using that by (simp add: select_where_def insert_row_def)
  with el show "local_to j s (snd (rotate_export_token now x j s))"
    by (auto simp: local_to_def store_view_def rotate_export_token_def)
qed

subsection \<open>Changes of the catalog\<close>

definition listed_within :: "uuid \<Rightarrow> catalog \<Rightarrow> catalog \<Rightarrow> bool" where
  "listed_within j c d \<longleftrightarrow> (\<forall>i. i \<noteq> j \<longrightarrow> catalog_view i d = catalog_view i c)"

lemma find_update_elsewhere:
  assumes "i \<noteq> j" "\<And>r. ls_id (f r) = ls_id r"
  shows "first_where (\<lambda>r. ls_id r = i) (update_where (\<lambda>r. ls_id r = j \<and> P r) f t) = first_where (\<lambda>r. ls_id r = i) t"
  using assms by (induction t) auto

lemma listed_within_update:
  assumes "\<And>r. ls_id (f r) = ls_id r"
  shows "listed_within j c (update_listing j f c)"
  using find_update_elsewhere [of _ j "\<lambda>r. on_listing_update r (f r)" "\<lambda>_. True"] assms
  by (simp add: listed_within_def catalog_view_def items_of_def images_of_def update_listing_def)

lemma listed_within_same:
  "listings d = listings c \<Longrightarrow> images d = images c \<Longrightarrow> evidence d = evidence c \<Longrightarrow> amenities d = amenities c \<Longrightarrow> listed_within j c d"
  by (simp add: listed_within_def catalog_view_def items_of_def images_of_def)

lemma listed_within_trans: "listed_within j c d \<Longrightarrow> listed_within j d e \<Longrightarrow> listed_within j c e"
  by (simp add: listed_within_def)

lemma listed_within_amenities: "listed_within j c (set_amenities j ids c)"
proof -
  have "select_where (\<lambda>x. fst x = i) (fold (\<lambda>a t. if row_exists (\<lambda>x. x = (j, a)) t then t else insert_row (j, a) t) ids t) =
      select_where (\<lambda>x. fst x = i) t" if "i \<noteq> j" for i and t :: "(uuid \<times> uuid) list"
    using that by (induction ids arbitrary: t) (simp_all add: select_where_def insert_row_def)
  moreover have "select_where (\<lambda>x. fst x = i) (delete_where (\<lambda>x. fst x = j) t) = select_where (\<lambda>x. fst x = i) t"
    if "i \<noteq> j" for i and t :: "(uuid \<times> uuid) list"
    using that by (auto simp: select_where_def delete_where_def intro: filter_cong)
  ultimately show ?thesis
    by (simp add: listed_within_def catalog_view_def items_of_def images_of_def set_amenities_def)
qed

lemma listed_within_write: "listed_within j c (write_property snap j inp c)"
proof -
  have "listed_within j c (update_listing j (edit_listing snap inp) c)"
    by (rule listed_within_update) (simp add: edit_listing_def Let_def)
  then show ?thesis
    by (auto simp: write_property_def Let_def split: option.split intro: listed_within_trans listed_within_amenities)
qed

lemma listed_within_new:
  assumes "create_property snap j suffix h inp c = (r, d)" "find_listing i c \<noteq> None"
  shows "catalog_view i d = catalog_view i c"
proof (cases r)
  case (Inl e)
  with assms(1) have "d = c" by (auto simp: create_property_def Let_def split: option.splits if_splits)
  then show ?thesis by simp
next
  case (Inr x)
  obtain q where q: "find_listing i c = Some q" using assms(2) by blast
  from Inr assms(1) have fresh: "\<forall>l \<in> set (listings c). ls_id l \<noteq> j"
    and "\<exists>y. d = c\<lparr>listings := insert_row y (listings c)\<rparr> \<or> (\<exists>ids. d = set_amenities j ids (c\<lparr>listings := insert_row y (listings c)\<rparr>))"
    by (auto simp: create_property_def Let_def split: if_splits option.splits)
  then obtain y where "listed_within j (c\<lparr>listings := insert_row y (listings c)\<rparr>) d"
    using listed_within_amenities listed_within_same by blast
  note n = fresh this
  have "ls_id q = i" "q \<in> set (listings c)" using first_where_Some [OF q] by simp_all
  with n(1) have "i \<noteq> j" by blast
  moreover have "find_listing i (c\<lparr>listings := insert_row y (listings c)\<rparr>) = find_listing i c" for y
    using q by (simp add: first_where_insert)
  ultimately show ?thesis
    using n(2) by (simp add: listed_within_def catalog_view_def items_of_def images_of_def)
qed

lemma listed_within_pictures:
  assumes "d = c \<or> pictures_changed j c d" "amenities d = amenities c"
  shows "listed_within j c d"
proof -
  have "first_where (\<lambda>r. ls_id r = i) (listings (on_image_change j c)) = first_where (\<lambda>r. ls_id r = i) (listings c)" if "i \<noteq> j" for i
    unfolding on_image_change_def using that
    by (simp add: find_update_elsewhere withdraw_approval_def)
  then show ?thesis
    using assms by (auto simp: pictures_changed_def listed_within_def catalog_view_def items_of_def)
qed

lemma amenities_image [simp]: "amenities (on_image_change i c) = amenities c"
  by (simp add: on_image_change_def)

lemma amenities_pictures:
  "register_image x j u b c = Inr (v1, d) \<Longrightarrow> amenities d = amenities c"
  "set_image_cover j x u c = Inr (v2, d) \<Longrightarrow> amenities d = amenities c"
  "update_image_alt j x u alt c = Inr (v2, d) \<Longrightarrow> amenities d = amenities c"
  "reorder_images j ids u c = Inr (v3, d) \<Longrightarrow> amenities d = amenities c"
proof -
  show "register_image x j u b c = Inr (v1, d) \<Longrightarrow> amenities d = amenities c"
    by (auto simp: register_image_def Let_def split: if_splits option.splits)
  show "set_image_cover j x u c = Inr (v2, d) \<Longrightarrow> amenities d = amenities c"
    by (auto simp: set_image_cover_def Let_def split: sum.splits)
  show "update_image_alt j x u alt c = Inr (v2, d) \<Longrightarrow> amenities d = amenities c"
    by (auto simp: update_image_alt_def split: sum.splits)
  show "reorder_images j ids u c = Inr (v3, d) \<Longrightarrow> amenities d = amenities c"
    by (auto simp: reorder_images_def Let_def list_ex_iff split: if_splits)
qed

lemma amenities_delete:
  assumes "delete_image j x u c = Inr (v, d)"
  shows "amenities d = amenities c"
proof (cases "owned_image j x u c")
  case (Inr m)
  let ?c1 = "on_image_change j (c\<lparr>images := delete_where (\<lambda>y. im_id y = x \<and> im_property y = j) (images c)\<rparr>)"
  have "d = ?c1 \<or> (\<exists>t. d = on_image_change j (?c1\<lparr>images := t\<rparr>))"
    using assms unfolding delete_image_def Inr Let_def sum.case by (cases "im_cover m"; cases "in_order (images_of j ?c1)") auto
  then show ?thesis by auto
qed (use assms in \<open>simp add: delete_image_def\<close>)

lemma listed_within_images:
  assumes "images_ok c"
  shows "register_image x j u b c = Inr (v1, d) \<Longrightarrow> listed_within j c d"
    "set_image_cover j x u c = Inr (v2, d) \<Longrightarrow> listed_within j c d"
    "update_image_alt j x u alt c = Inr (v2, d) \<Longrightarrow> listed_within j c d"
    "reorder_images j ids u c = Inr (v3, d) \<Longrightarrow> listed_within j c d"
    "delete_image j x u c = Inr (v4, d) \<Longrightarrow> listed_within j c d"
proof -
  show "register_image x j u b c = Inr (v1, d) \<Longrightarrow> listed_within j c d"
    by (rule listed_within_pictures [OF register_changed amenities_pictures(1)])
  show "set_image_cover j x u c = Inr (v2, d) \<Longrightarrow> listed_within j c d"
    by (rule listed_within_pictures [OF disjI2 [OF cover_changed] amenities_pictures(2)])
  show "update_image_alt j x u alt c = Inr (v2, d) \<Longrightarrow> listed_within j c d"
    by (rule listed_within_pictures [OF disjI2 [OF alt_changed] amenities_pictures(3)])
  show "reorder_images j ids u c = Inr (v3, d) \<Longrightarrow> listed_within j c d"
    by (rule listed_within_pictures [OF reorder_changed [OF _ assms] amenities_pictures(4)])
  show "delete_image j x u c = Inr (v4, d) \<Longrightarrow> listed_within j c d"
    by (rule listed_within_pictures [OF disjI2 [OF delete_changed [OF _ assms]] amenities_delete])
qed

lemma listed_within_compliance:
  assumes "save_owner_compliance now j u its submit c = Inr (x, d)"
  shows "listed_within j c d"
proof -
  let ?rows = "map (item_row now j) its"
  let ?c1 = "c\<lparr>evidence := fold upsert_item ?rows (evidence c)\<rparr>"
  obtain f k det where d: "d = log_catalog u k det (update_listing j f ?c1)" "\<And>r. ls_id (f r) = ls_id r"
    using assms by (auto simp: save_owner_compliance_def Let_def split: if_splits)
  have "listed_within j c ?c1"
    using upsert_all_other [of ?rows _ "evidence c"]
    by (auto simp: listed_within_def catalog_view_def items_of_def images_of_def item_row_def Let_def)
  moreover have "listed_within j ?c1 (update_listing j f ?c1)" by (rule listed_within_update [OF d(2)])
  moreover have "listed_within j (update_listing j f ?c1) d"
    unfolding d(1) by (rule listed_within_same) (simp_all add: log_catalog_def)
  ultimately show ?thesis by (blast intro: listed_within_trans)
qed

subsection \<open>Requests of other hosts\<close>

definition leaves_property :: "uuid \<Rightarrow> listing_row \<Rightarrow> site \<Rightarrow> site \<Rightarrow> bool" where
  "leaves_property i r w v \<longleftrightarrow>
     (catalog_ok (si_catalog w) \<and> find_listing i (si_catalog w) = Some r \<longrightarrow> property_view i v = property_view i w)"

lemma view_same [simp]:
  "property_view i (w\<lparr>si_accounts := a\<rparr>) = property_view i w" "property_view i (w\<lparr>si_mail := m\<rparr>) = property_view i w"
  "property_view i (w\<lparr>si_saved := v\<rparr>) = property_view i w"
  by (simp_all add: property_view_def)

interpretation isolated: answering "leaves_property i r" for i r
  by unfold_locales (simp_all add: leaves_property_def)

lemma refused_leaves:
  assumes "\<And>a. \<exists>e b. g a = (Inl e, b)"
  shows "leaves_property i r w (snd (guarded g k w))"
  using assms [of "si_accounts w"] by (auto simp: guarded_def leaves_property_def)

lemma not_admin:
  assumes "Admin \<notin> set (jw_roles t)"
  shows "\<exists>e b. require_role Admin now (Some t) a = (Inl e, b)"
    "\<exists>e b. require_secure_admin super now (Some t) a = (Inl e, b)"
    "\<exists>e b. require_permission x y now (Some t) a = (Inl e, b)"
  using assms by (auto simp: require_secure_admin_def require_permission_def require_role_def require_session_def)

lemma tables_property: "find_property i (tables w) = map_option property_of (find_listing i (si_catalog w))"
proof -
  have "first_where (\<lambda>p. p_id p = i) (map property_of t) = map_option property_of (first_where (\<lambda>r. ls_id r = i) t)" for t
    by (induction t) (simp_all add: property_of_def Let_def)
  then show ?thesis by (simp add: with_catalog_def)
qed

lemma other_property:
  assumes "resolve_host_property_access t j (tables w) = Inr h" "find_listing i (si_catalog w) = Some r"
    "jw_host t \<noteq> Some (ls_host r)" "Admin \<notin> set (jw_roles t)"
  shows "i \<noteq> j"
proof
  assume "i = j"
  with assms(2) have "find_property j (tables w) = Some (property_of r)" by (simp add: tables_property)
  moreover have "p_host (property_of r) = ls_host r" by (simp add: property_of_def Let_def)
  ultimately show False
    using assms(1,3,4) by (simp add: resolve_host_property_access_def split: if_splits)
qed

lemma view_store:
  assumes "i \<noteq> j" "local_to j (tables w) s"
  shows "property_view i (w\<lparr>si_store := s\<rparr>) = property_view i w"
proof -
  have "store_view i (tables w) = store_view i (si_store w)" by (simp add: store_view_def with_catalog_def)
  with assms show ?thesis by (simp add: property_view_def local_to_def)
qed

lemma view_catalog:
  "i \<noteq> j \<Longrightarrow> listed_within j (si_catalog w) c \<Longrightarrow> property_view i (w\<lparr>si_catalog := c\<rparr>) = property_view i w"
  by (simp add: property_view_def listed_within_def)

lemma view_profiles:
  assumes "listings c = listings (si_catalog w)" "images c = images (si_catalog w)" "evidence c = evidence (si_catalog w)"
    "amenities c = amenities (si_catalog w)"
  shows "property_view i (w\<lparr>si_catalog := c\<rparr>) = property_view i w"
  using assms by (simp add: property_view_def catalog_view_def items_of_def images_of_def)

lemma profile_frames:
  "ensure_host_profile x u c = Inr (h, d) \<Longrightarrow> listings d = listings c \<and> images d = images c \<and> evidence d = evidence c \<and> amenities d = amenities c"
  "record_agreement now h c = Inr (y, d) \<Longrightarrow> listings d = listings c \<and> images d = images c \<and> evidence d = evidence c \<and> amenities d = amenities c"
  "listings (snd (start_onboarding acct h c)) = listings c \<and> images (snd (start_onboarding acct h c)) = images c \<and>
    evidence (snd (start_onboarding acct h c)) = evidence c \<and> amenities (snd (start_onboarding acct h c)) = amenities c"
  "listings (snd (onboarding_status report h c)) = listings c \<and> images (snd (onboarding_status report h c)) = images c \<and>
    evidence (snd (onboarding_status report h c)) = evidence c \<and> amenities (snd (onboarding_status report h c)) = amenities c"
  by (auto simp: ensure_host_profile_def record_agreement_def start_onboarding_def connect_account_def onboarding_status_def
      Let_def split: option.splits if_splits)

lemma host_isolated:
  assumes t: "jw_host t \<noteq> Some (ls_host r)" "Admin \<notin> set (jw_roles t)"
  shows "leaves_property i r w (snd (serve_host dk (Some t) q w))"
proof (cases q)
  case (POST_host_property x)
  show ?thesis
    unfolding POST_host_property serve_host.simps answer_to_def snd_conv post_host_property_def
    by (intro isolated.through)
      (auto simp: leaves_property_def property_view_def split: prod.split sum.split listing_error.split
        dest: listed_within_new [where i = i])
next
  case (PATCH_host_property j x)
  show ?thesis
    unfolding PATCH_host_property serve_host.simps answer_to_def snd_conv patch_host_property_def
    by (intro isolated.through)
      (auto simp: leaves_property_def update_property_def listed_within_write split: option.split listing_error.split
        dest!: other_property [OF _ _ t] intro!: view_catalog [of i j])
next
  case (POST_availability j x)
  show ?thesis
    unfolding POST_availability serve_host.simps answer_to_def snd_conv post_host_availability_def
    by (intro isolated.through)
      (auto simp: snd_store_case block_dates_def unblock_dates_def leaves_property_def
        dest!: other_property [OF _ _ t] intro!: view_store [of i j] local_availability)
next
  case (PUT_compliance j x)
  show ?thesis
    unfolding PUT_compliance serve_host.simps answer_to_def snd_conv put_compliance_def
    by (intro isolated.through)
      (auto simp: leaves_property_def split: prod.split sum.split listing_error.split
        dest!: other_property [OF _ _ t] intro!: view_catalog [of i j] dest: listed_within_compliance)
next
  case (PATCH_compliance j x)
  show ?thesis
    unfolding PATCH_compliance serve_host.simps answer_to_def snd_conv patch_admin_compliance_def
    by (rule refused_leaves) (rule not_admin [OF t(2)])
next
  case (PATCH_readiness x)
  show ?thesis
    unfolding PATCH_readiness serve_host.simps answer_to_def snd_conv patch_admin_readiness_def
    by (rule refused_leaves) (rule not_admin [OF t(2)])
next
  case (POST_image j x)
  show ?thesis
    unfolding POST_image serve_host.simps answer_to_def snd_conv post_image_def
    by (intro isolated.through)
      (auto simp: leaves_property_def split: option.split prod.split sum.split
        dest!: other_property [OF _ _ t] intro!: view_catalog [of i j] dest: listed_within_images(1) catalog_okD(3))
next
  case (PATCH_images j x)
  show ?thesis
    unfolding PATCH_images serve_host.simps answer_to_def snd_conv patch_images_def
    by (intro isolated.through)
      (auto simp: leaves_property_def split: option.split prod.split sum.split image_action.split
        dest!: other_property [OF _ _ t] intro!: view_catalog [of i j] dest: listed_within_images(2,3,4) [OF catalog_okD(3)])
next
  case (DELETE_image j x)
  show ?thesis
    unfolding DELETE_image serve_host.simps answer_to_def snd_conv remove_image_def
    by (intro isolated.through)
      (auto simp: leaves_property_def split: option.split prod.split sum.split
        dest!: other_property [OF _ _ t] intro!: view_catalog [of i j] dest: listed_within_images(5) [OF catalog_okD(3)])
next
  case (POST_onboarding x)
  show ?thesis
    unfolding POST_onboarding serve_host.simps answer_to_def snd_conv post_onboarding_def
    by (intro isolated.through)
      (auto simp: leaves_property_def snd_catalog_case split: prod.split sum.split
        intro!: view_profiles dest!: profile_frames(1,2) simp: profile_frames(3))
next
  case GET_onboarding
  show ?thesis
    unfolding GET_onboarding serve_host.simps answer_to_def snd_conv get_onboarding_status_def
    by (intro isolated.through)
      (auto simp: leaves_property_def snd_catalog_case profile_frames(4) split: option.split intro!: view_profiles)
qed (hypsubst, rule isolated.host_reads)+

lemma feed_isolated:
  assumes t: "jw_host t \<noteq> Some (ls_host r)" "Admin \<notin> set (jw_roles t)"
  shows "leaves_property i r w (snd (serve_feed cd (Some t) q w))"
proof -
  show ?thesis
  proof (cases q)
    case (POST_feed j x)
    show ?thesis
      unfolding POST_feed serve_feed.simps answer_to_def snd_conv post_calendar_feed_def
      by (intro isolated.through)
        (auto simp: snd_with_stored leaves_property_def dest!: other_property [OF _ _ t] intro!: view_store [of i j] local_create)
  next
    case (PATCH_feed j f x)
    show ?thesis
      unfolding PATCH_feed serve_feed.simps answer_to_def snd_conv patch_calendar_feed_def
      by (intro isolated.through)
        (auto simp: snd_with_stored leaves_property_def dest!: other_property [OF _ _ t] intro!: view_store [of i j] local_set_active)
  next
    case (DELETE_feed j f)
    show ?thesis
      unfolding DELETE_feed serve_feed.simps answer_to_def snd_conv remove_calendar_feed_def
      by (intro isolated.through)
        (auto simp: snd_with_stored leaves_property_def dest!: other_property [OF _ _ t] intro!: view_store [of i j] local_delete)
  next
    case (POST_sync j f)
    show ?thesis
      unfolding POST_sync serve_feed.simps answer_to_def snd_conv post_calendar_sync_def
      by (intro isolated.through)
        (auto simp: snd_with_stored leaves_property_def dest!: other_property [OF _ _ t] intro!: view_store [of i j] local_sync)
  next
    case (GET_export j)
    show ?thesis
      unfolding GET_export serve_feed.simps answer_to_def snd_conv get_calendar_export_def
      by (intro isolated.through)
        (auto simp: case_prod_beta leaves_property_def dest!: other_property [OF _ _ t] intro!: view_store [of i j] local_exports)
  next
    case (POST_export j)
    show ?thesis
      unfolding POST_export serve_feed.simps answer_to_def snd_conv post_calendar_export_def
      by (intro isolated.through)
        (auto simp: case_prod_beta leaves_property_def dest!: other_property [OF _ _ t] intro!: view_store [of i j] local_exports)
  qed (hypsubst, rule isolated.feed_reads)+
qed

subsection \<open>What belongs to a booking\<close>

definition booking_view ::
  "uuid \<Rightarrow> store \<Rightarrow> booking option \<times> payment list \<times> (minor \<times> refund_status) list" where
  "booking_view bk s =
     (find_booking bk s, select_where (\<lambda>p. pay_booking p = bk) (payments s),
      map (\<lambda>r. (rf_amount r, rf_status r)) (select_where (\<lambda>r. rf_booking r = bk) (refunds s)))"

definition booked_apart :: "uuid \<Rightarrow> store \<Rightarrow> store \<Rightarrow> bool" where
  "booked_apart bk s t \<longleftrightarrow> (\<forall>i. i \<noteq> bk \<longrightarrow> booking_view i t = booking_view i s)"

lemma view_of_same:
  "bookings t = bookings s \<Longrightarrow> payments t = payments s \<Longrightarrow> refunds t = refunds s \<Longrightarrow> booking_view i t = booking_view i s"
  by (simp add: booking_view_def)

lemma apart_same:
  "bookings t = bookings s \<Longrightarrow> payments t = payments s \<Longrightarrow> refunds t = refunds s \<Longrightarrow> booked_apart bk s t"
  unfolding booked_apart_def by (intro allI impI view_of_same)

lemma apart_trans: "booked_apart bk s t \<Longrightarrow> booked_apart bk t u \<Longrightarrow> booked_apart bk s u"
  by (simp add: booked_apart_def)

lemma find_other_booking:
  assumes "\<And>b. b_id (f b) = b_id b" "i \<noteq> bk"
  shows "first_where (\<lambda>b. b_id b = i) (update_where (\<lambda>b. b_id b = bk \<and> P b) f t) = first_where (\<lambda>b. b_id b = i) t"
proof (induction t)
  case (Cons b t)
  show ?case
  proof (cases "b_id b = i")
    case True
    with assms(2) show ?thesis by simp
  next
    case False
    with assms(2) assms(1) [of b] Cons show ?thesis by simp
  qed
qed simp

lemma apart_booking:
  assumes "\<And>b. b_id (f b) = b_id b"
  shows "booked_apart bk s (set_booking bk f s)"
  using find_other_booking [of f _ bk "\<lambda>_. True", OF assms]
  by (simp add: booked_apart_def booking_view_def)

lemma apart_tx:
  assumes "\<And>x t. f s = Inr (x, t) \<Longrightarrow> booked_apart bk s t"
  shows "booked_apart bk s (snd (with_transaction f s))"
  using assms by (cases f s rule: with_transaction_cases) (auto intro: apart_same)

lemma apart_cancel: "booked_apart bk s (snd (cancel_booking now bk who s))"
  unfolding cancel_booking_def
proof (rule apart_tx)
  fix x t assume "cancel_booking_tx now bk who s = Inr (x, t)"
  then show "booked_apart bk s t"
  proof (cases rule: cancel_booking_cases)
    case (1 b pc)
    have "booked_apart bk s (snd (reconcile now (b_property b) (release_nights False b s)))"
      by (rule apart_same) simp_all
    moreover have "booked_apart bk u (log_audit w j d (set_booking bk (\<lambda>b. b\<lparr>b_status := Cancelled\<rparr>) u))" for u w j d
      using apart_booking [of "\<lambda>b. b\<lparr>b_status := Cancelled\<rparr>" bk u]
      by (simp add: booked_apart_def booking_view_def)
    ultimately show ?thesis unfolding 1(6) by (rule apart_trans)
  qed
qed

lemma apart_discard: "booked_apart bk s (snd (with_transaction (discard_unpaid_booking_tx now bk guest) s))"
proof (rule apart_tx)
  fix x t assume "discard_unpaid_booking_tx now bk guest s = Inr (x, t)"
  then show "booked_apart bk s t"
  proof (cases rule: discard_cases)
    case (1 b)
    let ?f = "\<lambda>b. b\<lparr>b_status := Cancelled, b_archived := Some now, b_next_retry := None\<rparr>"
    have "booked_apart bk s (snd (reconcile now (b_property b) (release_nights True b s)))"
      by (rule apart_same) simp_all
    moreover have "booked_apart bk u (log_audit w j d (set_booking bk ?f u))" for u w j d
      using apart_booking [of ?f bk u] by (simp add: booked_apart_def booking_view_def)
    ultimately show ?thesis unfolding 1(7) by (rule apart_trans)
  qed
qed

lemma apart_archive: "booked_apart bk s (snd (with_transaction (archive_booking now bk guest) s))"
proof (rule apart_tx)
  fix x t assume "archive_booking now bk guest s = Inr (x, t)"
  then have "bookings t = update_where (\<lambda>b. b_id b = bk \<and> (b_guest b = guest \<and> b_status b \<in> set archivable_statuses \<and>
      b_archived b = None)) (\<lambda>b. b\<lparr>b_archived := Some now\<rparr>) (bookings s)" "payments t = payments s" "refunds t = refunds s"
    by (auto simp: archive_booking_def Let_def split: if_splits option.splits)
  then show "booked_apart bk s t"
    unfolding booked_apart_def booking_view_def by (simp add: find_other_booking)
qed

text \<open>The guest's id is part of the condition, so another guest's request changes nothing at all.\<close>

lemma guest_row:
  assumes "bookings_ok s" "find_booking bk s = Some b" "c \<in> set (bookings s)" "b_id c = bk"
  shows "c = b"
proof -
  have "b \<in> set (bookings s)" "b_id b = bk" using first_where_Some [OF assms(2)] by simp_all
  with assms(3,4) bookings_okD(1) [OF assms(1)] show ?thesis by (auto simp: distinct_map inj_on_def)
qed

lemma other_guest:
  assumes "bookings_ok s" "find_booking bk s = Some b" "b_guest b \<noteq> guest"
  shows "snd (with_transaction (discard_unpaid_booking_tx now bk guest) s) = s"
    "snd (with_transaction (archive_booking now bk guest) s) = s"
proof -
  have none: "\<forall>c \<in> set (bookings s). \<not> (b_id c = bk \<and> b_guest c = guest)"
    using guest_row [OF assms(1,2)] assms(3) by blast
  have n: "first_where (\<lambda>b. b_id b = bk \<and> b_guest b = guest) (bookings s) = None"
    using none by (simp add: first_where_None)
  then have "discard_unpaid_booking_tx now bk guest s = Inl Booking_not_found"
    by (simp add: discard_unpaid_booking_tx_def)
  then show "snd (with_transaction (discard_unpaid_booking_tx now bk guest) s) = s" by (simp add: with_transaction_Inl)
  have "\<not> row_exists (\<lambda>b. b_id b = bk \<and> b_guest b = guest \<and> b_status b \<in> set archivable_statuses \<and> b_archived b = None) (bookings s)"
    using none by auto
  then have "archive_booking now bk guest s = Inl Booking_not_found"
    unfolding archive_booking_def Let_def n by simp
  then show "snd (with_transaction (archive_booking now bk guest) s) = s" by (simp add: with_transaction_Inl)
qed

lemma refund_view_provider:
  "map (\<lambda>r. (rf_amount r, rf_status r)) (select_where (\<lambda>r. rf_booking r = i)
      (update_where P (\<lambda>x. x\<lparr>rf_provider := v\<rparr>) t)) =
    map (\<lambda>r. (rf_amount r, rf_status r)) (select_where (\<lambda>r. rf_booking r = i) t)"
  by (induction t) (simp_all add: select_where_def)

lemma apart_refund:
  assumes "ri_booking req = bk"
  shows "booked_apart bk s (snd (initiate_refund listed create i req s))"
proof -
  obtain row s1 where r: "reserve_refund i req s = (row, s1)" by (rule prod.exhaust)
  then have "s1 = s \<or> s1 = s\<lparr>refunds := insert_row (refund_row_of i req) (refunds s)\<rparr>"
    by (auto simp: reserve_refund_def split: option.splits)
  then have s1: "booked_apart bk s s1"
    using assms by (auto simp: booked_apart_def booking_view_def select_where_def insert_row_def refund_row_of_def)
  have "booked_apart bk s1 (s1\<lparr>refunds := update_where P (\<lambda>x. x\<lparr>rf_provider := v\<rparr>) (refunds s1)\<rparr>)" for P v
    by (simp add: booked_apart_def booking_view_def refund_view_provider)
  with s1 show ?thesis
    unfolding initiate_refund_def Let_def r by (auto split: prod.split sum.split intro: apart_trans)
qed

lemma apart_cancel_and_refund: "booked_apart bk s (snd (cancel_booking_and_refund listed create i now bk who s))"
proof -
  obtain r t where c: "cancel_booking now bk who s = (r, t)" by (rule prod.exhaust)
  then have t: "booked_apart bk s t" using apart_cancel [of bk s now who] by simp
  have req: "ri_booking req = bk" if "r = Inr (o1, Some req)" for o1 req
  proof -
    have "cancel_booking_tx now bk who s = Inr ((o1, Some req), t)"
      using c that by (simp add: cancel_booking_def with_transaction_ok)
    then show ?thesis
      by (cases rule: cancel_booking_cases) (auto simp: refund_request_for_def Let_def split: if_splits option.splits)
  qed
  have u: "booked_apart bk t u" if "initiate_refund listed create i q t = (x, u)" "ri_booking q = bk" for q x u
    using apart_refund [OF that(2), of t listed create i] that(1) by simp
  show ?thesis
    using t by (auto simp: cancel_booking_and_refund_def c split: sum.splits option.splits prod.splits
        dest!: u req intro: apart_trans)
qed

lemma apart_intent: "booked_apart bk s (snd (create_payment_intent_for_booking retrieve create i bk s))"
proof -
  have "select_where (\<lambda>p. pay_booking p = j) (update_where (\<lambda>p. pay_booking p = bk)
      (\<lambda>p. p\<lparr>pay_intent := v, pay_status := st\<rparr>) t) = select_where (\<lambda>p. pay_booking p = j) t"
    if "j \<noteq> bk" for j v st and t :: "payment list"
    using that by (intro select_update_elsewhere) auto
  then have "booked_apart bk s (upsert_payment i bk intent amount cur s)" for intent amount cur
    by (auto simp: booked_apart_def booking_view_def upsert_payment_def) (auto simp: select_where_def insert_row_def)
  then show ?thesis
    by (auto simp: create_payment_intent_for_booking_def Let_def apart_same split: option.splits sum.splits prod.splits)
qed

lemma apart_setup: "booked_apart bk s (snd (create_setup_intent_for_booking customer retrieve create bk s))"
  using apart_booking [of "\<lambda>b. b\<lparr>b_customer := c, b_setup_intent := v\<rparr>" bk s for c v]
  by (auto simp: create_setup_intent_for_booking_def Let_def apart_same split: option.splits prod.splits)

subsection \<open>Requests of strangers\<close>

definition leaves_booking :: "uuid \<Rightarrow> booking \<Rightarrow> site \<Rightarrow> site \<Rightarrow> bool" where
  "leaves_booking bk b w v \<longleftrightarrow>
     (bookings_ok (si_store w) \<and> find_booking bk (si_store w) = Some b \<longrightarrow>
        booking_view bk (si_store v) = booking_view bk (si_store w))"

interpretation apart: answering "leaves_booking bk b" for bk b
  by unfold_locales (simp_all add: leaves_booking_def)

lemma leaves_store:
  assumes "booking_view bk s = booking_view bk (si_store w)"
  shows "leaves_booking bk b w (w\<lparr>si_store := s\<rparr>)" "leaves_booking bk b w (w\<lparr>si_store := s, si_mail := m\<rparr>)"
  using assms by (simp_all add: leaves_booking_def)

lemma leaves_rest [simp]:
  "leaves_booking bk b w (w\<lparr>si_mail := m\<rparr>)" "leaves_booking bk b w (w\<lparr>si_saved := x\<rparr>)"
  "leaves_booking bk b w (w\<lparr>si_catalog := c\<rparr>)" "leaves_booking bk b w (w\<lparr>si_reviews := rs, si_catalog := c\<rparr>)"
  "leaves_booking bk b w w"
  by (simp_all add: leaves_booking_def)

lemma view_tables [simp]: "booking_view bk (tables w) = booking_view bk (si_store w)"
  by (rule view_of_same) simp_all

lemma other_booking:
  assumes "resolve_booking_access t j (tables w) = Inr acc" "find_booking bk (si_store w) = Some b"
    "jw_user t \<noteq> b_guest b" "jw_host t \<noteq> Some (b_host b)" "Admin \<notin> set (jw_roles t)"
  shows "bk \<noteq> j"
  using assms by (auto simp: resolve_booking_access_def Let_def split: if_splits)

lemma leaves_apart:
  assumes "booked_apart j (tables w) s" "find_booking bk (si_store w) = Some b \<Longrightarrow> bk \<noteq> j"
  shows "leaves_booking bk b w (w\<lparr>si_store := s\<rparr>)" "leaves_booking bk b w (w\<lparr>si_store := s, si_mail := m\<rparr>)"
  using assms by (auto simp: leaves_booking_def booked_apart_def)

lemma view_created:
  assumes "create_booking dl now i inp s = (r, t)" "find_booking bk s = Some b"
  shows "booking_view bk t = booking_view bk s"
proof (cases r)
  case (Inl e)
  with create_booking_error assms(1) have "t = s" by blast
  then show ?thesis by simp
next
  case (Inr x)
  show ?thesis
    using create_booking_cases(4) [OF assms(1) [unfolded Inr]]
  proof (cases rule: create_booking_tx_cases)
    case (created p bd)
    have "find_booking bk t = find_booking bk s"
      unfolding created(8) using assms(2) by (simp add: first_where_insert)
    moreover have "payments t = payments s" "refunds t = refunds s"
      unfolding created(8) by (simp_all add: booked_store_def)
    ultimately show ?thesis by (simp add: booking_view_def)
  qed simp
qed

lemma guest_apart:
  assumes t: "jw_user t \<noteq> b_guest b" "jw_host t \<noteq> Some (b_host b)" "Admin \<notin> set (jw_roles t)"
  shows "leaves_booking bk b w (snd (serve_guest sv (Some t) q w))"
proof (cases q)
  case (POST_booking k i)
  show ?thesis
    unfolding POST_booking serve_guest.simps answer_to_def snd_conv post_booking_def
    by (intro apart.through)
      (auto simp: with_body_def leaves_booking_def split: option.splits prod.splits sum.splits dest: view_created [where bk = bk])
next
  case (POST_cancel j x)
  show ?thesis
    unfolding POST_cancel serve_guest.simps answer_to_def snd_conv post_cancel_def
  proof (intro apart.through)
    fix u v acc assume u: "Some t = Some u" and acc: "resolve_booking_access u j (tables v) = Inr acc"
    let ?c = "cancel_and_notify (mail_of sv v) (sv_listed sv) (sv_refund sv) (sv_id sv) (sv_now sv) (si_catalog v) j
        (actor_of (ac_role acc)) (tables v) (si_mail v)"
    obtain y s m where c: "?c = (y, s, m)" by (metis prod.exhaust)
    then have "s = snd (cancel_booking_and_refund (sv_listed sv) (sv_refund sv) (sv_id sv) (sv_now sv) j
        (actor_of (ac_role acc)) (tables v))"
      by (auto simp: cancel_and_notify_def split: prod.splits sum.splits option.splits)
    then have "booked_apart j (tables v) s" using apart_cancel_and_refund by simp
    moreover have "find_booking bk (si_store v) = Some b \<Longrightarrow> bk \<noteq> j" using other_booking [OF acc] u t by blast
    ultimately have "leaves_booking bk b v (v\<lparr>si_store := s, si_mail := m\<rparr>)" by (rule leaves_apart(2))
    then show "leaves_booking bk b v (snd (case ?c of
         (Inl (Cancel_refused e), s, m) \<Rightarrow>
           (Refused (if e = Booking_not_found then 404 else 400) (booking_error_code e), v\<lparr>si_store := s, si_mail := m\<rparr>)
       | (Inl (Message_failed _), s, m) \<Rightarrow> (Refused 500 ''CANCELLATION_FAILED'', v\<lparr>si_store := s, si_mail := m\<rparr>)
       | (Inr (r, err), s, m) \<Rightarrow> (Answered 200 (fst r, err), v\<lparr>si_store := s, si_mail := m\<rparr>)))"
      by (simp add: c split: sum.split prod.split cancel_failure.split)
  qed
next
  case (POST_discard j)
  have "leaves_booking bk b v (v\<lparr>si_store := snd (with_transaction (discard_unpaid_booking_tx now j (jw_user t)) (tables v))\<rparr>)" for v now
    using t(1) other_guest(1) [of "tables v" bk b "jw_user t" now] apart_discard [of j "tables v" now "jw_user t"]
    by (cases "bk = j") (auto simp: leaves_booking_def booked_apart_def)
  then show ?thesis
    unfolding POST_discard serve_guest.simps answer_to_def snd_conv post_discard_def
    by (intro apart.through) (simp add: snd_store_case)
next
  case (POST_archive j)
  have "leaves_booking bk b v (v\<lparr>si_store := snd (with_transaction (archive_booking now j (jw_user t)) (tables v))\<rparr>)" for v now
    using t(1) other_guest(2) [of "tables v" bk b "jw_user t" now] apart_archive [of j "tables v" now "jw_user t"]
    by (cases "bk = j") (auto simp: leaves_booking_def booked_apart_def)
  then show ?thesis
    unfolding POST_archive serve_guest.simps answer_to_def snd_conv post_archive_def
    by (intro apart.through) (simp add: snd_store_case)
next
  case (POST_message j x)
  show ?thesis
    unfolding POST_message serve_guest.simps answer_to_def snd_conv post_booking_message_def
    by (intro apart.through) (auto simp: with_body_def split: option.splits sum.splits)
next
  case (POST_read j)
  show ?thesis
    unfolding POST_read serve_guest.simps answer_to_def snd_conv post_read_def
    by (intro apart.through) (auto split: prod.splits sum.splits)
next
  case (POST_review j x)
  show ?thesis
    unfolding POST_review serve_guest.simps answer_to_def snd_conv post_review_def
    by (intro apart.through) (auto split: prod.splits sum.splits)
next
  case (POST_reply v x)
  show ?thesis
    unfolding POST_reply serve_guest.simps answer_to_def snd_conv post_reply_def
    by (intro apart.through) (auto split: option.splits prod.splits sum.splits)
next
  case (POST_favourite p)
  show ?thesis
    unfolding POST_favourite serve_guest.simps answer_to_def snd_conv post_favourite_def
    by (intro apart.through) (auto split: sum.splits)
next
  case (DELETE_favourite p)
  show ?thesis
    unfolding DELETE_favourite serve_guest.simps answer_to_def snd_conv delete_favourite_def
    by (intro apart.through) simp
next
  case (POST_intent x)
  show ?thesis
    unfolding POST_intent serve_guest.simps answer_to_def snd_conv post_intent_def
    by (intro apart.through)
      (auto simp: snd_store_case dest: other_booking [OF _ _ t] intro!: leaves_apart(1) [OF apart_intent])
next
  case (POST_setup_intent x)
  show ?thesis
    unfolding POST_setup_intent serve_guest.simps answer_to_def snd_conv post_setup_intent_def
    by (intro apart.through)
      (auto simp: snd_setup_case split: option.split dest: other_booking [OF _ _ t] intro!: leaves_apart(1) [OF apart_setup])
next
  case (POST_refund x)
  have "leaves_booking bk b w (w\<lparr>si_accounts := a\<rparr>)" for a by (simp add: leaves_booking_def)
  then show ?thesis
    unfolding POST_refund serve_guest.simps answer_to_def snd_conv post_admin_refund_def guarded_def
    using not_admin(3) [OF t(3), of "''refunds''" "''write''" "sv_now sv" "si_accounts w"] by auto
qed (hypsubst, rule apart.guest_reads)+

text \<open>The requests of hosts write no booking, payment or refund, whoever sends them.\<close>

lemma view_availability:
  "booking_view bk (snd (with_transaction (mutate_availability now j ci co act) s)) = booking_view bk s"
proof (cases "mutate_availability now j ci co act s")
  case (Inr r)
  then show ?thesis
    by (cases r) (auto simp: with_transaction_Inr mutate_availability_def Let_def booking_view_def split: prod.splits)
qed (simp add: with_transaction_Inl)

lemma view_imports: "imports_only s t \<Longrightarrow> booking_view bk t = booking_view bk s"
  by (auto simp: imports_only_def booking_view_def)

lemma view_exports:
  "booking_view bk (snd (get_or_create_export_token x j s)) = booking_view bk s"
  "booking_view bk (snd (rotate_export_token now x j s)) = booking_view bk s"
  by (auto simp: booking_view_def get_or_create_export_token_def rotate_export_token_def split: option.splits)

lemma leaves_catalog: "si_store v = si_store w \<Longrightarrow> leaves_booking bk b w v"
  by (simp add: leaves_booking_def)

lemma host_apart: "leaves_booking bk b w (snd (serve_host dk tok q w))"
proof (cases q)
  case (POST_availability j x)
  show ?thesis
    unfolding POST_availability serve_host.simps answer_to_def snd_conv post_host_availability_def
    by (intro apart.through)
      (auto simp: snd_store_case block_dates_def unblock_dates_def view_availability intro!: leaves_store)
next
  case (POST_onboarding x)
  show ?thesis
    unfolding POST_onboarding serve_host.simps answer_to_def snd_conv post_onboarding_def
    by (intro apart.through) (auto simp: snd_catalog_case split: prod.split sum.split)
next
  case GET_onboarding
  show ?thesis
    unfolding GET_onboarding serve_host.simps answer_to_def snd_conv get_onboarding_status_def
    by (intro apart.through) (auto simp: snd_catalog_case split: option.split)
next
  case (POST_host_property x)
  show ?thesis
    unfolding POST_host_property serve_host.simps answer_to_def snd_conv post_host_property_def
    by (intro apart.through) (auto split: prod.split sum.split listing_error.split)
next
  case (PATCH_host_property j x)
  show ?thesis
    unfolding PATCH_host_property serve_host.simps answer_to_def snd_conv patch_host_property_def
    by (intro apart.through) (auto split: prod.split sum.split listing_error.split)
next
  case (PUT_compliance j x)
  show ?thesis
    unfolding PUT_compliance serve_host.simps answer_to_def snd_conv put_compliance_def
    by (intro apart.through) (auto split: prod.split sum.split listing_error.split)
next
  case (PATCH_compliance j x)
  show ?thesis
    unfolding PATCH_compliance serve_host.simps answer_to_def snd_conv patch_admin_compliance_def
    by (intro apart.through) (auto simp: with_body_def split: option.split prod.split sum.split listing_error.split)
next
  case (PATCH_readiness x)
  show ?thesis
    unfolding PATCH_readiness serve_host.simps answer_to_def snd_conv patch_admin_readiness_def
    by (intro apart.through) (auto split: option.split prod.split sum.split listing_error.split)
next
  case (POST_image j x)
  show ?thesis
    unfolding POST_image serve_host.simps answer_to_def snd_conv post_image_def
    by (intro apart.through) (auto split: option.split prod.split sum.split)
next
  case (PATCH_images j x)
  show ?thesis
    unfolding PATCH_images serve_host.simps answer_to_def snd_conv patch_images_def
    by (intro apart.through) (auto split: option.split prod.split sum.split image_action.split)
next
  case (DELETE_image j x)
  show ?thesis
    unfolding DELETE_image serve_host.simps answer_to_def snd_conv remove_image_def
    by (intro apart.through) (auto split: prod.split sum.split)
qed (hypsubst, rule apart.host_reads)+

lemma feed_apart: "leaves_booking bk b w (snd (serve_feed cd tok q w))"
proof (cases q)
  case (POST_feed j x)
  show ?thesis
    unfolding POST_feed serve_feed.simps answer_to_def snd_conv post_calendar_feed_def
    by (intro apart.through) (auto simp: snd_with_stored view_imports [OF create_imports] intro!: leaves_store)
next
  case (PATCH_feed j f x)
  show ?thesis
    unfolding PATCH_feed serve_feed.simps answer_to_def snd_conv patch_calendar_feed_def
    by (intro apart.through) (auto simp: snd_with_stored view_imports [OF set_active_imports] intro!: leaves_store)
next
  case (DELETE_feed j f)
  show ?thesis
    unfolding DELETE_feed serve_feed.simps answer_to_def snd_conv remove_calendar_feed_def
    by (intro apart.through) (auto simp: snd_with_stored view_imports [OF delete_imports] intro!: leaves_store)
next
  case (POST_sync j f)
  show ?thesis
    unfolding POST_sync serve_feed.simps answer_to_def snd_conv post_calendar_sync_def
    by (intro apart.through) (auto simp: snd_with_stored view_imports [OF sync_imports] intro!: leaves_store)
next
  case (GET_export j)
  show ?thesis
    unfolding GET_export serve_feed.simps answer_to_def snd_conv get_calendar_export_def
    by (intro apart.through) (auto simp: case_prod_beta view_exports intro!: leaves_store)
next
  case (POST_export j)
  show ?thesis
    unfolding POST_export serve_feed.simps answer_to_def snd_conv post_calendar_export_def
    by (intro apart.through) (auto simp: case_prod_beta view_exports intro!: leaves_store)
qed (hypsubst, rule apart.feed_reads)+

end
