(* ===== verification/Route_Properties.thy ===== *)
theory Route_Properties
  imports Isolation Stay_Properties Account_Properties
begin

text \<open>
  The properties of the routes: who can change what, what no request breaks, and the administrator's refund.
\<close>

subsection \<open>Sessions\<close>

text \<open>The clock a request of each family is checked against.\<close>

fun clock_of :: "site_env \<Rightarrow> site_request \<Rightarrow> millis" where
  "clock_of e (For_guest q) = sv_now (se_server e)"
| "clock_of e (For_host q) = dk_now (se_desk e)"
| "clock_of e (For_feed q) = cd_now (se_feeds e)"

lemmas route_defs =
  get_trips_def post_booking_def get_booking_def post_cancel_def get_cancellation_quote_def post_discard_def
  post_archive_def get_messages_def post_booking_message_def post_read_def get_unread_def get_booking_review_def
  post_review_def post_reply_def get_favourites_def post_favourite_def delete_favourite_def post_intent_def
  post_setup_intent_def post_admin_refund_def get_host_properties_def post_host_property_def get_host_property_def
  patch_host_property_def get_host_availability_def post_host_availability_def get_host_bookings_def
  get_host_booking_def get_host_reviews_def get_amenities_def get_cancellation_policies_def get_compliance_def
  put_compliance_def get_readiness_def patch_admin_compliance_def patch_admin_readiness_def
  get_admin_readiness_queue_def get_admin_readiness_def get_admin_compliance_queue_def get_images_def post_image_def
  patch_images_def remove_image_def post_onboarding_def get_onboarding_status_def get_calendar_feeds_def
  post_calendar_feed_def patch_calendar_feed_def remove_calendar_feed_def post_calendar_sync_def
  get_calendar_export_def post_calendar_export_def calendar_request_def

lemma refused_401:
  assumes "\<forall>t. tok = Some t \<longrightarrow> \<not> session_current now t (si_accounts w)"
  shows "answer_to (guarded (require_session now tok) k) w = (401, w)"
    "answer_to (guarded (require_role r now tok) k) w = (401, w)"
    "answer_to (guarded (require_permission x y now tok) k) w = (401, w)"
    "answer_to (guarded (require_secure_admin super now tok) k) w = (401, w)"
  by (rule guarded_refused [OF _ assms], simp)+


text \<open>A site with one listing and a paid booking of it.\<close>

definition demo_site :: site where
  "demo_site = \<lparr>si_accounts = demo_accounts, si_store = booked_with Confirmed Paid, si_catalog = demo_catalog,
     si_mail = empty_mailbox, si_reviews = [], si_saved = []\<rparr>"


lemma demo_site_unrated: "list_all (rating_ok []) (listings demo_catalog)"
  by (simp add: demo_listing_facts rating_ok_def average_rating_def published_of_def select_where_def)

lemma demo_site_ok: "site_ok demo_site"
proof -
  have "bookings_ok (booked_with Confirmed Paid)" by code_simp
  then show ?thesis
    using demo_catalog_ok demo_site_unrated
    by (simp add: site_ok_def demo_site_def board_ok_def bookings_listed_def booked_with_def demo_booking_def new_booking_def
        demo_input_def demo_listing_facts)
qed

text \<open>A host and guest of other things.\<close>

definition other_jwt :: jwt where
  "other_jwt = \<lparr>jw_user = ''u2'', jw_roles = [Guest, Host], jw_host = Some ''other'', jw_admin = None, jw_version = 1,
     jw_session = ''s2''\<rparr>"



text \<open>
  C4: A property belongs to its host. Whatever request a user who is not its host and no administrator sends, to a
  route of hosts or of calendars, about this or any other property: its listing, pictures, compliance record,
  amenities, nights, imported calendars and export link stay as they were.
\<close>

theorem hosts_are_isolated:
  assumes "catalog_ok (si_catalog w)" "find_listing i (si_catalog w) = Some r"
    "jw_host t \<noteq> Some (ls_host r)" "Admin \<notin> set (jw_roles t)"
  shows "property_view i (snd (serve e (Some t) (For_host q) w)) = property_view i w \<and>
    property_view i (snd (serve e (Some t) (For_feed c) w)) = property_view i w"
  using host_isolated [OF assms(3,4), of i w "se_desk e" q] feed_isolated [OF assms(3,4), of i w "se_feeds e" c] assms(1,2)
  by (simp add: leaves_property_def)

theorem hosts_are_isolated_witness:
  "\<forall>e q c. property_view ''villa'' (snd (serve e (Some other_jwt) (For_host q) demo_site)) = property_view ''villa'' demo_site \<and>
    property_view ''villa'' (snd (serve e (Some other_jwt) (For_feed c) demo_site)) = property_view ''villa'' demo_site"
  using hosts_are_isolated [of demo_site "''villa''" demo_listing other_jwt]
  by (simp add: demo_site_def demo_catalog_ok find_demo_listing other_jwt_def demo_listing_facts)

text \<open>
  C3: A booking belongs to its guest and its host. No request, of any route, by a user who is neither of them and no
  administrator changes the booking, its payments, or the amount and status of a refund of it.
\<close>

theorem strangers_keep_booking:
  assumes "bookings_ok (si_store w)" "find_booking bk (si_store w) = Some b"
    "jw_user t \<noteq> b_guest b" "jw_host t \<noteq> Some (b_host b)" "Admin \<notin> set (jw_roles t)"
  shows "booking_view bk (si_store (snd (serve e (Some t) r w))) = booking_view bk (si_store w)"
  using guest_apart [OF assms(3-5), of bk w "se_server e"] host_apart [of bk b w "se_desk e" "Some t"]
    feed_apart [of bk b w "se_feeds e" "Some t"] assms(1,2)
  by (cases r) (simp_all add: leaves_booking_def)

theorem strangers_keep_booking_witness:
  "\<forall>e r. booking_view ''b1'' (si_store (snd (serve e (Some other_jwt) r demo_site))) =
    booking_view ''b1'' (booked_with Confirmed Paid)"
proof -
  have "bookings_ok (si_store demo_site)" using demo_site_ok by (simp add: site_ok_def)
  then show ?thesis
    using strangers_keep_booking [of demo_site "''b1''" "demo_booking ''b1'' Confirmed" other_jwt]
    by (simp add: demo_site_def booked_with_def demo_booking_def new_booking_def demo_input_def other_jwt_def demo_property_def)
qed

subsection \<open>Refunds by an administrator\<close>

lemma refunds_reserved:
  "unresolved_refund i s = None \<Longrightarrow>
    refunds (snd (reserve_refund n i s)) = insert_row (refund_row_of n i) (refunds s)"
  by (simp add: reserve_refund_def)

lemma payments_reserved: "payments (snd (reserve_refund n i s)) = payments s"
  by (simp add: reserve_refund_def split: option.split)

lemma initiate_refund_snd:
  obtains (reserved) "snd (initiate_refund listed create n i s) = snd (reserve_refund n i s)"
  | (answered) k v where "snd (initiate_refund listed create n i s) =
      (snd (reserve_refund n i s))\<lparr>refunds := update_where (\<lambda>x. rf_id x = k) (\<lambda>x. x\<lparr>rf_provider := v\<rparr>)
        (refunds (snd (reserve_refund n i s)))\<rparr>"
proof -
  obtain k b s1 where "reserve_refund n i s = ((k, b), s1)" by (metis prod.exhaust)
  then show thesis
    using reserved answered by (cases "provider_refund listed create i k b") (auto simp: initiate_refund_def)
qed

lemma reserved_provider:
  "sum_where (\<lambda>r. rf_booking r = bk \<and> rf_status r \<in> S) rf_amount (update_where P (\<lambda>x. x\<lparr>rf_provider := v\<rparr>) t) =
    sum_where (\<lambda>r. rf_booking r = bk \<and> rf_status r \<in> S) rf_amount t"
  by (induction t) auto

lemma reserved_after_refund:
  assumes "0 \<le> ri_amount i"
  shows "reserved_refunds (ri_booking i) (snd (initiate_refund listed create n i s)) \<le>
    reserved_refunds (ri_booking i) s + ri_amount i"
proof -
  have r: "reserved_refunds (ri_booking i) (snd (reserve_refund n i s)) \<le> reserved_refunds (ri_booking i) s + ri_amount i"
    using assms by (simp add: reserve_refund_def reserved_refunds_def insert_row_def refund_row_of_def split: option.split)
  show ?thesis
    by (cases rule: initiate_refund_snd [of listed create n i s])
      (use r in \<open>simp_all add: reserved_refunds_def reserved_provider [of _ "{Refund_pending, Refund_succeeded}", simplified]\<close>)
qed

lemma payments_refund: "payments (snd (initiate_refund listed create n i s)) = payments s"
  by (cases rule: initiate_refund_snd [of listed create n i s]) (simp_all add: payments_reserved)

lemma refundable_payment_Inr:
  assumes "refundable_payment q s = Inr p"
  shows "first_where (\<lambda>p. pay_booking p = rq_booking q \<and> pay_status p \<in> {Paid, Pay_partially_refunded}) (payments s) = Some p"
    "reserved_refunds (rq_booking q) s + rq_amount q \<le> pay_amount p"
  using assms by (auto simp: refundable_payment_def Let_def split: option.splits if_splits)

text \<open>What a request for a refund leaves: the rows as they were, or those the refund left.\<close>

definition refund_of :: "refund_request \<Rightarrow> payment \<Rightarrow> refund_input" where
  "refund_of q p =
     \<lparr>ri_booking = rq_booking q, ri_payment = pay_id p, ri_intent = pay_intent p, ri_amount = rq_amount q,
      ri_currency = pay_currency p, ri_reason = rq_reason q, ri_by = By_admin\<rparr>"

lemma post_admin_refund_asked:
  assumes "require_permission ''refunds'' ''write'' (sv_now sv) tok (si_accounts w) = (Inr t, a)"
    "refundable_payment q (si_store w) = Inr p"
  shows "post_admin_refund sv tok (Some q) w =
    (case initiate_refund (sv_listed sv) (sv_refund sv) (sv_id sv) (refund_of q p) (si_store w) of
       (Inl _, s) \<Rightarrow> (Refused 400 ''REFUND_FAILED'', w\<lparr>si_accounts := a, si_store := s\<rparr>)
     | (Inr r, s) \<Rightarrow> (Answered 200 r, w\<lparr>si_accounts := a, si_store := log_audit (Some (jw_user t)) (rq_booking q)
           (Admin_refund_issued (rq_amount q) (rq_reason q) (jw_admin t)) s\<rparr>))"
  using assms by (simp add: post_admin_refund_def guarded_def with_body_def refund_of_def)

lemma post_admin_refund_cases:
  obtains (kept) "si_store (snd (post_admin_refund sv tok (Some q) w)) = si_store w"
      "fst (post_admin_refund sv tok (Some q) w) \<noteq> Refused 400 ''REFUND_FAILED''"
  | (asked) p where "refundable_payment q (si_store w) = Inr p"
      "refunds (si_store (snd (post_admin_refund sv tok (Some q) w))) =
        refunds (snd (initiate_refund (sv_listed sv) (sv_refund sv) (sv_id sv) (refund_of q p) (si_store w)))"
      "payments (si_store (snd (post_admin_refund sv tok (Some q) w))) = payments (si_store w)"
      "fst (post_admin_refund sv tok (Some q) w) = Refused 400 ''REFUND_FAILED'' \<Longrightarrow>
        \<exists>e. fst (initiate_refund (sv_listed sv) (sv_refund sv) (sv_id sv) (refund_of q p) (si_store w)) = Inl e"
proof (cases "require_permission ''refunds'' ''write'' (sv_now sv) tok (si_accounts w)")
  case (Pair r a)
  show ?thesis
  proof (cases r)
    case (Inl e)
    with Pair show ?thesis by (intro kept) (simp_all add: post_admin_refund_def guarded_def)
  next
    case (Inr t)
    note g = Pair [unfolded Inr]
    show ?thesis
    proof (cases "refundable_payment q (si_store w)")
      case (Inl c)
      with g have "post_admin_refund sv tok (Some q) w = (Refused 400 c, w\<lparr>si_accounts := a\<rparr>)"
        by (simp add: post_admin_refund_def guarded_def with_body_def)
      moreover have "c \<noteq> ''REFUND_FAILED''" using Inl by (auto simp: refundable_payment_def Let_def split: option.splits if_splits)
      ultimately show ?thesis by (intro kept) simp_all
    next
      case (Inr p)
      obtain x s where i: "initiate_refund (sv_listed sv) (sv_refund sv) (sv_id sv) (refund_of q p) (si_store w) = (x, s)"
        by (metis prod.exhaust)
      then have "payments s = payments (si_store w)"
        using payments_refund [of "sv_listed sv" "sv_refund sv" "sv_id sv" "refund_of q p" "si_store w"] by simp
      with i show ?thesis
        by (intro asked [OF Inr]; cases x) (simp_all add: post_admin_refund_asked [OF g Inr] log_audit_def)
    qed
  qed
qed

lemma refund_within:
  assumes "first_where (\<lambda>p. pay_booking p = rq_booking q \<and> pay_status p \<in> {Paid, Pay_partially_refunded})
      (payments (si_store w)) = Some p"
    "reserved_refunds (rq_booking q) (si_store w) \<le> pay_amount p" "0 < rq_amount q"
  shows "reserved_refunds (rq_booking q) (si_store (snd (post_admin_refund sv tok (Some q) w))) \<le> pay_amount p"
proof (cases rule: post_admin_refund_cases [of sv tok q w])
  case kept
  with assms(2) show ?thesis by simp
next
  case (asked p')
  from asked(1) assms(1) have p: "p' = p" by (auto dest: refundable_payment_Inr)
  have "reserved_refunds (rq_booking q) (snd (initiate_refund (sv_listed sv) (sv_refund sv) (sv_id sv) (refund_of q p) (si_store w))) \<le>
      reserved_refunds (rq_booking q) (si_store w) + rq_amount q"
    using reserved_after_refund [of "refund_of q p"] assms(3) by (simp add: refund_of_def)
  with asked(2) refundable_payment_Inr(2) [OF asked(1)] show ?thesis by (simp add: p reserved_refunds_def)
qed

definition demo_refund_request :: refund_request where
  "demo_refund_request = \<lparr>rq_booking = ''b1'', rq_amount = 20000, rq_reason = Admin_goodwill\<rparr>"

lemma demo_site_payment:
  "first_where (\<lambda>p. pay_booking p = ''b1'' \<and> pay_status p \<in> {Paid, Pay_partially_refunded}) (payments (si_store demo_site)) =
    Some (demo_payment Paid)"
  "refunds (si_store demo_site) = []" "si_accounts demo_site = demo_accounts"
  by (simp_all add: demo_site_def booked_with_def demo_payment_def open_store_def empty_store_def)

text \<open>
  C24: A refund whose call failed blocks its own retry. The row reserved for a refund stays pending when the provider
  fails, and counts against what is left: the same request is then refused as exceeding the payment whenever it asks
  for more than half of what was left, although nothing was refunded and although the refund code keeps the
  row for exactly this retry.
\<close>

theorem failed_refund_blocks_retry:
  assumes "post_admin_refund sv tok (Some q) w = (Refused 400 ''REFUND_FAILED'', v)"
    "refundable_payment q (si_store w) = Inr p"
    "\<forall>r \<in> set (refunds (si_store w)). rf_booking r = rq_booking q \<longrightarrow> rf_provider r \<notin> {None, Some []}"
    "pay_amount p - reserved_refunds (rq_booking q) (si_store w) < 2 * rq_amount q"
  shows "refundable_payment q (si_store v) \<in> {Inl ''ALREADY_FULLY_REFUNDED'', Inl ''AMOUNT_EXCEEDS_REMAINING''} \<and>
    refunds (si_store v) = insert_row (refund_row_of (sv_id sv) (refund_of q p)) (refunds (si_store w))"
proof (cases rule: post_admin_refund_cases [of sv tok q w])
  case kept
  with assms(1) show ?thesis by simp
next
  case (asked p')
  with assms(1,2) have p: "p' = p" by simp
  have "unresolved_refund (refund_of q p) (si_store w) = None"
    using assms(3) by (auto simp: unresolved_refund_def same_refund_def refund_of_def split: option.splits dest!: first_where_Some)
  then have r: "refunds (si_store v) = insert_row (refund_row_of (sv_id sv) (refund_of q p)) (refunds (si_store w))"
    using asked(2,4) assms(1) initiate_refund_error
    by (metis p refunds_reserved fst_conv snd_conv prod.collapse)
  then have "reserved_refunds (rq_booking q) (si_store v) = reserved_refunds (rq_booking q) (si_store w) + rq_amount q"
    by (simp add: reserved_refunds_def insert_row_def refund_row_of_def refund_of_def)
  with asked(3) assms(1,4) r refundable_payment_Inr(1) [OF assms(2)] show ?thesis
    by (simp add: refundable_payment_def Let_def)
qed

lemma demo_permission:
  obtains a where "require_permission ''refunds'' ''write'' 10 (Some demo_jwt) demo_accounts = (Inr demo_jwt, a)"
proof -
  have "fst (require_permission ''refunds'' ''write'' 10 (Some demo_jwt) demo_accounts) = Inr demo_jwt" by code_simp
  then show thesis using that by (metis prod.collapse)
qed

theorem failed_refund_blocks_retry_witness:
  "\<forall>sv. refundable_payment demo_refund_request (si_store (snd (post_admin_refund (sv\<lparr>sv_now := 10, sv_refund := \<lambda>_. Inl ''timeout''\<rparr>)
     (Some demo_jwt) (Some demo_refund_request) demo_site))) \<in> {Inl ''ALREADY_FULLY_REFUNDED'', Inl ''AMOUNT_EXCEEDS_REMAINING''}"
proof
  fix sv :: server
  let ?sv = "sv\<lparr>sv_now := 10, sv_refund := \<lambda>_. Inl ''timeout''\<rparr>"
  obtain a where a: "require_permission ''refunds'' ''write'' 10 (Some demo_jwt) demo_accounts = (Inr demo_jwt, a)"
    by (rule demo_permission)
  have p: "refundable_payment demo_refund_request (si_store demo_site) = Inr (demo_payment Paid)"
    using demo_site_payment by (simp add: refundable_payment_def demo_refund_request_def reserved_refunds_def demo_payment_def Let_def)
  have e: "fst (post_admin_refund ?sv (Some demo_jwt) (Some demo_refund_request) demo_site) = Refused 400 ''REFUND_FAILED''"
    using a demo_site_payment
    by (simp add: post_admin_refund_asked [OF _ p] initiate_refund_def reserve_refund_def unresolved_refund_def
        provider_refund_def)
  obtain v where v: "post_admin_refund ?sv (Some demo_jwt) (Some demo_refund_request) demo_site = (Refused 400 ''REFUND_FAILED'', v)"
    using e by (metis prod.collapse)
  show "refundable_payment demo_refund_request (si_store (snd (post_admin_refund ?sv (Some demo_jwt) (Some demo_refund_request) demo_site)))
      \<in> {Inl ''ALREADY_FULLY_REFUNDED'', Inl ''AMOUNT_EXCEEDS_REMAINING''}"
    using failed_refund_blocks_retry [OF v p] demo_site_payment unfolding v
    by (simp add: demo_refund_request_def reserved_refunds_def demo_payment_def)
qed

subsection \<open>Idempotency keys\<close>

text \<open>
  A key of another guest returns that guest's booking. The lookup of the idempotency key does not ask whose
  booking it is, so a signed-in user who sends a valid stay with the key of somebody else's booking is answered
  with that booking, name and address included.
\<close>

lemma foreign_key_returns_booking:
  assumes "require_session (sv_now sv) (Some t) (si_accounts w) = (Inr t, a)" "k \<noteq> []"
    "first_where (\<lambda>b. b_idem b = k) (bookings (si_store w)) = Some b" "b_guest b \<noteq> jw_user t"
    "0 < nights_between (bi_check_in i) (bi_check_out i)" "of_int \<lfloor>bi_guests i\<rfloor> = bi_guests i" "1 \<le> bi_guests i"
  shows "fst (post_booking sv (Some t) (Some k) (Some i) w) = Answered 200 b"
  using assms by (simp add: post_booking_def guarded_def with_body_def create_booking_def create_booking_tx_def
      with_transaction_def with_catalog_def)

lemma foreign_key_returns_booking_witness:
  "\<forall>sv. fst (post_booking (sv\<lparr>sv_now := 10\<rparr>) (Some demo_jwt) (Some ''b1'') (Some (demo_input ''b1'' 30 32)) demo_site) =
    Answered 200 (demo_booking ''b1'' Confirmed)"
proof
  fix sv :: server
  have "fst (require_session 10 (Some demo_jwt) demo_accounts) = Inr demo_jwt" by code_simp
  then obtain a where a: "require_session 10 (Some demo_jwt) demo_accounts = (Inr demo_jwt, a)" by (metis prod.collapse)
  have n: "0 < nights_between 30 32" by code_simp
  show "fst (post_booking (sv\<lparr>sv_now := 10\<rparr>) (Some demo_jwt) (Some ''b1'') (Some (demo_input ''b1'' 30 32)) demo_site) =
      Answered 200 (demo_booking ''b1'' Confirmed)"
    by (rule foreign_key_returns_booking [where a = a])
      (use a n in \<open>simp_all add: demo_site_def booked_with_def demo_booking_def new_booking_def demo_input_def demo_jwt_def\<close>)
qed

end
