(* ===== verification/Concierge.thy ===== *)
theory Concierge
  imports Public_View Safe_Fetch
begin

text \<open>
  The guest concierge (lib/ai/guestConcierge.ts, app/api/ai/concierge/route.ts): a question is answered by a
  language model over the listings a search would show. The model is an argument, a function from the prompt to the
  reply it parses to; so is the check that a text is a UUID. Shown here: the listings are those of the search,
  what is recommended is among them whatever the model answers, and the prompt is a function of public columns.
\<close>

subsection \<open>The listings\<close>

record public_listing =
  pl_id :: uuid
  pl_name :: js_string
  pl_slug :: js_string
  pl_description :: "js_string option"
  pl_city :: js_string
  pl_district :: "js_string option"
  pl_country :: "js_string option"
  pl_type :: "js_string option"
  pl_currency :: js_string
  pl_nightly :: "minor option"
  pl_max_guests :: int
  pl_bedrooms :: int
  pl_bathrooms :: int
  pl_rating :: "rat option"
  pl_review_count :: int

definition public_listing_of :: "listing_row \<Rightarrow> public_listing" where
  "public_listing_of r =
     (let c = ls_content r in
      \<lparr>pl_id = ls_id r, pl_name = lc_name c, pl_slug = ls_slug r, pl_description = lc_description c, pl_city = lc_city c,
       pl_district = lc_district c, pl_country = lc_country c, pl_type = lc_type c, pl_currency = lc_currency c,
       pl_nightly = lc_nightly c, pl_max_guests = lc_max_guests c, pl_bedrooms = lc_bedrooms c,
       pl_bathrooms = lc_bathrooms c, pl_rating = ls_rating r, pl_review_count = ls_review_count r\<rparr>)"

text \<open>
  The conditions are pushed only for a value that is truthy: an empty text and zero guests ask for nothing.
  \<open>slug\<close> is never null in the model.
\<close>

definition concierge_matches :: "day \<Rightarrow> search_query \<Rightarrow> catalog \<Rightarrow> store \<Rightarrow> listing_row \<Rightarrow> bool" where
  "concierge_matches today q c s r \<longleftrightarrow>
     ls_status r = Prop_published \<and> ls_compliance r = Comp_approved \<and> \<not> has_expired_items today (ls_id r) c \<and>
     (case sq_city q of None \<Rightarrow> True | Some t \<Rightarrow> t = [] \<or> ilike (lc_city (ls_content r)) t) \<and>
     (case sq_district q of None \<Rightarrow> True
      | Some t \<Rightarrow> t = [] \<or> (case lc_district (ls_content r) of None \<Rightarrow> False | Some d \<Rightarrow> ilike d t)) \<and>
     (case sq_guests q of None \<Rightarrow> True | Some g \<Rightarrow> g = 0 \<or> g \<le> lc_max_guests (ls_content r)) \<and>
     (case sq_dates q of
        None \<Rightarrow> True
      | Some (a, b) \<Rightarrow>
          let nights = js_round (js_div (of_int (day_ms b - day_ms a)) 86400000) in
          \<not> nights_taken (avail s (ls_id r)) a b \<and>
          lc_min_stay (ls_content r) \<le> nights \<and> nights \<le> lc_max_stay (ls_content r))"

definition list_public_concierge_properties :: "day \<Rightarrow> search_query \<Rightarrow> catalog \<Rightarrow> store \<Rightarrow> public_listing list" where
  "list_public_concierge_properties today q c s =
     map public_listing_of (take 50 (sort_key rating_key (sort_key (\<lambda>r. - ls_review_count r)
       (select_where (concierge_matches today q c s) (listings c)))))"

subsection \<open>The prompt\<close>

text \<open>\<open>Number(...)\<close> of a \<open>NUMERIC\<close> column, kept in hundredths or tenths; of null it is zero.\<close>

definition number_of :: "int \<Rightarrow> int \<Rightarrow> rat" where
  "number_of scale n = fl (of_int n / of_int scale)"

definition nightly_number :: "minor option \<Rightarrow> rat" where
  "nightly_number n = (case n of None \<Rightarrow> 0 | Some m \<Rightarrow> number_of 100 m)"

record model_listing =
  ml_id :: uuid
  ml_name :: js_string
  ml_description :: "js_string option"
  ml_city :: js_string
  ml_district :: "js_string option"
  ml_country :: "js_string option"
  ml_type :: "js_string option"
  ml_currency :: js_string
  ml_nightly :: rat
  ml_max_guests :: int
  ml_bedrooms :: int
  ml_bathrooms :: rat
  ml_rating :: "rat option"
  ml_review_count :: int

definition public_catalog_for_model :: "public_listing list \<Rightarrow> model_listing list" where
  "public_catalog_for_model =
     map (\<lambda>p. \<lparr>ml_id = pl_id p, ml_name = pl_name p, ml_description = pl_description p, ml_city = pl_city p,
       ml_district = pl_district p, ml_country = pl_country p, ml_type = pl_type p, ml_currency = pl_currency p,
       ml_nightly = nightly_number (pl_nightly p), ml_max_guests = pl_max_guests p, ml_bedrooms = pl_bedrooms p,
       ml_bathrooms = number_of 10 (pl_bathrooms p), ml_rating = map_option fl (pl_rating p),
       ml_review_count = pl_review_count p\<rparr>)"

record question =
  qn_text :: js_string
  qn_locale :: js_string
  qn_search :: search_query

record prompt =
  pr_locale :: js_string
  pr_question :: js_string
  pr_search :: search_query
  pr_catalog :: "model_listing list"

record reply =
  rp_answer :: js_string
  rp_ids :: "js_string list"
  rp_follow_ups :: "js_string list"

text \<open>
  The schema sent with the prompt, which the provider enforces, and the one the reply is then parsed with; the
  latter trims. \<open>is_uuid\<close> is the check of \<open>z.string().uuid()\<close>.
\<close>

definition reply_requested :: "reply \<Rightarrow> bool" where
  "reply_requested r \<longleftrightarrow>
     1 \<le> length (rp_answer r) \<and> length (rp_answer r) \<le> 1200 \<and> length (rp_ids r) \<le> 3 \<and>
     list_all (\<lambda>i. 1 \<le> length i \<and> length i \<le> 100) (rp_ids r) \<and> length (rp_follow_ups r) \<le> 3"

definition parse_reply :: "(js_string \<Rightarrow> bool) \<Rightarrow> reply \<Rightarrow> reply option" where
  "parse_reply is_uuid r =
     (let answer = js_trim (rp_answer r); follow = map js_trim (rp_follow_ups r)
      in if 1 \<le> length answer \<and> length answer \<le> 1200 \<and> list_all is_uuid (rp_ids r) \<and> length (rp_ids r) \<le> 3 \<and>
            list_all (\<lambda>t. 1 \<le> length t \<and> length t \<le> 100) follow \<and> length follow \<le> 3
         then Some \<lparr>rp_answer = answer, rp_ids = rp_ids r, rp_follow_ups = follow\<rparr> else None)"

subsection \<open>The answer\<close>

record recommendation =
  rm_id :: uuid
  rm_name :: js_string
  rm_slug :: js_string
  rm_city :: js_string
  rm_district :: "js_string option"
  rm_type :: "js_string option"
  rm_currency :: js_string
  rm_nightly :: rat
  rm_max_guests :: int
  rm_bedrooms :: int
  rm_bathrooms :: rat
  rm_rating :: "rat option"
  rm_review_count :: int

definition recommendation_of :: "public_listing \<Rightarrow> recommendation" where
  "recommendation_of p =
     \<lparr>rm_id = pl_id p, rm_name = pl_name p, rm_slug = pl_slug p, rm_city = pl_city p, rm_district = pl_district p,
      rm_type = pl_type p, rm_currency = pl_currency p, rm_nightly = nightly_number (pl_nightly p),
      rm_max_guests = pl_max_guests p, rm_bedrooms = pl_bedrooms p, rm_bathrooms = number_of 10 (pl_bathrooms p),
      rm_rating = map_option fl (pl_rating p), rm_review_count = pl_review_count p\<rparr>"

record concierge_result =
  cr_answer :: js_string
  cr_recommendations :: "recommendation list"
  cr_follow_ups :: "js_string list"

datatype concierge_error = Not_configured | Reply_failed

definition no_stay_answer :: js_string where
  "no_stay_answer =
     ''HOST does not currently have a published stay matching this request. Please check again as new properties are added.''"

text \<open>
  \<open>respond\<close> is the provider: the parsed JSON of its output text, or nothing when the call or \<open>JSON.parse\<close> throws.
  A \<open>Map\<close> built from a list keeps the last of equal keys.
\<close>

definition recommend :: "public_listing list \<Rightarrow> js_string list \<Rightarrow> recommendation list" where
  "recommend ls ids =
     concat (map (\<lambda>i. case first_where (\<lambda>p. pl_id p = i) (rev ls) of None \<Rightarrow> [] | Some p \<Rightarrow> [recommendation_of p]) ids)"

definition ask_guest_concierge ::
  "bool \<Rightarrow> (js_string \<Rightarrow> bool) \<Rightarrow> (prompt \<Rightarrow> reply option) \<Rightarrow> day \<Rightarrow> question \<Rightarrow> catalog \<Rightarrow> store \<Rightarrow>
    concierge_error + concierge_result" where
  "ask_guest_concierge key is_uuid respond today qn c s =
     (if \<not> key then Inl Not_configured
      else
        let ls = list_public_concierge_properties today (qn_search qn) c s
        in if ls = [] then Inr \<lparr>cr_answer = no_stay_answer, cr_recommendations = [], cr_follow_ups = []\<rparr>
           else
             (case Option.bind (respond \<lparr>pr_locale = qn_locale qn, pr_question = qn_text qn, pr_search = qn_search qn,
                        pr_catalog = public_catalog_for_model ls\<rparr>) (parse_reply is_uuid) of
                None \<Rightarrow> Inl Reply_failed
              | Some r \<Rightarrow>
                  Inr \<lparr>cr_answer = rp_answer r, cr_recommendations = recommend ls (rp_ids r), cr_follow_ups = rp_follow_ups r\<rparr>))"

subsection \<open>The route\<close>

text \<open>\<open>parsed\<close> is the body as its schema let it through.\<close>

definition post_concierge ::
  "bool \<Rightarrow> (js_string \<Rightarrow> bool) \<Rightarrow> (prompt \<Rightarrow> reply option) \<Rightarrow> day \<Rightarrow> js_string option \<Rightarrow> question option \<Rightarrow> catalog \<Rightarrow> store \<Rightarrow>
    (int \<times> js_string) + concierge_result" where
  "post_concierge key is_uuid respond today content_length parsed c s =
     (let size = js_number (case content_length of None \<Rightarrow> ''0'' | Some t \<Rightarrow> if t = [] then ''0'' else t)
      in if (case size of Finite n \<Rightarrow> 10000 < n | _ \<Rightarrow> True) then Inl (413, ''REQUEST_TOO_LARGE'')
         else
           (case parsed of
              None \<Rightarrow> Inl (400, ''INVALID_INPUT'')
            | Some qn \<Rightarrow>
                (case ask_guest_concierge key is_uuid respond today qn c s of
                   Inl Not_configured \<Rightarrow> Inl (503, ''AI_NOT_CONFIGURED'')
                 | Inl Reply_failed \<Rightarrow> Inl (503, ''CONCIERGE_FAILED'')
                 | Inr r \<Rightarrow> Inr r)))"

subsection \<open>What is recommended\<close>

text \<open>What the schema of a search query ensures of the texts and the number of guests.\<close>

definition asks_something :: "search_query \<Rightarrow> bool" where
  "asks_something q \<longleftrightarrow> sq_city q \<noteq> Some [] \<and> sq_district q \<noteq> Some [] \<and> sq_guests q \<noteq> Some 0"

lemma concierge_matches_search:
  "asks_something q \<Longrightarrow> concierge_matches today q c s = search_matches today q c s"
  by (auto simp: fun_eq_iff asks_something_def concierge_matches_def search_matches_def split: option.split)

lemma concierge_lists_search:
  "asks_something q \<Longrightarrow> list_public_concierge_properties today q c s = map public_listing_of (search_properties today q c s)"
  by (simp add: list_public_concierge_properties_def search_properties_def concierge_matches_search)

lemma recommend_listed: "set (recommend ls ids) \<subseteq> recommendation_of ` set ls"
  by (auto simp: recommend_def split: option.splits dest!: first_where_Some [OF sym])

lemma length_recommend: "length (recommend ls ids) \<le> length ids"
  by (induction ids) (auto simp: recommend_def split: option.split)

lemma parse_reply_bounds:
  assumes "parse_reply is_uuid r = Some p"
  shows "length (rp_answer p) \<le> 1200" "length (rp_ids p) \<le> 3" "length (rp_follow_ups p) \<le> 3" "rp_ids p = rp_ids r"
  using assms by (auto simp: parse_reply_def Let_def split: if_splits)

lemma ask_guest_concierge_cases:
  assumes "ask_guest_concierge key is_uuid respond today qn c s = Inr r"
  obtains (none) "cr_recommendations r = []" "cr_follow_ups r = []"
    "list_public_concierge_properties today (qn_search qn) c s = []"
  | (asked) p t where "parse_reply is_uuid t = Some p"
    "cr_recommendations r = recommend (list_public_concierge_properties today (qn_search qn) c s) (rp_ids p)"
    "cr_follow_ups r = rp_follow_ups p" "cr_answer r = rp_answer p"
  using assms
  by (auto simp: ask_guest_concierge_def Let_def split: if_splits option.splits simp: bind_eq_Some_conv)

subsection \<open>What the prompt leaves out\<close>

text \<open>Changes of a listing in columns that are not public, those of its address and owner among them.\<close>

definition change_private :: "(listing_row \<Rightarrow> uuid) \<Rightarrow> (listing_row \<Rightarrow> js_string option) \<Rightarrow> (listing_row \<Rightarrow> point option) \<Rightarrow>
    listing_row \<Rightarrow> listing_row" where
  "change_private host line place r =
     r\<lparr>ls_host := host r, ls_public := place r, ls_note := line r, ls_pilot_note := line r,
       ls_content := (ls_content r)\<lparr>lc_rules := line r, lc_address1 := line r, lc_address2 := line r, lc_town := line r,
         lc_county := line r, lc_postcode := line r, lc_private := place r, lc_cleaning := 0\<rparr>\<rparr>"

lemma public_change [simp]:
  "public_listing_of (change_private host line place r) = public_listing_of r"
  "ls_id (change_private host line place r) = ls_id r" "rating_key (change_private host line place r) = rating_key r"
  "ls_review_count (change_private host line place r) = ls_review_count r"
  by (simp_all add: public_listing_of_def change_private_def rating_key_def Let_def)

lemma change_private_columns:
  "ls_status (change_private host line place r) = ls_status r"
  "ls_compliance (change_private host line place r) = ls_compliance r"
  "lc_city (ls_content (change_private host line place r)) = lc_city (ls_content r)"
  "lc_district (ls_content (change_private host line place r)) = lc_district (ls_content r)"
  "lc_max_guests (ls_content (change_private host line place r)) = lc_max_guests (ls_content r)"
  "lc_min_stay (ls_content (change_private host line place r)) = lc_min_stay (ls_content r)"
  "lc_max_stay (ls_content (change_private host line place r)) = lc_max_stay (ls_content r)"
  by (simp_all add: change_private_def)

lemma matches_change:
  "concierge_matches today q (c\<lparr>listings := t\<rparr>) s (change_private host line place r) = concierge_matches today q c s r"
  by (simp add: concierge_matches_def change_private_columns has_expired_items_def split: option.split)

lemma sort_key_map:
  assumes "\<And>x. k (f x) = k x"
  shows "sort_key k (map f xs) = map f (sort_key k xs)"
proof -
  have "insort_key k (f x) (map f ys) = map f (insort_key k x ys)" for x ys
    by (induction ys) (simp_all add: assms)
  then show ?thesis by (induction xs) (simp_all add: assms)
qed

lemma concierge_change:
  "list_public_concierge_properties today q (c\<lparr>listings := map (change_private host line place) (listings c)\<rparr>) s =
    list_public_concierge_properties today q c s"
proof -
  let ?f = "change_private host line place"
  have "select_where (concierge_matches today q (c\<lparr>listings := u\<rparr>) s) (map ?f t) =
      map ?f (select_where (concierge_matches today q c s) t)" for t u
    by (induction t) (simp_all add: select_where_def matches_change)
  then have "list_public_concierge_properties today q (c\<lparr>listings := map ?f (listings c)\<rparr>) s =
      map public_listing_of (map ?f (take 50 (sort_key rating_key (sort_key (\<lambda>r. - ls_review_count r)
        (select_where (concierge_matches today q c s) (listings c))))))"
    by (simp add: list_public_concierge_properties_def sort_key_map [of rating_key ?f] take_map
        sort_key_map [of "\<lambda>r. - ls_review_count r" ?f])
  also have "\<dots> = list_public_concierge_properties today q c s"
    by (simp add: list_public_concierge_properties_def o_def)
  finally show ?thesis .
qed

end
