(* ===== verification/Schemas.thy ===== *)
theory Schemas
  imports Booking_Routes Host_Routes Calendar_Routes Concierge Calendar_Roundtrip
begin

text \<open>
  What a request's body must satisfy (lib/validation/schemas.ts, lib/calendar/calendarSchemas.ts, the schema of the
  concierge and the check of the booking form). A body is a record of what was sent, of the JSON types the schema
  declares; a number is a finite one. Each \<open>parse\<close> is \<open>safeParse\<close>: the value with its transformations applied,
  or nothing. The formats of the schema library (an email address, a UUID, a URL) and node's URL parser are arguments.
\<close>

record formats =
  fm_email :: "js_string \<Rightarrow> bool"
  fm_uuid :: "js_string \<Rightarrow> bool"
  fm_url :: "js_string \<Rightarrow> bool"
  fm_parse_url :: "js_string \<Rightarrow> url option"

subsection \<open>Checks the schemas are made of\<close>

definition whole :: "rat \<Rightarrow> bool" where
  "whole q \<longleftrightarrow> of_int \<lfloor>q\<rfloor> = q"

definition whole_within :: "int \<Rightarrow> int \<Rightarrow> rat \<Rightarrow> bool" where
  "whole_within lo hi q \<longleftrightarrow> whole q \<and> of_int lo \<le> q \<and> q \<le> of_int hi"

definition sized :: "nat \<Rightarrow> nat \<Rightarrow> js_string \<Rightarrow> bool" where
  "sized lo hi t \<longleftrightarrow> lo \<le> length t \<and> length t \<le> hi"

text \<open>\<open>.optional()\<close> and \<open>.nullable()\<close>: an absent value is accepted.\<close>

definition if_given :: "('a \<Rightarrow> bool) \<Rightarrow> 'a option \<Rightarrow> bool" where
  "if_given P v \<longleftrightarrow> (case v of None \<Rightarrow> True | Some x \<Rightarrow> P x)"

lemma if_given_simps [simp]: "if_given P None" "if_given P (Some x) = P x"
  by (simp_all add: if_given_def)

definition accept :: "bool \<Rightarrow> 'a \<Rightarrow> 'a option" where
  "accept ok x = (if ok then Some x else None)"

lemma accept_Some [simp]: "accept ok x = Some y \<longleftrightarrow> ok \<and> y = x" "accept ok x = None \<longleftrightarrow> \<not> ok"
  by (auto simp: accept_def)

definition iso_shaped :: "js_string \<Rightarrow> bool" where
  "iso_shaped t \<longleftrightarrow> parse_ymd t \<noteq> None"

definition is_real_iso_date :: "js_string \<Rightarrow> bool" where
  "is_real_iso_date t \<longleftrightarrow> real_date t \<noteq> None"

text \<open>\<open>setUTCMonth(getUTCMonth() + 12)\<close>: a 29th of February rolls over into March.\<close>

definition in_twelve_months :: "day \<Rightarrow> day" where
  "in_twelve_months today = (case civil_of_day today of (y, m, d) \<Rightarrow> epoch_day (y + 1) m 1 + d - 1)"

definition has_letter :: "js_string \<Rightarrow> bool" where
  "has_letter t \<longleftrightarrow> list_ex (\<lambda>c. 65 \<le> code c \<and> code c \<le> 90 \<or> 97 \<le> code c \<and> code c \<le> 122) t"

subsection \<open>Accounts\<close>

definition parse_email :: "formats \<Rightarrow> js_string \<Rightarrow> js_string option" where
  "parse_email fm t = (let e = to_lower (js_trim t) in accept (fm_email fm e) e)"

definition password_rule :: "js_string \<Rightarrow> bool" where
  "password_rule p \<longleftrightarrow> sized 12 200 p \<and> has_letter p \<and> list_ex is_digit p"

definition parse_register :: "formats \<Rightarrow> js_string \<times> js_string \<Rightarrow> (js_string \<times> js_string) option" where
  "parse_register fm b =
     (case parse_email fm (fst b) of None \<Rightarrow> None | Some e \<Rightarrow> accept (password_rule (snd b)) (e, snd b))"

record password_body =
  pw_current :: js_string
  pw_new :: js_string
  pw_confirm :: js_string

definition parse_change_password :: "password_body \<Rightarrow> password_body option" where
  "parse_change_password b =
     accept (sized 1 200 (pw_current b) \<and> password_rule (pw_new b) \<and> length (pw_confirm b) \<le> 200 \<and>
       pw_new b = pw_confirm b \<and> pw_current b \<noteq> pw_new b) b"

definition parse_reset_confirm :: "js_string \<times> js_string \<Rightarrow> (js_string \<times> js_string) option" where
  "parse_reset_confirm b = accept (fst b \<noteq> [] \<and> password_rule (snd b)) b"

definition parse_profile :: "js_string option \<times> js_string option \<Rightarrow> (js_string option \<times> js_string option) option" where
  "parse_profile b =
     (let name = map_option js_trim (fst b); phone = map_option js_trim (snd b)
      in accept (if_given (sized 0 120) name \<and> if_given (sized 0 30) phone) (name, phone))"

subsection \<open>Bookings, payments, messages and reviews\<close>

record booking_body =
  bb_property :: js_string
  bb_check_in :: js_string
  bb_check_out :: js_string
  bb_guests :: rat
  bb_name :: js_string
  bb_email :: js_string
  bb_phone :: "js_string option"

text \<open>Dates are compared as texts. The three refinements are those after the object.\<close>

definition booking_dates_ok :: "millis \<Rightarrow> js_string \<Rightarrow> js_string \<Rightarrow> bool" where
  "booking_dates_ok now check_in check_out \<longleftrightarrow>
     str_less check_in check_out \<and> \<not> str_less check_in (iso_date (day_of_ms now)) \<and>
     \<not> str_less (iso_date (in_twelve_months (day_of_ms now))) check_in"

definition parse_create_booking :: "formats \<Rightarrow> millis \<Rightarrow> booking_body \<Rightarrow> booking_body option" where
  "parse_create_booking fm now b =
     (let name = js_trim (bb_name b); email = to_lower (js_trim (bb_email b)); phone = map_option js_trim (bb_phone b)
      in accept (fm_uuid fm (bb_property b) \<and> iso_shaped (bb_check_in b) \<and> iso_shaped (bb_check_out b) \<and>
           whole_within 1 50 (bb_guests b) \<and> sized 1 200 name \<and> fm_email fm email \<and> if_given (sized 0 30) phone \<and>
           booking_dates_ok now (bb_check_in b) (bb_check_out b))
         (b\<lparr>bb_name := name, bb_email := email, bb_phone := phone\<rparr>))"

text \<open>The argument of \<open>createBooking\<close>, for texts that name dates; guest and key come from the session and a header.\<close>

definition booking_input_of :: "booking_body \<Rightarrow> booking_input option" where
  "booking_input_of b =
     (case (real_date (bb_check_in b), real_date (bb_check_out b)) of
        (Some a, Some c) \<Rightarrow>
          Some \<lparr>bi_property = bb_property b, bi_guest = [], bi_check_in = a, bi_check_out = c, bi_guests = bb_guests b,
            bi_guest_name = bb_name b, bi_guest_email = bb_email b, bi_guest_phone = bb_phone b, bi_key = []\<rparr>
      | _ \<Rightarrow> None)"

definition parse_cancel :: "js_string option \<Rightarrow> js_string option option" where
  "parse_cancel reason = (let r = map_option js_trim reason in accept (if_given (sized 0 500) r) r)"

text \<open>A body with the identifier of a booking, a property or a calendar, or an identifier alone.\<close>

definition parse_uuid :: "formats \<Rightarrow> js_string \<Rightarrow> uuid option" where
  "parse_uuid fm i = accept (fm_uuid fm i) i"

record refund_body =
  fb_booking :: js_string
  fb_amount :: rat
  fb_reason :: js_string

definition refund_reason_named :: "js_string \<Rightarrow> refund_reason option" where
  "refund_reason_named t =
     (if t = ''admin_goodwill'' then Some Admin_goodwill else if t = ''dispute'' then Some Dispute_refund
      else if t = ''host_cancellation'' then Some Host_cancellation
      else if t = ''pricing_error'' then Some Pricing_error else None)"

definition parse_admin_refund :: "formats \<Rightarrow> refund_body \<Rightarrow> refund_request option" where
  "parse_admin_refund fm b =
     (case refund_reason_named (fb_reason b) of
        None \<Rightarrow> None
      | Some r \<Rightarrow> accept (fm_uuid fm (fb_booking b) \<and> whole (fb_amount b) \<and> 0 < fb_amount b)
          \<lparr>rq_booking = fb_booking b, rq_amount = \<lfloor>fb_amount b\<rfloor>, rq_reason = r\<rparr>)"

definition parse_message :: "formats \<Rightarrow> js_string \<times> js_string option \<Rightarrow> (js_string \<times> js_string option) option" where
  "parse_message fm b =
     (let t = js_trim (fst b) in accept (sized 1 5000 t \<and> if_given (fm_url fm) (snd b)) (t, snd b))"

record review_body =
  vb_overall :: rat
  vb_scores :: "rat option list"
  vb_text :: "js_string option"

text \<open>The five optional scores are one list, in the order of the schema's fields.\<close>

definition parse_review :: "review_body \<Rightarrow> review_input option" where
  "parse_review b =
     (let t = map_option js_trim (vb_text b)
      in accept (whole_within 1 5 (vb_overall b) \<and> length (vb_scores b) = 5 \<and>
           list_all (if_given (whole_within 1 5)) (vb_scores b) \<and> if_given (sized 0 3000) t)
         \<lparr>ri_booking_id = [], ri_guest = [], ri_overall = \<lfloor>vb_overall b\<rfloor>, ri_scores = map (map_option floor) (vb_scores b),
          ri_body = t\<rparr>)"

definition parse_reply_text :: "js_string \<Rightarrow> js_string option" where
  "parse_reply_text t = (let r = js_trim t in accept (sized 1 2000 r) r)"

subsection \<open>Search and the concierge\<close>

record search_body =
  sb_city :: "js_string option"
  sb_district :: "js_string option"
  sb_guests :: "rat option"
  sb_check_in :: "js_string option"
  sb_check_out :: "js_string option"

text \<open>An empty date text does not match the pattern, so the refinement's falsy case is that of absent dates.\<close>

definition parse_search :: "search_body \<Rightarrow> search_body option" where
  "parse_search b =
     (let city = map_option js_trim (sb_city b); district = map_option js_trim (sb_district b)
      in accept (if_given (sized 1 100) city \<and> if_given (sized 1 100) district \<and>
           if_given (whole_within 1 50) (sb_guests b) \<and> if_given iso_shaped (sb_check_in b) \<and>
           if_given iso_shaped (sb_check_out b) \<and> (sb_check_in b = None \<longleftrightarrow> sb_check_out b = None) \<and>
           (case (sb_check_in b, sb_check_out b) of (Some a, Some c) \<Rightarrow> a = [] \<or> c = [] \<or> str_less a c | _ \<Rightarrow> True))
         (b\<lparr>sb_city := city, sb_district := district\<rparr>))"

definition search_query_of :: "search_body \<Rightarrow> search_query option" where
  "search_query_of b =
     (let q = \<lparr>sq_city = sb_city b, sq_district = sb_district b, sq_guests = map_option floor (sb_guests b), sq_dates = None\<rparr>
      in case (sb_check_in b, sb_check_out b) of
           (Some a, Some c) \<Rightarrow>
             (case (real_date a, real_date c) of (Some d, Some e) \<Rightarrow> Some (q\<lparr>sq_dates := Some (d, e)\<rparr>) | _ \<Rightarrow> None)
         | _ \<Rightarrow> Some q)"

definition concierge_locales :: "js_string list" where
  "concierge_locales = [''en'', ''de'', ''fr'', ''es'', ''it'', ''nl'']"

definition parse_question :: "js_string \<Rightarrow> js_string option \<Rightarrow> search_body \<Rightarrow> (js_string \<times> js_string \<times> search_body) option" where
  "parse_question text locale b =
     (let t = js_trim text; l = (case locale of None \<Rightarrow> ''en'' | Some l \<Rightarrow> l)
      in case parse_search b of None \<Rightarrow> None | Some s \<Rightarrow> accept (sized 2 600 t \<and> l \<in> set concierge_locales) (t, l, s))"

subsection \<open>Properties\<close>

text \<open>A coordinate as sent: an empty text is read as null.\<close>

datatype coordinate = No_text | Null_sent | Degrees rat

record property_body =
  pb_name :: "js_string option"
  pb_type :: "js_string option"
  pb_description :: "js_string option"
  pb_city :: "js_string option"
  pb_district :: "js_string option"
  pb_country :: "js_string option"
  pb_max_guests :: "rat option"
  pb_bedrooms :: "rat option"
  pb_bathrooms :: "rat option"
  pb_nightly :: "rat option"
  pb_cleaning :: "rat option"
  pb_min_stay :: "rat option"
  pb_max_stay :: "rat option"
  pb_policy :: "js_string option option"
  pb_address1 :: "js_string option"
  pb_address2 :: "js_string option"
  pb_town :: "js_string option"
  pb_county :: "js_string option"
  pb_postcode :: "js_string option"
  pb_latitude :: "coordinate option"
  pb_longitude :: "coordinate option"
  pb_currency :: "js_string option"
  pb_check_in :: "js_string option"
  pb_check_out :: "js_string option"
  pb_rules :: "js_string option"
  pb_status :: "js_string option"
  pb_amenities :: "js_string list option"

definition time_pattern :: "js_string \<Rightarrow> bool" where
  "time_pattern t \<longleftrightarrow>
     (case t of
        [a, b, x, c, d] \<Rightarrow>
          ((a = CHR ''0'' \<or> a = CHR ''1'') \<and> is_digit b \<or> a = CHR ''2'' \<and> b \<in> {CHR ''0'', CHR ''1'', CHR ''2'', CHR ''3''}) \<and>
          x = CHR '':'' \<and> is_digit c \<and> digit_value c \<le> 5 \<and> is_digit d
      | _ \<Rightarrow> False)"

abbreviation trimmed :: "js_string option \<Rightarrow> js_string option" where
  "trimmed \<equiv> map_option js_trim"

text \<open>The preprocessing of an empty text as an absent field.\<close>

definition unless_empty :: "js_string option \<Rightarrow> js_string option" where
  "unless_empty v = (if v = Some [] then None else v)"

definition coordinate_value :: "coordinate \<Rightarrow> rat option" where
  "coordinate_value c = (case c of Degrees q \<Rightarrow> Some q | _ \<Rightarrow> None)"

definition status_named :: "js_string \<Rightarrow> property_status option" where
  "status_named t = (if t = ''draft'' then Some Prop_draft else if t = ''published'' then Some Prop_published
     else if t = ''paused'' then Some Prop_paused else None)"

text \<open>The transformations of the fields, then their checks.\<close>

definition property_input_of :: "property_body \<Rightarrow> property_input" where
  "property_input_of b =
     \<lparr>pi_name = trimmed (pb_name b), pi_type = trimmed (unless_empty (pb_type b)), pi_description = trimmed (pb_description b),
      pi_city = trimmed (pb_city b), pi_district = trimmed (pb_district b), pi_country = trimmed (unless_empty (pb_country b)),
      pi_max_guests = map_option floor (pb_max_guests b), pi_bedrooms = map_option floor (pb_bedrooms b),
      pi_bathrooms = pb_bathrooms b, pi_nightly = pb_nightly b, pi_cleaning = pb_cleaning b,
      pi_currency = trimmed (unless_empty (pb_currency b)), pi_min_stay = map_option floor (pb_min_stay b),
      pi_max_stay = map_option floor (pb_max_stay b),
      pi_policy = (if pb_policy b = Some (Some []) then None else pb_policy b), pi_address1 = trimmed (pb_address1 b),
      pi_address2 = trimmed (pb_address2 b), pi_town = trimmed (pb_town b), pi_county = trimmed (pb_county b),
      pi_postcode = map_option (to_upper \<circ> js_trim) (pb_postcode b),
      pi_latitude = map_option coordinate_value (pb_latitude b), pi_longitude = map_option coordinate_value (pb_longitude b),
      pi_check_in = map_option (take 5) (pb_check_in b), pi_check_out = map_option (take 5) (pb_check_out b),
      pi_rules = trimmed (pb_rules b), pi_status = Option.bind (pb_status b) status_named, pi_amenities = pb_amenities b\<rparr>"

definition property_texts_ok :: "formats \<Rightarrow> property_input \<Rightarrow> bool" where
  "property_texts_ok fm i \<longleftrightarrow>
     if_given (sized 1 200) (pi_name i) \<and> if_given (sized 1 100) (pi_type i) \<and> if_given (sized 0 5000) (pi_description i) \<and>
     if_given (sized 1 100) (pi_city i) \<and> if_given (sized 0 100) (pi_district i) \<and> if_given (sized 2 2) (pi_country i) \<and>
     (case pi_policy i of Some (Some p) \<Rightarrow> fm_uuid fm p | _ \<Rightarrow> True) \<and>
     if_given (sized 0 200) (pi_address1 i) \<and> if_given (sized 0 200) (pi_address2 i) \<and> if_given (sized 0 100) (pi_town i) \<and>
     if_given (sized 0 100) (pi_county i) \<and> if_given (sized 0 12) (pi_postcode i) \<and> if_given (sized 3 3) (pi_currency i) \<and>
     if_given time_pattern (pi_check_in i) \<and> if_given time_pattern (pi_check_out i) \<and> if_given (sized 0 5000) (pi_rules i) \<and>
     if_given (list_all (fm_uuid fm)) (pi_amenities i)"

definition property_numbers_ok :: "property_body \<Rightarrow> bool" where
  "property_numbers_ok b \<longleftrightarrow>
     if_given (\<lambda>q. whole q \<and> 1 \<le> q) (pb_max_guests b) \<and> if_given (\<lambda>q. whole q \<and> 0 \<le> q) (pb_bedrooms b) \<and>
     if_given ((\<le>) 0) (pb_bathrooms b) \<and> if_given ((<) 0) (pb_nightly b) \<and> if_given ((\<le>) 0) (pb_cleaning b) \<and>
     if_given (whole_within 1 365) (pb_min_stay b) \<and> if_given (whole_within 1 365) (pb_max_stay b) \<and>
     if_given (\<lambda>s. status_named s \<noteq> None) (pb_status b)"

definition coordinate_ok :: "rat \<Rightarrow> rat option option \<Rightarrow> bool" where
  "coordinate_ok bound v \<longleftrightarrow> if_given (if_given (\<lambda>q. - bound \<le> q \<and> q \<le> bound)) v"

definition stay_range_is_valid :: "property_input \<Rightarrow> bool" where
  "stay_range_is_valid i \<longleftrightarrow>
     (case (pi_min_stay i, pi_max_stay i) of (Some a, Some b) \<Rightarrow> a \<le> b | _ \<Rightarrow> True)"

definition location_pair_is_valid :: "property_input \<Rightarrow> bool" where
  "location_pair_is_valid i \<longleftrightarrow> (flat (pi_latitude i) = None) = (flat (pi_longitude i) = None)"

definition parse_update_property :: "formats \<Rightarrow> property_body \<Rightarrow> property_input option" where
  "parse_update_property fm b =
     (let i = property_input_of b
      in accept (property_texts_ok fm i \<and> property_numbers_ok b \<and> coordinate_ok 90 (pi_latitude i) \<and>
           coordinate_ok 180 (pi_longitude i) \<and> stay_range_is_valid i \<and> location_pair_is_valid i) i)"

definition parse_create_property :: "formats \<Rightarrow> property_body \<Rightarrow> property_input option" where
  "parse_create_property fm b =
     (if pb_name b = None \<or> pb_city b = None \<or> pb_max_guests b = None \<or> pb_bedrooms b = None \<or> pb_bathrooms b = None \<or>
         pb_nightly b = None then None
      else parse_update_property fm b)"

subsection \<open>Hosts\<close>

record onboarding_body =
  nb_country :: js_string
  nb_agreement :: bool
  nb_policies :: bool

definition parse_onboarding :: "onboarding_body \<Rightarrow> unit option" where
  "parse_onboarding b =
     (let t = js_trim (nb_country b)
      in accept (length t = 2 \<and> to_upper t = ''GB'' \<and> nb_agreement b \<and> nb_policies b) ())"

record item_body =
  ib_category :: js_string
  ib_applicability :: applicability
  ib_declared :: bool
  ib_url :: "js_string option"
  ib_ref :: "js_string option"
  ib_until :: "js_string option"
  ib_note :: "js_string option"

definition conditionally_applicable :: "js_string list" where
  "conditionally_applicable = [''gas_safety'', ''licences_permissions'']"

definition item_checks :: "formats \<Rightarrow> bool \<Rightarrow> item_body \<Rightarrow> bool" where
  "item_checks fm submit it \<longleftrightarrow>
     (ib_applicability it = Required \<or> ib_category it \<in> set conditionally_applicable) \<and>
     (\<not> submit \<or> ib_applicability it = Not_applicable \<or>
       (case fm_parse_url fm (case ib_url it of None \<Rightarrow> '''' | Some u \<Rightarrow> u) of
          None \<Rightarrow> False | Some u \<Rightarrow> url_protocol u = ''https:''))"

definition trim_item :: "item_body \<Rightarrow> item_body" where
  "trim_item it = it\<lparr>ib_url := trimmed (ib_url it), ib_ref := trimmed (ib_ref it), ib_note := trimmed (ib_note it)\<rparr>"

definition item_ok :: "item_body \<Rightarrow> bool" where
  "item_ok it \<longleftrightarrow> ib_category it \<in> set compliance_categories \<and> if_given (sized 0 2048) (ib_url it) \<and>
     if_given (sized 0 200) (ib_ref it) \<and> if_given (\<lambda>t. t = [] \<or> iso_shaped t) (ib_until it) \<and>
     if_given (sized 0 1000) (ib_note it)"

definition parse_owner_compliance :: "formats \<Rightarrow> bool option \<Rightarrow> item_body list \<Rightarrow> (item_body list \<times> bool) option" where
  "parse_owner_compliance fm submit items =
     (let its = map trim_item items; sub = (case submit of None \<Rightarrow> False | Some s \<Rightarrow> s)
      in accept (list_all item_ok its \<and> length its = 7 \<and> card (set (map ib_category its)) = 7 \<and>
           list_all (item_checks fm sub) its) (its, sub))"

text \<open>\<open>validUntil || null\<close>; a text that names no date is refused by the column's type.\<close>

definition owner_item_of :: "item_body \<Rightarrow> owner_item option" where
  "owner_item_of it =
     (let item = (\<lambda>u. \<lparr>oi_category = ib_category it, oi_applicability = ib_applicability it, oi_declared = ib_declared it,
            oi_url = ib_url it, oi_ref = ib_ref it, oi_until = u, oi_note = ib_note it\<rparr>)
      in case ib_until it of
           None \<Rightarrow> Some (item None)
         | Some t \<Rightarrow> if t = [] then Some (item None) else map_option (item \<circ> Some) (real_date t))"

definition parse_compliance_review :: "js_string \<times> js_string \<Rightarrow> (review_decision \<times> js_string) option" where
  "parse_compliance_review b =
     (let note = js_trim (snd b)
      in if fst b = ''approved'' then accept (sized 8 2000 note) (Approve, note)
         else if fst b = ''changes_required'' then accept (sized 8 2000 note) (Request_changes, note) else None)"

record availability_body =
  ab_action :: js_string
  ab_check_in :: js_string
  ab_check_out :: js_string

definition action_named :: "js_string \<Rightarrow> avail_action option" where
  "action_named t = (if t = ''block'' then Some Block else if t = ''unblock'' then Some Unblock else None)"

text \<open>The checks of \<open>superRefine\<close>: any issue refuses the body.\<close>

definition availability_dates_ok :: "day \<Rightarrow> js_string \<Rightarrow> js_string \<Rightarrow> bool" where
  "availability_dates_ok today check_in check_out \<longleftrightarrow>
     is_real_iso_date check_in \<and> is_real_iso_date check_out \<and> str_less check_in check_out \<and>
     \<not> str_less check_in (iso_date today) \<and> \<not> str_less (iso_date (in_twelve_months today)) check_out \<and>
     \<not> 366 < js_div (of_int (day_ms (the (real_date check_out)) - day_ms (the (real_date check_in)))) 86400000"

definition parse_availability :: "day \<Rightarrow> availability_body \<Rightarrow> (avail_action \<times> day \<times> day) option" where
  "parse_availability today b =
     (case action_named (ab_action b) of
        None \<Rightarrow> None
      | Some act \<Rightarrow>
          accept (iso_shaped (ab_check_in b) \<and> iso_shaped (ab_check_out b) \<and>
            availability_dates_ok today (ab_check_in b) (ab_check_out b))
          (act, the (real_date (ab_check_in b)), the (real_date (ab_check_out b))))"

subsection \<open>Imported calendars\<close>

definition standard_https :: "formats \<Rightarrow> js_string \<Rightarrow> bool" where
  "standard_https fm t \<longleftrightarrow>
     (case fm_parse_url fm t of
        None \<Rightarrow> False
      | Some u \<Rightarrow> url_protocol u = ''https:'' \<and> url_username u = [] \<and> url_password u = [] \<and>
          (url_port u = [] \<or> url_port u = ''443''))"

definition parse_calendar_feed :: "formats \<Rightarrow> js_string \<times> js_string \<Rightarrow> (js_string \<times> js_string) option" where
  "parse_calendar_feed fm b =
     (let name = js_trim (fst b); u = js_trim (snd b)
      in accept (sized 1 120 name \<and> fm_url fm u \<and> length u \<le> 4000 \<and> standard_https fm u) (name, u))"

subsection \<open>The booking form in the browser\<close>

record booking_form =
  bf_check_in :: js_string
  bf_check_out :: js_string
  bf_guests :: rat
  bf_max_guests :: rat
  bf_name :: js_string
  bf_email :: js_string

datatype form_error =
  Select_check_in | Select_check_out | Check_out_first | One_guest | Up_to_guests rat | Enter_name | Enter_email

definition validate_booking_form :: "booking_form \<Rightarrow> form_error option" where
  "validate_booking_form f =
     (if bf_check_in f = [] then Some Select_check_in
      else if bf_check_out f = [] then Some Select_check_out
      else if \<not> str_less (bf_check_in f) (bf_check_out f) then Some Check_out_first
      else if bf_guests f < 1 then Some One_guest
      else if bf_max_guests f < bf_guests f then Some (Up_to_guests (bf_max_guests f))
      else if js_trim (bf_name f) = [] then Some Enter_name
      else if js_trim (bf_email f) = [] then Some Enter_email
      else None)"

end
