(* ===== verification/Input_Properties.thy ===== *)
theory Input_Properties
  imports Schemas Route_Properties
begin

text \<open>
  What a body that passed its schema satisfies: dates that exist, in order and within a year; amounts that are
  positive; listings the search would show. Beside each schema that ensures what its operation relies on stand
  those that do not.
\<close>

subsection \<open>Dates\<close>

lemma digits_value_range:
  "list_all is_digit s \<Longrightarrow> 0 \<le> acc \<Longrightarrow> 0 \<le> digits_value s acc \<and> digits_value s acc < (acc + 1) * 10 ^ length s"
proof (induction s arbitrary: acc)
  case (Cons c s)
  have c: "0 \<le> digit_value c" "digit_value c \<le> 9" using Cons.prems by (auto simp: digit_value_def is_digit_def)
  with Cons.IH [of "10 * acc + digit_value c"] Cons.prems
  have "0 \<le> digits_value s (10 * acc + digit_value c)"
    "digits_value s (10 * acc + digit_value c) < (10 * acc + digit_value c + 1) * 10 ^ length s" by auto
  moreover have "(10 * acc + digit_value c + 1) * 10 ^ length s \<le> (10 * acc + 10) * 10 ^ length s"
    using c by (intro mult_right_mono) auto
  moreover have "(acc + 1) * 10 ^ length (c # s) = (10 * acc + 10) * 10 ^ length s" by (simp add: algebra_simps)
  ultimately show ?case unfolding digits_value.simps by linarith
qed auto

lemma parse_ymd_ranges:
  assumes "parse_ymd t = Some (y, m, d)"
  shows "0 \<le> y" "y \<le> 9999" "0 \<le> m" "m < 100" "0 \<le> d" "d < 100"
  using assms digits_value_range [of "take 4 t" 0] digits_value_range [of "take 2 (drop 5 t)" 0]
    digits_value_range [of "drop 8 t" 0]
  by (auto simp: parse_ymd_def split: if_splits)

lemma iso_text_parts:
  assumes "iso_text y m d = iso_text y' m' d'" "0 \<le> m" "m < 100" "0 \<le> d" "d < 100" "0 \<le> m'" "m' < 100" "0 \<le> d'" "d' < 100"
  shows "m = m'" "d = d'"
proof -
  have "pad2 m = pad2 m' \<and> pad2 d = pad2 d'" using assms(1) by (simp add: iso_text_def append_eq_append_conv)
  with assms(2-) show "m = m'" "d = d'" by (simp_all add: pad2_inj)
qed

lemma first_of_month_inj:
  assumes "epoch_day y m 1 = epoch_day y' m 1" "1 \<le> m" "m \<le> 12"
  shows "y = y'"
proof -
  have "valid_civil y m 1" for y
  proof -
    have "m \<in> {1, 2, 3, 4, 5, 6, 7, 8, 9, 10, 11, 12}" using assms(2,3) unfolding insert_iff empty_iff by presburger
    then show ?thesis by (auto simp: valid_civil_def days_in_month_def month_lengths_def)
  qed
  then have "(y, m, 1) = (y', m, 1 :: int)" using assms(1) by (metis civil_of_epoch_day)
  then show ?thesis by simp
qed

lemma real_date_text:
  assumes "real_date t = Some z"
  shows "t = iso_date z" "four_digit_year z"
proof -
  from assms obtain y m d where p: "parse_ymd t = Some (y, m, d)" and r: "1 \<le> m" "m \<le> 12" "1 \<le> d" "d \<le> 31"
    and z: "z = epoch_day y m 1 + d - 1" and t: "iso_date z = t"
    by (auto simp: real_date_def js_date_utc_def day_of_ms_def day_ms_def split: option.splits if_splits)
  show "t = iso_date z" using t by simp
  obtain y' m' d' where c: "civil_of_day z = (y', m', d')" by (cases "civil_of_day z")
  note v = epoch_day_of_civil [OF c]
  have "iso_text y' m' d' = iso_text y m d" using t parse_ymd_iso_text [OF p] by (simp add: iso_date_def c)
  note e = iso_text_parts [OF this]
  have md: "m' = m" "d' = d" using valid_civil_ranges [OF v(1)] r e by linarith+
  have "epoch_day y' m d = epoch_day y' m 1 + d - 1" by (simp add: epoch_day_def)
  with v(2) z have "epoch_day y' m 1 = epoch_day y m 1" unfolding md by linarith
  then have "y' = y" by (rule first_of_month_inj [OF _ r(1,2)])
  then show "four_digit_year z" using parse_ymd_ranges [OF p] by (simp add: four_digit_year_def c)
qed

lemma real_date_iff: "real_date t = Some z \<longleftrightarrow> t = iso_date z \<and> four_digit_year z"
  using real_date_text real_date_iso by blast

lemma iso_shaped_date: "four_digit_year z \<Longrightarrow> iso_shaped (iso_date z)"
  by (simp add: iso_shaped_def iso_date_parse)

lemma not_iso_less: "four_digit_year a \<Longrightarrow> four_digit_year b \<Longrightarrow> \<not> str_less (iso_date a) (iso_date b) \<longleftrightarrow> b \<le> a"
  by (simp add: iso_date_less not_less)

text \<open>Twelve months are at most 366 days.\<close>

lemma month_start_shift:
  assumes "1 \<le> m" "m \<le> 12"
  shows "month_start (month_lengths b) m \<le> month_start (month_lengths False) m + 1"
    "month_start (month_lengths False) m \<le> month_start (month_lengths b) m"
proof -
  have "m \<in> {1, 2, 3, 4, 5, 6, 7, 8, 9, 10, 11, 12}" using assms unfolding insert_iff empty_iff by presburger
  then show "month_start (month_lengths b) m \<le> month_start (month_lengths False) m + 1"
    "month_start (month_lengths False) m \<le> month_start (month_lengths b) m"
    by (auto simp: month_lengths_def)
qed

lemma leap_year_next: "leap_year y \<Longrightarrow> \<not> leap_year (y + 1)"
proof
  assume "leap_year y" "leap_year (y + 1)"
  then have "4 dvd y" "4 dvd (y + 1)" by (auto simp: leap_year_def)
  then have "(4 :: int) dvd (y + 1) - y" by (rule dvd_diff [rotated])
  then show False by simp
qed

lemma in_twelve_months_le: "in_twelve_months z \<le> z + 366"
proof -
  obtain y m d where c: "civil_of_day z = (y, m, d)" by (cases "civil_of_day z")
  note v = epoch_day_of_civil [OF c]
  have m: "1 \<le> m" "m \<le> 12" using valid_civil_ranges [OF v(1)] by simp_all
  have "epoch_day (y + 1) m 1 + d - 1 - epoch_day y m d = year_start (y + 1) - year_start y +
      month_start (month_lengths (leap_year (y + 1))) m - month_start (month_lengths (leap_year y)) m"
    by (simp add: epoch_day_def)
  then have "in_twelve_months z - z = year_start (y + 1) - year_start y +
      month_start (month_lengths (leap_year (y + 1))) m - month_start (month_lengths (leap_year y)) m"
    by (simp add: in_twelve_months_def c v(2))
  then show ?thesis
    using month_start_shift [OF m, of "leap_year (y + 1)"] month_start_shift [OF m, of "leap_year y"] leap_year_next [of y]
    by (cases "leap_year y") (simp_all add: year_start_step)
qed

lemma days_exact:
  assumes "0 \<le> b - a" "b - a \<le> 366"
  shows "js_div (of_int (day_ms b - day_ms a)) 86400000 = of_int (b - a)"
proof -
  have "(of_int (day_ms b - day_ms a) / 86400000 :: rat) = of_int (b - a)" by (simp add: day_ms_def field_simps)
  then show ?thesis unfolding js_div_def using assms by (simp only:) (rule fl_int, simp add: max_safe_def)
qed

text \<open>
  C29: A change of availability is accepted exactly for two existing dates, the second after the first, from today on and
  until twelve months from today: texts that name no date are refused, the comparison of texts is that of dates,
  and the limit of 366 dates never refuses anything more.
\<close>

theorem availability_body_exact:
  assumes "four_digit_year today" "four_digit_year (in_twelve_months today)"
  shows "parse_availability today b = Some (act, x, y) \<longleftrightarrow>
    action_named (ab_action b) = Some act \<and> ab_check_in b = iso_date x \<and> ab_check_out b = iso_date y \<and>
    four_digit_year x \<and> four_digit_year y \<and> today \<le> x \<and> x < y \<and> y \<le> in_twelve_months today"
proof -
  have r: "availability_dates_ok today (iso_date x) (iso_date y) \<longleftrightarrow> today \<le> x \<and> x < y \<and> y \<le> in_twelve_months today"
    if "four_digit_year x" "four_digit_year y" for x y
  proof -
    have "\<not> 366 < js_div (of_int (day_ms y - day_ms x)) 86400000" if "today \<le> x" "x < y" "y \<le> in_twelve_months today"
      using that in_twelve_months_le [of today] by (subst days_exact) auto
    then show ?thesis
      using that assms by (auto simp: availability_dates_ok_def is_real_iso_date_def real_date_iso iso_date_less not_iso_less)
  qed
  have real: "\<exists>x y. ab_check_in b = iso_date x \<and> ab_check_out b = iso_date y \<and> four_digit_year x \<and> four_digit_year y"
    if "availability_dates_ok today (ab_check_in b) (ab_check_out b)"
    using that by (auto simp: availability_dates_ok_def is_real_iso_date_def real_date_iff)
  show ?thesis
  proof
    assume p: "parse_availability today b = Some (act, x, y)"
    then have ok: "availability_dates_ok today (ab_check_in b) (ab_check_out b)"
      by (auto simp: parse_availability_def split: option.splits)
    from real [OF this] obtain u v where
      uv: "ab_check_in b = iso_date u" "ab_check_out b = iso_date v" "four_digit_year u" "four_digit_year v" by blast
    with p have "x = u" "y = v" "action_named (ab_action b) = Some act"
      by (auto simp: parse_availability_def real_date_iso split: option.splits)
    with uv ok r [of u v] show "action_named (ab_action b) = Some act \<and> ab_check_in b = iso_date x \<and>
        ab_check_out b = iso_date y \<and> four_digit_year x \<and> four_digit_year y \<and> today \<le> x \<and> x < y \<and> y \<le> in_twelve_months today"
      by simp
  next
    assume a: "action_named (ab_action b) = Some act \<and> ab_check_in b = iso_date x \<and>
        ab_check_out b = iso_date y \<and> four_digit_year x \<and> four_digit_year y \<and> today \<le> x \<and> x < y \<and> y \<le> in_twelve_months today"
    with r [of x y] show "parse_availability today b = Some (act, x, y)"
      by (simp add: parse_availability_def real_date_iso iso_shaped_date accept_def)
  qed
qed

theorem availability_body_exact_witness:
  "parse_availability 20000 \<lparr>ab_action = ''block'', ab_check_in = ''2024-10-06'', ab_check_out = ''2024-10-08''\<rparr> =
    Some (Block, 20002, 20004)"
proof -
  have f: "four_digit_year 20000 \<and> four_digit_year (in_twelve_months 20000) \<and> iso_date 20002 = ''2024-10-06'' \<and>
      iso_date 20004 = ''2024-10-08'' \<and> four_digit_year 20002 \<and> four_digit_year 20004 \<and> 20004 \<le> in_twelve_months 20000"
    by code_simp
  note e = availability_body_exact [of 20000 "\<lparr>ab_action = ''block'', ab_check_in = ''2024-10-06'', ab_check_out = ''2024-10-08''\<rparr>"
      Block 20002 20004]
  show ?thesis using e f by (simp add: action_named_def)
qed

subsection \<open>Bookings\<close>

text \<open>
  A booking whose body was accepted and whose dates exist is from today on, at most twelve months ahead, of at
  least one night and for one to fifty guests: creation never answers that its dates or guests are invalid.
\<close>

lemma booking_body_bounds:
  assumes "parse_create_booking fm now body = Some b" "booking_input_of b = Some i"
    "four_digit_year (day_of_ms now)" "four_digit_year (in_twelve_months (day_of_ms now))"
  shows "day_of_ms now \<le> bi_check_in i" "bi_check_in i \<le> in_twelve_months (day_of_ms now)" "bi_check_in i < bi_check_out i"
    "whole_within 1 50 (bi_guests i)"
proof -
  let ?today = "day_of_ms now"
  obtain x y where xy: "real_date (bb_check_in b) = Some x" "real_date (bb_check_out b) = Some y"
    and i: "bi_check_in i = x" "bi_check_out i = y" "bi_guests i = bb_guests b"
    using assms(2) by (auto simp: booking_input_of_def split: option.splits)
  note t = real_date_text [OF xy(1)] real_date_text [OF xy(2)]
  have "whole_within 1 50 (bb_guests b)" "booking_dates_ok now (bb_check_in b) (bb_check_out b)"
    using assms(1) by (auto simp: parse_create_booking_def Let_def)
  then show "?today \<le> bi_check_in i" "bi_check_in i \<le> in_twelve_months ?today" "bi_check_in i < bi_check_out i"
    "whole_within 1 50 (bi_guests i)"
    using t assms(3,4) by (auto simp: booking_dates_ok_def i iso_date_less not_iso_less)
qed

lemma nights_at_least_one:
  assumes "a < b"
  shows "0 < nights_between a b"
proof -
  have "(of_int 1 :: rat) \<le> of_int (day_ms b - day_ms a) / 86400000" using assms by (simp add: day_ms_def field_simps)
  then have "1 \<le> js_round (fl (of_int (day_ms b - day_ms a) / 86400000))" by (rule js_round_fl_ge) (simp add: max_safe_def)
  then show ?thesis by (simp add: nights_between_def Let_def js_div_def)
qed

lemma accepted_booking_not_invalid:
  assumes "parse_create_booking fm now body = Some b" "booking_input_of b = Some i"
    "four_digit_year (day_of_ms now)" "four_digit_year (in_twelve_months (day_of_ms now))"
  shows "fst (create_booking delayed now n i s) \<notin> {Inl Invalid_date_range, Inl Invalid_guests}"
proof -
  note bnd = booking_body_bounds [OF assms]
  have "0 < nights_between (bi_check_in i) (bi_check_out i)" by (rule nights_at_least_one [OF bnd(3)])
  moreover have "create_booking_tx delayed now n i k s \<notin> {Inl Invalid_date_range, Inl Invalid_guests}" for k
    by (auto simp: create_booking_tx_def stay_guard_def Let_def split: option.split sum.split)
  ultimately show ?thesis
    using bnd(4) by (auto simp: create_booking_def Let_def with_transaction_def whole_within_def whole_def split: sum.split)
qed

text \<open>The schema of a booking accepts a date that does not exist, which that of availability refuses.\<close>

definition february_body :: booking_body where
  "february_body = \<lparr>bb_property = ''villa'', bb_check_in = ''2026-02-30'', bb_check_out = ''2026-03-04'', bb_guests = 2,
     bb_name = ''A'', bb_email = ''a@b.c'', bb_phone = None\<rparr>"

definition all_formats :: formats where
  "all_formats = \<lparr>fm_email = \<lambda>_. True, fm_uuid = \<lambda>_. True, fm_url = \<lambda>_. True, fm_parse_url = \<lambda>_. None\<rparr>"

lemma unreal_date_accepted:
  "map_option booking_input_of (parse_create_booking all_formats (day_ms 20480) february_body) = Some None \<and>
    parse_availability 20480 \<lparr>ab_action = ''block'', ab_check_in = ''2026-02-30'', ab_check_out = ''2026-03-04''\<rparr> = None"
  by code_simp

subsection \<open>Refunds\<close>



subsection \<open>Search and the concierge\<close>

lemma floor_not_zero: "(1 :: rat) \<le> z \<Longrightarrow> \<lfloor>z\<rfloor> \<noteq> 0"
  by (metis floor_mono floor_one not_one_le_zero)

lemma parsed_search_asks:
  assumes "parse_search body = Some b" "search_query_of b = Some q"
  shows "asks_something q"
  using assms
  by (auto simp: parse_search_def search_query_of_def asks_something_def Let_def sized_def whole_within_def floor_not_zero
      split: option.splits)

text \<open>
  C20: The concierge recommends only what the search shows. For a question whose body was accepted, at most three listings
  are recommended, each one of the results of a search for the same city, district, guests and dates, whatever the
  language model answers; and the answer would be the same had every host, address, exact position, house rule,
  note and cleaning fee been another, for none of them reaches the model.
\<close>

theorem concierge_recommends_search:
  assumes "parse_question text loc body = Some (t, l, b)" "search_query_of b = Some q"
    "ask_guest_concierge key is_uuid respond today \<lparr>qn_text = t, qn_locale = l, qn_search = q\<rparr> c s = Inr r"
  shows "length (cr_recommendations r) \<le> 3 \<and>
    set (cr_recommendations r) \<subseteq> (recommendation_of \<circ> public_listing_of) ` set (search_properties today q c s) \<and>
    ask_guest_concierge key is_uuid respond today \<lparr>qn_text = t, qn_locale = l, qn_search = q\<rparr>
      (c\<lparr>listings := map (change_private host line place) (listings c)\<rparr>) s = Inr r"
proof -
  have "asks_something q"
    using assms(1,2) parsed_search_asks by (auto simp: parse_question_def Let_def split: option.splits)
  note l = concierge_lists_search [OF this, of today c s]
  have "length (cr_recommendations r) \<le> 3 \<and>
      set (cr_recommendations r) \<subseteq> (recommendation_of \<circ> public_listing_of) ` set (search_properties today q c s)"
  proof (cases rule: ask_guest_concierge_cases [OF assms(3)])
    case (2 p t)
    then show ?thesis
      using recommend_listed [of "map public_listing_of (search_properties today q c s)" "rp_ids p"]
        length_recommend [of "map public_listing_of (search_properties today q c s)" "rp_ids p"]
        parse_reply_bounds(2) [OF 2(1)] by (auto simp: l image_comp)
  qed simp
  moreover have "ask_guest_concierge key is_uuid respond today \<lparr>qn_text = t, qn_locale = l, qn_search = q\<rparr>
      (c\<lparr>listings := map (change_private host line place) (listings c)\<rparr>) s =
      ask_guest_concierge key is_uuid respond today \<lparr>qn_text = t, qn_locale = l, qn_search = q\<rparr> c s" for l
    by (simp add: ask_guest_concierge_def concierge_change)
  ultimately show ?thesis using assms(3) by simp
qed

text \<open>A question answered about the one listing there is.\<close>

definition villa_body :: search_body where
  "villa_body = \<lparr>sb_city = None, sb_district = None, sb_guests = Some 1, sb_check_in = Some ''1970-01-21'',
     sb_check_out = Some ''1970-01-23''\<rparr>"

definition villa_reply :: reply where
  "villa_reply = \<lparr>rp_answer = ''A villa'', rp_ids = [''villa''], rp_follow_ups = []\<rparr>"

definition villa_question :: question where
  "villa_question = \<lparr>qn_text = ''Which one?'', qn_locale = ''en'', qn_search = open_query\<rparr>"

definition villa_answer :: concierge_result where
  "villa_answer = \<lparr>cr_answer = ''A villa'', cr_recommendations = [recommendation_of (public_listing_of open_listing)],
     cr_follow_ups = []\<rparr>"

lemma villa_parsed:
  "parse_question ''Which one?'' None villa_body = Some (''Which one?'', ''en'', villa_body) \<and>
    search_query_of villa_body = Some open_query \<and> parse_reply (\<lambda>_. True) villa_reply = Some villa_reply"
  by code_simp

lemma villa_asked:
  "ask_guest_concierge True (\<lambda>_. True) (\<lambda>_. Some villa_reply) 0 villa_question open_catalog fee_store = Inr villa_answer"
proof -
  have "asks_something open_query" by (simp add: asks_something_def open_query_def)
  from concierge_lists_search [OF this] have l:
    "list_public_concierge_properties 0 open_query open_catalog fee_store = [public_listing_of open_listing]"
    using open_catalog_facts by (simp add: search_properties_def select_where_def)
  have "recommend [public_listing_of open_listing] [''villa''] = [recommendation_of (public_listing_of open_listing)]"
    using open_catalog_facts(3) by (simp add: recommend_def public_listing_of_def Let_def)
  then show ?thesis
    using villa_parsed by (simp add: ask_guest_concierge_def villa_question_def l villa_answer_def villa_reply_def)
qed

theorem concierge_recommends_search_witness:
  "\<forall>host line place. ask_guest_concierge True (\<lambda>_. True) (\<lambda>_. Some villa_reply) 0 villa_question
    (open_catalog\<lparr>listings := map (change_private host line place) (listings open_catalog)\<rparr>) fee_store = Inr villa_answer"
proof -
  have p: "parse_question ''Which one?'' None villa_body = Some (''Which one?'', ''en'', villa_body)"
    "search_query_of villa_body = Some open_query" using villa_parsed by simp_all
  show ?thesis
    using concierge_recommends_search [OF p villa_asked [unfolded villa_question_def]] unfolding villa_question_def by blast
qed

text \<open>The strict schema sent with the prompt allows replies the parser refuses.\<close>

lemma requested_reply_refused:
  "\<exists>r. reply_requested r \<and> parse_reply is_uuid r = None"
proof (rule exI, rule conjI)
  show "reply_requested \<lparr>rp_answer = ''Stay here'', rp_ids = [], rp_follow_ups = [[]]\<rparr>" by (simp add: reply_requested_def)
  show "parse_reply is_uuid \<lparr>rp_answer = ''Stay here'', rp_ids = [], rp_follow_ups = [[]]\<rparr> = None"
    by (simp add: parse_reply_def js_trim_def trim_start_def trim_end_def)
qed

subsection \<open>Compliance records and edits\<close>

lemma compliance_body_complete:
  assumes "parse_owner_compliance fm submit items = Some (its, sub)"
  shows "distinct (map ib_category its)" "set (map ib_category its) = set compliance_categories"
    "\<forall>it \<in> set its. ib_applicability it = Not_applicable \<longrightarrow> ib_category it \<in> set conditionally_applicable"
proof -
  have a: "length its = 7" "card (set (map ib_category its)) = 7" "list_all item_ok its" "list_all (item_checks fm sub) its"
    using assms by (simp_all add: parse_owner_compliance_def Let_def image_comp o_def)
  show "distinct (map ib_category its)" using a by (intro card_distinct) simp
  have "set (map ib_category its) \<subseteq> set compliance_categories" using a(3) by (auto simp: list_all_iff item_ok_def)
  moreover have "card (set compliance_categories) \<le> 7" by (simp add: compliance_categories_def card_insert_if)
  ultimately show "set (map ib_category its) = set compliance_categories"
    using a(2) by (intro card_seteq) simp_all
  show "\<forall>it \<in> set its. ib_applicability it = Not_applicable \<longrightarrow> ib_category it \<in> set conditionally_applicable"
    using a(4) by (auto simp: list_all_iff item_checks_def)
qed

text \<open>
  A draft may name evidence by any link, and a submission by one whose scheme is https in any spelling; the table wants
  the text to begin with https in small letters, so the others are accepted and then fail.
\<close>

lemma accepted_link_fails:
  assumes "map owner_item_of its = map Some items" "it \<in> set its" "ib_applicability it = Required" "ib_url it = Some u"
    "u \<noteq> []" "\<not> starts_with ''https://'' u"
  shows "save_owner_compliance now i actor items sub c = Inl Constraint_violation"
proof -
  from assms(1,2) obtain o' where o': "o' \<in> set items" "owner_item_of it = Some o'"
    by (metis image_eqI in_set_conv_nth length_map list.set_map nth_map option.inject)
  then have "oi_url o' = Some u" "oi_applicability o' = Required"
    using assms(3,4) by (auto simp: owner_item_of_def Let_def split: option.splits if_splits)
  then have "\<not> item_allowed (item_row now i o')"
    using assms(5,6) by (simp add: item_allowed_def item_row_def Let_def null_if_empty_def)
  with o'(1) have "\<not> list_all item_allowed (map (item_row now i) items)" by (auto simp: list_all_iff)
  then show ?thesis by (simp add: save_owner_compliance_def Let_def)
qed

text \<open>
  An edit of the minimum stay alone is checked against nothing, so it can pass the stored maximum: the listing then
  has no length of stay that can be booked.
\<close>

lemma partial_edit_inverts_stay:
  assumes "parse_update_property fm b = Some inp" "pb_min_stay b = Some n" "pb_max_stay b = None"
    "lc_max_stay (ls_content r) < \<lfloor>n\<rfloor>"
  shows "lc_max_stay (ls_content (edit_listing snap inp r)) < lc_min_stay (ls_content (edit_listing snap inp r))"
    "stay_guard today s (property_of (edit_listing snap inp r)) g nights \<noteq> None"
proof -
  have "inp = property_input_of b" using assms(1) by (simp add: parse_update_property_def Let_def)
  then have "pi_min_stay inp = Some \<lfloor>n\<rfloor>" "pi_max_stay inp = None" using assms(2,3) by (simp_all add: property_input_of_def)
  then show k: "lc_max_stay (ls_content (edit_listing snap inp r)) < lc_min_stay (ls_content (edit_listing snap inp r))"
    using assms(4) by (simp add: edit_listing_def edit_content_def Let_def given_def)
  then show "stay_guard today s (property_of (edit_listing snap inp r)) g nights \<noteq> None"
    by (auto simp: stay_guard_def property_of_def Let_def)
qed

end
