(* ===== verification/Pages.thy ===== *)
theory Pages
  imports Schemas Messages Charge_Timing
begin

text \<open>
  The logic of the pages that is not layout: lists of trips and of a host's bookings, the calendar, the booking form
  and its retry, the favourite button, the page a checkout returns to, where a sign-in may lead, texts of dates and
  states (lib/booking, lib/presentation, lib/i18n/config.ts, components, app), the configuration flags
  (lib/config) and the two public forms (app/api/contact, app/api/newsletter).
\<close>

subsection \<open>Lists of bookings\<close>

text \<open>A trip is read through its status and its check-in, the instant \<open>new Date(checkIn)\<close>.\<close>

definition group_trips :: "('a \<Rightarrow> booking_status) \<Rightarrow> ('a \<Rightarrow> millis) \<Rightarrow> millis \<Rightarrow> 'a list \<Rightarrow> 'a list \<times> 'a list \<times> 'a list" where
  "group_trips status check_in now trips =
     (filter (\<lambda>t. status t \<in> {Confirmed, Pending_payment} \<and> now \<le> check_in t) trips,
      filter (\<lambda>t. status t \<in> {Confirmed, Completed} \<and> check_in t < now) trips,
      filter (\<lambda>t. status t \<in> {Cancelled, Refunded}) trips)"

definition group_host_bookings ::
  "('a \<Rightarrow> booking_status) \<Rightarrow> ('a \<Rightarrow> millis) \<Rightarrow> ('a \<Rightarrow> millis) \<Rightarrow> millis \<Rightarrow> 'a list \<Rightarrow> 'a list \<times> 'a list \<times> 'a list \<times> 'a list" where
  "group_host_bookings status check_in check_out now bs =
     (filter (\<lambda>b. status b \<in> {Confirmed, Pending_payment} \<and> now \<le> check_in b) bs,
      filter (\<lambda>b. status b = Confirmed \<and> check_in b < now \<and> now \<le> check_out b) bs,
      filter (\<lambda>b. status b \<in> {Confirmed, Completed} \<and> check_out b < now) bs,
      filter (\<lambda>b. status b \<in> {Cancelled, Refunded}) bs)"

subsection \<open>The calendar\<close>

record day_options =
  do_today :: js_string
  do_host_blocked :: "js_string set"
  do_calendar_blocked :: "js_string set option"
  do_booked :: "js_string set"
  do_disabled :: "js_string set"
  do_check_in :: "js_string option"
  do_check_out :: "js_string option"
  do_interactive :: bool
  do_handler :: bool

record day_classification =
  dc_past :: bool
  dc_host_blocked :: bool
  dc_calendar_blocked :: bool
  dc_booked :: bool
  dc_disabled :: bool
  dc_selected :: bool
  dc_in_range :: bool
  dc_classes :: "js_string list"
  dc_clickable :: bool

definition classify_day :: "js_string \<Rightarrow> day_options \<Rightarrow> day_classification" where
  "classify_day cell o' =
     (let past = str_less cell (do_today o'); host = cell \<in> do_host_blocked o';
          cal = (case do_calendar_blocked o' of None \<Rightarrow> False | Some s \<Rightarrow> cell \<in> s); booked = cell \<in> do_booked o';
          disabled = cell \<in> do_disabled o'; selected = (Some cell = do_check_in o' \<or> Some cell = do_check_out o');
          in_range = (case (do_check_in o', do_check_out o') of
              (Some a, Some b) \<Rightarrow> a \<noteq> [] \<and> b \<noteq> [] \<and> str_less a cell \<and> str_less cell b | _ \<Rightarrow> False)
      in \<lparr>dc_past = past, dc_host_blocked = host, dc_calendar_blocked = cal, dc_booked = booked, dc_disabled = disabled,
          dc_selected = selected, dc_in_range = in_range,
          dc_classes = [''cal-day''] @
            (if past then [''past''] else if host then [''host-blocked''] else if cal then [''calendar-blocked'']
             else if booked then [''booked''] else if disabled then [''disabled''] else []) @
            (if selected then [''selected''] else []) @ (if in_range then [''in-range''] else []),
          dc_clickable = (do_interactive o' \<and> \<not> past \<and> \<not> host \<and> \<not> cal \<and> \<not> booked \<and> \<not> disabled \<and> do_handler o')\<rparr>)"

text \<open>A click on a day of the page of a stay: the pair of check-in and check-out, empty when not chosen.\<close>

definition calendar_select :: "js_string \<Rightarrow> js_string \<times> js_string \<Rightarrow> js_string \<times> js_string" where
  "calendar_select cell c =
     (if fst c = [] \<or> snd c \<noteq> [] then (cell, []) else if str_less (fst c) cell then (fst c, cell) else (cell, []))"

subsection \<open>Reserving\<close>

text \<open>What the page makes of the answer to its request: \<open>No_answer\<close> is a failed fetch.\<close>

datatype reserve_answer = No_answer | Sign_in_first | Not_made js_string | Made uuid

datatype booking_state = Idle | Submitting | Conflict | Failed

record reserve_form =
  rv_key :: js_string
  rv_state :: booking_state
  rv_leaves_to :: "js_string option"

text \<open>\<open>fresh\<close> is the next \<open>crypto.randomUUID()\<close>.\<close>

definition handle_reserve :: "js_string \<Rightarrow> js_string \<Rightarrow> reserve_answer \<Rightarrow> reserve_form \<Rightarrow> reserve_form" where
  "handle_reserve fresh login_url ans f =
     (case ans of
        No_answer \<Rightarrow> f\<lparr>rv_state := Failed, rv_key := fresh\<rparr>
      | Sign_in_first \<Rightarrow> f\<lparr>rv_state := Submitting, rv_leaves_to := Some login_url\<rparr>
      | Not_made c \<Rightarrow> f\<lparr>rv_state := (if c = ''DATES_UNAVAILABLE'' then Conflict else Failed), rv_key := fresh\<rparr>
      | Made b \<Rightarrow> f\<lparr>rv_state := Submitting, rv_leaves_to := Some (''/checkout/'' @ b)\<rparr>)"

subsection \<open>The favourite button and the page of a property\<close>

datatype favourite_status = Fav_unknown | Fav_unsaved | Fav_saved

record favourite_state =
  fs_status :: favourite_status
  fs_busy :: bool
  fs_error :: "js_string option"

definition initial_favourite_state :: favourite_state where
  "initial_favourite_state = \<lparr>fs_status = Fav_unknown, fs_busy = False, fs_error = None\<rparr>"

datatype favourites_load = Signed_out | Load_failed | Determined bool

text \<open>A parsed body: whether it says success, with its list of properties' identifiers or its message.\<close>

definition interpret_favourites_load :: "int \<Rightarrow> (bool \<times> uuid list option) option \<Rightarrow> uuid \<Rightarrow> favourites_load" where
  "interpret_favourites_load status body p =
     (if status = 401 then Signed_out
      else case body of Some (True, Some ids) \<Rightarrow> Determined (p \<in> set ids) | _ \<Rightarrow> Load_failed)"

datatype favourite_mutation = Not_signed_in | Mutated | Mutation_failed js_string

definition interpret_favourite_mutation :: "int \<Rightarrow> (bool \<times> js_string option) option \<Rightarrow> js_string \<Rightarrow> favourite_mutation" where
  "interpret_favourite_mutation status body fallback =
     (if status = 401 then Not_signed_in
      else case body of
             Some (True, _) \<Rightarrow> Mutated
           | Some (False, Some m) \<Rightarrow> Mutation_failed m
           | _ \<Rightarrow> Mutation_failed fallback)"

definition begin_favourite_action :: "favourite_state \<Rightarrow> favourite_state" where
  "begin_favourite_action s = (if fs_busy s then s else s\<lparr>fs_busy := True, fs_error := None\<rparr>)"

definition complete_favourite_action :: "favourite_state \<Rightarrow> favourite_mutation \<Rightarrow> bool \<Rightarrow> favourite_state" where
  "complete_favourite_action s r wanted =
     (case r of
        Mutated \<Rightarrow> \<lparr>fs_status = (if wanted then Fav_saved else Fav_unsaved), fs_busy = False, fs_error = None\<rparr>
      | Not_signed_in \<Rightarrow> s\<lparr>fs_busy := False\<rparr>
      | Mutation_failed m \<Rightarrow> s\<lparr>fs_busy := False, fs_error := Some m\<rparr>)"

definition build_login_redirect_url :: "(js_string \<Rightarrow> js_string) \<Rightarrow> js_string \<Rightarrow> js_string \<Rightarrow> js_string" where
  "build_login_redirect_url encode pathname search = ''/login?returnTo='' @ encode (pathname @ search)"

datatype 'a property_load = Prop_missing | Prop_error | Prop_loaded 'a

definition interpret_property_response :: "int \<Rightarrow> bool \<Rightarrow> 'a option \<Rightarrow> 'a property_load" where
  "interpret_property_response status success body =
     (if status = 404 then Prop_missing
      else case body of Some p \<Rightarrow> if success then Prop_loaded p else Prop_error | None \<Rightarrow> Prop_error)"

subsection \<open>Returning from the checkout\<close>

record return_page =
  rp_booking :: "(booking_status \<times> guest_payment_status option) option"
  rp_attempts :: nat
  rp_polling :: bool

text \<open>The interval fires, or an answer arrives; the effect that may stop the interval runs after each change.\<close>

datatype return_event = Interval_fired | Booking_arrived "booking_status \<times> guest_payment_status option"

definition settled :: "return_page \<Rightarrow> bool" where
  "settled p \<longleftrightarrow>
     (let pay = Option.bind (rp_booking p) snd in
      map_option fst (rp_booking p) = Some Confirmed \<or> 15 < rp_attempts p \<or> pay = Some Payment_scheduled \<or>
      pay \<in> {Some Payment_grace_period, Some Payment_failed} \<and> 3 \<le> rp_attempts p)"

definition after_change :: "return_page \<Rightarrow> return_page" where
  "after_change p = (if settled p then p\<lparr>rp_polling := False\<rparr> else p)"

fun return_step :: "return_event \<Rightarrow> return_page \<Rightarrow> return_page" where
  "return_step Interval_fired p = (if rp_polling p then after_change (p\<lparr>rp_attempts := Suc (rp_attempts p)\<rparr>) else p)"
| "return_step (Booking_arrived b) p = after_change (p\<lparr>rp_booking := Some b\<rparr>)"

definition return_start :: return_page where
  "return_start = \<lparr>rp_booking = None, rp_attempts = 0, rp_polling = True\<rparr>"

definition timed_out :: "return_page \<Rightarrow> bool" where
  "timed_out p \<longleftrightarrow>
     15 < rp_attempts p \<and> map_option fst (rp_booking p) = Some Pending_payment \<and>
     Option.bind (rp_booking p) snd \<notin> {Some Payment_scheduled, Some Payment_grace_period, Some Payment_failed}"

subsection \<open>Where a sign-in leads\<close>

definition is_safe_return_path :: "js_string option \<Rightarrow> js_string" where
  "is_safe_return_path raw =
     (case raw of None \<Rightarrow> ''/'' | Some t \<Rightarrow> if starts_with ''/'' t \<and> \<not> starts_with ''//'' t then t else ''/'')"

text \<open>
  A reference the URL standard resolves against the scheme alone, which leaves the site: tabs and line ends are
  dropped, a backslash counts as a slash, and two slashes start an authority.
\<close>

definition network_path :: "js_string \<Rightarrow> bool" where
  "network_path t \<longleftrightarrow>
     (case filter (\<lambda>c. code c \<notin> {9, 10, 13}) t of
        a # b # _ \<Rightarrow> a \<in> {CHR ''/'', CHR 0x5C} \<and> b \<in> {CHR ''/'', CHR 0x5C}
      | _ \<Rightarrow> False)"

text \<open>The check of a new password in the sign-in and reset pages; the message names the first rule broken.\<close>

definition validate_password :: "js_string \<Rightarrow> js_string option" where
  "validate_password p =
     (if length p < 12 then Some ''Password must be at least 12 characters''
      else if \<not> has_letter p then Some ''Password must include at least one letter''
      else if \<not> list_ex is_digit p then Some ''Password must include at least one number''
      else None)"

subsection \<open>Texts\<close>

definition month_names :: "js_string list" where
  "month_names = [''Jan'', ''Feb'', ''Mar'', ''Apr'', ''May'', ''Jun'', ''Jul'', ''Aug'', ''Sep'', ''Oct'', ''Nov'', ''Dec'']"

definition format_date :: "js_string \<Rightarrow> js_string" where
  "format_date t =
     (case parse_ymd (take 10 t) of
        None \<Rightarrow> t
      | Some (y, m, d) \<Rightarrow>
          if m < 1 \<or> 12 < m then t else int_text d @ '' '' @ month_names ! nat (m - 1) @ '' '' @ take 4 t)"

definition status_labels :: "(js_string \<times> js_string) list" where
  "status_labels =
     [(''pending_payment'', ''Pending payment''), (''confirmed'', ''Confirmed''), (''cancelled'', ''Cancelled''),
      (''completed'', ''Completed''), (''refunded'', ''Refunded''), (''partially_refunded'', ''Partially refunded''),
      (''paid'', ''Paid''), (''failed'', ''Failed''), (''pending'', ''Pending''), (''succeeded'', ''Succeeded''),
      (''payment_scheduled'', ''Payment scheduled''), (''payment_method_required'', ''Payment method needed''),
      (''payment_grace_period'', ''Payment needs attention''), (''payment_failed'', ''Payment failed'')]"

text \<open>\<open>dash\<close> is the sign shown for an absent value. (Names every object inherits, such as constructor, are not modelled.)\<close>

definition format_status :: "js_string \<Rightarrow> js_string option \<Rightarrow> js_string" where
  "format_status dash v =
     (case v of
        None \<Rightarrow> dash
      | Some s \<Rightarrow>
          if s = [] then dash
          else (case map_of status_labels s of
                  Some l \<Rightarrow> l
                | None \<Rightarrow> (let t = map (\<lambda>c. if c = CHR ''_'' then CHR '' '' else c) s in upper_char (hd t) # tl t)))"

definition format_time :: "js_string \<Rightarrow> js_string option \<Rightarrow> js_string" where
  "format_time dash v = (case v of None \<Rightarrow> dash | Some t \<Rightarrow> if t = [] then dash else take 5 t)"

text \<open>\<open>instant\<close> is \<open>new Date(...).getTime()\<close>, without a value for NaN.\<close>

definition is_charge_deferred :: "(js_string \<Rightarrow> millis option) \<Rightarrow> js_string option \<Rightarrow> millis \<Rightarrow> bool" where
  "is_charge_deferred instant v now =
     (case v of
        None \<Rightarrow> False
      | Some t \<Rightarrow> t \<noteq> [] \<and> (case instant t of None \<Rightarrow> False | Some x \<Rightarrow> now < x))"

definition normalize_locale :: "js_string option \<Rightarrow> js_string" where
  "normalize_locale v =
     (case v of
        None \<Rightarrow> ''en''
      | Some t \<Rightarrow> let c = hd (split_on CHR ''-'' (to_lower (js_trim t))) in if c \<in> set concierge_locales then c else ''en'')"

definition locale_for_content :: "bool \<Rightarrow> js_string option \<Rightarrow> js_string" where
  "locale_for_content legal preferred = (if legal then ''en'' else normalize_locale preferred)"

text \<open>\<open>slugify\<close> of lib/seo/metadata.ts: one dash at each end is removed, and there is at most one.\<close>

definition slugify :: "js_string \<Rightarrow> js_string" where
  "slugify t =
     (let s = dash_runs False (js_trim (to_lower t)); u = (if starts_with ''-'' s then drop 1 s else s)
      in if ends_with ''-'' u then butlast u else u)"

definition valid_position :: "js_num \<times> js_num \<Rightarrow> bool" where
  "valid_position p \<longleftrightarrow>
     (case p of (Finite la, Finite lo) \<Rightarrow> - 90 \<le> la \<and> la \<le> 90 \<and> - 180 \<le> lo \<and> lo \<le> 180 | _ \<Rightarrow> False)"

subsection \<open>Configuration\<close>

text \<open>The environment is a map from names to texts.\<close>

type_synonym environment = "js_string \<Rightarrow> js_string option"

definition is_enabled :: "environment \<Rightarrow> js_string \<Rightarrow> bool" where
  "is_enabled env n \<longleftrightarrow> env n = Some ''true''"

definition delayed_charge_creation_enabled :: "environment \<Rightarrow> bool" where
  "delayed_charge_creation_enabled env = is_enabled env ''ENABLE_DELAYED_CHARGE_BOOKINGS''"

definition off_session_charging_enabled :: "environment \<Rightarrow> bool" where
  "off_session_charging_enabled env = is_enabled env ''ENABLE_AUTOMATED_OFFSESSION_CHARGING''"

definition host_transfer_enabled :: "environment \<Rightarrow> bool" where
  "host_transfer_enabled env = is_enabled env ''ENABLE_HOST_TRANSFER_EXECUTION''"

definition resolve_tax_treatment :: "environment \<Rightarrow> tax_treatment option \<Rightarrow> unit + tax_treatment" where
  "resolve_tax_treatment env override =
     (case override of
        Some t \<Rightarrow> Inr t
      | None \<Rightarrow>
          let v = (if env ''HOST_TAX_TREATMENT'' = Some ''host_remits'' then Host_remits
                   else if env ''HOST_TAX_TREATMENT'' = Some ''platform_remits'' then Platform_remits else Tax_unconfigured)
          in if v = Tax_unconfigured \<and> env ''NODE_ENV'' = Some ''production'' then Inl () else Inr v)"

subsection \<open>The contact form and the newsletter\<close>

record contact_body =
  cb_name :: js_string
  cb_email :: js_string
  cb_category :: js_string
  cb_reference :: "js_string option"
  cb_message :: js_string
  cb_locale :: "js_string option"
  cb_website :: "js_string option"

definition category_labels :: "(js_string \<times> js_string) list" where
  "category_labels =
     [(''general'', ''General question''), (''booking'', ''Booking''), (''payment'', ''Payment''),
      (''cancellation'', ''Cancellation''), (''property'', ''Property question''), (''hosting'', ''Hosting with HOST''),
      (''accessibility'', ''Accessibility''), (''safety'', ''Safety concern''), (''complaint'', ''Complaint''),
      (''other'', ''Other'')]"

definition parse_contact :: "formats \<Rightarrow> contact_body \<Rightarrow> contact_body option" where
  "parse_contact fm b =
     (let n = js_trim (cb_name b); e = js_trim (cb_email b); r = trimmed (cb_reference b); m = js_trim (cb_message b);
          l = (case cb_locale b of None \<Rightarrow> ''en'' | Some l \<Rightarrow> l)
      in accept (sized 2 100 n \<and> fm_email fm e \<and> length e \<le> 254 \<and> map_of category_labels (cb_category b) \<noteq> None \<and>
           if_given (sized 0 100) r \<and> sized 10 3000 m \<and> l \<in> set concierge_locales \<and> if_given (sized 0 200) (cb_website b))
         \<lparr>cb_name = n, cb_email = e, cb_category = cb_category b, cb_reference = r, cb_message = m, cb_locale = Some l,
          cb_website = cb_website b\<rparr>)"

definition too_large :: "rat \<Rightarrow> js_string option \<Rightarrow> bool" where
  "too_large limit content_length \<longleftrightarrow>
     (case js_number (case content_length of None \<Rightarrow> ''0'' | Some t \<Rightarrow> if t = [] then ''0'' else t) of
        Finite n \<Rightarrow> limit < n | _ \<Rightarrow> True)"

definition contact_text :: "contact_body \<Rightarrow> js_string" where
  "contact_text b =
     join_with [LF]
       [''New HOST contact enquiry'', [], ''Category: '' @ the (map_of category_labels (cb_category b)),
        ''Name: '' @ cb_name b, ''Email: '' @ cb_email b, ''Locale: '' @ the (cb_locale b),
        ''Booking reference: '' @ (case cb_reference b of None \<Rightarrow> ''Not supplied'' | Some r \<Rightarrow> if r = [] then ''Not supplied'' else r),
        [], ''Message:'', cb_message b, [], ''Reply directly to the guest using the Reply-To address.'']"

record email_sent =
  em_to :: js_string
  em_subject :: js_string
  em_body :: js_string
  em_reply_to :: js_string

text \<open>The status answered and the email sent; \<open>deliver\<close> says whether the provider took it without throwing.\<close>

definition post_contact ::
  "formats \<Rightarrow> js_string option \<Rightarrow> (email_sent \<Rightarrow> bool) \<Rightarrow> js_string option \<Rightarrow> contact_body \<Rightarrow> int \<times> email_sent option" where
  "post_contact fm support deliver content_length b =
     (if too_large 12000 content_length then (413, None)
      else
        (case parse_contact fm b of
           None \<Rightarrow> (400, None)
         | Some c \<Rightarrow>
             if cb_website c \<noteq> None \<and> cb_website c \<noteq> Some [] then (202, None)
             else
               (case support of
                  None \<Rightarrow> (503, None)
                | Some to \<Rightarrow>
                    if to = [] then (503, None)
                    else
                      let m = \<lparr>em_to = to, em_subject = ''[HOST contact] '' @ the (map_of category_labels (cb_category c)),
                               em_body = contact_text c, em_reply_to = cb_email c\<rparr>
                      in if deliver m then (202, Some m) else (503, None))))"

record newsletter_body =
  nl_email :: js_string
  nl_consent :: bool
  nl_locale :: "js_string option"
  nl_website :: "js_string option"

record subscription =
  sn_email :: js_string
  sn_locale :: js_string
  sn_subscribed :: bool
  sn_consented :: millis
  sn_unsubscribed :: "millis option"

definition parse_newsletter :: "formats \<Rightarrow> newsletter_body \<Rightarrow> newsletter_body option" where
  "parse_newsletter fm b =
     (let e = js_trim (nl_email b); l = (case nl_locale b of None \<Rightarrow> ''en'' | Some l \<Rightarrow> l)
      in accept (fm_email fm e \<and> length e \<le> 254 \<and> nl_consent b \<and> l \<in> set concierge_locales \<and>
           if_given (sized 0 200) (nl_website b)) (b\<lparr>nl_email := e, nl_locale := Some l\<rparr>))"

text \<open>\<open>ON CONFLICT (LOWER(email)) DO UPDATE\<close>: the stored address stays.\<close>

definition subscribe :: "millis \<Rightarrow> js_string \<Rightarrow> js_string \<Rightarrow> subscription list \<Rightarrow> subscription list" where
  "subscribe now e l t =
     (if row_exists (\<lambda>r. to_lower (sn_email r) = to_lower e) t
      then update_where (\<lambda>r. to_lower (sn_email r) = to_lower e)
             (\<lambda>r. r\<lparr>sn_locale := l, sn_subscribed := True, sn_consented := now, sn_unsubscribed := None\<rparr>) t
      else insert_row \<lparr>sn_email = e, sn_locale = l, sn_subscribed = True, sn_consented = now, sn_unsubscribed = None\<rparr> t)"

definition post_newsletter ::
  "formats \<Rightarrow> millis \<Rightarrow> js_string option \<Rightarrow> newsletter_body \<Rightarrow> subscription list \<Rightarrow> int \<times> subscription list" where
  "post_newsletter fm now content_length b t =
     (if too_large 4000 content_length then (413, t)
      else
        (case parse_newsletter fm b of
           None \<Rightarrow> (400, t)
         | Some c \<Rightarrow>
             if nl_website c \<noteq> None \<and> nl_website c \<noteq> Some [] then (202, t)
             else (202, subscribe now (to_lower (nl_email c)) (the (nl_locale c)) t)))"

end
