(* ===== verification/Page_Properties.thy ===== *)
theory Page_Properties
  imports Pages Input_Properties
begin

text \<open>
  Facts of the pages: which bookings the lists leave out, which days can be picked, how long the page after a
  checkout asks, what a lost answer does to a reservation, where a sign-in may lead, and the two public forms.
\<close>

subsection \<open>Lists of bookings\<close>

definition listed_trips :: "'a list \<times> 'a list \<times> 'a list \<Rightarrow> 'a set" where
  "listed_trips g = (case g of (a, b, c) \<Rightarrow> set a \<union> set b \<union> set c)"

lemma trips_left_out:
  assumes "t \<in> set trips"
  shows "t \<notin> listed_trips (group_trips status check_in now trips) \<longleftrightarrow>
    status t \<in> {Draft, Disputed} \<or> status t = Pending_payment \<and> check_in t < now \<or>
    status t = Completed \<and> now \<le> check_in t"
  using assms by (cases "status t") (auto simp: listed_trips_def group_trips_def)

lemma host_bookings_left_out:
  assumes "b \<in> set bs" "check_in b \<le> check_out b"
  shows "b \<notin> (case group_host_bookings status check_in check_out now bs of (u, c, p, x) \<Rightarrow> set u \<union> set c \<union> set p \<union> set x) \<longleftrightarrow>
    status b \<in> {Draft, Disputed} \<or> status b = Pending_payment \<and> check_in b < now \<or>
    status b = Completed \<and> now \<le> check_out b"
  using assms by (cases "status b") (auto simp: group_host_bookings_def)

text \<open>Check-in is midnight of the day of arrival, so a guest's stay that begins today is already past.\<close>

lemma arriving_today_is_past:
  assumes "status t = Confirmed" "check_in t = day_ms d" "day_ms d < now" "t \<in> set trips"
  shows "t \<in> set (fst (snd (group_trips status check_in now trips))) \<and> t \<notin> set (fst (group_trips status check_in now trips))"
  using assms by (simp add: group_trips_def)

subsection \<open>The calendar of a stay\<close>

text \<open>With what the availability endpoint answers as the disabled days, a day that can be picked is free.\<close>

lemma clickable_day_is_free:
  assumes "get_public_availability today host k c s = Shown taken" "find_by_key k c = Some r"
    "do_today o' = iso_date today" "do_disabled o' = {iso_date d |d. taken d \<and> four_digit_year d}"
    "four_digit_year today" "four_digit_year d" "dc_clickable (classify_day (iso_date d) o')"
  shows "today \<le> d \<and> night_free (avail s (ls_id r)) d"
proof -
  have "\<not> str_less (iso_date d) (iso_date today)" "iso_date d \<notin> do_disabled o'"
    using assms(3,7) by (auto simp: classify_day_def Let_def)
  then have "today \<le> d" "\<not> taken d" using assms(4-6) by (auto simp: not_iso_less)
  moreover have "taken = (\<lambda>d. today \<le> d \<and> (case avail s (ls_id r) d of None \<Rightarrow> False | Some a \<Rightarrow> av_status a \<noteq> Available))"
    using assms(1,2) by (auto simp: get_public_availability_def split: if_splits)
  ultimately show ?thesis by (auto simp: night_free_def split: option.splits)
qed

lemma picked_range_in_order:
  assumes "calendar_select cell c = (a, b)" "b \<noteq> []"
  shows "str_less a b"
  using assms by (auto simp: calendar_select_def split: if_splits)

subsection \<open>After the checkout\<close>

lemma return_step_bounds:
  assumes "rp_polling p \<longrightarrow> rp_attempts p \<le> 15" "rp_attempts p \<le> 16"
  shows "(rp_polling (return_step e p) \<longrightarrow> rp_attempts (return_step e p) \<le> 15) \<and> rp_attempts (return_step e p) \<le> 16"
  using assms by (cases e) (auto simp: after_change_def settled_def Let_def)

lemma polling_bounded:
  "rp_attempts (fold return_step es return_start) \<le> 16"
proof -
  have "(rp_polling (fold return_step es p) \<longrightarrow> rp_attempts (fold return_step es p) \<le> 15) \<and>
      rp_attempts (fold return_step es p) \<le> 16"
    if "rp_polling p \<longrightarrow> rp_attempts p \<le> 15" "rp_attempts p \<le> 16" for p
    using that
  proof (induction es arbitrary: p)
    case (Cons e es)
    from return_step_bounds [OF Cons.prems, of e] Cons.IH [of "return_step e p"] show ?case by simp
  qed simp
  from this [of return_start] show ?thesis by (simp add: return_start_def)
qed

subsection \<open>A lost answer\<close>

text \<open>
  When the answer to a reservation is lost the page takes a fresh key, so the repeated request is refused by the nights
  of the guest's own first booking; with the old key it would have been answered with that booking.
\<close>

lemma lost_answer_conflicts:
  assumes "create_booking delayed now n i s = (Inr (b, Some bd), t)" "bi_key i = rv_key f"
    "f' = handle_reserve fresh url No_answer f" "fresh \<notin> b_idem ` set (bookings t)"
  shows "fst (create_booking delayed now n' (i\<lparr>bi_key := rv_key f'\<rparr>) t) = Inl Dates_unavailable"
    "fst (create_booking delayed now n' (i\<lparr>bi_key := rv_key f\<rparr>) t) = Inr (b, None)"
proof -
  note cc = create_booking_cases [OF assms(1)]
  let ?n = "nights_between (bi_check_in i) (bi_check_out i)"
  from cc(4) obtain p where p: "first_where (\<lambda>b. b_idem b = bi_key i) (bookings s) = None"
    "find_property (bi_property i) s = Some p" "stay_guard (day_of_ms now) s p (bi_guests i) ?n = None"
    "b = new_booking delayed now n i p (policy_rules (booked_store i s) p)"
    "t = (booked_store i s)\<lparr>bookings := insert_row b (bookings s), prices := insert_row (price_row_of n bd) (prices s)\<rparr>"
    by (auto elim: create_booking_tx_cases)
  have t: "properties t = properties s" "compliance t = compliance s" "bookings t = insert_row b (bookings s)"
    "avail t (bi_property i) = book_nights (enumerate_dates (bi_check_in i) (bi_check_out i)) (avail s (bi_property i))"
    by (simp_all add: p(5) booked_store_def)
  have "\<not> night_free (avail t (bi_property i)) (bi_check_in i)"
    using nights_positive [OF cc(1)] by (simp add: t book_nights_eq night_free_def)
  then have taken: "nights_taken (avail t (bi_property i)) (bi_check_in i) (bi_check_out i)"
    using nights_positive [OF cc(1)] by (auto simp: nights_taken_iff)
  have "first_where (\<lambda>b. b_idem b = fresh) (bookings t) = None"
    using assms(4) by (auto simp: first_where_None)
  moreover have "rv_key f' = fresh" by (simp add: assms(3) handle_reserve_def)
  ultimately show "fst (create_booking delayed now n' (i\<lparr>bi_key := rv_key f'\<rparr>) t) = Inl Dates_unavailable"
    using cc(1-3) p(2,3) taken
    by (simp add: create_booking_def create_booking_tx_def with_transaction_def t stay_guard_def)
  have "b_idem b = bi_key i" by (simp add: p(4) new_booking_def)
  then have "first_where (\<lambda>b. b_idem b = bi_key i) (bookings t) = Some b"
    using p(1) by (simp add: t first_where_insert)
  then show "fst (create_booking delayed now n' (i\<lparr>bi_key := rv_key f\<rparr>) t) = Inr (b, None)"
    using cc(1-3) assms(2) by (simp add: create_booking_def create_booking_tx_def with_transaction_def)
qed

subsection \<open>Where a sign-in leads\<close>

text \<open>The check lets a path through that begins with a slash and a backslash, which a browser reads as another site.\<close>

lemma return_path_leaves_site:
  assumes "\<forall>c \<in> set site'. code c \<notin> {9, 10, 13}"
  shows "is_safe_return_path (Some (CHR ''/'' # CHR 0x5C # site')) = CHR ''/'' # CHR 0x5C # site'"
    "network_path (CHR ''/'' # CHR 0x5C # site')"
  by (simp_all add: is_safe_return_path_def network_path_def starts_with_def)

lemma return_path_relative:
  assumes "is_safe_return_path raw = t" "\<forall>c \<in> set t. c \<noteq> CHR 0x5C \<and> code c \<notin> {9, 10, 13}"
  shows "\<not> network_path t"
proof
  have f: "filter (\<lambda>c. code c \<notin> {9, 10, 13}) t = t" using assms(2) by (intro filter_True) blast
  assume "network_path t"
  then obtain a b u where t: "t = a # b # u" and ab: "a \<in> {CHR ''/'', CHR 0x5C}" "b \<in> {CHR ''/'', CHR 0x5C}"
    unfolding network_path_def f by (cases t rule: list.exhaust; cases "tl t") auto
  with assms(2) have "t = ''//'' @ u" by auto
  moreover have "t = ''/'' \<or> \<not> starts_with ''//'' t"
    using assms(1) by (auto simp: is_safe_return_path_def split: option.splits if_splits)
  ultimately show False by (simp add: starts_with_def)
qed

lemma password_check_agrees:
  "length p \<le> 200 \<Longrightarrow> validate_password p = None \<longleftrightarrow> password_rule p"
  by (auto simp: validate_password_def password_rule_def sized_def)

text \<open>The form and the schema agree on the order of the dates; the form has no upper limit of its own for guests.\<close>

lemma valid_form_dates:
  "validate_booking_form f = None \<Longrightarrow> str_less (bf_check_in f) (bf_check_out f) \<and> 1 \<le> bf_guests f \<and> bf_guests f \<le> bf_max_guests f"
  by (auto simp: validate_booking_form_def split: if_splits)

subsection \<open>Texts and flags\<close>

lemma format_date_iso:
  assumes "four_digit_year z"
  shows "format_date (iso_date z @ rest) =
    (case civil_of_day z of (y, m, d) \<Rightarrow> int_text d @ '' '' @ month_names ! nat (m - 1) @ '' '' @ pad4 y)"
proof -
  obtain y m d where c: "civil_of_day z = (y, m, d)" by (cases "civil_of_day z")
  have "take 10 (iso_date z @ rest) = iso_date z" "take 4 (iso_date z @ rest) = pad4 y"
    by (simp_all add: iso_date_def c) (simp add: iso_text_def)
  moreover have "1 \<le> m" "m \<le> 12" using valid_civil_ranges [OF epoch_day_of_civil(1) [OF c]] by simp_all
  ultimately show ?thesis using iso_date_parse [OF assms] by (simp add: format_date_def c)
qed

lemma normalize_locale_supported: "normalize_locale v \<in> set concierge_locales"
  by (auto simp: normalize_locale_def Let_def concierge_locales_def split: option.split)

lemma tax_fails_closed:
  "env ''NODE_ENV'' = Some ''production'' \<Longrightarrow> resolve_tax_treatment env None \<noteq> Inr Tax_unconfigured"
  by (simp add: resolve_tax_treatment_def Let_def)

subsection \<open>The public forms\<close>

lemma contact_sends_once:
  assumes "post_contact fm support deliver n b = (st, Some m)"
  shows "st = 202" "support = Some (em_to m)" "deliver m" "fm_email fm (em_reply_to m)"
  using assms by (auto simp: post_contact_def parse_contact_def Let_def split: if_splits option.splits)

lemma one_subscription_per_address:
  assumes "distinct (map (to_lower \<circ> sn_email) t)"
  shows "distinct (map (to_lower \<circ> sn_email) (snd (post_newsletter fm now n b t)))"
proof -
  have "map (to_lower \<circ> sn_email) (update_where P (\<lambda>r. r\<lparr>sn_locale := l, sn_subscribed := True, sn_consented := now, sn_unsubscribed := None\<rparr>) t) =
      map (to_lower \<circ> sn_email) t" for P l
    by (induction t) auto
  with assms show ?thesis
    by (auto simp: post_newsletter_def subscribe_def insert_row_def split: option.split)
qed

end
