(* ===== verification/Migrations.thy ===== *)
theory Migrations
  imports Ical
begin

text \<open>
  The migration runner (scripts/migrate.ts) and the comparison of schemas it verifies with
  (scripts/schemaSnapshot.ts). PostgreSQL is an argument: what running a text of SQL does to the database, the
  code of its error, and the schema read from the catalogs. Shown: the splitter keeps quoted text whole, a
  migration that fails leaves the database as it was, a recorded one satisfied its manifest entry when it was
  recorded, and a second run does nothing.
\<close>

subsection \<open>Splitting a file into statements\<close>

datatype sql_mode = Plain | Quoted | Dollar js_string

definition tag_letter :: "char \<Rightarrow> bool" where
  "tag_letter c \<longleftrightarrow> 65 \<le> code c \<and> code c \<le> 90 \<or> 97 \<le> code c \<and> code c \<le> 122 \<or> c = CHR ''_''"

text \<open>\<open>/^\\$[A-Za-z_]*\\$/\<close> on the rest of the text.\<close>

definition dollar_tag :: "js_string \<Rightarrow> js_string option" where
  "dollar_tag s =
     (case s of
        [] \<Rightarrow> None
      | c # t \<Rightarrow>
          if c = CHR ''$'' \<and> starts_with ''$'' (dropWhile tag_letter t) then Some (''$'' @ takeWhile tag_letter t @ ''$'') else None)"

text \<open>The length of a block comment's text up to and with its end, or of all that is left.\<close>

fun block_comment :: "js_string \<Rightarrow> nat" where
  "block_comment (a # b # s) = (if a = CHR ''*'' \<and> b = CHR ''/'' then 2 else Suc (block_comment (b # s)))"
| "block_comment s = length s"

text \<open>\<open>current\<close> is the statement so far; the pieces are not yet filtered.\<close>

function split_sql :: "sql_mode \<Rightarrow> js_string \<Rightarrow> js_string \<Rightarrow> js_string list" where
  "split_sql m current [] = (if js_trim current = [] then [] else [js_trim current])"
| "split_sql (Dollar tag) current (c # s) =
     (if starts_with tag (c # s) then split_sql Plain (current @ tag) (drop (length tag) (c # s))
      else split_sql (Dollar tag) (current @ [c]) s)"
| "split_sql Quoted current (c # s) =
     (if c = CHR 0x27 \<and> starts_with [CHR 0x27] s then split_sql Quoted (current @ [c, c]) (drop 1 s)
      else if c = CHR 0x27 then split_sql Plain (current @ [c]) s
      else split_sql Quoted (current @ [c]) s)"
| "split_sql Plain current (c # s) =
     (if c = CHR ''-'' \<and> starts_with ''-'' s
      then split_sql Plain (current @ c # takeWhile (\<lambda>x. x \<noteq> LF) s) (dropWhile (\<lambda>x. x \<noteq> LF) s)
      else if c = CHR ''/'' \<and> starts_with ''*'' s
      then split_sql Plain (current @ c # take (1 + block_comment (drop 1 s)) s) (drop (1 + block_comment (drop 1 s)) s)
      else if c = CHR 0x27 then split_sql Quoted (current @ [c]) s
      else case dollar_tag (c # s) of
             Some tag \<Rightarrow> split_sql (Dollar tag) (current @ tag) (drop (length tag - 1) s)
           | None \<Rightarrow>
               if c = CHR '';'' then js_trim (current @ [c]) # split_sql Plain [] s
               else split_sql Plain (current @ [c]) s)"
  by pat_completeness auto

termination
  by (relation "measures [\<lambda>(m, cur, s). length s, \<lambda>(m, cur, s). case m of Dollar _ \<Rightarrow> 1 | _ \<Rightarrow> 0]")
    (auto simp: length_dropWhile_le less_Suc_eq_le)

text \<open>\<open>s.replace(/--.*$/gm, "")\<close>: from two dashes to the end of the line.\<close>

function without_line_comments :: "js_string \<Rightarrow> js_string" where
  "without_line_comments [] = []"
| "without_line_comments (c # s) =
     (if c = CHR ''-'' \<and> starts_with ''-'' s
      then without_line_comments (dropWhile (\<lambda>x. x \<noteq> LF \<and> x \<noteq> CR) s)
      else c # without_line_comments s)"
  by pat_completeness auto

termination
  by (relation "measure length") (auto simp: length_dropWhile_le less_Suc_eq_le)

definition split_sql_statements :: "js_string \<Rightarrow> js_string list" where
  "split_sql_statements sql = filter (\<lambda>s. js_trim (without_line_comments s) \<noteq> []) (split_sql Plain [] sql)"

subsection \<open>Definitions as text\<close>

text \<open>
  The regular expressions of \<open>normalizeDefinition\<close>: a word boundary, one or more spaces, a literal without regard to
  case. No literal begins with a space, so matching spaces greedily loses no match.
\<close>

datatype piece = Edge | Blank | Word js_string

definition word_char :: "char \<Rightarrow> bool" where
  "word_char c \<longleftrightarrow> tag_letter c \<or> is_digit c"

definition at_edge :: "char option \<Rightarrow> js_string \<Rightarrow> bool" where
  "at_edge prev s \<longleftrightarrow>
     (case prev of None \<Rightarrow> False | Some c \<Rightarrow> word_char c) \<noteq> (case s of [] \<Rightarrow> False | c # _ \<Rightarrow> word_char c)"

text \<open>The rest after a match at this place.\<close>

fun match_pieces :: "piece list \<Rightarrow> char option \<Rightarrow> js_string \<Rightarrow> js_string option" where
  "match_pieces [] prev s = Some s"
| "match_pieces (Edge # ps) prev s = (if at_edge prev s then match_pieces ps prev s else None)"
| "match_pieces (Blank # ps) prev s =
     (if s \<noteq> [] \<and> js_space (hd s) then match_pieces ps (Some CHR '' '') (dropWhile js_space s) else None)"
| "match_pieces (Word w # ps) prev s =
     (if starts_with (to_lower w) (to_lower s)
      then match_pieces ps (if w = [] then prev else Some (s ! (length w - 1))) (drop (length w) s) else None)"

text \<open>\<open>s.replace(/.../gi, r)\<close>; the fuel is the length of the text, and every match is of at least one character.\<close>

fun replace_pieces :: "nat \<Rightarrow> piece list \<Rightarrow> js_string \<Rightarrow> char option \<Rightarrow> js_string \<Rightarrow> js_string" where
  "replace_pieces 0 ps r prev s = s"
| "replace_pieces (Suc n) ps r prev s =
     (case s of
        [] \<Rightarrow> []
      | c # t \<Rightarrow>
          (case match_pieces ps prev s of
             None \<Rightarrow> c # replace_pieces n ps r (Some c) t
           | Some u \<Rightarrow> r @ replace_pieces n ps r (Some (s ! (length s - length u - 1))) u))"

definition replace_all :: "piece list \<Rightarrow> js_string \<Rightarrow> js_string \<Rightarrow> js_string" where
  "replace_all ps r s = replace_pieces (length s) ps r None s"

definition normalize_definition :: "js_string \<Rightarrow> js_string" where
  "normalize_definition d =
     js_trim
       (replace_all [Word ''))'', Blank, Word ''THEN'', Edge] '') THEN''
       (replace_all [Edge, Word ''AND'', Blank, Word ''(ROW(''] ''AND ROW(''
       (replace_all [Blank, Word '')'', Blank, Word ''THEN'', Edge] '') THEN''
       (replace_all [Blank, Word '')'', Blank, Word ''IS DISTINCT FROM'', Blank, Word ''ROW(''] '') IS DISTINCT FROM ROW(''
       (replace_all [Edge, Word ''ROW('', Blank] ''ROW(''
       (replace_all [Blank] '' ''
       (replace_all [Edge, Word ''public.''] '''' d)))))))"

subsection \<open>Schemas\<close>

record column_info =
  co_name :: js_string
  co_type :: js_string
  co_nullable :: bool
  co_default :: "js_string option"

text \<open>Objects and maps from names are lists of pairs without a name twice, in the order of iteration.\<close>

record schema =
  sc_tables :: "(js_string \<times> column_info list) list"
  sc_constraints :: "(js_string \<times> js_string) list"
  sc_indexes :: "(js_string \<times> js_string) list"
  sc_functions :: "(js_string \<times> js_string) list"
  sc_triggers :: "(js_string \<times> js_string) list"
  sc_extensions :: "js_string list"

definition find_column :: "js_string \<Rightarrow> column_info list \<Rightarrow> column_info option" where
  "find_column n cs = first_where (\<lambda>c. co_name c = n) cs"

definition new_or_changed :: "column_info list \<Rightarrow> column_info \<Rightarrow> bool" where
  "new_or_changed before c \<longleftrightarrow>
     (case find_column (co_name c) before of
        None \<Rightarrow> True
      | Some b \<Rightarrow> co_type b \<noteq> co_type c \<or> co_nullable b \<noteq> co_nullable c \<or> co_default b \<noteq> co_default c)"

definition diff_tables ::
  "(js_string \<times> column_info list) list \<Rightarrow> (js_string \<times> column_info list) list \<Rightarrow> (js_string \<times> column_info list) list" where
  "diff_tables before after =
     concat (map (\<lambda>(t, cs).
       case map_of before t of
         None \<Rightarrow> [(t, cs)]
       | Some bs \<Rightarrow> (let d = filter (new_or_changed bs) cs in if d = [] then [] else [(t, d)])) after)"

definition diff_map :: "(js_string \<times> js_string) list \<Rightarrow> (js_string \<times> js_string) list \<Rightarrow> (js_string \<times> js_string) list" where
  "diff_map b a = filter (\<lambda>(k, v). map_of b k \<noteq> Some v) a"

definition diff_schema_snapshots :: "schema \<Rightarrow> schema \<Rightarrow> schema" where
  "diff_schema_snapshots before after =
     \<lparr>sc_tables = diff_tables (sc_tables before) (sc_tables after),
      sc_constraints = diff_map (sc_constraints before) (sc_constraints after),
      sc_indexes = diff_map (sc_indexes before) (sc_indexes after),
      sc_functions = diff_map (sc_functions before) (sc_functions after),
      sc_triggers = diff_map (sc_triggers before) (sc_triggers after),
      sc_extensions = filter (\<lambda>e. e \<notin> set (sc_extensions before)) (sc_extensions after)\<rparr>"

definition empty_snapshot :: schema where
  "empty_snapshot = \<lparr>sc_tables = [], sc_constraints = [], sc_indexes = [], sc_functions = [], sc_triggers = [], sc_extensions = []\<rparr>"

datatype missing =
  Missing_table js_string
| Missing_column js_string js_string
| Column_differs js_string js_string
| Missing_object js_string js_string
| Definition_differs js_string js_string
| Missing_extension js_string

definition missing_columns :: "js_string \<Rightarrow> column_info list \<Rightarrow> column_info list \<Rightarrow> missing list" where
  "missing_columns t actual required =
     concat (map (\<lambda>r.
       case find_column (co_name r) actual of
         None \<Rightarrow> [Missing_column t (co_name r)]
       | Some a \<Rightarrow>
           if co_type a \<noteq> co_type r \<or> co_nullable a \<noteq> co_nullable r \<or> co_default a \<noteq> co_default r
           then [Column_differs t (co_name r)] else []) required)"

definition missing_tables :: "(js_string \<times> column_info list) list \<Rightarrow> (js_string \<times> column_info list) list \<Rightarrow> missing list" where
  "missing_tables actual required =
     concat (map (\<lambda>(t, cs).
       case map_of actual t of None \<Rightarrow> [Missing_table t] | Some as \<Rightarrow> missing_columns t as cs) required)"

definition check_def_map :: "js_string \<Rightarrow> (js_string \<times> js_string) list \<Rightarrow> (js_string \<times> js_string) list \<Rightarrow> missing list" where
  "check_def_map label required actual =
     concat (map (\<lambda>(n, d).
       case map_of actual n of
         None \<Rightarrow> [Missing_object label n]
       | Some a \<Rightarrow> if normalize_definition a \<noteq> normalize_definition d then [Definition_differs label n] else []) required)"

definition schema_missing :: "schema \<Rightarrow> schema \<Rightarrow> missing list" where
  "schema_missing actual required =
     missing_tables (sc_tables actual) (sc_tables required) @
     check_def_map ''constraint'' (sc_constraints required) (sc_constraints actual) @
     check_def_map ''index'' (sc_indexes required) (sc_indexes actual) @
     check_def_map ''function'' (sc_functions required) (sc_functions actual) @
     check_def_map ''trigger'' (sc_triggers required) (sc_triggers actual) @
     map Missing_extension (filter (\<lambda>e. e \<notin> set (sc_extensions actual)) (sc_extensions required))"

definition schema_satisfies :: "schema \<Rightarrow> schema \<Rightarrow> bool" where
  "schema_satisfies actual required \<longleftrightarrow> schema_missing actual required = []"

subsection \<open>Running migrations\<close>

definition duplicate_object_sqlstates :: "js_string list" where
  "duplicate_object_sqlstates = [''42710'', ''42701'', ''42P07'', ''42P06'', ''42P16'', ''42723'']"

definition already_exists :: "js_string option \<Rightarrow> bool" where
  "already_exists c \<longleftrightarrow> (case c of None \<Rightarrow> False | Some x \<Rightarrow> x \<in> set duplicate_object_sqlstates)"

datatype migration_outcome = Ran | Passed_over | Backfilled | Finished

text \<open>The outcomes applied, skipped, bootstrapped and completed.\<close>

datatype migration_error =
  Sql_failed "js_string option"
| Schema_incomplete js_string "missing list"
| Not_completed js_string

text \<open>
  \<open>mg_run\<close> runs a text of SQL: the error's code, if it has one, or the changed database. The ledger is the table
  \<open>schema_migrations\<close>, whose key is the file name.
\<close>

record 'd migration_env =
  mg_run :: "js_string \<Rightarrow> 'd \<Rightarrow> js_string option + 'd"
  mg_snapshot :: "'d \<Rightarrow> schema"
  mg_file :: "js_string \<Rightarrow> js_string"
  mg_manifest :: "js_string \<Rightarrow> schema option"

record 'd database =
  db_data :: 'd
  db_ledger :: "js_string list"

text \<open>Statements in savepoints: one that fails is undone; one whose object exists is passed over.\<close>

fun run_statements :: "(js_string \<Rightarrow> 'd \<Rightarrow> js_string option + 'd) \<Rightarrow> js_string list \<Rightarrow> bool \<times> 'd \<Rightarrow> (bool \<times> 'd) option" where
  "run_statements run [] x = Some x"
| "run_statements run (s # ss) (any, d) =
     (case run s d of
        Inr e \<Rightarrow> run_statements run ss (True, e)
      | Inl c \<Rightarrow> if already_exists c then run_statements run ss (any, d) else None)"

definition verify_or_complete ::
  "'d migration_env \<Rightarrow> js_string \<Rightarrow> 'd database \<Rightarrow> migration_outcome option \<times> 'd database" where
  "verify_or_complete env f db =
     (case run_statements (mg_run env) (split_sql_statements (mg_file env f)) (False, db_data db) of
        None \<Rightarrow> (None, db)
      | Some (any, d) \<Rightarrow>
          if (case mg_manifest env f of None \<Rightarrow> False | Some r \<Rightarrow> \<not> schema_satisfies (mg_snapshot env d) r) then (None, db)
          else (Some (if any then Finished else Backfilled),
                \<lparr>db_data = d, db_ledger = (if f \<in> set (db_ledger db) then db_ledger db else db_ledger db @ [f])\<rparr>))"

definition run_migration ::
  "'d migration_env \<Rightarrow> js_string \<Rightarrow> 'd database \<Rightarrow> (migration_error + migration_outcome) \<times> 'd database" where
  "run_migration env f db =
     (case mg_run env (mg_file env f) (db_data db) of
        Inr d \<Rightarrow>
          (case mg_manifest env f of
             Some r \<Rightarrow>
               if schema_missing (mg_snapshot env d) r \<noteq> [] then (Inl (Schema_incomplete f (schema_missing (mg_snapshot env d) r)), db)
               else if f \<in> set (db_ledger db) then (Inl (Sql_failed (Some ''23505'')), db)
               else (Inr Ran, \<lparr>db_data = d, db_ledger = db_ledger db @ [f]\<rparr>)
           | None \<Rightarrow>
               if f \<in> set (db_ledger db) then (Inl (Sql_failed (Some ''23505'')), db)
               else (Inr Ran, \<lparr>db_data = d, db_ledger = db_ledger db @ [f]\<rparr>))
      | Inl c \<Rightarrow>
          if already_exists c
          then (case verify_or_complete env f db of
                  (None, e) \<Rightarrow> (Inl (Not_completed f), e)
                | (Some o', e) \<Rightarrow> (Inr o', e))
          else (Inl (Sql_failed c), db))"

text \<open>The set of applied files is read once, before the loop; an error ends the run.\<close>

fun run_each ::
  "'d migration_env \<Rightarrow> js_string list \<Rightarrow> js_string list \<Rightarrow> 'd database \<Rightarrow>
    (migration_error + (js_string \<times> migration_outcome) list) \<times> 'd database" where
  "run_each env done [] db = (Inr [], db)"
| "run_each env done (f # fs) db =
     (let (r, db1) = (if f \<in> set done then (Inr Passed_over, db) else run_migration env f db)
      in case r of
           Inl e \<Rightarrow> (Inl e, db1)
         | Inr o' \<Rightarrow>
             (case run_each env done fs db1 of
                (Inl e, db2) \<Rightarrow> (Inl e, db2)
              | (Inr rs, db2) \<Rightarrow> (Inr ((f, o') # rs), db2)))"

definition run_migrations ::
  "'d migration_env \<Rightarrow> js_string list \<Rightarrow> 'd database \<Rightarrow>
    (migration_error + (js_string \<times> migration_outcome) list) \<times> 'd database" where
  "run_migrations env fs db = run_each env (db_ledger db) fs db"

subsection \<open>Facts of the splitter\<close>

lemma split_dollar_body:
  assumes "tag \<noteq> []" "\<forall>k < length body. \<not> starts_with tag (drop k (body @ tag))"
  shows "split_sql (Dollar tag) current (body @ tag @ rest) = split_sql Plain (current @ body @ tag) rest"
  using assms(2)
proof (induction body arbitrary: current)
  case Nil
  obtain c t where "tag = c # t" using assms(1) by (cases tag) auto
  then show ?case by (simp add: starts_with_def)
next
  case (Cons c body)
  from Cons.prems have "\<not> starts_with tag (c # body @ tag)" by (auto dest: spec [of _ 0])
  then have "\<not> starts_with tag (c # body @ tag @ rest)"
    using take_append [of "length tag" "c # body @ tag" rest] by (simp add: starts_with_def)
  moreover have "\<forall>k < length body. \<not> starts_with tag (drop k (body @ tag))"
  proof (intro allI impI)
    fix k assume "k < length body"
    then show "\<not> starts_with tag (drop k (body @ tag))" using spec [OF Cons.prems, of "Suc k"] by simp
  qed
  ultimately show ?case using Cons.IH [of "current @ [c]"] by simp
qed

lemma split_quoted_body:
  assumes "CHR 0x27 \<notin> set body" "\<not> starts_with [CHR 0x27] rest"
  shows "split_sql Quoted current (body @ CHR 0x27 # rest) = split_sql Plain (current @ body @ [CHR 0x27]) rest"
  using assms by (induction body arbitrary: current) auto

lemma dollar_tag_at:
  assumes "list_all tag_letter name"
  shows "dollar_tag (''$'' @ name @ ''$'' @ s) = Some (''$'' @ name @ ''$'')"
proof -
  have "\<not> tag_letter CHR ''$''" by (simp add: tag_letter_def)
  with assms show ?thesis
    by (simp add: dollar_tag_def starts_with_def list_all_iff takeWhile_append2 dropWhile_append2)
qed

lemma split_dollar_block:
  assumes "list_all tag_letter name" "tag = ''$'' @ name @ ''$''"
    "\<forall>k < length body. \<not> starts_with tag (drop k (body @ tag))"
  shows "split_sql Plain current (tag @ body @ tag @ rest) = split_sql Plain (current @ tag @ body @ tag) rest"
proof -
  have "split_sql Plain current (CHR ''$'' # name @ ''$'' @ body @ tag @ rest) =
      split_sql (Dollar tag) (current @ tag) (body @ tag @ rest)"
    using dollar_tag_at [OF assms(1), of "body @ tag @ rest"] by (simp add: assms(2))
  with split_dollar_body [OF _ assms(3), of "current @ tag" rest] show ?thesis by (simp add: assms(2))
qed

lemma split_quoted_block:
  assumes "CHR 0x27 \<notin> set body" "\<not> starts_with [CHR 0x27] rest"
  shows "split_sql Plain current (CHR 0x27 # body @ CHR 0x27 # rest) =
    split_sql Plain (current @ CHR 0x27 # body @ [CHR 0x27]) rest"
  using split_quoted_body [OF assms, of "current @ [CHR 0x27]"] by simp

subsection \<open>Facts of the comparison\<close>

definition well_named :: "schema \<Rightarrow> bool" where
  "well_named s \<longleftrightarrow> distinct (map fst (sc_tables s)) \<and> (\<forall>(t, cs) \<in> set (sc_tables s). distinct (map co_name cs)) \<and>
     distinct (map fst (sc_constraints s)) \<and> distinct (map fst (sc_indexes s)) \<and> distinct (map fst (sc_functions s)) \<and>
     distinct (map fst (sc_triggers s))"

lemma find_column_distinct:
  assumes "distinct (map co_name cs)" "c \<in> set cs"
  shows "find_column (co_name c) cs = Some c"
  using assms unfolding find_column_def by (induction cs) auto

lemma missing_columns_self:
  "distinct (map co_name cs) \<Longrightarrow> set ds \<subseteq> set cs \<Longrightarrow> missing_columns t cs ds = []"
  by (auto simp: missing_columns_def find_column_distinct subset_iff)

lemma check_def_map_self:
  assumes "distinct (map fst a)" "set r \<subseteq> set a"
  shows "check_def_map l r a = []"
proof -
  have "map_of a n = Some d" if "(n, d) \<in> set r" for n d using assms that by (intro map_of_is_SomeI) auto
  then show ?thesis by (auto simp: check_def_map_def)
qed

lemma diff_tables_self:
  assumes "distinct (map fst a)" "\<forall>(t, cs) \<in> set a. distinct (map co_name cs)"
  shows "missing_tables a (diff_tables b a) = []"
proof -
  have "\<exists>cs. (t, cs) \<in> set a \<and> set ds \<subseteq> set cs" if "(t, ds) \<in> set (diff_tables b a)" for t ds
    using that by (fastforce simp: diff_tables_def Let_def split: option.splits if_splits)
  then have "(case map_of a t of None \<Rightarrow> [Missing_table t] | Some as \<Rightarrow> missing_columns t as ds) = []"
    if "(t, ds) \<in> set (diff_tables b a)" for t ds
    using that assms by (fastforce intro: missing_columns_self)
  then show ?thesis by (auto simp: missing_tables_def)
qed

lemma after_satisfies_diff:
  assumes "well_named after"
  shows "schema_satisfies after (diff_schema_snapshots before after)"
proof -
  have d: "set (diff_map b a) \<subseteq> set a" for b a by (auto simp: diff_map_def)
  show ?thesis
    using assms diff_tables_self
    by (auto simp: schema_satisfies_def schema_missing_def diff_schema_snapshots_def well_named_def
        intro!: check_def_map_self d)
qed

subsection \<open>Facts of the runner\<close>

definition entry_met :: "'d migration_env \<Rightarrow> js_string \<Rightarrow> 'd \<Rightarrow> bool" where
  "entry_met env f d \<longleftrightarrow> (case mg_manifest env f of None \<Rightarrow> True | Some r \<Rightarrow> schema_satisfies (mg_snapshot env d) r)"

lemma run_migration_fails: "run_migration env f db = (Inl e, db1) \<Longrightarrow> db1 = db"
  by (auto simp: run_migration_def verify_or_complete_def split: sum.splits option.splits if_splits prod.splits)

lemma run_migration_records:
  "run_migration env f db = (Inr r, db1) \<Longrightarrow>
    set (db_ledger db1) = insert f (set (db_ledger db)) \<and> entry_met env f (db_data db1) \<and> r \<noteq> Passed_over"
  by (auto simp: run_migration_def verify_or_complete_def entry_met_def schema_satisfies_def
      split: sum.splits option.splits if_splits prod.splits)

lemma run_migration_grows: "set (db_ledger db) \<subseteq> set (db_ledger (snd (run_migration env f db)))"
proof (cases "run_migration env f db")
  case (Pair r db1)
  then show ?thesis by (cases r) (auto dest: run_migration_fails run_migration_records)
qed

text \<open>One step of the loop.\<close>

definition step_file :: "'d migration_env \<Rightarrow> js_string list \<Rightarrow> js_string \<Rightarrow> 'd database \<Rightarrow> (migration_error + migration_outcome) \<times> 'd database" where
  "step_file env done' f db = (if f \<in> set done' then (Inr Passed_over, db) else run_migration env f db)"

lemma run_each_Cons_Inr:
  assumes "run_each env done' (f # fs) db = (Inr rs, db2)"
  obtains o' db1 rs' where "step_file env done' f db = (Inr o', db1)" "run_each env done' fs db1 = (Inr rs', db2)" "rs = (f, o') # rs'"
  using assms by (auto simp: step_file_def Let_def split: if_splits prod.splits sum.splits)

lemma step_file_recorded:
  assumes "step_file env done' f db = (Inr o', db1)" "set done' \<subseteq> set (db_ledger db)"
  shows "f \<in> set (db_ledger db1)" "set (db_ledger db) \<subseteq> set (db_ledger db1)"
  using assms run_migration_records [of env f db o' db1] by (auto simp: step_file_def split: if_splits)

lemma run_each_ledger:
  assumes "run_each env done' fs db = (Inr rs, db1)" "set done' \<subseteq> set (db_ledger db)"
  shows "set (db_ledger db) \<subseteq> set (db_ledger db1) \<and> set fs \<subseteq> set (db_ledger db1)"
  using assms
proof (induction fs arbitrary: db rs)
  case (Cons f fs)
  from Cons.prems(1) obtain o' d rs' where s: "step_file env done' f db = (Inr o', d)" and r: "run_each env done' fs d = (Inr rs', db1)"
    by (rule run_each_Cons_Inr)
  note k = step_file_recorded [OF s Cons.prems(2)]
  with Cons.IH [OF r] Cons.prems(2) show ?case by auto
qed simp

lemma run_each_names: "run_each env done' fs db = (Inr rs, db1) \<Longrightarrow> map fst rs = fs"
proof (induction fs arbitrary: db rs)
  case (Cons f fs)
  from Cons.prems obtain o' d rs' where "run_each env done' fs d = (Inr rs', db1)" "rs = (f, o') # rs'"
    by (rule run_each_Cons_Inr)
  with Cons.IH show ?case by simp
qed simp

lemma run_each_applied: "set fs \<subseteq> set ex \<Longrightarrow> run_each env ex fs db = (Inr (map (\<lambda>f. (f, Passed_over)) fs), db)"
  by (induction fs) auto

subsection \<open>Migrations run once\<close>

text \<open>
  C40: Migrations run once and whole. A run that ends well has recorded every file, and running it again passes over each
  file and changes nothing. A file that fails, at whatever statement or in the verification of the schema, leaves
  database and ledger as they were; one that is recorded met its manifest entry in the database it is
  recorded with, and no other entry of the ledger changed.
\<close>

theorem migrations_run_once:
  assumes "run_migrations env fs db = (Inr rs, db1)"
  shows "map fst rs = fs \<and> set (db_ledger db) \<union> set fs \<subseteq> set (db_ledger db1) \<and>
    run_migrations env fs db1 = (Inr (map (\<lambda>f. (f, Passed_over)) fs), db1) \<and>
    (case run_migration env f d of
       (Inl e, d1) \<Rightarrow> d1 = d
     | (Inr o', d1) \<Rightarrow> set (db_ledger d1) = insert f (set (db_ledger d)) \<and> entry_met env f (db_data d1))"
proof -
  have "set (db_ledger db) \<union> set fs \<subseteq> set (db_ledger db1)"
    using run_each_ledger [OF assms [unfolded run_migrations_def]] by simp
  moreover from this have "run_migrations env fs db1 = (Inr (map (\<lambda>f. (f, Passed_over)) fs), db1)"
    unfolding run_migrations_def by (intro run_each_applied) simp
  moreover have "map fst rs = fs" by (rule run_each_names [OF assms [unfolded run_migrations_def]])
  ultimately show ?thesis
    by (auto split: prod.split sum.split dest: run_migration_fails run_migration_records)
qed

text \<open>A database of names of tables: a statement creates the table it spells, once.\<close>

definition demo_migrations :: "js_string list migration_env" where
  "demo_migrations =
     \<lparr>mg_run = \<lambda>sql d. if sql \<in> set d then Inl (Some ''42P07'') else Inr (sql # d), mg_snapshot = \<lambda>_. empty_snapshot,
      mg_file = \<lambda>f. f @ '';'', mg_manifest = \<lambda>_. Some empty_snapshot\<rparr>"

theorem migrations_run_once_witness:
  "run_migrations demo_migrations [''001'', ''002''] \<lparr>db_data = [''002;'', ''001;''], db_ledger = [''001'', ''002'']\<rparr> =
    (Inr [(''001'', Passed_over), (''002'', Passed_over)], \<lparr>db_data = [''002;'', ''001;''], db_ledger = [''001'', ''002'']\<rparr>)"
proof -
  have "run_migrations demo_migrations [''001'', ''002''] \<lparr>db_data = [], db_ledger = []\<rparr> =
      (Inr [(''001'', Ran), (''002'', Ran)], \<lparr>db_data = [''002;'', ''001;''], db_ledger = [''001'', ''002'']\<rparr>)"
    by code_simp
  from migrations_run_once [OF this] show ?thesis by simp
qed

text \<open>A dollar quote whose tag has a digit is not recognised, so its body is split at a semicolon.\<close>

lemma tag_with_digit_splits:
  "split_sql_statements ''do $f1$ a; b $f1$;'' = [''do $f1$ a;'', ''b $f1$;''] \<and>
   split_sql_statements ''do $f$ a; b $f$;'' = [''do $f$ a; b $f$;'']"
  by code_simp

end
