(* ===== verification/Spec2Isabelle.thy ===== *)
theory Spec2Isabelle
  imports Booking_Properties Payment_Properties Charge_Properties Calendar_Properties Account_Properties
    Night_Ledger Listing_Properties Stay_Properties Guest_Properties Host_View Route_Properties Input_Properties
    Page_Properties Migrations
begin

text \<open>
  Verification of HOST, a short-stay booking platform written in TypeScript over PostgreSQL and a
  payment provider. The theories model the server's own logic (src/lib), the routes that expose it
  (src/app/api), the logic of the pages and the migration script, and prove what makes them correct.

  The program's parts and how they interact. A guest creates a booking (lib/booking), which takes the
  nights of a property's calendar; paying it goes through one of two flows. In the first the guest
  pays at once (lib/payments/createPaymentIntent.ts) and the provider's events
  (lib/payments/webhookHandler.ts) confirm the booking, fill the ledger and schedule a payout
  (lib/payouts/releasePayouts.ts). In the second a card is saved (lib/payments/setupIntentFlow.ts) and
  charged later by workers (lib/payments/scheduledCharges.ts); the host is then owed an entitlement
  that other workers transfer (lib/payouts/hostTransfers.ts). Cancelling, discarding, expiry and
  imported calendars (lib/calendar/calendarSync.ts) give nights back or take them. Hosts create listings,
  declare compliance and upload images (lib/hosts, lib/compliance); HOST reviews them, and only then does
  the search show them. Guest and host write to each other about a booking, jobs remind and complete stays
  (lib/messaging, lib/notifications), and a completed stay can be reviewed (lib/reviews). Every request passes
  the gate of middleware.ts, the guards of lib/auth decide whose request it is, and the schemas of lib/validation
  what of its body is let through. An assistant (lib/ai) answers guests' questions with what the search shows.

  Theories, from the ground up.
  \<^item> \<open>Prelude\<close>: tables as lists of rows with SQL-like selection, update, deletion and insertion; a
    handler as a function from a store to an error or a result with the new store, and
    \<open>with_transaction\<close> (lib/db/index.ts) that commits or rolls back; the interfaces \<open>guarded_steps\<close>
    (operations that keep an invariant) and \<open>scoped_update\<close> (operations local to a key) as locales.
  \<^item> \<open>Js_Number\<close>, \<open>Js_String\<close>, \<open>Dates\<close>, \<open>Iso_Date\<close>: the parts of JavaScript the code computes with:
    doubles as rationals with the rounding of IEEE 754 written out, \<open>Math.round\<close>, strings, and UTC days.
  \<^item> \<open>Store\<close>: one record field per table, one record type per row (migrations).
  \<^item> \<open>Pricing\<close>, \<open>Cancellation\<close>, \<open>Availability\<close>, \<open>Charge_Timing\<close>, \<open>Keys\<close>, \<open>Refunds\<close>: the engines of
    the same names under lib/booking, lib/hosts, lib/payments and lib/utils.
  \<^item> \<open>Booking\<close>, \<open>Charges\<close>, \<open>Payouts\<close>, \<open>Webhook\<close>, \<open>New_Flow\<close>: the handlers on the store.
  \<^item> \<open>Booking_Safety\<close>, \<open>Ledger\<close>, \<open>Charge_Protocol\<close>, \<open>System\<close>: invariants of the handlers; \<open>System\<close>
    interprets \<open>guarded_steps\<close> on all operations together, \<open>Charge_Protocol\<close> is the step relation of
    workers, webhooks, crashes and the clock on the charge tables, \<open>Night_Ledger\<close> the abstract contract
    (who owns which night) that the operations of \<open>System\<close> refine.
  \<^item> \<open>Ical\<close>, \<open>Calendar_Export\<close>, \<open>Safe_Fetch\<close>, \<open>Calendar_Sync\<close>: lib/calendar, that is the parser, the
    exporter, the guarded fetch and the feeds; \<open>Calendar_Roundtrip\<close> proves that the parser reads what
    the exporter writes. \<open>Calendar_Sync\<close> states the frame of its operations as the locale
    \<open>calendar_steps\<close> and interprets it.
  \<^item> \<open>Rate_Limit\<close>: middleware.ts, with its counter as the locale \<open>window_counter\<close>; \<open>Accounts\<close>,
    \<open>Credentials\<close>, \<open>Privacy\<close>: lib/auth, lib/privacy and the account routes on the record \<open>accounts\<close>;
    \<open>Account_Safety\<close>: all account operations as one family that interprets \<open>guarded_steps\<close> and
    \<open>one_time_table\<close>, and the login lock as a \<open>window_counter\<close>.
  \<^item> \<open>Listing\<close>, \<open>Listing_Edit\<close>, \<open>Images\<close>, \<open>Host_View\<close>: listings, their readiness and review
    (lib/hosts/listingReadiness.ts, hostProperties.ts, propertyImages.ts, onboarding.ts, lib/compliance) on the
    record \<open>catalog\<close>, with the triggers of migrations 026 and 028; \<open>with_catalog\<close> is what the booking side
    reads of it. \<open>Listing_Safety\<close>: all listing operations as one family that interprets \<open>guarded_steps\<close>.
  \<^item> \<open>Messages\<close>, \<open>Trips\<close>, \<open>Stays\<close>, \<open>Reviews\<close>, \<open>Public_View\<close>: conversations and notifications on the record
    \<open>mailbox\<close>, the pages and lists of guests and hosts, quotes and scheduled jobs, reviews with the cached
    rating, and what the public sees. \<open>Messages\<close> and \<open>Reviews\<close> interpret \<open>guarded_steps\<close> on their operations.
  \<^item> \<open>Booking_Routes\<close>, \<open>Host_Routes\<close>, \<open>Calendar_Routes\<close>: the routes under src/app/api, each from the session to the
    status answered, on the record \<open>site\<close>, which holds all tables. \<open>Serve\<close> makes one step of the server of them, with
    what every route promises as the locale \<open>answering\<close>; \<open>Site_Safety\<close> interprets it for the invariant of the site
    and \<open>Isolation\<close> for what strangers cannot change.
  \<^item> \<open>Schemas\<close>: the bodies a route accepts (lib/validation/schemas.ts, calendarSchemas.ts, bookingFormValidation.ts);
    \<open>Concierge\<close>: lib/ai/guestConcierge.ts and its route; \<open>Pages\<close>: the logic of the pages that is not layout, the
    configuration, the contact form and the newsletter; \<open>Migrations\<close>: scripts/migrate.ts and schemaSnapshot.ts.
  \<^item> \<open>Scenario\<close> and the theories named \<open>_Properties\<close>: concrete stores, and the properties with an
    instance of each.

  Conventions. A value of the environment (the clock, a generated identifier, a random token, a digest,
  an answer of the payment provider, a feature flag) is an argument. Money is in whole minor units, a
  time in milliseconds since the epoch, a \<open>DATE\<close> column in days since the epoch. A handler that holds a
  row lock or an advisory lock is one atomic step; a handler whose statements run outside a
  transaction, or that calls the provider in between, is split where the code is.

  Bounds. Doubles carry integers exactly up to 2^53, which the theorems about amounts and times state as
  hypotheses; lock keys are 64-bit words. One definition has fuel, the replacement of all matches of a pattern in
  \<open>Migrations\<close>: it is given the length of the text, and each round consumes at least one character. Every
  other recursion terminates by itself.

  Not modelled. The layout and most of the state of pages and components, the mail service, translations and
  metadata, the routes of profile, language, data export, upload tokens and webhooks (with the provider's
  signature check), the order of the steps of the daily job, the formats of the schema library (an email address, a
  UUID, a URL: arguments), the payment provider and the language model (arguments), the connection pool, failing
  database statements other than violated constraints, and the scripts that seed, check and clean.
\<close>

end
